(* ===== verification/Prelude.thy ===== *)
theory Prelude
  imports Main "HOL-Library.Multiset" "HOL-Library.Char_ord" "HOL-Library.List_Lexorder" "HOL-Library.Product_Lexorder"
begin

text \<open>
  What the components of ipa-diagnose share: Python values, strings, ordered dictionaries and stable
  sorting, with the facts about them that the component theories use.

  Text. A Python \<open>str\<close> is a HOL \<open>string\<close>; a \<open>char\<close> is read as the code point of the same number, so
  the model covers strings over U+0000 to U+00FF. Character tests (\<open>isprintable\<close>, \<open>isspace\<close>,
  \<open>isdigit\<close>, word characters, \<open>lower\<close>) follow Python's Unicode tables on that range.

  Values. A JSON value or a value of type \<open>Any\<close> is a \<open>pyval\<close>. A float is represented by its
  \<open>repr\<close>, which determines a finite float. A dictionary is an association list in insertion order.

  Errors. An exception is a value of \<open>exn\<close>; a computation that may raise returns \<open>exn + 'a\<close>.
\<close>

named_theorems dict_simps "facts about ordered dictionaries"
named_theorems str_simps "facts about string operations"

section \<open>Python values and exceptions\<close>

datatype pyval =
    PNone
  | PBool bool
  | PInt int
  | PFloat string
  | PStr string
  | PList "pyval list"
  | PDict "(string \<times> pyval) list"

type_synonym pydict = "(string \<times> pyval) list"

datatype exn =
    TypeError
  | ValueError string
  | AttributeError
  | KeyError
  | OverflowError
  | IndexError
  | KeyboardInterrupt
  | PlanError string
  | OtherError string

fun truthy :: "pyval \<Rightarrow> bool" where
  "truthy PNone = False"
| "truthy (PBool b) = b"
| "truthy (PInt i) = (i \<noteq> 0)"
| "truthy (PFloat s) = (s \<noteq> ''0.0'' \<and> s \<noteq> ''-0.0'')"
| "truthy (PStr s) = (s \<noteq> [])"
| "truthy (PList xs) = (xs \<noteq> [])"
| "truthy (PDict d) = (d \<noteq> [])"

fun is_dict :: "pyval \<Rightarrow> bool" where
  "is_dict (PDict d) = True"
| "is_dict _ = False"

text \<open>\<open>kw if isinstance(kw, dict) else {}\<close>\<close>

fun as_dict :: "pyval \<Rightarrow> pydict" where
  "as_dict (PDict d) = d"
| "as_dict _ = []"

fun as_str :: "pyval \<Rightarrow> string option" where
  "as_str (PStr s) = Some s"
| "as_str _ = None"

fun as_list :: "pyval \<Rightarrow> pyval list option" where
  "as_list (PList xs) = Some xs"
| "as_list _ = None"

text \<open>\<open>d.get(k, default)\<close> once the entry is looked up\<close>

definition the_default :: "'a \<Rightarrow> 'a option \<Rightarrow> 'a" where
  "the_default x v = (case v of None \<Rightarrow> x | Some y \<Rightarrow> y)"

section \<open>Ordered dictionaries\<close>

text \<open>\<open>d[k] = v\<close>: an existing key keeps its place, a new key goes to the end.\<close>

fun dict_set :: "'k \<Rightarrow> 'v \<Rightarrow> ('k \<times> 'v) list \<Rightarrow> ('k \<times> 'v) list" where
  "dict_set k v [] = [(k, v)]"
| "dict_set k v ((k', v') # d) = (if k' = k then (k, v) # d else (k', v') # dict_set k v d)"

definition dict_get :: "('k \<times> 'v) list \<Rightarrow> 'k \<Rightarrow> 'v option" where
  "dict_get d k = map_of d k"

definition dict_keys :: "('k \<times> 'v) list \<Rightarrow> 'k list" where
  "dict_keys d = map fst d"

text \<open>A dictionary built by a comprehension: a later entry overwrites an earlier one with its key.\<close>

definition dict_of :: "('k \<times> 'v) list \<Rightarrow> ('k \<times> 'v) list" where
  "dict_of kvs = foldl (\<lambda>d (k, v). dict_set k v d) [] kvs"

text \<open>The contract the components rely on: lookup after an update, and the keys after an update.\<close>

locale ordered_dict =
  fixes set_item :: "'k \<Rightarrow> 'v \<Rightarrow> 'd \<Rightarrow> 'd"
    and get :: "'d \<Rightarrow> 'k \<Rightarrow> 'v option"
    and key_list :: "'d \<Rightarrow> 'k list"
  assumes get_set: "get (set_item k v d) k' = (if k' = k then Some v else get d k')"
    and keys_set: "key_list (set_item k v d) = (if k \<in> set (key_list d) then key_list d else key_list d @ [k])"
    and get_keys: "(get d k \<noteq> None) = (k \<in> set (key_list d))"
begin

lemma set_same: "get (set_item k v d) k = Some v"
  by (simp add: get_set)

lemma set_other: "k' \<noteq> k \<Longrightarrow> get (set_item k v d) k' = get d k'"
  by (simp add: get_set)

lemma set_keys: "set (key_list (set_item k v d)) = insert k (set (key_list d))"
  by (auto simp: keys_set)

lemma distinct_keys: "distinct (key_list d) \<Longrightarrow> distinct (key_list (set_item k v d))"
  by (simp add: keys_set)

lemma keys_grow: "length (key_list (set_item k v d)) \<le> Suc (length (key_list d))"
  by (simp add: keys_set)

lemma get_None_iff: "get d k = None \<longleftrightarrow> k \<notin> set (key_list d)"
  using get_keys [of d k] by blast

end

lemma map_of_dict_set: "map_of (dict_set k v d) k' = (if k' = k then Some v else map_of d k')"
  by (induction k v d rule: dict_set.induct) auto

lemma keys_dict_set: "map fst (dict_set k v d) = (if k \<in> fst ` set d then map fst d else map fst d @ [k])"
  by (induction k v d rule: dict_set.induct) auto

interpretation dict: ordered_dict dict_set dict_get dict_keys
proof unfold_locales
  fix k k' :: 'a and v :: 'b and d
  show "dict_get (dict_set k v d) k' = (if k' = k then Some v else dict_get d k')"
    by (simp add: dict_get_def map_of_dict_set)
  show "dict_keys (dict_set k v d) = (if k \<in> set (dict_keys d) then dict_keys d else dict_keys d @ [k])"
    by (simp add: dict_keys_def keys_dict_set)
  show "(dict_get d k \<noteq> None) = (k \<in> set (dict_keys d))"
    by (metis dict_get_def dict_keys_def list.set_map map_of_eq_None_iff)
qed

lemmas dict_lemmas [dict_simps] = dict.get_set dict.set_keys

section \<open>Characters\<close>

abbreviation code :: "char \<Rightarrow> nat" where
  "code c \<equiv> of_char c"

definition rng :: "nat \<Rightarrow> nat \<Rightarrow> char \<Rightarrow> bool" where
  "rng a b c = (a \<le> code c \<and> code c \<le> b)"

definition is_lower :: "char \<Rightarrow> bool" where "is_lower = rng 97 122"
definition is_upper :: "char \<Rightarrow> bool" where "is_upper = rng 65 90"
definition is_digit09 :: "char \<Rightarrow> bool" where "is_digit09 = rng 48 57"

definition is_alnum_ascii :: "char \<Rightarrow> bool" where
  "is_alnum_ascii c = (is_lower c \<or> is_upper c \<or> is_digit09 c)"

text \<open>\<open>str.isprintable\<close> on U+0000 to U+00FF: no control character, no U+00A0 and no U+00AD (soft hyphen).\<close>

definition is_printable :: "char \<Rightarrow> bool" where
  "is_printable c = (rng 32 126 c \<or> (rng 161 255 c \<and> code c \<noteq> 173))"

text \<open>\<open>str.isspace\<close>, which is also what \<open>\s\<close> and \<open>str.split()\<close> use.\<close>

definition is_space :: "char \<Rightarrow> bool" where
  "is_space c = (rng 9 13 c \<or> rng 28 32 c \<or> code c = 133 \<or> code c = 160)"

text \<open>\<open>str.isdigit\<close> also accepts the superscripts U+00B2, U+00B3 and U+00B9; \<open>int()\<close> does not.\<close>

definition is_digit_uni :: "char \<Rightarrow> bool" where
  "is_digit_uni c = (is_digit09 c \<or> code c \<in> {178, 179, 185})"

text \<open>\<open>\w\<close>: \<open>str.isalnum()\<close> or the underscore.\<close>

definition is_word :: "char \<Rightarrow> bool" where
  "is_word c = (is_alnum_ascii c \<or> code c \<in> {95, 170, 178, 179, 181, 185, 186, 188, 189, 190}
     \<or> rng 192 214 c \<or> rng 216 246 c \<or> rng 248 255 c)"

definition lower_char :: "char \<Rightarrow> char" where
  "lower_char c = (if is_upper c \<or> rng 192 214 c \<or> rng 216 222 c then char_of (code c + 32) else c)"

text \<open>
  \<open>upper\<close> on the letters whose upper case is one character in the range; U+00B5, U+00DF and U+00FF
  are left alone (their upper case is outside it), which no comparison below can tell.
\<close>

definition upper_char :: "char \<Rightarrow> char" where
  "upper_char c = (if is_lower c \<or> rng 224 246 c \<or> rng 248 254 c then char_of (code c - 32) else c)"

definition str_lower :: "string \<Rightarrow> string" where "str_lower = map lower_char"
definition str_upper :: "string \<Rightarrow> string" where "str_upper = map upper_char"

lemma code_lt_256 [simp]: "code (c :: char) < 256"
  by (metis of_char_of nat_of_char_less_256)

lemma length_str_lower [simp, str_simps]: "length (str_lower s) = length s"
  by (simp add: str_lower_def)

section \<open>Strings\<close>

definition starts_with :: "string \<Rightarrow> string \<Rightarrow> bool" where
  "starts_with s p = (take (length p) s = p)"

definition ends_with :: "string \<Rightarrow> string \<Rightarrow> bool" where
  "ends_with s p = (length p \<le> length s \<and> drop (length s - length p) s = p)"

text \<open>\<open>p in s\<close>\<close>

fun contains :: "string \<Rightarrow> string \<Rightarrow> bool" where
  "contains [] p = (p = [])"
| "contains (c # s) p = (starts_with (c # s) p \<or> contains s p)"

fun join :: "string \<Rightarrow> string list \<Rightarrow> string" where
  "join sep [] = []"
| "join sep [x] = x"
| "join sep (x # y # xs) = x @ sep @ join sep (y # xs)"

text \<open>\<open>s.partition(c)\<close> for a one-character separator: the part before it, whether it occurs, the rest.\<close>

fun partition_char :: "char \<Rightarrow> string \<Rightarrow> string \<times> bool \<times> string" where
  "partition_char sep [] = ([], False, [])"
| "partition_char sep (c # s) =
     (if c = sep then ([], True, s)
      else (case partition_char sep s of (a, found, b) \<Rightarrow> (c # a, found, b)))"

text \<open>\<open>s.partition(sep)\<close> for a separator of any length.\<close>

fun partition_str :: "string \<Rightarrow> string \<Rightarrow> string \<times> bool \<times> string" where
  "partition_str sep [] = ([], sep = [], [])"
| "partition_str sep (c # s) =
     (if starts_with (c # s) sep then ([], True, drop (length sep) (c # s))
      else (case partition_str sep s of (a, found, b) \<Rightarrow> (c # a, found, b)))"

text \<open>\<open>s.rpartition(c)\<close>: when the separator does not occur, everything is in the last part.\<close>

definition rpartition_char :: "char \<Rightarrow> string \<Rightarrow> string \<times> bool \<times> string" where
  "rpartition_char sep s =
     (case partition_char sep (rev s) of
        (b, found, a) \<Rightarrow> (if found then (rev a, True, rev b) else ([], False, s)))"

text \<open>\<open>s.split()\<close>: the maximal runs of characters that are not white space.\<close>

fun split_acc :: "string \<Rightarrow> string \<Rightarrow> string list" where
  "split_acc w [] = (if w = [] then [] else [rev w])"
| "split_acc w (c # s) =
     (if is_space c then (if w = [] then split_acc [] s else rev w # split_acc [] s)
      else split_acc (c # w) s)"

definition split_ws :: "string \<Rightarrow> string list" where
  "split_ws s = split_acc [] s"

definition rstrip_of :: "char set \<Rightarrow> string \<Rightarrow> string" where
  "rstrip_of cs s = rev (dropWhile (\<lambda>c. c \<in> cs) (rev s))"

definition strip :: "string \<Rightarrow> string" where
  "strip s = rev (dropWhile is_space (rev (dropWhile is_space s)))"

text \<open>The index of the last occurrence of a character (\<open>s.rfind(c)\<close>), or None for -1.\<close>

fun rfind :: "char \<Rightarrow> string \<Rightarrow> nat option" where
  "rfind c [] = None"
| "rfind c (x # s) =
     (case rfind c s of Some i \<Rightarrow> Some (Suc i) | None \<Rightarrow> if x = c then Some 0 else None)"

definition str_isdigit :: "string \<Rightarrow> bool" where
  "str_isdigit s = (s \<noteq> [] \<and> list_all is_digit_uni s)"

definition count_char :: "char \<Rightarrow> string \<Rightarrow> nat" where
  "count_char c s = length (filter (\<lambda>x. x = c) s)"

section \<open>Decimal numbers\<close>

definition digit_char :: "nat \<Rightarrow> char" where
  "digit_char d = char_of (48 + d)"

fun show_nat :: "nat \<Rightarrow> string" where
  "show_nat n = (if n < 10 then [digit_char n] else show_nat (n div 10) @ [digit_char (n mod 10)])"

declare show_nat.simps [simp del]

definition show_int :: "int \<Rightarrow> string" where
  "show_int i = (if i < 0 then CHR ''-'' # show_nat (nat (- i)) else show_nat (nat i))"

text \<open>\<open>int(s)\<close> on a string of decimal digits 0-9 (None where \<open>int\<close> raises ValueError).\<close>

fun read_nat_acc :: "nat \<Rightarrow> string \<Rightarrow> nat option" where
  "read_nat_acc n [] = Some n"
| "read_nat_acc n (c # s) = (if is_digit09 c then read_nat_acc (10 * n + (code c - 48)) s else None)"

definition read_nat :: "string \<Rightarrow> nat option" where
  "read_nat s = (if s = [] then None else read_nat_acc 0 s)"

definition read_int :: "string \<Rightarrow> int option" where
  "read_int s = (case s of
      CHR ''-'' # t \<Rightarrow> map_option (\<lambda>n. - int n) (read_nat t)
    | _ \<Rightarrow> map_option int (read_nat s))"

section \<open>\<open>repr\<close> and \<open>str\<close> of a value\<close>

definition hex_digit :: "nat \<Rightarrow> char" where
  "hex_digit d = char_of (if d < 10 then 48 + d else 87 + d)"

definition repr_char :: "char \<Rightarrow> char \<Rightarrow> string" where
  "repr_char q c =
     (if c = q \<or> c = CHR 0x5C then [CHR 0x5C, c]
      else if c = CHR 0x0A then [CHR 0x5C, CHR ''n'']
      else if c = CHR 0x0D then [CHR 0x5C, CHR ''r'']
      else if c = CHR 0x09 then [CHR 0x5C, CHR ''t'']
      else if is_printable c then [c]
      else [CHR 0x5C, CHR ''x'', hex_digit (code c div 16), hex_digit (code c mod 16)])"

definition repr_str :: "string \<Rightarrow> string" where
  "repr_str s =
     (let q = (if CHR 0x27 \<in> set s \<and> CHR 0x22 \<notin> set s then CHR 0x22 else CHR 0x27)
      in q # concat (map (repr_char q) s) @ [q])"

fun py_repr :: "pyval \<Rightarrow> string" where
  "py_repr PNone = ''None''"
| "py_repr (PBool b) = (if b then ''True'' else ''False'')"
| "py_repr (PInt i) = show_int i"
| "py_repr (PFloat s) = s"
| "py_repr (PStr s) = repr_str s"
| "py_repr (PList xs) = ''['' @ join '', '' (map py_repr xs) @ '']''"
| "py_repr (PDict d) = ''{'' @ join '', '' (map (\<lambda>(k, v). repr_str k @ '': '' @ py_repr v) d) @ ''}''"

fun py_str :: "pyval \<Rightarrow> string" where
  "py_str (PStr s) = s"
| "py_str v = py_repr v"

section \<open>Lists\<close>

text \<open>\<open>sorted(xs, key=f, reverse=True)\<close> keeps the order of elements with equal keys.\<close>

definition sort_desc :: "('a \<Rightarrow> 'b::linorder) \<Rightarrow> 'a list \<Rightarrow> 'a list" where
  "sort_desc f xs = rev (sort_key f (rev xs))"

text \<open>\<open>max(xs, key=f)\<close> is the first element whose key is maximal.\<close>

fun max_by :: "('a \<Rightarrow> 'b::linorder) \<Rightarrow> 'a \<Rightarrow> 'a list \<Rightarrow> 'a" where
  "max_by f m [] = m"
| "max_by f m (x # xs) = (if f m < f x then max_by f x xs else max_by f m xs)"

text \<open>\<open>list(dict.fromkeys(xs))\<close>: duplicates removed, the first occurrence kept.\<close>

fun dedup :: "'a list \<Rightarrow> 'a list" where
  "dedup [] = []"
| "dedup (x # xs) = x # dedup (filter (\<lambda>y. y \<noteq> x) xs)"


lemma mset_sort_desc [simp]: "mset (sort_desc f xs) = mset xs"
  by (simp add: sort_desc_def)

lemma set_sort_desc [simp]: "set (sort_desc f xs) = set xs"
  by (simp add: sort_desc_def)

lemma length_sort_desc [simp]: "length (sort_desc f xs) = length xs"
  by (simp add: sort_desc_def)

lemma sort_desc_Nil [simp]: "sort_desc f xs = [] \<longleftrightarrow> xs = []"
  by (metis length_0_conv length_sort_desc)

lemma sorted_le_last: "sorted ys \<Longrightarrow> y \<in> set ys \<Longrightarrow> y \<le> last ys"
  by (induction ys) auto

lemma sort_desc_hd_max:
  assumes "x \<in> set xs"
  shows "f x \<le> f (hd (sort_desc f xs))"
proof -
  let ?ys = "sort_key f (rev xs)"
  have ne: "?ys \<noteq> []" using assms by (metis empty_iff empty_set set_rev set_sort)
  have "f x \<in> set (map f ?ys)" using assms by simp
  then have "f x \<le> last (map f ?ys)"
    by (rule sorted_le_last [OF sorted_sort_key])
  then show ?thesis using ne by (simp add: sort_desc_def hd_rev last_map)
qed

lemma max_by_in: "max_by f m xs \<in> insert m (set xs)"
  by (induction f m xs rule: max_by.induct) auto

lemma max_by_ge: "f m \<le> f (max_by f m xs) \<and> (\<forall>x \<in> set xs. f x \<le> f (max_by f m xs))"
  by (induction f m xs rule: max_by.induct) (auto intro: order.trans)

lemma set_dedup [simp]: "set (dedup xs) = set xs"
  by (induction xs rule: dedup.induct) auto

lemma distinct_dedup [simp]: "distinct (dedup xs)"
  by (induction xs rule: dedup.induct) auto

lemma join_chars: "set (join sep xs) \<subseteq> set sep \<union> (\<Union>x \<in> set xs. set x)"
  by (induction sep xs rule: join.induct) auto

lemma starts_with_append [simp]: "starts_with (p @ s) p"
  by (simp add: starts_with_def)

lemma starts_with_iff: "starts_with s p \<longleftrightarrow> (\<exists>r. s = p @ r)"
  by (metis append_take_drop_id starts_with_append starts_with_def)

lemma partition_char_join:
  "partition_char sep s = (a, found, b) \<Longrightarrow> (if found then s = a @ sep # b else s = a \<and> b = []) \<and> sep \<notin> set a"
  by (induction sep s arbitrary: a found b rule: partition_char.induct)
     (auto split: if_splits prod.splits)

lemma partition_char_app: "sep \<notin> set a \<Longrightarrow> partition_char sep (a @ sep # b) = (a, True, b)"
  by (induction a) auto

section \<open>Errors as values\<close>

text \<open>Evaluation from left to right: the first exception wins.\<close>

fun sequence_exn :: "(exn + 'a) list \<Rightarrow> exn + 'a list" where
  "sequence_exn [] = Inr []"
| "sequence_exn (Inl e # xs) = Inl e"
| "sequence_exn (Inr x # xs) = (case sequence_exn xs of Inl e \<Rightarrow> Inl e | Inr ys \<Rightarrow> Inr (x # ys))"

lemma sequence_exn_Inr: "(\<forall>x \<in> set xs. \<exists>y. x = Inr y) \<Longrightarrow> \<exists>ys. sequence_exn xs = Inr ys \<and> xs = map Inr ys"
proof (induction xs)
  case Nil
  then show ?case by simp
next
  case (Cons x xs)
  then obtain y ys where "x = Inr y" "sequence_exn xs = Inr ys" "xs = map Inr ys" by auto
  then show ?case by (intro exI [of _ "y # ys"]) simp
qed

lemma sequence_exn_map_Inr: "sequence_exn (map Inr ys) = Inr ys"
  by (induction ys) auto

text \<open>\<open>try\<close>-less sequencing: an exception of the first step is the result.\<close>

definition bind_exn :: "exn + 'a \<Rightarrow> ('a \<Rightarrow> exn + 'b) \<Rightarrow> exn + 'b" where
  "bind_exn r f = (case r of Inl e \<Rightarrow> Inl e | Inr x \<Rightarrow> f x)"

lemma bind_exn_simps [simp]: "bind_exn (Inl e) f = Inl e" "bind_exn (Inr x) f = f x"
  by (simp_all add: bind_exn_def)

lemma bind_exn_Inr: "bind_exn r f = Inr y \<longleftrightarrow> (\<exists>x. r = Inr x \<and> f x = Inr y)"
  by (cases r) simp_all

lemma sequence_exn_Some: "sequence_exn xs = Inr ys \<Longrightarrow> xs = map Inr ys"
  by (induction xs arbitrary: ys rule: sequence_exn.induct) (auto split: sum.splits)

text \<open>The entries of an updated and of a built dictionary.\<close>

lemma dict_set_subset: "set (dict_set k v d) \<subseteq> insert (k, v) (set d)"
  by (induction k v d rule: dict_set.induct) auto

lemma dict_set_length: "length (dict_set k v d) \<le> Suc (length d)"
  by (induction k v d rule: dict_set.induct) auto

lemma foldl_dict_set: "set (foldl (\<lambda>d (k, v). dict_set k v d) d kvs) \<subseteq> set d \<union> set kvs
    \<and> length (foldl (\<lambda>d (k, v). dict_set k v d) d kvs) \<le> length d + length kvs"
proof (induction kvs arbitrary: d)
  case (Cons e kvs)
  obtain k v where "e = (k, v)" by (cases e)
  then show ?case using Cons [of "dict_set k v d"] dict_set_subset [of k v d] dict_set_length [of k v d] by auto
qed simp

lemma dict_of_subset: "set (dict_of kvs) \<subseteq> set kvs" and dict_of_length: "length (dict_of kvs) \<le> length kvs"
  using foldl_dict_set [of "[]" kvs] by (simp_all add: dict_of_def)

lemma dict_get_member: "dict_get d k = Some v \<Longrightarrow> (k, v) \<in> set d"
  by (simp add: dict_get_def map_of_SomeD)

lemma dict_of_keys: "set (dict_keys (dict_of kvs)) = set (map fst kvs)"
proof -
  have "set (dict_keys (foldl (\<lambda>d (k, v). dict_set k v d) d kvs)) = set (dict_keys d) \<union> set (map fst kvs)" for d
    by (induction kvs arbitrary: d) (auto simp: dict.set_keys)
  then show ?thesis by (simp add: dict_of_def dict_keys_def)
qed

end
