(* ===== verification/PyRegex.thy ===== *)
theory PyRegex
  imports Prelude
begin

text \<open>
  The part of Python's \<open>re\<close> the code uses: backtracking matching with captures. The matcher returns
  every way a pattern can match at a position, in the order in which the backtracking engine would
  try them, so that the first element is the match Python reports. A declarative match relation is
  given beside it, and the two agree for every pattern whose repeated bodies consume a character
  (all patterns of the program do).

  A position is a triple: the characters before it (reversed), the characters after it, and the
  groups captured so far.
\<close>

named_theorems rx_defs "the definitions of the program's patterns"

type_synonym rx_state = "string \<times> string \<times> (nat \<times> string) list"

datatype rx =
    Cls "char \<Rightarrow> bool"
  | Eps
  | Bos                                  \<comment> \<open>\<open>^\<close>\<close>
  | Eos                                  \<comment> \<open>\<open>$\<close>: the end, or before a final newline\<close>
  | WordB                                \<comment> \<open>\<open>\b\<close>\<close>
  | Seq rx rx
  | Alt rx rx
  | Rep nat "nat option" bool rx         \<comment> \<open>\<open>{lo,hi}\<close>; the flag is True when greedy\<close>
  | Grp nat rx

abbreviation (input) rest :: "rx_state \<Rightarrow> string" where
  "rest s \<equiv> fst (snd s)"

definition at_word :: "string \<Rightarrow> bool" where
  "at_word s = (case s of [] \<Rightarrow> False | c # _ \<Rightarrow> is_word c)"

section \<open>The matcher\<close>

fun rep_m :: "nat \<Rightarrow> (rx_state \<Rightarrow> rx_state list) \<Rightarrow> nat \<Rightarrow> nat option \<Rightarrow> bool \<Rightarrow> rx_state \<Rightarrow> rx_state list" where
  "rep_m 0 f lo hi g s = (if lo = 0 then [s] else [])"
| "rep_m (Suc n) f lo hi g s =
     (let more = (if hi = Some 0 then []
                  else concat (map (rep_m n f (lo - 1) (map_option (\<lambda>h. h - 1) hi) g)
                         (filter (\<lambda>t. 0 < lo \<or> length (rest t) < length (rest s)) (f s))));
          stop = (if lo = 0 then [s] else [])
      in if g then more @ stop else stop @ more)"

primrec rx_m :: "rx \<Rightarrow> rx_state \<Rightarrow> rx_state list" where
  "rx_m (Cls p) s = (case s of (d, [], g) \<Rightarrow> [] | (d, c # r, g) \<Rightarrow> if p c then [(c # d, r, g)] else [])"
| "rx_m Eps s = [s]"
| "rx_m Bos s = (if fst s = [] then [s] else [])"
| "rx_m Eos s = (if rest s = [] \<or> rest s = [CHR 0x0A] then [s] else [])"
| "rx_m WordB s = (if at_word (fst s) \<noteq> at_word (rest s) then [s] else [])"
| "rx_m (Seq a b) s = concat (map (rx_m b) (rx_m a s))"
| "rx_m (Alt a b) s = rx_m a s @ rx_m b s"
| "rx_m (Rep lo hi g r) s = rep_m (length (rest s) + lo) (rx_m r) lo hi g s"
| "rx_m (Grp n r) s =
     map (\<lambda>(d, t, g). (d, t, dict_set n (rev (take (length d - length (fst s)) d)) g)) (rx_m r s)"

text \<open>\<open>pattern.match(s)\<close>\<close>

definition rx_match :: "rx \<Rightarrow> string \<Rightarrow> rx_state option" where
  "rx_match r s = (case rx_m r ([], s, []) of [] \<Rightarrow> None | t # _ \<Rightarrow> Some t)"

text \<open>\<open>pattern.fullmatch(s)\<close>, as a truth value\<close>

definition rx_full :: "rx \<Rightarrow> string \<Rightarrow> bool" where
  "rx_full r s = list_ex (\<lambda>t. rest t = []) (rx_m r ([], s, []))"

text \<open>\<open>pattern.search(s)\<close>: the leftmost match\<close>

fun search_from :: "rx \<Rightarrow> string \<Rightarrow> string \<Rightarrow> rx_state option" where
  "search_from r d [] = (case rx_m r (d, [], []) of [] \<Rightarrow> None | t # _ \<Rightarrow> Some t)"
| "search_from r d (c # s) =
     (case rx_m r (d, c # s, []) of [] \<Rightarrow> search_from r (c # d) s | t # _ \<Rightarrow> Some t)"

definition rx_search :: "rx \<Rightarrow> string \<Rightarrow> rx_state option" where
  "rx_search r s = search_from r [] s"

definition rx_found :: "rx \<Rightarrow> string \<Rightarrow> bool" where
  "rx_found r s = (rx_search r s \<noteq> None)"

definition group :: "rx_state \<Rightarrow> nat \<Rightarrow> string option" where
  "group t n = dict_get (snd (snd t)) n"

text \<open>\<open>pattern.sub(f, s)\<close>: \<open>f\<close> gets the matched text and the groups. A match consumes a character.\<close>

function sub_from :: "rx \<Rightarrow> (string \<Rightarrow> (nat \<times> string) list \<Rightarrow> string) \<Rightarrow> string \<Rightarrow> string \<Rightarrow> string" where
  "sub_from r f d s =
     (case filter (\<lambda>t. length (rest t) < length s) (take 1 (rx_m r (d, s, []))) of
        (d', s', g) # _ \<Rightarrow>
          (if length s' < length s
           then f (rev (take (length d' - length d) d')) g @ sub_from r f d' s' else s)
      | [] \<Rightarrow> (case s of [] \<Rightarrow> [] | c # s' \<Rightarrow> c # sub_from r f (c # d) s'))"
  by pat_completeness auto
termination by (relation "measure (\<lambda>(r, f, d, s). length s)") auto

declare sub_from.simps [simp del]

definition rx_sub :: "rx \<Rightarrow> (string \<Rightarrow> (nat \<times> string) list \<Rightarrow> string) \<Rightarrow> string \<Rightarrow> string" where
  "rx_sub r f s = sub_from r f [] s"

text \<open>The number of matches \<open>pattern.sub\<close> replaces.\<close>

function count_from :: "rx \<Rightarrow> string \<Rightarrow> string \<Rightarrow> nat" where
  "count_from r d s =
     (case filter (\<lambda>t. length (rest t) < length s) (take 1 (rx_m r (d, s, []))) of
        (d', s', g) # _ \<Rightarrow> (if length s' < length s then Suc (count_from r d' s') else 0)
      | [] \<Rightarrow> (case s of [] \<Rightarrow> 0 | c # s' \<Rightarrow> count_from r (c # d) s'))"
  by pat_completeness auto
termination by (relation "measure (\<lambda>(r, d, s). length s)") auto

declare count_from.simps [simp del]

definition rx_count :: "rx \<Rightarrow> string \<Rightarrow> nat" where
  "rx_count r s = count_from r [] s"

lemma count_from_0: "count_from r d s = 0 \<Longrightarrow> sub_from r f d s = s"
proof (induction r d s rule: count_from.induct)
  case (1 r d s)
  show ?case
  proof (cases "filter (\<lambda>t. length (rest t) < length s) (take 1 (rx_m r (d, s, [])))")
    case Nil
    then show ?thesis using 1 by (cases s) (simp_all add: sub_from.simps [of r f d] count_from.simps [of r d])
  next
    case (Cons t ts)
    obtain d' s' g where t: "t = (d', s', g)" by (cases t)
    have "t \<in> set (filter (\<lambda>t. length (rest t) < length s) (take 1 (rx_m r (d, s, []))))"
      unfolding Cons by simp
    then have "length s' < length s" by (simp add: t)
    then have "count_from r d s \<noteq> 0" using Cons by (subst count_from.simps) (simp add: t)
    then show ?thesis using "1.prems" by contradiction
  qed
qed

lemma rx_count_0: "rx_count r s = 0 \<Longrightarrow> rx_sub r f s = s"
  by (simp add: rx_count_def rx_sub_def count_from_0)

section \<open>Writing patterns\<close>

primrec seqs :: "rx list \<Rightarrow> rx" where
  "seqs [] = Eps"
| "seqs (r # rs) = (if rs = [] then r else Seq r (seqs rs))"

fun alts :: "rx list \<Rightarrow> rx" where
  "alts [] = Cls (\<lambda>_. False)"
| "alts [r] = r"
| "alts (r # rs) = Alt r (alts rs)"

definition lit :: "string \<Rightarrow> rx" where
  "lit s = seqs (map (\<lambda>c. Cls (\<lambda>x. x = c)) s)"

definition opt :: "rx \<Rightarrow> rx" where "opt r = Rep 0 (Some 1) True r"
definition star :: "rx \<Rightarrow> rx" where "star r = Rep 0 None True r"
definition plus :: "rx \<Rightarrow> rx" where "plus r = Rep 1 None True r"
definition upto :: "nat \<Rightarrow> nat \<Rightarrow> rx \<Rightarrow> rx" where "upto lo hi r = Rep lo (Some hi) True r"

text \<open>A class written as ASCII letters and digits plus some further characters.\<close>

definition alnum_or :: "string \<Rightarrow> char \<Rightarrow> bool" where
  "alnum_or cs c = (is_alnum_ascii c \<or> c \<in> set cs)"

text \<open>\<open>(?i)\<close>\<close>

primrec ci :: "rx \<Rightarrow> rx" where
  "ci (Cls p) = Cls (\<lambda>c. p c \<or> p (lower_char c) \<or> p (upper_char c))"
| "ci Eps = Eps"
| "ci Bos = Bos"
| "ci Eos = Eos"
| "ci WordB = WordB"
| "ci (Seq a b) = Seq (ci a) (ci b)"
| "ci (Alt a b) = Alt (ci a) (ci b)"
| "ci (Rep lo hi g r) = Rep lo hi g (ci r)"
| "ci (Grp n r) = Grp n (ci r)"

section \<open>The match relation\<close>

inductive rx_rel :: "rx \<Rightarrow> rx_state \<Rightarrow> rx_state \<Rightarrow> bool" where
  cls: "p c \<Longrightarrow> rx_rel (Cls p) (d, c # r, g) (c # d, r, g)"
| eps: "rx_rel Eps s s"
| bos: "fst s = [] \<Longrightarrow> rx_rel Bos s s"
| eos: "rest s = [] \<or> rest s = [CHR 0x0A] \<Longrightarrow> rx_rel Eos s s"
| wordb: "at_word (fst s) \<noteq> at_word (rest s) \<Longrightarrow> rx_rel WordB s s"
| seq: "rx_rel a s t \<Longrightarrow> rx_rel b t u \<Longrightarrow> rx_rel (Seq a b) s u"
| alt1: "rx_rel a s t \<Longrightarrow> rx_rel (Alt a b) s t"
| alt2: "rx_rel b s t \<Longrightarrow> rx_rel (Alt a b) s t"
| rep_stop: "rx_rel (Rep 0 hi g r) s s"
| rep_more: "hi \<noteq> Some 0 \<Longrightarrow> rx_rel r s t \<Longrightarrow>
     rx_rel (Rep (lo - 1) (map_option (\<lambda>h. h - 1) hi) g r) t u \<Longrightarrow> rx_rel (Rep lo hi g r) s u"
| grp: "rx_rel r s (d, t, g) \<Longrightarrow>
     rx_rel (Grp n r) s (d, t, dict_set n (rev (take (length d - length (fst s)) d)) g)"

inductive_cases rx_rel_ClsE: "rx_rel (Cls p) s t"
inductive_cases rx_rel_EpsE: "rx_rel Eps s t"
inductive_cases rx_rel_BosE: "rx_rel Bos s t"
inductive_cases rx_rel_EosE: "rx_rel Eos s t"
inductive_cases rx_rel_WordBE: "rx_rel WordB s t"
inductive_cases rx_rel_SeqE: "rx_rel (Seq a b) s t"
inductive_cases rx_rel_AltE: "rx_rel (Alt a b) s t"
inductive_cases rx_rel_RepE: "rx_rel (Rep lo hi g r) s t"
inductive_cases rx_rel_GrpE: "rx_rel (Grp n r) s t"

lemmas rx_rel_elims = rx_rel_ClsE rx_rel_EpsE rx_rel_BosE rx_rel_EosE rx_rel_WordBE rx_rel_SeqE
  rx_rel_AltE rx_rel_GrpE

text \<open>Every result of the matcher is a match.\<close>

lemma rep_m_Suc_iff:
  "t \<in> set (rep_m (Suc n) f lo hi g s) \<longleftrightarrow> (lo = 0 \<and> t = s) \<or> (hi \<noteq> Some 0 \<and>
     (\<exists>u \<in> set (f s). (0 < lo \<or> length (rest u) < length (rest s)) \<and>
        t \<in> set (rep_m n f (lo - 1) (map_option (\<lambda>h. h - 1) hi) g u)))"
  by (cases g; cases "hi = Some 0"; cases lo; simp add: Let_def del: split_paired_Ex split_paired_All; blast)

lemma rep_m_sound:
  assumes "\<And>s t. t \<in> set (f s) \<Longrightarrow> rx_rel r s t"
  shows "t \<in> set (rep_m n f lo hi g s) \<Longrightarrow> rx_rel (Rep lo hi g r) s t"
proof (induction n arbitrary: lo hi s)
  case 0
  then show ?case by (auto split: if_splits intro: rx_rel.rep_stop)
next
  case (Suc n)
  then show ?case
    unfolding rep_m_Suc_iff by (auto intro: rx_rel.rep_stop rx_rel.rep_more assms)
qed

lemma rx_m_sound: "t \<in> set (rx_m r s) \<Longrightarrow> rx_rel r s t"
proof (induction r arbitrary: s t)
  case (Cls p)
  then show ?case by (auto split: prod.splits list.splits if_splits intro: rx_rel.cls)
next
  case (Rep lo hi g r)
  show ?case
    by (rule rep_m_sound [of "rx_m r"]) (use Rep in auto)
next
  case (Seq r1 r2)
  from Seq.prems obtain u where "u \<in> set (rx_m r1 s)" "t \<in> set (rx_m r2 u)"
    unfolding rx_m.simps set_concat set_map by blast
  then show ?case using Seq.IH rx_rel.seq by blast
qed (auto split: if_splits intro: rx_rel.intros)

text \<open>What a match consumes: a prefix of the rest.\<close>

primrec nullable :: "rx \<Rightarrow> bool" where
  "nullable (Cls p) = False"
| "nullable Eps = True"
| "nullable Bos = True"
| "nullable Eos = True"
| "nullable WordB = True"
| "nullable (Seq a b) = (nullable a \<and> nullable b)"
| "nullable (Alt a b) = (nullable a \<or> nullable b)"
| "nullable (Rep lo hi g r) = (lo = 0 \<or> nullable r)"
| "nullable (Grp n r) = nullable r"

definition took :: "rx_state \<Rightarrow> string \<Rightarrow> rx_state \<Rightarrow> bool" where
  "took s w t = (fst t = rev w @ fst s \<and> rest s = w @ rest t)"

lemma took_refl [simp]: "took s w s \<longleftrightarrow> w = []"
  by (auto simp: took_def)

lemma took_trans: "took s v t \<Longrightarrow> took t w u \<Longrightarrow> took s (v @ w) u"
  by (auto simp: took_def)

lemma rx_rel_took: "rx_rel r s t \<Longrightarrow> \<exists>w. took s w t \<and> (nullable r \<or> w \<noteq> [])"
proof (induction rule: rx_rel.induct)
  case (cls p c d r g)
  then show ?case by (auto simp: took_def)
next
  case (seq a s t b u)
  then show ?case by (fastforce dest: took_trans)
next
  case (rep_more hi r s t lo g u)
  then show ?case by (fastforce dest: took_trans)
next
  case (grp r s d t g n)
  then show ?case by (auto simp: took_def)
qed (auto intro: exI [of _ "[]"])

primrec rx_ok :: "rx \<Rightarrow> bool" where
  "rx_ok (Cls p) = True"
| "rx_ok Eps = True"
| "rx_ok Bos = True"
| "rx_ok Eos = True"
| "rx_ok WordB = True"
| "rx_ok (Seq a b) = (rx_ok a \<and> rx_ok b)"
| "rx_ok (Alt a b) = (rx_ok a \<and> rx_ok b)"
| "rx_ok (Rep lo hi g r) = (rx_ok r \<and> \<not> nullable r)"
| "rx_ok (Grp n r) = rx_ok r"

lemma rep_m_mono: "t \<in> set (rep_m n f lo hi g s) \<Longrightarrow> t \<in> set (rep_m (n + k) f lo hi g s)"
proof (induction n arbitrary: lo hi s)
  case 0
  then show ?case by (cases k) (auto simp: Let_def split: if_splits)
next
  case (Suc n)
  from Suc.prems consider "lo = 0" "t = s"
    | u where "hi \<noteq> Some 0" "u \<in> set (f s)" "0 < lo \<or> length (rest u) < length (rest s)"
        "t \<in> set (rep_m n f (lo - 1) (map_option (\<lambda>h. h - 1) hi) g u)"
    unfolding rep_m_Suc_iff by blast
  then show ?case
  proof cases
    case 1
    then show ?thesis by (simp only: add_Suc rep_m_Suc_iff simp_thms)
  next
    case (2 u)
    from Suc.IH [OF 2(4)] 2(1-3) show ?thesis
      by (simp only: add_Suc rep_m_Suc_iff) blast
  qed
qed

lemma rep_m_more:
  assumes "hi \<noteq> Some 0" "u \<in> set (f s)" "length (rest u) < length (rest s)"
    and "t \<in> set (rep_m (length (rest u) + (lo - 1)) f (lo - 1) (map_option (\<lambda>h. h - 1) hi) g u)"
  shows "t \<in> set (rep_m (length (rest s) + lo) f lo hi g s)"
proof -
  obtain m where m: "length (rest s) + lo = Suc m" using assms(3) by (cases "length (rest s) + lo") auto
  have "length (rest u) + (lo - 1) \<le> m" using assms(3) m by (cases lo) auto
  then obtain k where "m = length (rest u) + (lo - 1) + k" using le_Suc_ex by blast
  then have "t \<in> set (rep_m m f (lo - 1) (map_option (\<lambda>h. h - 1) hi) g u)"
    using rep_m_mono [OF assms(4)] by simp
  then show ?thesis
    unfolding m rep_m_Suc_iff using assms(1-3) by blast
qed

theorem rx_m_complete: "rx_rel r s t \<Longrightarrow> rx_ok r \<Longrightarrow> t \<in> set (rx_m r s)"
proof (induction rule: rx_rel.induct)
  case (rep_stop hi g r s)
  show ?case by (cases "length (rest s)") (auto simp: Let_def)
next
  case (rep_more hi r s t lo g u)
  obtain w where "took s w t" "w \<noteq> []"
    using rx_rel_took [OF rep_more.hyps(2)] rep_more.prems by auto
  then have "length (rest t) < length (rest s)" by (simp add: took_def)
  then show ?case
    using rep_more rep_m_more [of hi t "rx_m r" s u lo g] by simp
qed force+

lemma rx_m_iff: "rx_ok r \<Longrightarrow> t \<in> set (rx_m r s) \<longleftrightarrow> rx_rel r s t"
  using rx_m_sound rx_m_complete by blast

section \<open>What the characters of a match can be\<close>

primrec rx_all :: "(char \<Rightarrow> bool) \<Rightarrow> rx \<Rightarrow> bool" where
  "rx_all P (Cls p) = (\<forall>c. p c \<longrightarrow> P c)"
| "rx_all P Eps = True"
| "rx_all P Bos = True"
| "rx_all P Eos = True"
| "rx_all P WordB = True"
| "rx_all P (Seq a b) = (rx_all P a \<and> rx_all P b)"
| "rx_all P (Alt a b) = (rx_all P a \<and> rx_all P b)"
| "rx_all P (Rep lo hi g r) = rx_all P r"
| "rx_all P (Grp n r) = rx_all P r"

primrec rx_first :: "(char \<Rightarrow> bool) \<Rightarrow> rx \<Rightarrow> bool" where
  "rx_first P (Cls p) = (\<forall>c. p c \<longrightarrow> P c)"
| "rx_first P Eps = True"
| "rx_first P Bos = True"
| "rx_first P Eos = True"
| "rx_first P WordB = True"
| "rx_first P (Seq a b) = (rx_first P a \<and> (nullable a \<longrightarrow> rx_first P b))"
| "rx_first P (Alt a b) = (rx_first P a \<and> rx_first P b)"
| "rx_first P (Rep lo hi g r) = rx_first P r"
| "rx_first P (Grp n r) = rx_first P r"

lemma took_unique: "took s v t \<Longrightarrow> took s w t \<Longrightarrow> v = w"
  by (auto simp: took_def)

lemma rx_rel_word:
  "rx_rel r s t \<Longrightarrow> \<exists>w. took s w t \<and> (nullable r \<or> w \<noteq> []) \<and> (rx_all P r \<longrightarrow> list_all P w)
     \<and> (rx_first Q r \<longrightarrow> w \<noteq> [] \<longrightarrow> Q (hd w))"
proof (induction rule: rx_rel.induct)
  case (cls p c d r g)
  then show ?case by (auto simp: took_def)
next
  case (seq a s t b u)
  then obtain v w where vw: "took s v t" "took t w u"
      "nullable a \<or> v \<noteq> []" "nullable b \<or> w \<noteq> []"
      "rx_all P a \<longrightarrow> list_all P v" "rx_all P b \<longrightarrow> list_all P w"
      "rx_first Q a \<longrightarrow> v \<noteq> [] \<longrightarrow> Q (hd v)" "rx_first Q b \<longrightarrow> w \<noteq> [] \<longrightarrow> Q (hd w)"
    by blast
  have "took s (v @ w) u" using vw(1,2) by (rule took_trans)
  with vw(3-) show ?case by (intro exI [of _ "v @ w"]) (auto simp: hd_append)
next
  case (rep_more hi r s t lo g u)
  then obtain v w where vw: "took s v t" "took t w u"
      "nullable r \<or> v \<noteq> []" "nullable (Rep (lo - 1) (map_option (\<lambda>h. h - 1) hi) g r) \<or> w \<noteq> []"
      "rx_all P r \<longrightarrow> list_all P v" "rx_all P r \<longrightarrow> list_all P w"
      "rx_first Q r \<longrightarrow> v \<noteq> [] \<longrightarrow> Q (hd v)" "rx_first Q r \<longrightarrow> w \<noteq> [] \<longrightarrow> Q (hd w)"
    by auto
  have "took s (v @ w) u" using vw(1,2) by (rule took_trans)
  with vw(3-) show ?case by (intro exI [of _ "v @ w"]) (auto simp: hd_append)
next
  case (grp r s d t g n)
  then show ?case by (auto simp: took_def)
qed (auto intro: exI [of _ "[]"])

lemma rx_full_rel: "rx_full r s \<Longrightarrow> \<exists>t. rx_rel r ([], s, []) t \<and> rest t = []"
  unfolding rx_full_def list_ex_iff using rx_m_sound by blast

lemma rx_full_chars: "rx_full r s \<Longrightarrow> rx_all P r \<Longrightarrow> list_all P s"
  using rx_full_rel rx_rel_word [of r "([], s, [])" _ P "\<lambda>_. True"] by (fastforce simp: took_def)

lemma rx_full_first: "rx_full r s \<Longrightarrow> rx_first Q r \<Longrightarrow> \<not> nullable r \<Longrightarrow> s \<noteq> [] \<and> Q (hd s)"
  using rx_full_rel rx_rel_word [of r "([], s, [])" _ "\<lambda>_. True" Q] by (fastforce simp: took_def)

text \<open>An upper bound on the length of a match.\<close>

primrec rx_max :: "rx \<Rightarrow> nat option" where
  "rx_max (Cls p) = Some 1"
| "rx_max Eps = Some 0"
| "rx_max Bos = Some 0"
| "rx_max Eos = Some 0"
| "rx_max WordB = Some 0"
| "rx_max (Seq a b) = (case (rx_max a, rx_max b) of (Some m, Some n) \<Rightarrow> Some (m + n) | _ \<Rightarrow> None)"
| "rx_max (Alt a b) = (case (rx_max a, rx_max b) of (Some m, Some n) \<Rightarrow> Some (max m n) | _ \<Rightarrow> None)"
| "rx_max (Rep lo hi g r) = (case (rx_max r, hi) of (Some m, Some h) \<Rightarrow> Some (m * max lo h) | _ \<Rightarrow> None)"
| "rx_max (Grp n r) = rx_max r"

lemma rx_rel_max: "rx_rel r s t \<Longrightarrow> rx_max r = Some m \<Longrightarrow> length (rest s) \<le> length (rest t) + m"
proof (induction arbitrary: m rule: rx_rel.induct)
  case (rep_more hi r s t lo g u)
  then obtain k h where k: "rx_max r = Some k" "hi = Some h" "m = k * max lo h"
    by (auto split: option.splits)
  with rep_more.hyps(1) have h: "0 < h" by simp
  have "length (rest s) \<le> length (rest t) + k" using rep_more.IH(1) k(1) by simp
  moreover have "length (rest t) \<le> length (rest u) + k * max (lo - 1) (h - 1)"
    using rep_more.IH(2) k by simp
  moreover have "k * max lo h = k + k * max (lo - 1) (h - 1)"
  proof -
    have "max lo h = Suc (max (lo - 1) (h - 1))" using h by (cases lo; cases h) auto
    then show ?thesis by simp
  qed
  ultimately show ?case using k(3) by simp
qed (force split: option.splits)+

lemma rx_full_length: "rx_full r s \<Longrightarrow> rx_max r = Some m \<Longrightarrow> length s \<le> m"
  using rx_full_rel rx_rel_max by fastforce

text \<open>What a captured group can be: \<open>P\<close> holds of every text the group's pattern matches.\<close>

primrec rx_caps :: "(string \<Rightarrow> bool) \<Rightarrow> nat \<Rightarrow> rx \<Rightarrow> bool" where
  "rx_caps P n (Cls p) = True"
| "rx_caps P n Eps = True"
| "rx_caps P n Bos = True"
| "rx_caps P n Eos = True"
| "rx_caps P n WordB = True"
| "rx_caps P n (Seq a b) = (rx_caps P n a \<and> rx_caps P n b)"
| "rx_caps P n (Alt a b) = (rx_caps P n a \<and> rx_caps P n b)"
| "rx_caps P n (Rep lo hi g r) = rx_caps P n r"
| "rx_caps P n (Grp m r) = (rx_caps P n r \<and> (m = n \<longrightarrow> (\<forall>s t w. rx_rel r s t \<longrightarrow> took s w t \<longrightarrow> P w)))"

definition caps_inv :: "(string \<Rightarrow> bool) \<Rightarrow> nat \<Rightarrow> rx_state \<Rightarrow> bool" where
  "caps_inv P n s = (\<forall>w. group s n = Some w \<longrightarrow> P w)"

lemma rx_rel_caps: "rx_rel r s t \<Longrightarrow> rx_caps P n r \<Longrightarrow> caps_inv P n s \<Longrightarrow> caps_inv P n t"
proof (induction rule: rx_rel.induct)
  case (cls p c d r g)
  then show ?case by (simp add: caps_inv_def group_def)
next
  case (grp r s d t g m)
  have inv: "caps_inv P n (d, t, g)" using grp by simp
  show ?case
  proof (cases "m = n")
    case True
    obtain v where v: "took s v (d, t, g)" using rx_rel_took [OF grp.hyps] by blast
    then have w: "rev (take (length d - length (fst s)) d) = v" by (auto simp: took_def)
    have "\<forall>s t w. rx_rel r s t \<longrightarrow> took s w t \<longrightarrow> P w"
      using grp.prems(1) True by (simp del: split_paired_All)
    then have "P v" using grp.hyps v by blast
    then show ?thesis using True by (simp add: caps_inv_def group_def dict.get_set w)
  next
    case False
    then show ?thesis using inv by (simp add: caps_inv_def group_def dict.get_set)
  qed
qed simp_all

lemma rx_match_rel: "rx_match r s = Some t \<Longrightarrow> rx_rel r ([], s, []) t"
  by (auto simp: rx_match_def intro: rx_m_sound split: list.splits)

lemma rx_match_group:
  assumes "rx_match r s = Some t" "rx_caps P n r" "group t n = Some w"
  shows "P w"
proof -
  have "caps_inv P n t"
    using rx_rel_caps [OF rx_match_rel [OF assms(1)] assms(2)] by (simp add: caps_inv_def group_def dict_get_def)
  then show ?thesis using assms(3) by (simp add: caps_inv_def)
qed

lemmas rx_shape = seqs.simps alts.simps lit_def opt_def star_def plus_def upto_def

lemma rx_all_lit: "rx_all P (lit s) = list_all P s"
proof (induction s)
  case Nil
  then show ?case by (simp add: lit_def)
next
  case (Cons c s)
  then show ?case by (cases s) (auto simp: lit_def)
qed

text \<open>Case folding (\<open>re.IGNORECASE\<close>) adds no character to a class of ASCII letters, digits and punctuation.\<close>

lemma code_lower_char: "code (lower_char c) = (if is_upper c \<or> rng 192 214 c \<or> rng 216 222 c then code c + 32 else code c)"
  by (auto simp: lower_char_def rng_def is_upper_def)

lemma code_upper_char: "code (upper_char c) = (if is_lower c \<or> rng 224 246 c \<or> rng 248 254 c then code c - 32 else code c)"
  by (auto simp: upper_char_def rng_def is_lower_def)

lemma mem_code: "c \<in> set cs \<longleftrightarrow> code c \<in> set (map code cs)"
  by (auto dest: injD [OF inj_of_char])

lemma alnum_or_code:
  "alnum_or cs c \<longleftrightarrow> (let n = code c in 97 \<le> n \<and> n \<le> 122 \<or> 65 \<le> n \<and> n \<le> 90 \<or> 48 \<le> n \<and> n \<le> 57 \<or> n \<in> set (map code cs))"
  unfolding alnum_or_def is_alnum_ascii_def is_lower_def is_upper_def is_digit09_def rng_def mem_code [of c cs] Let_def by blast

lemma alnum_or_high: "list_all (\<lambda>n. n < 128) (map code cs) \<Longrightarrow> alnum_or cs c \<Longrightarrow> code c < 128"
  unfolding alnum_or_code by (auto simp: Let_def list_all_iff)

lemma ci_chars:
  assumes "list_all (\<lambda>n. n < 128) (map code cs)" "alnum_or cs (lower_char c) \<or> alnum_or cs (upper_char c)"
  shows "alnum_or cs c"
proof (cases "is_upper c \<or> is_lower c")
  case True
  then show ?thesis by (auto simp: alnum_or_def is_alnum_ascii_def)
next
  case False
  have "alnum_or cs (lower_char c) \<Longrightarrow> lower_char c = c"
    using alnum_or_high [OF assms(1)] code_lower_char [of c] False
    by (fastforce simp: lower_char_def rng_def split: if_splits)
  moreover have "alnum_or cs (upper_char c) \<Longrightarrow> upper_char c = c"
    using alnum_or_high [OF assms(1)] code_upper_char [of c] False
    by (fastforce simp: upper_char_def rng_def split: if_splits)
  ultimately show ?thesis using assms(2) by auto
qed

lemma rx_all_taken: "rx_rel r s t \<Longrightarrow> took s w t \<Longrightarrow> rx_all P r \<Longrightarrow> list_all P w"
  using rx_rel_word [of r s t P "\<lambda>_. True"] took_unique by blast

lemma rx_caps_GrpI: "rx_caps (list_all P) n r \<Longrightarrow> rx_all P r \<Longrightarrow> rx_caps (list_all P) n (Grp m r)"
  by (auto intro: rx_all_taken)

lemma rx_caps_seqs: "rx_caps P n (seqs rs) = list_all (rx_caps P n) rs"
  by (induction rs) auto

lemma ci_seqs: "ci (seqs rs) = seqs (map ci rs)"
  by (induction rs) auto

end
