(* ===== verification/Textsafe.thy ===== *)
theory Textsafe
  imports PyRegex
begin

text \<open>
  \<open>ipa_diagnose/textsafe.py\<close>: sanitising of untrusted text. \<open>sanitize_text\<close>, \<open>clean_multiline\<close> and
  \<open>safe_token\<close>, with the facts every other component relies on: what sanitised text can contain, how
  long it can be, and that sanitising twice changes nothing. The argument of the Python functions is any
  object; here it is its \<open>str\<close>.
\<close>

section \<open>Definitions\<close>

definition esc_char :: "char \<Rightarrow> bool" where
  "esc_char c = (c = CHR 0x1B)"

text \<open>The four escape-sequence patterns.\<close>

definition csi_rx :: rx where
  "csi_rx = seqs [Cls esc_char, lit ''['', star (Cls (rng 0x30 0x3F)), star (Cls (rng 0x20 0x2F)), Cls (rng 0x40 0x7E)]"

definition osc_rx :: rx where
  "osc_rx = seqs [Cls esc_char, lit '']'', star (Cls (\<lambda>c. c \<noteq> CHR 0x07 \<and> c \<noteq> CHR 0x1B)),
     opt (Alt (Cls (\<lambda>c. c = CHR 0x07)) (Seq (Cls esc_char) (Cls (\<lambda>c. c = CHR 0x5C))))]"

definition dcs_rx :: rx where
  "dcs_rx = seqs [Cls esc_char, Cls (\<lambda>c. c \<in> set ''P^_X''), star (Cls (\<lambda>c. c \<noteq> CHR 0x1B)),
     opt (Seq (Cls esc_char) (Cls (\<lambda>c. c = CHR 0x5C)))]"

definition esc2_rx :: rx where
  "esc2_rx = Seq (Cls esc_char) (Cls (\<lambda>c. rng 0x40 0x5A c \<or> rng 0x5C 0x5F c))"

lemmas esc_rx_defs [rx_defs] = csi_rx_def osc_rx_def dcs_rx_def esc2_rx_def

definition remove_all :: "rx \<Rightarrow> string \<Rightarrow> string" where
  "remove_all r s = rx_sub r (\<lambda>_ _. []) s"

definition strip_escapes :: "string \<Rightarrow> string" where
  "strip_escapes s = remove_all esc2_rx (remove_all dcs_rx (remove_all osc_rx (remove_all csi_rx s)))"

definition pre_bound :: nat where "pre_bound = 4096"

definition truncate_text :: "string \<Rightarrow> nat \<Rightarrow> string" where
  "truncate_text text limit =
     (if length text \<le> limit then text
      else if limit \<le> 3 then take limit text
      else
        let room = limit - 3;
            cut = take room text;
            space = (case rfind (CHR '' '') cut of None \<Rightarrow> - 1 | Some i \<Rightarrow> int i);
            cut' = (if space \<ge> int room - 40
                    then (if space < 0 then take (length cut - 1) cut else take (nat space) cut)
                    else cut)
        in rstrip_of (set '' ,;:-'') cut' @ ''...'')"

definition sanitize_text :: "string \<Rightarrow> nat \<Rightarrow> string" where
  "sanitize_text text limit =
     (let text = strip_escapes (take pre_bound text);
          text = map (\<lambda>ch. if ch = CHR '' '' \<or> is_printable ch then ch else CHR '' '') text;
          text = join '' '' (split_ws text)
      in truncate_text text limit)"

abbreviation sanitize_val :: "pyval \<Rightarrow> nat \<Rightarrow> string" where
  "sanitize_val v limit \<equiv> sanitize_text (py_str v) limit"

definition clean_multiline :: "string \<Rightarrow> nat \<Rightarrow> string" where
  "clean_multiline text limit =
     map (\<lambda>ch. if ch \<in> {CHR 0x0A, CHR 0x09} \<or> is_printable ch then ch else CHR '' '')
       (strip_escapes (take limit text))"

definition safe_token_rx :: rx where
  "safe_token_rx = seqs [Bos, Cls (alnum_or ''_''), upto 0 80 (Cls (alnum_or ''_.,=-'')), Eos]"

definition safe_token :: "string \<Rightarrow> string \<Rightarrow> string" where
  "safe_token value placeholder =
     (let text = strip value in if rx_match safe_token_rx text \<noteq> None then text else placeholder)"

section \<open>Lemmas\<close>

lemma sub_from_id:
  assumes "\<not> nullable r" "rx_first Q r" "\<forall>c \<in> set s. \<not> Q c"
  shows "sub_from r f d s = s"
  using assms(3)
proof (induction s arbitrary: d)
  case Nil
  have "rx_m r (d, [], []) = []"
  proof (rule ccontr)
    assume "rx_m r (d, [], []) \<noteq> []"
    then obtain t where "t \<in> set (rx_m r (d, [], []))" by (meson list.set_sel(1))
    then show False
      using rx_rel_took [OF rx_m_sound] assms(1) by (fastforce simp: took_def)
  qed
  then show ?case by (simp add: sub_from.simps)
next
  case (Cons c s)
  have "rx_m r (d, c # s, []) = []"
  proof (rule ccontr)
    assume "rx_m r (d, c # s, []) \<noteq> []"
    then obtain t where "t \<in> set (rx_m r (d, c # s, []))" by (meson list.set_sel(1))
    then obtain w where "took (d, c # s, []) w t" "w \<noteq> []" "Q (hd w)"
      using rx_rel_word [OF rx_m_sound, of t r "(d, c # s, [])" "\<lambda>_. True" Q] assms(1,2) by blast
    then show False using Cons.prems by (cases w) (auto simp: took_def)
  qed
  then show ?case using Cons by (simp add: sub_from.simps [of r f d "c # s"])
qed

text \<open>Removal never lengthens a text and adds no character.\<close>

lemma sub_remove:
  "length (sub_from r (\<lambda>_ _. []) d s) \<le> length s \<and> set (sub_from r (\<lambda>_ _. []) d s) \<subseteq> set s"
proof (induction s arbitrary: d rule: length_induct)
  case (1 s)
  let ?ms = "filter (\<lambda>t. length (rest t) < length s) (take 1 (rx_m r (d, s, [])))"
  show ?case
  proof (cases ?ms)
    case Nil
    show ?thesis
    proof (cases s)
      case (Cons c s')
      then have eq: "sub_from r (\<lambda>_ _. []) d s = c # sub_from r (\<lambda>_ _. []) (c # d) s'"
        using Nil by (subst sub_from.simps) simp
      have "length (sub_from r (\<lambda>_ _. []) (c # d) s') \<le> length s'
          \<and> set (sub_from r (\<lambda>_ _. []) (c # d) s') \<subseteq> set s'"
        using "1.IH" Cons by simp
      then show ?thesis unfolding eq using Cons by auto
    qed (use Nil in \<open>simp add: sub_from.simps\<close>)
  next
    case (Cons t ts)
    obtain d' s' g where t: "t = (d', s', g)" by (cases t)
    have "t \<in> set ?ms" using Cons by simp
    then have shorter: "length s' < length s" and tin: "t \<in> set (rx_m r (d, s, []))"
      by (auto simp: t dest: in_set_takeD)
    obtain w where "took (d, s, []) w t" using rx_rel_took [OF rx_m_sound [OF tin]] by blast
    then have "set s' \<subseteq> set s" by (auto simp: took_def t)
    moreover have "sub_from r (\<lambda>_ _. []) d s = sub_from r (\<lambda>_ _. []) d' s'"
      using Cons shorter by (subst sub_from.simps) (simp add: t)
    moreover have "length (sub_from r (\<lambda>_ _. []) d' s') \<le> length s'
        \<and> set (sub_from r (\<lambda>_ _. []) d' s') \<subseteq> set s'"
      using "1.IH" shorter by simp
    ultimately show ?thesis using shorter by auto
  qed
qed

lemma remove_all_le: "length (remove_all r s) \<le> length s" "set (remove_all r s) \<subseteq> set s"
  using sub_remove [of r "[]" s] by (auto simp: remove_all_def rx_sub_def)

lemma strip_escapes_le: "length (strip_escapes s) \<le> length s"
  unfolding strip_escapes_def by (meson remove_all_le(1) order.trans)

lemma esc_first: "rx_first esc_char csi_rx" "rx_first esc_char osc_rx" "rx_first esc_char dcs_rx"
    "rx_first esc_char esc2_rx"
    "\<not> nullable csi_rx" "\<not> nullable osc_rx" "\<not> nullable dcs_rx" "\<not> nullable esc2_rx"
  by (simp_all add: rx_defs rx_shape)

lemma remove_all_id:
  "\<not> nullable r \<Longrightarrow> rx_first esc_char r \<Longrightarrow> CHR 0x1B \<notin> set s \<Longrightarrow> remove_all r s = s"
  unfolding remove_all_def rx_sub_def by (rule sub_from_id) (auto simp: esc_char_def)

lemma strip_escapes_id: "CHR 0x1B \<notin> set s \<Longrightarrow> strip_escapes s = s"
  by (simp add: strip_escapes_def remove_all_id esc_first)

text \<open>White space after \<open>" ".join(text.split())\<close>: single blanks, none at either end.\<close>

fun spaced :: "bool \<Rightarrow> string \<Rightarrow> bool" where
  "spaced b [] = (\<not> b)"
| "spaced b (c # s) = (if is_space c then c = CHR '' '' \<and> \<not> b \<and> spaced True s else spaced False s)"

fun spaced_prefix :: "bool \<Rightarrow> string \<Rightarrow> bool" where
  "spaced_prefix b [] = True"
| "spaced_prefix b (c # s) =
     (if is_space c then c = CHR '' '' \<and> \<not> b \<and> spaced_prefix True s else spaced_prefix False s)"

lemma is_space_blank [simp]: "is_space (CHR '' '')"
  by (simp add: is_space_def rng_def)

lemma spaced_prefix_take: "spaced_prefix b s \<Longrightarrow> spaced_prefix b (take n s)"
  by (induction b s arbitrary: n rule: spaced_prefix.induct) (auto simp: take_Cons' split: if_splits)

lemma spaced_is_prefix: "spaced b s \<Longrightarrow> spaced_prefix b s"
  by (induction b s rule: spaced.induct) (auto split: if_splits)

lemma spaced_prefix_dots: "spaced_prefix b s \<Longrightarrow> spaced b (s @ ''...'')"
  by (induction b s rule: spaced_prefix.induct) (auto simp: is_space_def rng_def split: if_splits)

definition is_token :: "string \<Rightarrow> bool" where
  "is_token x = (x \<noteq> [] \<and> list_all (\<lambda>c. \<not> is_space c) x)"

lemma split_acc_words:
  "list_all (\<lambda>c. \<not> is_space c) w \<Longrightarrow> list_all is_token (split_acc w s)"
  by (induction w s rule: split_acc.induct) (auto simp: is_token_def)

lemma split_acc_chars: "x \<in> set (split_acc w s) \<Longrightarrow> set x \<subseteq> set w \<union> set s"
  by (induction w s rule: split_acc.induct) (fastforce split: if_splits)+

lemma spaced_nospace: "is_token w \<Longrightarrow> spaced b (w @ s) = spaced False s"
proof (induction w arbitrary: b)
  case (Cons c w)
  then show ?case by (cases w) (auto simp: is_token_def)
qed (simp add: is_token_def)

lemma spaced_join:
  assumes "list_all is_token ws" "ws \<noteq> []"
  shows "spaced b (join '' '' ws)"
  using assms
proof (induction "'' '' :: string" ws arbitrary: b rule: join.induct)
  case (2 x)
  then show ?case using spaced_nospace [of x b "[]"] by simp
next
  case (3 x y xs)
  then show ?case by (simp add: spaced_nospace)
qed simp

lemma join_split_spaced:
  assumes "split_ws s \<noteq> []" shows "spaced True (join '' '' (split_ws s))"
  using spaced_join [OF _ assms, of True] split_acc_words [of "[]" s] by (simp add: split_ws_def)

lemma split_acc_ne: "w \<noteq> [] \<Longrightarrow> split_acc w s \<noteq> []"
  by (induction w s rule: split_acc.induct) auto

lemma join_Cons: "xs \<noteq> [] \<Longrightarrow> join sep (x # xs) = x @ sep @ join sep xs"
  by (cases xs) auto

lemma join_split_id_acc:
  "(w \<noteq> [] \<longrightarrow> spaced False s \<longrightarrow> join '' '' (split_acc w s) = rev w @ s)
   \<and> (w = [] \<longrightarrow> spaced True s \<longrightarrow> join '' '' (split_acc w s) = s)"
proof (induction w s rule: split_acc.induct)
  case (1 w)
  then show ?case by auto
next
  case (2 w c s)
  show ?case
  proof (cases "is_space c")
    case True
    show ?thesis
    proof (intro conjI impI)
      assume w: "w \<noteq> []" and sp: "spaced False (c # s)"
      then have c: "c = CHR '' ''" and s: "spaced True s" using True by auto
      have j: "join '' '' (split_acc [] s) = s" using "2.IH"(2) True w s by simp
      have "split_acc [] s \<noteq> []"
      proof
        assume "split_acc [] s = []"
        with j have "s = []" by simp
        with s show False by simp
      qed
      then show "join '' '' (split_acc w (c # s)) = rev w @ c # s"
        using True w j c by (simp add: join_Cons)
    next
      assume "w = []" "spaced True (c # s)"
      then show "join '' '' (split_acc w (c # s)) = c # s" using True by simp
    qed
  next
    case False
    then show ?thesis using "2.IH"(3) by auto
  qed
qed

lemma join_split_id: "spaced True s \<Longrightarrow> join '' '' (split_ws s) = s"
  using join_split_id_acc [of "[]" s] by (simp add: split_ws_def)

text \<open>The shape of sanitised text.\<close>

definition clean_text :: "string \<Rightarrow> bool" where
  "clean_text s = ((s = [] \<or> spaced True s) \<and> list_all is_printable s)"

lemma printable_blank [simp]: "is_printable (CHR '' '')" "is_printable (CHR ''.'')"
  by (simp_all add: is_printable_def rng_def)

lemma printable_not_esc: "is_printable c \<Longrightarrow> c \<noteq> CHR 0x1B"
  by (auto simp: is_printable_def rng_def)

definition normalize_text :: "string \<Rightarrow> string" where
  "normalize_text text = join '' '' (split_ws
     (map (\<lambda>ch. if ch = CHR '' '' \<or> is_printable ch then ch else CHR '' '')
       (strip_escapes (take pre_bound text))))"

lemma sanitize_text_eq: "sanitize_text text limit = truncate_text (normalize_text text) limit"
  by (simp add: sanitize_text_def normalize_text_def Let_def)

lemma split_ws_chars: "x \<in> set (split_ws s) \<Longrightarrow> c \<in> set x \<Longrightarrow> c \<in> set s"
  using split_acc_chars [of x "[]" s] by (auto simp: split_ws_def)

lemma normalize_clean: "clean_text (normalize_text text)"
proof -
  let ?m = "map (\<lambda>ch. if ch = CHR '' '' \<or> is_printable ch then ch else CHR '' '')
       (strip_escapes (take pre_bound text))"
  have "c \<in> set (join '' '' (split_ws ?m)) \<Longrightarrow> is_printable c" for c
  proof -
    assume "c \<in> set (join '' '' (split_ws ?m))"
    then consider "c = CHR '' ''" | x where "x \<in> set (split_ws ?m)" "c \<in> set x"
      using join_chars [of "'' ''" "split_ws ?m"] by fastforce
    then show "is_printable c"
    proof cases
      case (2 x)
      then have "c \<in> set ?m" by (rule split_ws_chars)
      then show ?thesis by auto
    qed simp
  qed
  then show ?thesis
    using join_split_spaced [of ?m]
    by (cases "split_ws ?m = []") (auto simp: clean_text_def normalize_text_def list_all_iff)
qed

lemma length_rstrip_of: "length (rstrip_of cs s) \<le> length s"
  by (metis length_dropWhile_le length_rev rstrip_of_def)

lemma rstrip_of_take: "\<exists>n. rstrip_of cs s = take n s"
proof -
  have "rstrip_of cs s @ rev (takeWhile (\<lambda>c. c \<in> cs) (rev s)) = s"
    unfolding rstrip_of_def by (metis rev_append rev_rev_ident takeWhile_dropWhile_id)
  then have "rstrip_of cs s = take (length (rstrip_of cs s)) s" by (metis append_eq_conv_conj)
  then show ?thesis by blast
qed

text \<open>A text that is cut is a prefix of the text followed by an ellipsis.\<close>

lemma truncate_text_cut:
  assumes "limit < length text" "3 < limit"
  obtains n where "n \<le> limit - 3" "truncate_text text limit = take n text @ ''...''"
proof -
  let ?cut = "take (limit - 3) text"
  let ?space = "case rfind (CHR '' '') ?cut of None \<Rightarrow> - 1 | Some i \<Rightarrow> int i"
  let ?cut' = "if ?space \<ge> int (limit - 3) - 40
               then (if ?space < 0 then take (length ?cut - 1) ?cut else take (nat ?space) ?cut) else ?cut"
  have eq: "truncate_text text limit = rstrip_of (set '' ,;:-'') ?cut' @ ''...''"
    unfolding truncate_text_def Let_def using assms by simp
  have "\<exists>k. ?cut' = take k ?cut" by (metis take_all order_refl)
  then obtain k where "?cut' = take (min k (limit - 3)) text" by (auto simp: min.commute)
  moreover obtain m where "rstrip_of (set '' ,;:-'') ?cut' = take m ?cut'" using rstrip_of_take by blast
  ultimately have "rstrip_of (set '' ,;:-'') ?cut' = take (min m (min k (limit - 3))) text" by simp
  with eq show thesis by (intro that [of "min m (min k (limit - 3))"]) auto
qed

lemma truncate_text_length: "length (truncate_text text limit) \<le> limit"
proof (cases "length text \<le> limit \<or> limit \<le> 3")
  case True
  then show ?thesis by (auto simp: truncate_text_def)
next
  case False
  then obtain n where "n \<le> limit - 3" "truncate_text text limit = take n text @ ''...''"
    using truncate_text_cut [of limit "text"] by auto
  then show ?thesis using False by simp arith
qed

lemma truncate_text_chars: "set (truncate_text text limit) \<subseteq> set text \<union> {CHR ''.''}"
proof (cases "length text \<le> limit \<or> limit \<le> 3")
  case True
  then show ?thesis by (auto simp: truncate_text_def dest: in_set_takeD)
next
  case False
  then obtain n where "truncate_text text limit = take n text @ ''...''"
    using truncate_text_cut [of limit "text"] by auto
  then show ?thesis by (auto dest: in_set_takeD)
qed

lemma truncate_text_clean: "clean_text text \<Longrightarrow> 3 < limit \<Longrightarrow> clean_text (truncate_text text limit)"
proof (cases "length text \<le> limit")
  case True
  then show "clean_text text \<Longrightarrow> ?thesis" by (simp add: truncate_text_def)
next
  case False
  assume c: "clean_text text" and l: "3 < limit"
  obtain n where n: "truncate_text text limit = take n text @ ''...''"
    using truncate_text_cut [of limit "text"] False l by auto
  have "spaced True (take n text @ ''...'')"
    using c spaced_prefix_dots [OF spaced_prefix_take [OF spaced_is_prefix]] False
    by (auto simp: clean_text_def)
  then show ?thesis
    using c n by (auto simp: clean_text_def list_all_iff dest: in_set_takeD)
qed

lemma clean_normalize: "clean_text s \<Longrightarrow> length s \<le> pre_bound \<Longrightarrow> normalize_text s = s"
proof -
  assume c: "clean_text s" and l: "length s \<le> pre_bound"
  have p: "\<forall>c \<in> set s. is_printable c" using c by (simp add: clean_text_def list_all_iff)
  then have "strip_escapes s = s" by (intro strip_escapes_id) (auto dest: printable_not_esc)
  moreover have "map (\<lambda>ch. if ch = CHR '' '' \<or> is_printable ch then ch else CHR '' '') s = s"
    using p by (simp add: map_idI)
  ultimately show ?thesis
    using l c join_split_id [of s] by (auto simp: normalize_text_def clean_text_def split_ws_def)
qed

lemma sanitize_text_chars: "c \<in> set (sanitize_text text limit) \<Longrightarrow> is_printable c"
  using truncate_text_chars [of "normalize_text text" limit] normalize_clean [of "text"]
  by (auto simp: sanitize_text_eq clean_text_def list_all_iff)

lemma strip_not_space: "strip s \<noteq> [] \<Longrightarrow> \<not> is_space (last (strip s))"
  unfolding strip_def by (metis Nil_is_rev_conv hd_dropWhile last_rev)

lemma safe_token_rx_parts:
  "rx_rel safe_token_rx ([], s, []) t \<Longrightarrow> \<exists>w. s = w @ rest t \<and> (rest t = [] \<or> rest t = [CHR 0x0A])
     \<and> list_all (alnum_or ''_.,=-'') w \<and> w \<noteq> [] \<and> alnum_or ''_'' (hd w) \<and> length w \<le> 81"
proof -
  assume rel: "rx_rel safe_token_rx ([], s, []) t"
  have all: "rx_all (alnum_or ''_.,=-'') safe_token_rx" "rx_first (alnum_or ''_'') safe_token_rx"
    "\<not> nullable safe_token_rx" "rx_max safe_token_rx = Some 81"
    by (auto simp: safe_token_rx_def rx_shape alnum_or_def)
  then obtain w where w: "took ([], s, []) w t" "w \<noteq> []" "list_all (alnum_or ''_.,=-'') w" "alnum_or ''_'' (hd w)"
    using rx_rel_word [OF rel, of "alnum_or ''_.,=-''" "alnum_or ''_''"] by auto
  have "rest t = [] \<or> rest t = [CHR 0x0A]"
    using rel by (auto simp: safe_token_rx_def rx_shape elim!: rx_rel_SeqE rx_rel_EosE)
  moreover have "length w \<le> 81"
    using rx_rel_max [OF rel all(4)] w(1) by (auto simp: took_def)
  ultimately show ?thesis using w by (auto simp: took_def)
qed

section \<open>Properties\<close>

text \<open>Sanitised text is harmless to print, whatever it was made from: every character of it is
  printable (so no escape, control or bidirectional-format character survives) and it is at most as
  long as the limit, the ellipsis included.\<close>

theorem sanitize_text_safe:
  "length (sanitize_text text limit) \<le> limit \<and> list_all is_printable (sanitize_text text limit)"
  by (auto simp: list_all_iff sanitize_text_eq truncate_text_length dest: sanitize_text_chars [unfolded sanitize_text_eq])

text \<open>Sanitising is idempotent for every limit between 4 and the pre-bound of 4096: text that has been
  sanitised once passes through a second time unchanged (its blanks are single, it has no blank at
  either end and the ellipsis does not grow).\<close>

theorem sanitize_text_idem:
  assumes "3 < limit" "limit \<le> pre_bound"
  shows "sanitize_text (sanitize_text text limit) limit = sanitize_text text limit"
proof -
  let ?t = "truncate_text (normalize_text text) limit"
  have "clean_text ?t" using normalize_clean assms(1) by (rule truncate_text_clean)
  moreover have l: "length ?t \<le> limit" by (rule truncate_text_length)
  ultimately have "normalize_text ?t = ?t" using assms(2) by (intro clean_normalize) auto
  then show ?thesis using l by (simp add: sanitize_text_eq truncate_text_def)
qed

theorem sanitize_text_idem_witness:
  "sanitize_text (sanitize_text ''a  b'' 10) 10 = sanitize_text ''a  b'' 10 \<and> sanitize_text ''a  b'' 10 = ''a b''"
proof
  show "sanitize_text (sanitize_text ''a  b'' 10) 10 = sanitize_text ''a  b'' 10"
    by (rule sanitize_text_idem) (simp_all add: pre_bound_def)
  show "sanitize_text ''a  b'' 10 = ''a b''"
    by (simp add: sanitize_text_def strip_escapes_id pre_bound_def Let_def truncate_text_def split_ws_def
        is_printable_def is_space_def rng_def)
qed

lemma sanitize_clean: "clean_text s \<Longrightarrow> length s \<le> limit \<Longrightarrow> limit \<le> pre_bound \<Longrightarrow> sanitize_text s limit = s"
  by (simp add: sanitize_text_eq clean_normalize truncate_text_def)

text \<open>A value of untrusted output that is placed into a suggested command by \<open>safe_token\<close> is either
  the placeholder or a plain identifier: at most 81 characters from letters, digits and \<open>_.,=-\<close>,
  beginning with a letter, a digit or an underscore (so never an option), although the pattern's \<open>$\<close>
  would accept a final newline.\<close>

theorem safe_token_identifier:
  "safe_token value placeholder = placeholder \<or>
   (list_all (alnum_or ''_.,=-'') (safe_token value placeholder)
    \<and> 0 < length (safe_token value placeholder) \<and> length (safe_token value placeholder) \<le> 81
    \<and> alnum_or ''_'' (hd (safe_token value placeholder)))"
proof (cases "rx_match safe_token_rx (strip value)")
  case None
  then show ?thesis by (simp add: safe_token_def)
next
  case (Some t)
  let ?s = "strip value"
  have "rx_rel safe_token_rx ([], ?s, []) t"
    using Some by (auto simp: rx_match_def intro: rx_m_sound split: list.splits)
  then obtain w where w: "?s = w @ rest t" "rest t = [] \<or> rest t = [CHR 0x0A]"
      "list_all (alnum_or ''_.,=-'') w" "w \<noteq> []" "alnum_or ''_'' (hd w)" "length w \<le> 81"
    using safe_token_rx_parts by blast
  have "rest t \<noteq> [CHR 0x0A]"
    using strip_not_space [of "value"] w(1) by (auto simp: is_space_def rng_def)
  then have "?s = w" using w(1,2) by simp
  then show ?thesis using w Some by (simp add: safe_token_def)
qed

end
