(* ===== verification/ValueTypes.thy ===== *)
theory ValueTypes
  imports Textsafe
begin

text \<open>
  \<open>ipa_diagnose/resolution/types.py\<close>: the typed values that may reach a command line or a check
  parameter. One definition per validator; \<open>validate\<close> dispatches on the type name. A validator returns
  the canonical value, or None when the value is refused; \<open>_ldap_port\<close> is the one validator that can
  raise, so \<open>validate\<close> returns \<open>exn + string option\<close>.
\<close>

section \<open>Tables\<close>

definition IPA_SERVICES :: "(string \<times> string \<times> string) list" where
  "IPA_SERVICES =
    [(''dirsrv'', ''dirsrv@'' @ ''{instance}.service'', ''ipactl''),
     (''krb5kdc'', ''krb5kdc.service'', ''ipactl''),
     (''kadmin'', ''kadmin.service'', ''ipactl''),
     (''httpd'', ''httpd.service'', ''ipactl''),
     (''ipa-custodia'', ''ipa-custodia.service'', ''ipactl''),
     (''pki-tomcatd'', ''pki-tomcatd@pki-tomcat.service'', ''ipactl''),
     (''ipa-dnskeysyncd'', ''ipa-dnskeysyncd.service'', ''ipactl''),
     (''certmonger'', ''certmonger.service'', ''systemctl''),
     (''sssd'', ''sssd.service'', ''systemctl''),
     (''chronyd'', ''chronyd.service'', ''systemctl''),
     (''gssproxy'', ''gssproxy.service'', ''systemctl'')]"

definition IPA_PATH_PREFIXES :: "string list" where
  "IPA_PATH_PREFIXES =
    [''/etc/ipa/'', ''/etc/pki/pki-tomcat/'', ''/var/lib/pki/'', ''/etc/dirsrv/'', ''/var/lib/ipa/'',
     ''/var/log/dirsrv/'', ''/var/log/pki/'', ''/var/log/httpd/'', ''/var/log/ipa/'',
     ''/etc/httpd/'', ''/var/named/'', ''/var/kerberos/krb5kdc/'', ''/etc/sssd/'', ''/etc/gssproxy/'',
     ''/usr/share/ipa/'']"

definition IPA_PATH_EXACT :: "string list" where
  "IPA_PATH_EXACT =
    [''/etc/named.conf'', ''/etc/named.keytab'', ''/etc/krb5.keytab'', ''/etc/krb5.conf'',
     ''/var/log/krb5kdc.log'', ''/var/log/kadmind.log'', ''/var/log/ipaserver-install.log'',
     ''/var/log/ipareplica-install.log'', ''/var/log/ipaclient-install.log'', ''/var/log/ipaupgrade.log'']"

definition IPA_ACCOUNTS :: "string list" where
  "IPA_ACCOUNTS = [''root'', ''dirsrv'', ''pkiuser'', ''named'', ''apache'', ''ipaapi'', ''kdcproxy'',
     ''sssd'', ''ods'', ''gssproxy'']"

definition IPA_PORTS :: "string list" where
  "IPA_PORTS = [''88'', ''389'', ''443'', ''464'', ''636'']"

definition REPL_TRANSPORTS :: "string list" where "REPL_TRANSPORTS = [''LDAP'', ''TLS'', ''SSL'']"
definition SUFFIX_KINDS :: "string list" where "SUFFIX_KINDS = [''domain'', ''ca'']"

section \<open>Patterns\<close>

definition is_lower_alnum :: "char \<Rightarrow> bool" where
  "is_lower_alnum c = (is_lower c \<or> is_digit09 c)"

definition is_upper_alnum :: "char \<Rightarrow> bool" where
  "is_upper_alnum c = (is_upper c \<or> is_digit09 c)"

definition path_rx :: rx where
  "path_rx = seqs [Bos, Cls (\<lambda>c. c = CHR ''/''), upto 1 4095 (Cls (alnum_or ''._@+/-'')), Eos]"

definition mode_rx :: rx where
  "mode_rx = seqs [Bos, Cls (\<lambda>c. c = CHR ''0''), upto 3 3 (Cls (rng 48 55)), Eos]"

definition posix_name_rx :: rx where
  "posix_name_rx = seqs [Bos, Cls (\<lambda>c. is_lower c \<or> c = CHR ''_''),
     upto 0 31 (Cls (\<lambda>c. is_lower_alnum c \<or> c \<in> set ''_.-'')), Eos]"

definition nickname_rx :: rx where
  "nickname_rx = seqs [Bos, Cls is_alnum_ascii, upto 0 63 (Cls (alnum_or '' ._-'')), Eos]"

definition request_id_rx :: rx where
  "request_id_rx = seqs [Bos, upto 1 40 (Cls (alnum_or ''_.-'')), Eos]"

definition instance_rx :: rx where
  "instance_rx = seqs [Bos, Cls is_alnum_ascii, upto 0 63 (Cls (alnum_or ''_.-'')), Eos]"

definition unit_rx :: rx where
  "unit_rx = seqs [Bos, Cls is_alnum_ascii, upto 0 126 (Cls (alnum_or ''@._-'')), lit ''.service'', Eos]"

definition chmod_rx :: "char \<Rightarrow> rx" where
  "chmod_rx sign =
     (let clause = seqs [Cls (\<lambda>c. c \<in> set ''ugo''), Cls (\<lambda>c. c = sign), upto 1 3 (Cls (\<lambda>c. c \<in> set ''rwx''))]
      in seqs [Bos, clause, upto 0 2 (Seq (Cls (\<lambda>c. c = CHR '','')) clause), Eos])"

definition ipa_name_rx :: rx where
  "ipa_name_rx = seqs [Bos, Cls (alnum_or ''_.''), upto 0 254 (Cls (alnum_or ''_.-'')),
     opt (Cls (alnum_or ''_.$-'')), Eos]"

definition label_rx :: rx where
  "label_rx = seqs [Cls is_lower_alnum,
     opt (Seq (upto 0 61 (Cls (\<lambda>c. is_lower_alnum c \<or> c = CHR ''-''))) (Cls is_lower_alnum))]"

definition fqdn_rx :: rx where
  "fqdn_rx = seqs [Bos, label_rx, plus (Seq (Cls (\<lambda>c. c = CHR ''.'')) label_rx), Eos]"

definition realm_rx :: rx where
  "realm_rx = seqs [Bos, Cls is_upper_alnum,
     opt (Seq (upto 0 251 (Cls (\<lambda>c. is_upper_alnum c \<or> c \<in> set ''.-''))) (Cls is_upper_alnum)), Eos]"

definition pam_service_rx :: rx where
  "pam_service_rx = seqs [Bos, Cls is_alnum_ascii, upto 0 63 (Cls (alnum_or ''_.+-'')), Eos]"

definition sssd_domain_rx :: rx where
  "sssd_domain_rx = seqs [Bos, Cls is_alnum_ascii, upto 0 252 (Cls (alnum_or ''_.-'')), Eos]"

definition dc_suffix_rx :: rx where
  "dc_suffix_rx = seqs [Bos, lit ''dc='', label_rx, star (Seq (lit '',dc='') label_rx), Eos]"

lemmas type_rx_defs [rx_defs] = path_rx_def mode_rx_def posix_name_rx_def nickname_rx_def request_id_rx_def
  instance_rx_def unit_rx_def chmod_rx_def ipa_name_rx_def label_rx_def fqdn_rx_def realm_rx_def
  pam_service_rx_def sssd_domain_rx_def dc_suffix_rx_def

section \<open>\<open>os.path.normpath\<close>\<close>

fun split_on :: "char \<Rightarrow> string \<Rightarrow> string list" where
  "split_on sep [] = [[]]"
| "split_on sep (c # s) =
     (if c = sep then [] # split_on sep s
      else (case split_on sep s of [] \<Rightarrow> [[c]] | w # ws \<Rightarrow> (c # w) # ws))"

fun norm_comps :: "bool \<Rightarrow> string list \<Rightarrow> string list \<Rightarrow> string list" where
  "norm_comps rooted acc [] = rev acc"
| "norm_comps rooted acc (c # cs) =
     (if c = [] \<or> c = ''.'' then norm_comps rooted acc cs
      else if c \<noteq> ''..'' \<or> (\<not> rooted \<and> acc = []) \<or> (acc \<noteq> [] \<and> hd acc = ''..'')
           then norm_comps rooted (c # acc) cs
      else norm_comps rooted (tl acc) cs)"

definition normpath :: "string \<Rightarrow> string" where
  "normpath p =
     (if p = [] then ''.''
      else
        let slashes = (if starts_with p ''//'' \<and> \<not> starts_with p ''///'' then ''//''
                       else if starts_with p ''/'' then ''/'' else []);
            r = slashes @ join ''/'' (norm_comps (slashes \<noteq> []) [] (split_on (CHR ''/'') p))
        in if r = [] then ''.'' else r)"

section \<open>Validators\<close>

definition str_if :: "(string \<Rightarrow> bool) \<Rightarrow> pyval \<Rightarrow> string option" where
  "str_if P v = (case v of PStr s \<Rightarrow> if P s then Some s else None | _ \<Rightarrow> None)"

definition v_ipa_service :: "pyval \<Rightarrow> string option" where
  "v_ipa_service = str_if (\<lambda>s. s \<in> set (map fst IPA_SERVICES))"

definition v_abs_path :: "pyval \<Rightarrow> string option" where
  "v_abs_path v = (case v of
      PStr s \<Rightarrow>
        if \<not> rx_full path_rx s then None
        else if normpath s \<noteq> s \<or> contains s ''//'' \<or> contains s ''/../'' \<or> ends_with s ''/..'' \<or> contains s ''/./''
        then None
        else if \<not> (list_ex (starts_with s) IPA_PATH_PREFIXES \<or> s \<in> set IPA_PATH_EXACT) then None
        else Some s
    | _ \<Rightarrow> None)"

definition v_mode :: "pyval \<Rightarrow> string option" where
  "v_mode v = (case v of
      PStr s \<Rightarrow>
        (let s' = (if length s = 3 \<and> str_isdigit s then CHR ''0'' # s else s)
         in if rx_full mode_rx s' then Some s' else None)
    | _ \<Rightarrow> None)"

definition v_posix_name :: "pyval \<Rightarrow> string option" where
  "v_posix_name = str_if (rx_full posix_name_rx)"

definition v_nickname :: "pyval \<Rightarrow> string option" where
  "v_nickname = str_if (\<lambda>s. rx_full nickname_rx s \<and> \<not> ends_with s '' '')"

definition v_request_id :: "pyval \<Rightarrow> string option" where
  "v_request_id = str_if (\<lambda>s. rx_full request_id_rx s \<and> \<not> starts_with s ''-'')"

definition v_instance :: "pyval \<Rightarrow> string option" where
  "v_instance = str_if (rx_full instance_rx)"

definition v_unit :: "pyval \<Rightarrow> string option" where
  "v_unit = str_if (rx_full unit_rx)"

definition v_ipa_account :: "pyval \<Rightarrow> string option" where
  "v_ipa_account = str_if (\<lambda>s. s \<in> set IPA_ACCOUNTS)"

definition v_chmod_remove :: "pyval \<Rightarrow> string option" where
  "v_chmod_remove = str_if (rx_full (chmod_rx (CHR ''-'')))"

definition v_chmod_add :: "pyval \<Rightarrow> string option" where
  "v_chmod_add = str_if (rx_full (chmod_rx (CHR ''+'')))"

definition v_perm_type :: "pyval \<Rightarrow> string option" where
  "v_perm_type = str_if (\<lambda>s. s \<in> {''mode'', ''owner'', ''group''})"

definition v_ipa_name :: "pyval \<Rightarrow> string option" where
  "v_ipa_name = str_if (\<lambda>s. rx_full ipa_name_rx s \<and> \<not> str_isdigit s \<and> str_lower s \<noteq> ''all'')"

definition v_fqdn :: "pyval \<Rightarrow> string option" where
  "v_fqdn v = (case v of
      PStr s \<Rightarrow> if length s > 253 then None
                else if rx_full fqdn_rx (str_lower s) then Some (str_lower s) else None
    | _ \<Rightarrow> None)"

definition v_realm :: "pyval \<Rightarrow> string option" where
  "v_realm = str_if (\<lambda>s. length s \<le> 253 \<and> rx_full realm_rx s)"

definition principal_ok :: "string \<Rightarrow> string \<Rightarrow> bool" where
  "principal_ok pre s =
     (starts_with s pre \<and> count_char (CHR ''@'') s = 1 \<and>
      (case partition_char (CHR ''@'') (drop (length pre) s) of
         (host, _, realm) \<Rightarrow> v_fqdn (PStr host) = Some host \<and> v_realm (PStr realm) = Some realm))"

definition v_host_principal :: "pyval \<Rightarrow> string option" where
  "v_host_principal = str_if (principal_ok ''host/'')"

definition v_pam_service :: "pyval \<Rightarrow> string option" where
  "v_pam_service = str_if (\<lambda>s. rx_full pam_service_rx s \<and> str_lower s \<noteq> ''all'')"

definition v_sssd_domain :: "pyval \<Rightarrow> string option" where
  "v_sssd_domain = str_if (\<lambda>s. rx_full sssd_domain_rx s \<and> \<not> contains s ''..'')"

definition v_srv_name :: "pyval \<Rightarrow> string option" where
  "v_srv_name = str_if (\<lambda>s. list_ex (\<lambda>pre. starts_with s pre \<and>
       v_fqdn (PStr (drop (length pre) s)) = Some (drop (length pre) s))
     [''_ldap._tcp.'', ''_kerberos._tcp.'', ''_kerberos._udp.''])"

text \<open>\<open>str(v) if isinstance(v, int) and not isinstance(v, bool) else v\<close>\<close>

definition int_to_str :: "pyval \<Rightarrow> pyval" where
  "int_to_str v = (case v of PInt i \<Rightarrow> PStr (show_int i) | _ \<Rightarrow> v)"

definition v_ipa_port :: "pyval \<Rightarrow> string option" where
  "v_ipa_port v = str_if (\<lambda>s. s \<in> set IPA_PORTS) (int_to_str v)"

text \<open>
  \<open>int(v)\<close> raises ValueError on a superscript digit, which \<open>isdigit()\<close> accepts: the one way a
  validator raises.
\<close>

definition v_ldap_port :: "pyval \<Rightarrow> exn + string option" where
  "v_ldap_port v = (case int_to_str v of
      PStr s \<Rightarrow>
        if \<not> str_isdigit s \<or> length s > 5 \<or> starts_with s ''0'' then Inr None
        else (case read_nat s of
                None \<Rightarrow> Inl (ValueError ''invalid literal for int() with base 10'')
              | Some n \<Rightarrow> Inr (if 1 \<le> n \<and> n \<le> 65535 then Some s else None))
    | _ \<Rightarrow> Inr None)"

definition v_repl_transport :: "pyval \<Rightarrow> string option" where
  "v_repl_transport = str_if (\<lambda>s. s \<in> set REPL_TRANSPORTS)"

definition v_domain_suffix :: "pyval \<Rightarrow> string option" where
  "v_domain_suffix v = (case v of
      PStr s \<Rightarrow> if length s > 512 then None
                else if rx_full dc_suffix_rx (str_lower s) then Some (str_lower s) else None
    | _ \<Rightarrow> None)"

definition v_ldap_principal :: "pyval \<Rightarrow> string option" where
  "v_ldap_principal = str_if (principal_ok ''ldap/'')"

definition v_agreement_subject :: "pyval \<Rightarrow> string option" where
  "v_agreement_subject = str_if (\<lambda>s.
     case partition_char (CHR '':'') s of
       (kind, sep, host) \<Rightarrow> sep \<and> kind \<in> set SUFFIX_KINDS \<and> v_fqdn (PStr host) = Some host)"

definition VALIDATORS :: "(string \<times> (pyval \<Rightarrow> exn + string option)) list" where
  "VALIDATORS =
    [(''ipa_user'', Inr \<circ> v_ipa_name),
     (''ipa_group'', Inr \<circ> v_ipa_name),
     (''fqdn'', Inr \<circ> v_fqdn),
     (''host_principal'', Inr \<circ> v_host_principal),
     (''pam_service'', Inr \<circ> v_pam_service),
     (''sssd_domain'', Inr \<circ> v_sssd_domain),
     (''srv_name'', Inr \<circ> v_srv_name),
     (''ipa_port'', Inr \<circ> v_ipa_port),
     (''realm'', Inr \<circ> v_realm),
     (''ipa_service'', Inr \<circ> v_ipa_service),
     (''ipa_path'', Inr \<circ> v_abs_path),
     (''file_mode'', Inr \<circ> v_mode),
     (''posix_name'', Inr \<circ> v_posix_name),
     (''cert_nickname'', Inr \<circ> v_nickname),
     (''certmonger_request_id'', Inr \<circ> v_request_id),
     (''ds_instance'', Inr \<circ> v_instance),
     (''systemd_unit'', Inr \<circ> v_unit),
     (''permission_type'', Inr \<circ> v_perm_type),
     (''ipa_account'', Inr \<circ> v_ipa_account),
     (''chmod_remove'', Inr \<circ> v_chmod_remove),
     (''chmod_add'', Inr \<circ> v_chmod_add),
     (''ldap_port'', v_ldap_port),
     (''repl_transport'', Inr \<circ> v_repl_transport),
     (''domain_suffix'', Inr \<circ> v_domain_suffix),
     (''ldap_principal'', Inr \<circ> v_ldap_principal),
     (''agreement_subject'', Inr \<circ> v_agreement_subject)]"

definition validate :: "string \<Rightarrow> pyval \<Rightarrow> exn + string option" where
  "validate type_name v = (case map_of VALIDATORS type_name of None \<Rightarrow> Inr None | Some fn \<Rightarrow> fn v)"

lemmas validator_defs = v_ipa_service_def v_posix_name_def v_nickname_def v_request_id_def v_instance_def
  v_unit_def v_ipa_account_def v_chmod_remove_def v_chmod_add_def v_perm_type_def v_ipa_name_def
  v_realm_def v_host_principal_def v_pam_service_def v_sssd_domain_def v_srv_name_def
  v_repl_transport_def v_ldap_principal_def v_agreement_subject_def

section \<open>Lemmas\<close>

text \<open>Every value a validator accepts is one it returns unchanged.\<close>

definition canonical :: "(pyval \<Rightarrow> exn + string option) \<Rightarrow> bool" where
  "canonical fn = (\<forall>v s. fn v = Inr (Some s) \<longrightarrow> fn (PStr s) = Inr (Some s))"

lemma str_if_Some: "str_if P v = Some s \<longleftrightarrow> v = PStr s \<and> P s"
  by (auto simp: str_if_def split: pyval.splits)

lemma canonical_str_if: "canonical (Inr \<circ> str_if P)"
  by (auto simp: canonical_def str_if_Some)

lemma code_char_of [simp]: "n < 256 \<Longrightarrow> code (char_of (n :: nat) :: char) = n"
  by (simp add: of_char_of)

lemma lower_char_idem [simp]: "lower_char (lower_char c) = lower_char c"
proof (cases "is_upper c \<or> rng 192 214 c \<or> rng 216 222 c")
  case True
  then have "code c + 32 < 256" by (auto simp: is_upper_def rng_def)
  then have "code (lower_char c) = code c + 32" using True by (simp add: lower_char_def)
  then show ?thesis using True by (auto simp: lower_char_def is_upper_def rng_def)
next
  case False
  then show ?thesis by (simp add: lower_char_def)
qed

lemma str_lower_idem [simp]: "str_lower (str_lower s) = str_lower s"
  by (simp add: str_lower_def)

lemma canonical_fqdn: "canonical (Inr \<circ> v_fqdn)"
  by (auto simp: canonical_def v_fqdn_def split: pyval.splits if_splits)

lemma canonical_suffix: "canonical (Inr \<circ> v_domain_suffix)"
  by (auto simp: canonical_def v_domain_suffix_def split: pyval.splits if_splits)

lemma canonical_path: "canonical (Inr \<circ> v_abs_path)"
  by (auto simp: canonical_def v_abs_path_def split: pyval.splits if_splits)

lemma canonical_ports: "canonical (Inr \<circ> v_ipa_port)" "canonical v_ldap_port"
  by (auto simp: canonical_def v_ipa_port_def v_ldap_port_def str_if_Some int_to_str_def
      split: pyval.splits if_splits option.splits)

lemma rx_mode_length: "rx_full mode_rx s \<Longrightarrow> length s = 4"
proof -
  assume "rx_full mode_rx s"
  then obtain t where t: "rx_rel mode_rx ([], s, []) t" "rest t = []" using rx_full_rel by blast
  have rep: "rx_rel (Rep n (Some n) True (Cls p)) u v \<Longrightarrow> length (rest u) = length (rest v) + n" for n p u v
  proof (induction n arbitrary: u)
    case 0
    then show ?case by (auto elim: rx_rel_RepE)
  next
    case (Suc n)
    then show ?case by (auto elim!: rx_rel_RepE [of "Suc n"] rx_rel_ClsE)
  qed
  from t show ?thesis
    by (auto simp: mode_rx_def rx_shape elim!: rx_rel_SeqE rx_rel_ClsE rx_rel_BosE rx_rel_EosE dest!: rep)
qed

lemma canonical_mode: "canonical (Inr \<circ> v_mode)"
  unfolding canonical_def v_mode_def
  by (auto simp: Let_def split: pyval.splits if_splits dest: rx_mode_length)

lemmas canonical_all = canonical_str_if canonical_fqdn canonical_suffix canonical_path canonical_ports canonical_mode

lemma validators_canonical: "list_all (\<lambda>(ty, fn). canonical fn) VALIDATORS"
  by (simp add: VALIDATORS_def canonical_all validator_defs)

lemma validate_cases:
  assumes "validate ty v = Inr (Some s)"
  obtains fn where "(ty, fn) \<in> set VALIDATORS" "fn v = Inr (Some s)" "map_of VALIDATORS ty = Some fn"
  using assms by (auto simp: validate_def split: option.splits dest: map_of_SomeD)

text \<open>The characters and the first character of an accepted value.\<close>

definition safe_char :: "char \<Rightarrow> bool" where
  "safe_char = alnum_or ''._@+/-,=:$ ''"

definition safe_value :: "string \<Rightarrow> bool" where
  "safe_value s = (s \<noteq> [] \<and> hd s \<noteq> CHR ''-'' \<and> list_all safe_char s)"

definition yields_safe :: "(pyval \<Rightarrow> exn + string option) \<Rightarrow> bool" where
  "yields_safe fn = (\<forall>v s. fn v = Inr (Some s) \<longrightarrow> safe_value s)"

text \<open>Characters that no shell reads as anything but themselves, in a word that is not an option.\<close>

definition word_char :: "char \<Rightarrow> bool" where
  "word_char = alnum_or ''._@+/-,=:''"

definition word_value :: "string \<Rightarrow> bool" where
  "word_value s = (s \<noteq> [] \<and> hd s \<noteq> CHR ''-'' \<and> list_all word_char s)"

definition yields_word :: "(pyval \<Rightarrow> exn + string option) \<Rightarrow> bool" where
  "yields_word fn = (\<forall>v s. fn v = Inr (Some s) \<longrightarrow> word_value s)"

lemma word_classes:
  "is_lower c \<Longrightarrow> word_char c" "is_upper c \<Longrightarrow> word_char c" "is_digit09 c \<Longrightarrow> word_char c"
  "is_alnum_ascii c \<Longrightarrow> word_char c" "is_lower_alnum c \<Longrightarrow> word_char c" "is_upper_alnum c \<Longrightarrow> word_char c"
  by (auto simp: word_char_def alnum_or_def is_alnum_ascii_def is_lower_alnum_def is_upper_alnum_def)

lemma not_dash:
  "\<not> is_lower (CHR ''-'')" "\<not> is_upper (CHR ''-'')" "\<not> is_digit09 (CHR ''-'')" "\<not> is_alnum_ascii (CHR ''-'')"
  "\<not> is_lower_alnum (CHR ''-'')" "\<not> is_upper_alnum (CHR ''-'')"
  by (simp_all add: is_lower_def is_upper_def is_digit09_def is_alnum_ascii_def is_lower_alnum_def
      is_upper_alnum_def rng_def)

lemma ascii_lower: "list_all is_lower ''abcdefghijklmnopqrstuvwxyz''"
  by (simp add: is_lower_def rng_def)

lemma ascii_upper: "list_all is_upper ''ABCDEFGHIJKLMNOPQRSTUVWXYZ''"
  by (simp add: is_upper_def rng_def)

lemma ascii_digit: "list_all is_digit09 ''0123456789''"
  by (simp add: is_digit09_def rng_def)

lemmas ascii_facts [simp] = ascii_lower [unfolded list.pred_inject] ascii_upper [unfolded list.pred_inject]
  ascii_digit [unfolded list.pred_inject]

lemma rng_octal: "rng 48 55 c \<Longrightarrow> is_digit09 c"
  by (simp add: is_digit09_def rng_def)

lemma alnum_or_word: "set cs \<subseteq> set ''._@+/-,=:'' \<Longrightarrow> alnum_or cs c \<Longrightarrow> word_char c"
  unfolding word_char_def alnum_or_def by blast

lemma rx_full_word:
  assumes "rx_full r s" "rx_all word_char r" "rx_first (\<lambda>c. c \<noteq> CHR ''-'') r" "\<not> nullable r"
  shows "word_value s"
  using rx_full_chars [OF assms(1,2)] rx_full_first [OF assms(1,3,4)] by (simp add: word_value_def)

lemmas pattern_chars = alnum_or_word word_classes rng_octal [THEN word_classes(3)]

definition word_rx :: "rx \<Rightarrow> bool" where
  "word_rx r = (rx_all word_char r \<and> rx_first (\<lambda>c. c \<noteq> CHR ''-'') r \<and> \<not> nullable r)"

lemma word_rxI: "word_rx r \<Longrightarrow> rx_full r s \<Longrightarrow> word_value s"
  using rx_full_word by (simp add: word_rx_def)

lemma word_patterns:
  "word_rx path_rx" "word_rx mode_rx" "word_rx posix_name_rx" "word_rx instance_rx"
  "word_rx unit_rx" "word_rx (chmod_rx (CHR ''-''))" "word_rx (chmod_rx (CHR ''+''))"
  "word_rx fqdn_rx" "word_rx realm_rx" "word_rx pam_service_rx" "word_rx sssd_domain_rx" "word_rx dc_suffix_rx"
  by (auto simp: word_rx_def rx_defs rx_shape Let_def not_dash word_char_def alnum_or_def is_alnum_ascii_def
      is_lower_alnum_def is_upper_alnum_def dest: rng_octal)

lemma yields_word_str_if: "(\<And>s. P s \<Longrightarrow> word_value s) \<Longrightarrow> yields_word (Inr \<circ> str_if P)"
  by (auto simp: yields_word_def str_if_Some)

lemma word_value_app:
  "word_value a \<Longrightarrow> list_all word_char b \<Longrightarrow> word_value (a @ b)"
  by (auto simp: word_value_def)

lemma word_value_chars: "word_value s \<Longrightarrow> list_all word_char s"
  by (simp add: word_value_def)

lemma v_fqdn_Some: "v_fqdn v = Some s \<Longrightarrow> rx_full fqdn_rx s"
  by (auto simp: v_fqdn_def split: pyval.splits if_splits)

lemma fqdn_word: "v_fqdn v = Some s \<Longrightarrow> word_value s"
  using word_rxI [OF word_patterns(8)] v_fqdn_Some by blast

lemma realm_word: "v_realm v = Some s \<Longrightarrow> word_value s"
  using word_rxI [OF word_patterns(9)] by (auto simp: v_realm_def str_if_Some)

lemma list_all_set: "list_all P xs \<Longrightarrow> x \<in> set xs \<Longrightarrow> P x"
  by (simp add: list_all_iff)

lemma tables_word: "list_all word_value (map fst IPA_SERVICES)" "list_all word_value IPA_ACCOUNTS"
    "list_all word_value IPA_PORTS" "list_all word_value REPL_TRANSPORTS"
  by (simp_all add: IPA_SERVICES_def IPA_ACCOUNTS_def IPA_PORTS_def REPL_TRANSPORTS_def word_value_def
      word_char_def alnum_or_def is_alnum_ascii_def)

lemma literals_word: "word_value ''mode''" "word_value ''owner''" "word_value ''group''" "word_value ''host/''"
    "word_value ''ldap/''" "word_value ''domain:''" "word_value ''ca:''" "word_value ''_ldap._tcp.''"
    "word_value ''_kerberos._tcp.''" "word_value ''_kerberos._udp.''" "word_char (CHR ''@'')"
  by (simp_all add: word_value_def word_char_def alnum_or_def is_alnum_ascii_def)

lemma principal_word:
  assumes "principal_ok pre s" "word_value pre"
  shows "word_value s"
proof -
  obtain host found realm where p: "partition_char (CHR ''@'') (drop (length pre) s) = (host, found, realm)"
      "v_fqdn (PStr host) = Some host" "v_realm (PStr realm) = Some realm" "starts_with s pre"
    using assms(1) by (auto simp: principal_ok_def split: prod.splits)
  have r: "word_value realm" "word_value host" using p realm_word fqdn_word by blast+
  then have "realm \<noteq> []" by (simp add: word_value_def)
  then have "drop (length pre) s = host @ CHR ''@'' # realm"
    using partition_char_join [OF p(1)] by (auto split: if_splits)
  then have "s = pre @ host @ CHR ''@'' # realm" using p(4) by (auto simp: starts_with_iff)
  then show ?thesis
    using r assms(2) by (simp add: word_value_app word_value_chars literals_word(11))
qed

lemma subject_word:
  assumes "partition_char (CHR '':'') s = (kind, True, host)" "kind \<in> set SUFFIX_KINDS" "v_fqdn (PStr host) = Some host"
  shows "word_value s"
proof -
  have "s = kind @ CHR '':'' # host" using partition_char_join [OF assms(1)] by simp
  then consider "s = ''domain:'' @ host" | "s = ''ca:'' @ host" using assms(2) by (auto simp: SUFFIX_KINDS_def)
  then show ?thesis
    by cases (simp_all only: word_value_app literals_word word_value_chars [OF fqdn_word [OF assms(3)]])
qed

lemma srv_word:
  assumes "starts_with s pre" "v_fqdn (PStr (drop (length pre) s)) = Some (drop (length pre) s)"
    and "word_value pre"
  shows "word_value s"
proof -
  have "s = pre @ drop (length pre) s" using assms(1) by (auto simp: starts_with_iff)
  then show ?thesis using word_value_app [OF assms(3) word_value_chars [OF fqdn_word [OF assms(2)]]] by simp
qed

lemma request_id_word: "rx_full request_id_rx s \<Longrightarrow> \<not> starts_with s ''-'' \<Longrightarrow> word_value s"
proof -
  assume r: "rx_full request_id_rx s" and d: "\<not> starts_with s ''-''"
  have "rx_all word_char request_id_rx" "rx_first (\<lambda>_. True) request_id_rx" "\<not> nullable request_id_rx"
    by (auto simp: request_id_rx_def rx_shape word_char_def alnum_or_def)
  then have "list_all word_char s" "s \<noteq> []" using rx_full_chars [OF r] rx_full_first [OF r] by auto
  then show ?thesis using d by (cases s) (auto simp: word_value_def starts_with_def)
qed

lemma read_nat_acc_None: "read_nat_acc n s = None \<longleftrightarrow> \<not> list_all is_digit09 s"
  by (induction n s rule: read_nat_acc.induct) auto

lemma read_nat_None: "read_nat s = None \<longleftrightarrow> s = [] \<or> \<not> list_all is_digit09 s"
  by (simp add: read_nat_def read_nat_acc_None)

lemma read_nat_Some: "read_nat s = Some n \<Longrightarrow> list_all is_digit09 s"
  using read_nat_None [of s] by auto

lemma digits_word: "read_nat s = Some n \<Longrightarrow> word_value s"
proof -
  assume "read_nat s = Some n"
  then have "s \<noteq> []" "list_all is_digit09 s" using read_nat_None [of s] by auto
  then show ?thesis using not_dash(3) by (cases s) (auto simp: word_value_def list_all_iff word_classes)
qed

lemma yields_word_others:
  "yields_word (Inr \<circ> v_fqdn)" "yields_word (Inr \<circ> v_mode)" "yields_word (Inr \<circ> v_abs_path)"
  "yields_word (Inr \<circ> v_domain_suffix)" "yields_word (Inr \<circ> v_ipa_port)" "yields_word v_ldap_port"
proof -
  show "yields_word (Inr \<circ> v_fqdn)" by (simp add: yields_word_def fqdn_word)
  show "yields_word (Inr \<circ> v_mode)"
    by (auto simp: yields_word_def v_mode_def Let_def split: pyval.splits if_splits
        dest: word_rxI [OF word_patterns(2)])
  show "yields_word (Inr \<circ> v_abs_path)"
    by (auto simp: yields_word_def v_abs_path_def split: pyval.splits if_splits
        dest: word_rxI [OF word_patterns(1)])
  show "yields_word (Inr \<circ> v_domain_suffix)"
    by (auto simp: yields_word_def v_domain_suffix_def split: pyval.splits if_splits
        dest: word_rxI [OF word_patterns(12)])
  show "yields_word (Inr \<circ> v_ipa_port)"
    by (auto simp: yields_word_def v_ipa_port_def str_if_Some intro: tables_word(3) [THEN list_all_set])
  show "yields_word v_ldap_port"
    by (auto simp: yields_word_def v_ldap_port_def split: pyval.splits if_splits option.splits dest: digits_word)
qed

lemma yields_word_str:
  "yields_word (Inr \<circ> v_ipa_service)" "yields_word (Inr \<circ> v_posix_name)"
  "yields_word (Inr \<circ> v_request_id)" "yields_word (Inr \<circ> v_instance)" "yields_word (Inr \<circ> v_unit)"
  "yields_word (Inr \<circ> v_ipa_account)" "yields_word (Inr \<circ> v_chmod_remove)" "yields_word (Inr \<circ> v_chmod_add)"
  "yields_word (Inr \<circ> v_perm_type)" "yields_word (Inr \<circ> v_realm)"
  "yields_word (Inr \<circ> v_host_principal)" "yields_word (Inr \<circ> v_pam_service)"
  "yields_word (Inr \<circ> v_sssd_domain)" "yields_word (Inr \<circ> v_srv_name)" "yields_word (Inr \<circ> v_repl_transport)"
  "yields_word (Inr \<circ> v_ldap_principal)" "yields_word (Inr \<circ> v_agreement_subject)"
proof -
  note sp = word_patterns [THEN word_rxI]
  show "yields_word (Inr \<circ> v_ipa_service)"
    unfolding v_ipa_service_def using tables_word(1) [THEN list_all_set] by (rule yields_word_str_if)
  show "yields_word (Inr \<circ> v_ipa_account)"
    unfolding v_ipa_account_def using tables_word(2) [THEN list_all_set] by (rule yields_word_str_if)
  show "yields_word (Inr \<circ> v_repl_transport)"
    unfolding v_repl_transport_def using tables_word(4) [THEN list_all_set] by (rule yields_word_str_if)
  show "yields_word (Inr \<circ> v_posix_name)"
    unfolding v_posix_name_def using sp(3) by (rule yields_word_str_if)
  show "yields_word (Inr \<circ> v_request_id)"
    unfolding v_request_id_def using request_id_word by (intro yields_word_str_if) simp
  show "yields_word (Inr \<circ> v_instance)"
    unfolding v_instance_def using sp(4) by (rule yields_word_str_if)
  show "yields_word (Inr \<circ> v_unit)"
    unfolding v_unit_def using sp(5) by (rule yields_word_str_if)
  show "yields_word (Inr \<circ> v_chmod_remove)"
    unfolding v_chmod_remove_def using sp(6) by (rule yields_word_str_if)
  show "yields_word (Inr \<circ> v_chmod_add)"
    unfolding v_chmod_add_def using sp(7) by (rule yields_word_str_if)
  show "yields_word (Inr \<circ> v_perm_type)"
    unfolding v_perm_type_def using literals_word(1-3) by (intro yields_word_str_if) blast
  show "yields_word (Inr \<circ> v_realm)"
    unfolding v_realm_def using sp(9) by (intro yields_word_str_if) simp
  show "yields_word (Inr \<circ> v_host_principal)"
    unfolding v_host_principal_def using principal_word literals_word(4) by (intro yields_word_str_if) blast
  show "yields_word (Inr \<circ> v_ldap_principal)"
    unfolding v_ldap_principal_def using principal_word literals_word(5) by (intro yields_word_str_if) blast
  show "yields_word (Inr \<circ> v_pam_service)"
    unfolding v_pam_service_def using sp(10) by (intro yields_word_str_if) simp
  show "yields_word (Inr \<circ> v_sssd_domain)"
    unfolding v_sssd_domain_def using sp(11) by (intro yields_word_str_if) simp
  show "yields_word (Inr \<circ> v_srv_name)"
    unfolding v_srv_name_def using srv_word literals_word(8-10) by (intro yields_word_str_if) auto
  show "yields_word (Inr \<circ> v_agreement_subject)"
    unfolding v_agreement_subject_def using subject_word
    by (intro yields_word_str_if) (simp split: prod.splits)
qed

lemma ends_with_app: "ends_with (a @ p) p"
  by (simp add: ends_with_def)

text \<open>Two types admit one more character: a name of the directory may end with a dollar sign, a certificate's nickname may have blanks
  inside.\<close>

definition name_value :: "string \<Rightarrow> bool" where
  "name_value s = (word_value (butlast s) \<and> last s = CHR ''$'' \<or> word_value s)"

definition nick_value :: "string \<Rightarrow> bool" where
  "nick_value s =
     (s \<noteq> [] \<and> is_alnum_ascii (hd s) \<and> last s \<noteq> CHR '' '' \<and> list_all (\<lambda>c. word_char c \<or> c = CHR '' '') s)"

lemma rx_opt: "rx_rel (opt r) s t \<Longrightarrow> t = s \<or> rx_rel r s t"
  unfolding opt_def by (erule rx_rel_RepE, simp, erule rx_rel_RepE, simp_all)

lemma ipa_name_value:
  assumes "rx_full ipa_name_rx s"
  shows "name_value s"
proof -
  let ?a = "Cls (alnum_or ''_.'')" and ?b = "upto 0 254 (Cls (alnum_or ''_.-''))" and ?c = "opt (Cls (alnum_or ''_.$-''))"
  obtain t where t: "rx_rel ipa_name_rx ([], s, []) t" "rest t = []" using rx_full_rel [OF assms] by blast
  then obtain u v w where m: "rx_rel ?a ([], s, []) u" "rx_rel ?b u v" "rx_rel ?c v w" "rest w = []"
    by (auto simp: ipa_name_rx_def elim!: rx_rel_SeqE rx_rel_BosE rx_rel_EosE)
  obtain x where x: "s = x # rest u" "alnum_or ''_.'' x" using m(1) by (auto elim!: rx_rel_ClsE)
  have "rx_all word_char ?b" by (auto simp: rx_shape word_char_def alnum_or_def)
  then obtain y where y: "rest u = y @ rest v" "list_all word_char y"
    using rx_rel_word [OF m(2), of word_char "\<lambda>_. True"] by (auto simp: took_def)
  have z: "rest v = [] \<or> (\<exists>c. rest v = [c] \<and> alnum_or ''_.$-'' c)"
    using rx_opt [OF m(3)] m(4) by (auto elim!: rx_rel_ClsE)
  have "word_value (x # y)" using x(2) y(2) by (auto simp: word_value_def word_char_def alnum_or_def is_alnum_ascii_def not_dash)
  note w = this
  from z show ?thesis
  proof (elim disjE exE conjE)
    assume "rest v = []"
    then show ?thesis using w x(1) y(1) by (simp add: name_value_def)
  next
    fix c assume c: "rest v = [c]" "alnum_or ''_.$-'' c"
    have s: "s = (x # y) @ [c]" using c(1) x(1) y(1) by simp
    have "c = CHR ''$'' \<or> word_char c" using c(2) by (auto simp: alnum_or_def word_char_def)
    then show ?thesis
    proof
      assume "c = CHR ''$''"
      then show ?thesis using w unfolding name_value_def s by (metis butlast_snoc last_snoc)
    next
      assume "word_char c"
      then have "word_value s" using w unfolding s by (simp add: word_value_def)
      then show ?thesis by (simp add: name_value_def)
    qed
  qed
qed

lemma nickname_value:
  assumes "rx_full nickname_rx s" "\<not> ends_with s '' ''"
  shows "nick_value s"
proof -
  have "rx_all (\<lambda>c. word_char c \<or> c = CHR '' '') nickname_rx" "rx_first is_alnum_ascii nickname_rx" "\<not> nullable nickname_rx"
    by (auto simp: rx_defs rx_shape word_char_def alnum_or_def)
  then have "s \<noteq> [] \<and> is_alnum_ascii (hd s) \<and> list_all (\<lambda>c. word_char c \<or> c = CHR '' '') s"
    using rx_full_chars [OF assms(1)] rx_full_first [OF assms(1)] by blast
  moreover have "last s \<noteq> CHR '' ''" if "s \<noteq> []"
    using assms(2) that by (metis append_butlast_last_id ends_with_app)
  ultimately show ?thesis by (simp add: nick_value_def)
qed

definition accepted_value :: "string \<Rightarrow> string \<Rightarrow> bool" where
  "accepted_value ty s =
     (if ty = ''cert_nickname'' then nick_value s
      else if ty \<in> {''ipa_user'', ''ipa_group''} then name_value s
      else word_value s)"

definition yields_accepted :: "string \<Rightarrow> (pyval \<Rightarrow> exn + string option) \<Rightarrow> bool" where
  "yields_accepted ty fn = (\<forall>v s. fn v = Inr (Some s) \<longrightarrow> accepted_value ty s)"

lemma yields_accepted_word:
  "yields_word fn \<Longrightarrow> ty \<noteq> ''cert_nickname'' \<Longrightarrow> ty \<noteq> ''ipa_user'' \<Longrightarrow> ty \<noteq> ''ipa_group'' \<Longrightarrow> yields_accepted ty fn"
  by (simp add: yields_accepted_def yields_word_def accepted_value_def)

lemma yields_accepted_other:
  "yields_accepted ''ipa_user'' (Inr \<circ> v_ipa_name)" "yields_accepted ''ipa_group'' (Inr \<circ> v_ipa_name)"
  "yields_accepted ''cert_nickname'' (Inr \<circ> v_nickname)"
  by (auto simp: yields_accepted_def accepted_value_def v_ipa_name_def v_nickname_def str_if_Some
      intro: ipa_name_value nickname_value)

lemma validators_accepted: "list_all (\<lambda>(ty, fn). yields_accepted ty fn) VALIDATORS"
  by (simp add: VALIDATORS_def yields_accepted_other yields_accepted_word yields_word_others yields_word_str del: o_apply)

lemma word_char_safe: "word_char c \<Longrightarrow> safe_char c"
  unfolding word_char_def safe_char_def alnum_or_def by auto

lemma word_is_safe: "word_value s \<Longrightarrow> safe_value s"
  unfolding word_value_def safe_value_def using word_char_safe by (simp add: list_all_iff)

lemma name_is_safe: "name_value s \<Longrightarrow> safe_value s"
proof (cases "word_value s")
  case False
  assume "name_value s"
  then have w: "safe_value (butlast s)" "last s = CHR ''$''" using False word_is_safe by (auto simp: name_value_def)
  have d: "safe_char (CHR ''$'')" by (simp add: safe_char_def alnum_or_def)
  have "s \<noteq> []" using w(1) by (cases s) (simp_all add: safe_value_def)
  then have s: "s = butlast s @ [CHR ''$'']" using w(2) by (metis append_butlast_last_id)
  have "safe_value (butlast s @ [CHR ''$''])" using w(1) d unfolding safe_value_def by simp
  then show ?thesis unfolding s [symmetric] .
qed (rule word_is_safe)

lemma nick_is_safe: "nick_value s \<Longrightarrow> safe_value s"
proof -
  assume n: "nick_value s"
  have "safe_char (CHR '' '')" by (simp add: safe_char_def alnum_or_def)
  then have "\<forall>c \<in> set s. safe_char c" using n word_char_safe unfolding nick_value_def list_all_iff by blast
  moreover have "hd s \<noteq> CHR ''-''" using n not_dash(4) unfolding nick_value_def by metis
  ultimately show ?thesis using n by (simp add: nick_value_def safe_value_def list_all_iff)
qed

lemma accepted_is_safe: "accepted_value ty s \<Longrightarrow> safe_value s"
  by (auto simp: accepted_value_def word_is_safe name_is_safe nick_is_safe split: if_splits)

lemma validators_safe: "list_all (\<lambda>(ty, fn). yields_safe fn) VALIDATORS"
  using validators_accepted accepted_is_safe by (fastforce simp: list_all_iff yields_accepted_def yields_safe_def)

lemma split_on_first: "sep \<notin> set a \<Longrightarrow> split_on sep (a @ sep # b) = a # split_on sep b"
  by (induction a) auto

lemma split_on_none: "sep \<notin> set a \<Longrightarrow> split_on sep a = [a]"
  by (induction a) auto

text \<open>A component of a split text is delimited by separators or by the ends of the text.\<close>

lemma split_on_parts:
  "c \<in> set (split_on sep s) \<Longrightarrow> \<exists>a b. s = a @ c @ b \<and> (a = [] \<or> last a = sep) \<and> (b = [] \<or> hd b = sep)"
proof (induction s rule: length_induct)
  case (1 s)
  show ?case
  proof (cases "sep \<in> set s")
    case False
    then show ?thesis using "1.prems" split_on_none by (intro exI [of _ "[]"]) auto
  next
    case True
    then obtain x y where s: "s = x @ sep # y" "sep \<notin> set x" by (meson split_list_first)
    with "1.prems" consider "c = x" | "c \<in> set (split_on sep y)" by (auto simp: split_on_first)
    then show ?thesis
    proof cases
      case 1
      then show ?thesis using s by (intro exI [of _ "[]"] exI [of _ "sep # y"]) simp
    next
      case 2
      then obtain a b where "y = a @ c @ b" "a = [] \<or> last a = sep" "b = [] \<or> hd b = sep"
        using "1.IH" [rule_format, of y] s by auto
      then show ?thesis using s by (intro exI [of _ "x @ sep # a"] exI [of _ b]) auto
    qed
  qed
qed

lemma contains_mid: "contains (a @ p @ b) p"
proof (induction a)
  case Nil
  show ?case by (cases "p @ b") (use starts_with_append [of p b] in auto)
next
  case (Cons c a)
  then show ?case by simp
qed

lemma dotdot_component:
  assumes "''..'' \<in> set (split_on (CHR ''/'') s)" "starts_with s ''/''"
  shows "contains s ''/../'' \<or> ends_with s ''/..''"
proof -
  obtain a b where ab: "s = a @ ''..'' @ b" "a = [] \<or> last a = CHR ''/''" "b = [] \<or> hd b = CHR ''/''"
    using split_on_parts [OF assms(1)] by blast
  have "a \<noteq> []" using ab(1) assms(2) by (auto simp: starts_with_def)
  then have a: "a = butlast a @ [CHR ''/'']" using ab(2) by (metis append_butlast_last_id)
  show ?thesis
  proof (cases b)
    case Nil
    then have "s = butlast a @ ''/..''" using ab(1) a by (metis append.assoc append_Cons append_Nil append_Nil2)
    then show ?thesis using ends_with_app [of "butlast a" "''/..''"] by simp
  next
    case (Cons x b')
    then have "s = butlast a @ ''/../'' @ b'" using ab a by (metis append.assoc append_Cons append_Nil list.sel(1) list.distinct(1))
    then show ?thesis using contains_mid [of "butlast a" "''/../''" b'] by simp
  qed
qed

lemma digit_char_digit: "d < 10 \<Longrightarrow> is_digit09 (digit_char d)"
  by (simp add: digit_char_def is_digit09_def rng_def)

lemma show_nat_digits: "list_all is_digit09 (show_nat n)"
  by (induction n rule: show_nat.induct) (subst show_nat.simps, simp add: digit_char_digit)

lemma show_int_digits: "str_isdigit (show_int i) \<Longrightarrow> list_all is_digit09 (show_int i)"
  by (auto simp: show_int_def show_nat_digits str_isdigit_def is_digit_uni_def not_dash split: if_splits)

section \<open>Properties\<close>

lemma word_last: "word_value s \<Longrightarrow> last s \<noteq> CHR ''$''"
proof
  assume w: "word_value s" "last s = CHR ''$''"
  then have "word_char (CHR ''$'')" unfolding word_value_def list_all_iff by (metis last_in_set)
  then show False by (simp add: word_char_def alnum_or_def is_alnum_ascii_def is_lower_def is_upper_def is_digit09_def rng_def)
qed

text \<open>C35: Whatever type it is validated as, a value that is accepted is fit for an argument vector: it is not empty, it does not
  begin with a dash (so no program reads it as an option), and its characters are ASCII letters, digits and \<open>._@+/-,=:\<close>. There are
  two exceptions, and no other: the name of a user or group may end with one \<open>$\<close>, and a certificate's nickname, which begins with a
  letter or digit, may have blanks inside (not at its end).\<close>

theorem validate_safe:
  assumes "validate ty v = Inr (Some s)"
  shows "if ty = ''cert_nickname''
         then s \<noteq> [] \<and> is_alnum_ascii (hd s) \<and> last s \<noteq> CHR '' '' \<and> list_all (\<lambda>c. alnum_or ''._@+/-,=:'' c \<or> c = CHR '' '') s
         else (let w = (if ty \<in> {''ipa_user'', ''ipa_group''} \<and> s \<noteq> [] \<and> last s = CHR ''$'' then butlast s else s)
               in w \<noteq> [] \<and> hd w \<noteq> CHR ''-'' \<and> list_all (alnum_or ''._@+/-,=:'') w)"
proof -
  obtain fn where "(ty, fn) \<in> set VALIDATORS" "fn v = Inr (Some s)"
    using assms by (rule validate_cases)
  then have "accepted_value ty s" using validators_accepted by (auto simp: list_all_iff yields_accepted_def)
  moreover have "if s \<noteq> [] \<and> last s = CHR ''$'' then word_value (butlast s) else word_value s" if "name_value s"
  proof (cases "word_value s")
    case True
    then have "last s \<noteq> CHR ''$''" by (rule word_last)
    then show ?thesis using True by simp
  next
    case False
    then have "word_value (butlast s)" "last s = CHR ''$''" using that by (auto simp: name_value_def)
    moreover from this have "s \<noteq> []" by (cases s) (simp_all add: word_value_def)
    ultimately show ?thesis by simp
  qed
  ultimately show ?thesis
    unfolding accepted_value_def nick_value_def word_value_def word_char_def Let_def by (simp split: if_splits)
qed

theorem validate_safe_witness:
  "validate ''ipa_service'' (PStr ''sssd'') = Inr (Some ''sssd'') \<and> hd ''sssd'' \<noteq> CHR ''-'' \<and> list_all (alnum_or ''._@+/-,=:'') ''sssd''"
proof -
  have v: "validate ''ipa_service'' (PStr ''sssd'') = Inr (Some ''sssd'')"
    by (simp add: validate_def VALIDATORS_def v_ipa_service_def str_if_def IPA_SERVICES_def)
  show ?thesis using v validate_safe [OF v] by (simp add: Let_def)
qed

text \<open>Validation is canonical: the value it returns validates, as the same type, to itself. So values
  that are validated again (the planner's parameters by the runner, saved bindings by a verify run) are
  neither refused nor changed.\<close>

theorem validate_canonical:
  assumes "validate ty v = Inr (Some s)"
  shows "validate ty (PStr s) = Inr (Some s)"
proof -
  obtain fn where fn: "(ty, fn) \<in> set VALIDATORS" "fn v = Inr (Some s)" "map_of VALIDATORS ty = Some fn"
    using assms by (rule validate_cases)
  then have "canonical fn" using validators_canonical by (auto simp: list_all_iff)
  then show ?thesis using fn(2,3) by (auto simp: canonical_def validate_def)
qed

theorem validate_canonical_witness:
  "validate ''ipa_port'' (PInt 636) = Inr (Some ''636'') \<and> validate ''ipa_port'' (PStr ''636'') = Inr (Some ''636'')"
proof -
  have v: "validate ''ipa_port'' (PInt 636) = Inr (Some ''636'')"
    by code_simp
  show ?thesis using v validate_canonical [OF v] by simp
qed

text \<open>C36: A path accepted for a file-permission procedure cannot leave the IPA locations: it lies under one of
  the allowed prefixes (or is one of the allowed files), is its own normal form and has no \<open>..\<close>
  component.\<close>

theorem ipa_path_no_traversal:
  assumes "validate ''ipa_path'' v = Inr (Some s)"
  shows "''..'' \<notin> set (split_on (CHR ''/'') s) \<and> normpath s = s
     \<and> ((\<exists>p \<in> set IPA_PATH_PREFIXES. starts_with s p) \<or> s \<in> set IPA_PATH_EXACT)"
proof -
  have v: "v_abs_path v = Some s"
    using assms by (simp add: validate_def VALIDATORS_def)
  then have r: "rx_full path_rx s" "\<not> contains s ''/../''" "\<not> ends_with s ''/..''" "normpath s = s"
      "list_ex (starts_with s) IPA_PATH_PREFIXES \<or> s \<in> set IPA_PATH_EXACT"
    by (auto simp: v_abs_path_def split: pyval.splits if_splits)
  have "rx_first (\<lambda>c. c = CHR ''/'') path_rx" "\<not> nullable path_rx"
    by (simp_all add: path_rx_def rx_shape)
  then have "starts_with s ''/''"
    using rx_full_first [OF r(1)] by (cases s) (auto simp: starts_with_def)
  then have "''..'' \<notin> set (split_on (CHR ''/'') s)"
    using dotdot_component r(2,3) by blast
  then show ?thesis using r(4,5) by (auto simp: list_ex_iff)
qed

theorem ipa_path_no_traversal_witness:
  "validate ''ipa_path'' (PStr ''/etc/ipa/c'') = Inr (Some ''/etc/ipa/c'')
   \<and> ''..'' \<notin> set (split_on (CHR ''/'') ''/etc/ipa/c'')"
proof -
  have v: "validate ''ipa_path'' (PStr ''/etc/ipa/c'') = Inr (Some ''/etc/ipa/c'')"
    by code_simp
  show ?thesis using v ipa_path_no_traversal [OF v] by simp
qed

text \<open>The only validator that can raise is the one of LDAP ports, and it raises exactly on a string of at
  most five digits that does not begin with 0 and has a superscript digit in it: \<open>str.isdigit\<close> accepts
  U+00B2, U+00B3 and U+00B9, and \<open>int\<close> then raises ValueError. All other refusals are values.\<close>

theorem validate_raises_iff:
  "(\<exists>e. validate ty v = Inl e) \<longleftrightarrow>
   ty = ''ldap_port'' \<and> (\<exists>s. v = PStr s \<and> str_isdigit s \<and> length s \<le> 5 \<and> \<not> starts_with s ''0''
     \<and> \<not> list_all is_digit09 s)"
proof -
  have raises: "(\<exists>e. v_ldap_port v = Inl e) \<longleftrightarrow> (\<exists>s. int_to_str v = PStr s \<and> str_isdigit s \<and> length s \<le> 5
      \<and> \<not> starts_with s ''0'' \<and> \<not> list_all is_digit09 s)"
    by (auto simp: v_ldap_port_def read_nat_None str_isdigit_def split: pyval.splits option.splits if_splits
        dest: read_nat_Some)
  have "int_to_str v = PStr s \<and> str_isdigit s \<and> \<not> list_all is_digit09 s
      \<longleftrightarrow> v = PStr s \<and> str_isdigit s \<and> \<not> list_all is_digit09 s" for s
    using show_int_digits by (auto simp: int_to_str_def split: pyval.splits)
  then have "(\<exists>e. v_ldap_port v = Inl e) \<longleftrightarrow> (\<exists>s. v = PStr s \<and> str_isdigit s \<and> length s \<le> 5
      \<and> \<not> starts_with s ''0'' \<and> \<not> list_all is_digit09 s)"
    unfolding raises by blast
  moreover have "(\<exists>e. validate ty v = Inl e) \<longleftrightarrow> ty = ''ldap_port'' \<and> (\<exists>e. v_ldap_port v = Inl e)"
    by (auto simp: validate_def VALIDATORS_def)
  ultimately show ?thesis by simp
qed

end
