(* ===== verification/EvidenceModel.thy ===== *)
theory EvidenceModel
  imports Textsafe
begin

text \<open>
  The data of a diagnostic run: \<open>evidence/model.py\<close> (findings, evidence items, the bundle) and
  \<open>engine/model.py\<close> (diagnoses, completeness, the report). One record per dataclass, one datatype per
  enumeration. Field names carry a prefix that stands for the class (\<open>f_\<close> finding, \<open>d_\<close> diagnosis, ...).
\<close>

section \<open>Evidence\<close>

datatype severity = Sev_SUCCESS | Sev_WARNING | Sev_ERROR | Sev_CRITICAL | Sev_UNKNOWN

fun severity_value :: "severity \<Rightarrow> string" where
  "severity_value Sev_SUCCESS = ''SUCCESS''"
| "severity_value Sev_WARNING = ''WARNING''"
| "severity_value Sev_ERROR = ''ERROR''"
| "severity_value Sev_CRITICAL = ''CRITICAL''"
| "severity_value Sev_UNKNOWN = ''UNKNOWN''"

fun rank :: "severity \<Rightarrow> nat" where
  "rank Sev_SUCCESS = 0"
| "rank Sev_WARNING = 1"
| "rank Sev_ERROR = 2"
| "rank Sev_UNKNOWN = 2"
| "rank Sev_CRITICAL = 3"

text \<open>\<open>Severity.__lt__\<close>: a strict weak order, not a linear one (ERROR and UNKNOWN have the same rank).\<close>

definition severity_lt :: "severity \<Rightarrow> severity \<Rightarrow> bool" where
  "severity_lt a b = (rank a < rank b)"

record provenance =
  p_source :: string
  p_command :: "string option"
  p_host :: "string option"
  p_collected_at :: "string option"
  p_live :: bool

record finding =
  f_finding_id :: string
  f_source :: string
  f_check :: string
  f_severity :: severity
  f_message :: string
  f_keywords :: pyval
  f_provenance :: provenance
  f_raw :: pyval

definition f_qualified_check :: "finding \<Rightarrow> string" where
  "f_qualified_check f = f_source f @ ''.'' @ f_check f"

record evidence_item =
  i_item_id :: string
  i_kind :: string
  i_summary :: string
  i_data :: pydict
  i_severity :: "severity option"
  i_provenance :: provenance

record collection_error =
  ce_collector :: string
  ce_message :: string
  ce_permission_related :: bool
  ce_provenance :: "provenance option"

record environment_info =
  env_distro :: "string option"
  env_distro_version :: "string option"
  env_python_version :: "string option"
  env_freeipa_version :: "string option"
  env_ipa_healthcheck_version :: "string option"
  env_directory_server_version :: "string option"
  env_detected_live :: bool

record evidence_bundle =
  b_hostname :: string
  b_collected_at :: string
  b_findings :: "finding list"
  b_items :: "evidence_item list"
  b_collection_errors :: "collection_error list"
  b_environment :: "environment_info option"
  b_replay_source :: "string option"
  b_service_states :: "(string \<times> string) list"
  b_side_effects :: "string list"

definition findings_by_source_prefix :: "evidence_bundle \<Rightarrow> string \<Rightarrow> finding list" where
  "findings_by_source_prefix b pre = filter (\<lambda>f. starts_with (f_source f) pre) (b_findings b)"

definition findings_at_or_above :: "evidence_bundle \<Rightarrow> severity \<Rightarrow> finding list" where
  "findings_at_or_above b s = filter (\<lambda>f. rank (f_severity f) \<ge> rank s) (b_findings b)"

definition items_by_kind :: "evidence_bundle \<Rightarrow> string \<Rightarrow> evidence_item list" where
  "items_by_kind b k = filter (\<lambda>i. i_kind i = k) (b_items b)"

section \<open>Diagnoses\<close>

datatype diagnosis_status =
    DIAGNOSED
  | UNKNOWN_INSUFFICIENT_EVIDENCE
  | UNKNOWN_CONFLICTING_EVIDENCE
  | TRANSIENT_SUSPECTED

datatype priority_bucket = PRIMARY | RELATED_SYMPTOM | SECONDARY_INDEPENDENT | PB_WARNING | INFORMATIONAL

datatype risk_level = SAFE | CAUTION | HIGH_RISK

datatype confidence_level = HIGH | MEDIUM | LOW | INSUFFICIENT

datatype overall_status = HEALTHY | DEGRADED | OS_CRITICAL | OS_UNKNOWN | NOT_FULLY_VERIFIED

fun status_value :: "diagnosis_status \<Rightarrow> string" where
  "status_value DIAGNOSED = ''DIAGNOSED''"
| "status_value UNKNOWN_INSUFFICIENT_EVIDENCE = ''UNKNOWN_INSUFFICIENT_EVIDENCE''"
| "status_value UNKNOWN_CONFLICTING_EVIDENCE = ''UNKNOWN_CONFLICTING_EVIDENCE''"
| "status_value TRANSIENT_SUSPECTED = ''TRANSIENT_SUSPECTED''"

fun priority_value :: "priority_bucket \<Rightarrow> string" where
  "priority_value PRIMARY = ''PRIMARY_PROBLEM''"
| "priority_value RELATED_SYMPTOM = ''RELATED_SYMPTOM''"
| "priority_value SECONDARY_INDEPENDENT = ''SECONDARY_INDEPENDENT_PROBLEM''"
| "priority_value PB_WARNING = ''WARNING''"
| "priority_value INFORMATIONAL = ''INFORMATIONAL''"

fun confidence_value :: "confidence_level \<Rightarrow> string" where
  "confidence_value HIGH = ''HIGH''"
| "confidence_value MEDIUM = ''MEDIUM''"
| "confidence_value LOW = ''LOW''"
| "confidence_value INSUFFICIENT = ''INSUFFICIENT''"

record confidence =
  c_level :: confidence_level
  c_rationale :: string
  c_corroborating :: int
  c_contradicting :: int

record evidence_ref =
  r_evidence_id :: string
  r_kind :: string
  r_why_relevant :: string

record action =
  a_description :: string
  a_risk :: risk_level
  a_command :: "string option"
  a_rationale :: string
  a_reference :: "string option"

text \<open>
  The re-check of a verification condition is a Python callable that nothing outside the packs calls; it
  is represented by its identity, which is what Python compares callables by.
\<close>

record verification_condition =
  vc_description :: string
  vc_recheck :: nat
  vc_healthcheck_sources :: "string list"

record diagnosis =
  d_pack_id :: string
  d_rule_id :: string
  d_status :: diagnosis_status
  d_title :: string
  d_why :: string
  d_confidence :: confidence
  d_severity :: severity
  d_evidence_for :: "evidence_ref list"
  d_evidence_against :: "evidence_ref list"
  d_impact :: string
  d_priority :: priority_bucket
  d_actions :: "action list"
  d_verification :: "verification_condition list"
  d_limitations :: string
  d_next_diagnostic_step :: "string option"
  d_upstream_candidates :: "string list"
  d_diagnosis_id :: string
  d_related_to_titles :: "string list"
  d_resolution_key :: "string option"
  d_variant :: "string option"
  d_bindings :: pydict
  d_evidence_severity :: "severity option"
  d_not_caused_by :: "string list"
  d_explains_downstream :: bool

text \<open>The dataclass constructor with its defaults, before \<open>__post_init__\<close>.\<close>

definition new_diagnosis ::
  "string \<Rightarrow> string \<Rightarrow> diagnosis_status \<Rightarrow> string \<Rightarrow> string \<Rightarrow> confidence \<Rightarrow> diagnosis" where
  "new_diagnosis pack rule status title why conf =
     \<lparr>d_pack_id = pack, d_rule_id = rule, d_status = status, d_title = title, d_why = why,
      d_confidence = conf, d_severity = Sev_WARNING, d_evidence_for = [], d_evidence_against = [],
      d_impact = [], d_priority = INFORMATIONAL, d_actions = [], d_verification = [], d_limitations = [],
      d_next_diagnostic_step = None, d_upstream_candidates = [], d_diagnosis_id = [],
      d_related_to_titles = [], d_resolution_key = None, d_variant = None, d_bindings = [],
      d_evidence_severity = None, d_not_caused_by = [], d_explains_downstream = True\<rparr>"

text \<open>\<open>not d.next_diagnostic_step\<close>: absent or empty.\<close>

definition no_step :: "diagnosis \<Rightarrow> bool" where
  "no_step d = (d_next_diagnostic_step d = None \<or> d_next_diagnostic_step d = Some [])"

definition post_init :: "diagnosis \<Rightarrow> exn + diagnosis" where
  "post_init d0 =
     (let d = (if d_diagnosis_id d0 = []
               then d0\<lparr>d_diagnosis_id := d_pack_id d0 @ ''.'' @ d_rule_id d0\<rparr> else d0)
      in if d_status d \<noteq> DIAGNOSED \<and> no_step d
         then Inl (ValueError (d_diagnosis_id d @ '': UNKNOWN/transient diagnoses must set '' @
           ''next_diagnostic_step (a safe read-only step to disambiguate).''))
         else if d_status d = DIAGNOSED \<and> c_level (d_confidence d) \<in> {LOW, INSUFFICIENT}
         then Inl (ValueError (d_diagnosis_id d @ '': a DIAGNOSED status requires HIGH or MEDIUM confidence '' @
           ''(got '' @ confidence_value (c_level (d_confidence d)) @ ''). Use UNKNOWN_INSUFFICIENT_EVIDENCE or '' @
           ''UNKNOWN_CONFLICTING_EVIDENCE instead - unknown is better than wrong.''))
         else Inr d)"

text \<open>What every diagnosis that was constructed satisfies.\<close>

definition wf_diagnosis :: "diagnosis \<Rightarrow> bool" where
  "wf_diagnosis d = (d_diagnosis_id d \<noteq> [] \<and> (d_status d \<noteq> DIAGNOSED \<longrightarrow> \<not> no_step d)
     \<and> (d_status d = DIAGNOSED \<longrightarrow> c_level (d_confidence d) \<in> {HIGH, MEDIUM}))"

lemma post_init_wf: "post_init d0 = Inr d \<Longrightarrow> wf_diagnosis d"
  by (cases "c_level (d_confidence d0)")
     (auto simp: post_init_def wf_diagnosis_def no_step_def Let_def split: if_splits)

section \<open>The report\<close>

record unverified_capability =
  uc_capability :: string
  uc_collector :: string
  uc_reason :: string
  uc_permission_related :: bool
  uc_hint :: string

record evidence_completeness =
  ec_level :: string
  ec_healthcheck_collected :: bool
  ec_unverified :: "unverified_capability list"
  ec_ruv_state :: string
  ec_ruv_reason :: "string option"

record undiagnosed_finding =
  u_source :: string
  u_check :: string
  u_severity :: string
  u_message :: string
  u_reason :: string
  u_crashed :: bool
  u_check_known_since :: "string option"
  u_ipa_healthcheck_version :: "string option"
  u_finding_id :: string
  u_key :: "string option"

text \<open>Of the resolutions of a report only the status of each is read by the modelled code.\<close>

record diagnosis_report =
  rep_generated_at :: string
  rep_hostname :: string
  rep_overall_status :: overall_status
  rep_diagnoses :: "diagnosis list"
  rep_collection_errors :: "string list"
  rep_packs_evaluated :: "string list"
  rep_replay_source :: "string option"
  rep_environment :: "environment_info option"
  rep_evidence_completeness :: evidence_completeness
  rep_unclaimed_warnings :: nat
  rep_undiagnosed_findings :: "undiagnosed_finding list"
  rep_resolutions :: "(string \<times> string) list"
  rep_carried_fixes :: "pydict list"
  rep_carried_diagnoses :: "pydict list"
  rep_service_states :: "(string \<times> string) list"
  rep_side_effects :: "string list"
  rep_unknown_severity_findings :: "string list"

definition by_priority :: "diagnosis_report \<Rightarrow> priority_bucket \<Rightarrow> diagnosis list" where
  "by_priority r bucket = filter (\<lambda>d. d_priority d = bucket) (rep_diagnoses r)"

section \<open>Packs\<close>

text \<open>
  A diagnostic pack (\<open>engine/packs/base.py\<close>): its rules are evaluated in order, a rule that returns None
  does not apply, and an exception of a rule (say of the constructor of a diagnosis) ends the run. The
  bodies of the rules are a parameter of the model.
\<close>

record pack =
  pk_pack_id :: string
  pk_version :: string
  pk_display_name :: string
  pk_rules :: "(string \<times> (evidence_bundle \<Rightarrow> exn + diagnosis option)) list"
  pk_healthcheck_sources :: "string list"
  pk_additional_collectors :: "string list"
  pk_unconditional_collectors :: "string list"

definition pack_evaluate :: "pack \<Rightarrow> evidence_bundle \<Rightarrow> exn + diagnosis list" where
  "pack_evaluate p b =
     bind_exn (sequence_exn (map (\<lambda>(rule_id, evaluate). evaluate b) (pk_rules p)))
       (\<lambda>outcomes. Inr (List.map_filter id outcomes))"

text \<open>The registered packs (\<open>PACK\<close> of each module under \<open>engine/packs\<close>), over the bodies of their rules.\<close>

type_synonym rule_table = "string \<Rightarrow> (string \<times> (evidence_bundle \<Rightarrow> exn + diagnosis option)) list"

definition directory_server_pack :: "rule_table \<Rightarrow> pack" where
  "directory_server_pack rules =
     \<lparr>pk_pack_id = ''directory-server'', pk_version = ''1'', pk_display_name = ''Directory Server / LDAP'',
      pk_rules = rules ''directory-server'',
      pk_healthcheck_sources = [''ipahealthcheck.ds.backends'', ''ipahealthcheck.ds.config'', ''ipahealthcheck.ds.dse'',
        ''ipahealthcheck.ds.encryption'', ''ipahealthcheck.ds.nss_ssl'', ''ipahealthcheck.ds.disk_space'',
        ''ipahealthcheck.system.filesystemspace'', ''ipahealthcheck.ipa.files''],
      pk_additional_collectors = [''filesystem'', ''journal_dirsrv''], pk_unconditional_collectors = []\<rparr>"

definition dns_pack :: "rule_table \<Rightarrow> pack" where
  "dns_pack rules =
     \<lparr>pk_pack_id = ''dns'', pk_version = ''1'', pk_display_name = ''DNS'', pk_rules = rules ''dns'',
      pk_healthcheck_sources = [''ipahealthcheck.ipa.idns''],
      pk_additional_collectors = [''dns_lookup'', ''journal_named''], pk_unconditional_collectors = []\<rparr>"

definition kerberos_pack :: "rule_table \<Rightarrow> pack" where
  "kerberos_pack rules =
     \<lparr>pk_pack_id = ''kerberos'', pk_version = ''1'', pk_display_name = ''Kerberos'', pk_rules = rules ''kerberos'',
      pk_healthcheck_sources = [''ipahealthcheck.ipa.host'', ''ipahealthcheck.ipa.kdc'', ''ipahealthcheck.meta.services''],
      pk_additional_collectors = [''kerberos_client'', ''journal_krb5kdc''], pk_unconditional_collectors = []\<rparr>"

definition replication_pack :: "rule_table \<Rightarrow> pack" where
  "replication_pack rules =
     \<lparr>pk_pack_id = ''replication'', pk_version = ''1'', pk_display_name = ''Replication'', pk_rules = rules ''replication'',
      pk_healthcheck_sources = [''ipahealthcheck.ds.replication'', ''ipahealthcheck.ipa.topology''],
      pk_additional_collectors = [''ldap_query''], pk_unconditional_collectors = [''replication_agreements'']\<rparr>"

definition certificates_pack :: "rule_table \<Rightarrow> pack" where
  "certificates_pack rules =
     \<lparr>pk_pack_id = ''certificates'', pk_version = ''1'', pk_display_name = ''Certificates / CA'',
      pk_rules = rules ''certificates'',
      pk_healthcheck_sources = [''ipahealthcheck.ipa.certs'', ''ipahealthcheck.dogtag.ca''],
      pk_additional_collectors = [''certmonger'', ''journal_pki''], pk_unconditional_collectors = []\<rparr>"

definition all_packs :: "rule_table \<Rightarrow> pack list" where
  "all_packs rules =
     [directory_server_pack rules, dns_pack rules, kerberos_pack rules, replication_pack rules, certificates_pack rules]"

text \<open>\<open>engine/registry.py\<close>: a lookup over the packs, raising KeyError for an unknown id.\<close>

definition pack_by_id :: "pack list \<Rightarrow> string \<Rightarrow> exn + pack" where
  "pack_by_id packs pid = (case find (\<lambda>p. pk_pack_id p = pid) packs of None \<Rightarrow> Inl KeyError | Some p \<Rightarrow> Inr p)"

section \<open>Properties\<close>

text \<open>The constructor enforces "unknown is better than wrong": a diagnosis exists only if it is DIAGNOSED
  with HIGH or MEDIUM confidence, or is not DIAGNOSED and names a next diagnostic step; construction fails
  in exactly the other cases, and it changes nothing but an empty diagnosis id.\<close>

theorem post_init_contract:
  "(\<exists>d. post_init d0 = Inr d) \<longleftrightarrow>
     (if d_status d0 = DIAGNOSED then c_level (d_confidence d0) \<in> {HIGH, MEDIUM} else \<not> no_step d0)"
  by (cases "c_level (d_confidence d0)") (auto simp: post_init_def no_step_def Let_def)

end
