(* ===== verification/Unexplained.thy ===== *)
theory Unexplained
  imports EvidenceModel
begin

text \<open>
  \<open>engine/unexplained.py\<close>: the visibility safety net. ERROR and CRITICAL findings of ipa-healthcheck that no
  rule claims become diagnoses: one per stopped service, one for all other findings, one for all
  checks that crashed.
\<close>

section \<open>Definitions\<close>

definition PACK_ID :: string where "PACK_ID = ''healthcheck''"

definition not_running_rx :: rx where
  "not_running_rx = ci (seqs [Bos, star (Cls is_space),
     Grp 1 (Seq (Cls (alnum_or ''_'')) (star (Cls (alnum_or ''_.@-'')))),
     lit '':'', star (Cls is_space), lit ''not running'', star (Cls is_space), Eos])"

definition source_rx :: rx where
  "source_rx = seqs [Bos, Cls (alnum_or ''_''), star (Cls (alnum_or ''_.'')), Eos]"

definition check_rx :: rx where
  "check_rx = seqs [Bos, plus (Cls (alnum_or ''_'')), Eos]"

lemmas unexplained_rx_defs [rx_defs] = not_running_rx_def source_rx_def check_rx_def

definition IPACTL_SERVICES :: "string list" where
  "IPACTL_SERVICES = [''dirsrv'', ''krb5kdc'', ''kadmin'', ''named'', ''named-pkcs11'', ''httpd'', ''ipa-custodia'',
     ''pki-tomcatd'', ''ipa-otpd'', ''ipa-dnskeysyncd'', ''ipa'']"

definition CORE_SERVICES :: "string list" where
  "CORE_SERVICES = [''dirsrv'', ''krb5kdc'', ''kadmin'', ''httpd'', ''named'', ''named-pkcs11'', ''pki-tomcatd'',
     ''pki_tomcatd'']"

definition MAX_GROUPED :: nat where "MAX_GROUPED = 6"

definition SERVICE_UPSTREAMS :: "string list" where
  "SERVICE_UPSTREAMS = [''directory-server'', ''kerberos'', ''dns'', ''certificates'']"

definition truthy_opt :: "pyval option \<Rightarrow> bool" where
  "truthy_opt v = (case v of None \<Rightarrow> False | Some x \<Rightarrow> truthy x)"

definition is_check_crash :: "finding \<Rightarrow> bool" where
  "is_check_crash f =
     (let kw = as_dict (f_keywords f)
      in truthy_opt (map_of kw ''exception'') \<or> truthy_opt (map_of kw ''traceback''))"

text \<open>\<open>f.message or f.keywords\<close>, as text\<close>

definition message_or_keywords :: "finding \<Rightarrow> string" where
  "message_or_keywords f = (if f_message f \<noteq> [] then f_message f else py_str (f_keywords f))"

definition short :: "string \<Rightarrow> nat \<Rightarrow> string" where
  "short text limit = sanitize_text text limit"

definition safe_target :: "finding \<Rightarrow> bool" where
  "safe_target f = (rx_full source_rx (f_source f) \<and> rx_full check_rx (f_check f))"

definition recheck_command :: "finding \<Rightarrow> string" where
  "recheck_command f =
     (if safe_target f
      then ''ipa-healthcheck --source '' @ f_source f @ '' --check '' @ f_check f @ '' --failures-only''
      else ''ipa-healthcheck --failures-only'')"

definition more_note :: "'a list \<Rightarrow> 'a list \<Rightarrow> string" where
  "more_note findings shown =
     (if length findings > length shown
      then '' (+'' @ show_nat (length findings - length shown) @ '' more)'' else [])"

text \<open>\<open>max((f.severity for f in findings), key=lambda s: s.rank)\<close>; \<open>max\<close> of nothing raises.\<close>

definition worst_severity :: "finding list \<Rightarrow> exn + severity" where
  "worst_severity findings =
     (case findings of
        [] \<Rightarrow> Inl (ValueError ''max() arg is an empty sequence'')
      | f # fs \<Rightarrow> Inr (max_by rank (f_severity f) (map f_severity fs)))"

definition finding_ref :: "string \<Rightarrow> finding \<Rightarrow> evidence_ref" where
  "finding_ref why f = \<lparr>r_evidence_id = f_finding_id f, r_kind = ''finding'', r_why_relevant = why\<rparr>"

definition safe_action :: "string \<Rightarrow> string \<Rightarrow> string \<Rightarrow> action" where
  "safe_action description command rationale =
     \<lparr>a_description = description, a_risk = SAFE, a_command = Some command, a_rationale = rationale, a_reference = None\<rparr>"

definition check_failed_why :: "finding list \<Rightarrow> string" where
  "check_failed_why findings =
     (let shown = take MAX_GROUPED findings;
          lines = join ''; '' (map (\<lambda>f. short (f_check f) 60 @ '': '' @ short (message_or_keywords f) 90) shown)
      in show_nat (length findings) @ '' ipa-healthcheck check(s) raised an exception instead of returning a result, so '' @
         ''they say nothing about the state of the system: '' @ lines @ more_note findings shown @
         ''. This is most often a consequence of another problem in this report (for example a stopped service the check needs).'')"

definition check_failed_confidence :: confidence where
  "check_failed_confidence = \<lparr>c_level = INSUFFICIENT,
     c_rationale = ''A check that crashed produced no result; it is reported so it is never silently dropped.'',
     c_corroborating = 0, c_contradicting = 0\<rparr>"

definition check_failed_actions :: "string \<Rightarrow> action list" where
  "check_failed_actions recheck =
     [safe_action ''Re-run the failing check after resolving any other problem in this report.'' recheck ''Read-only.'']"

definition check_failed_fields :: "finding list \<Rightarrow> severity \<Rightarrow> string \<Rightarrow> diagnosis" where
  "check_failed_fields findings worst recheck =
     (new_diagnosis PACK_ID ''healthcheck-check-failed'' UNKNOWN_INSUFFICIENT_EVIDENCE
        ''One or more ipa-healthcheck checks failed to run'' (check_failed_why findings) check_failed_confidence)
      \<lparr>d_severity := worst,
       d_evidence_for := map (finding_ref ''ipa-healthcheck check raised an exception.'') (take MAX_GROUPED findings),
       d_impact := ''Health of whatever these checks cover is not established.'',
       d_next_diagnostic_step := Some recheck,
       d_actions := check_failed_actions recheck,
       d_limitations := ''No conclusion about the affected subsystem can be drawn from a crashed check.'',
       d_upstream_candidates := SERVICE_UPSTREAMS\<rparr>"

definition check_failed_diagnosis :: "finding list \<Rightarrow> exn + diagnosis" where
  "check_failed_diagnosis findings =
     (case worst_severity findings of
        Inl e \<Rightarrow> Inl e
      | Inr worst \<Rightarrow> post_init (check_failed_fields findings worst (recheck_command (hd findings))))"

definition claimed_ids :: "diagnosis list \<Rightarrow> string list" where
  "claimed_ids ds = concat (map (\<lambda>d. map r_evidence_id (d_evidence_for d) @ map r_evidence_id (d_evidence_against d)) ds)"

text \<open>\<open>service.split("@")[0]\<close>\<close>

definition before_at :: "string \<Rightarrow> string" where
  "before_at s = fst (partition_char (CHR ''@'') s)"

definition service_why :: "finding \<Rightarrow> string" where
  "service_why f =
     ''ipa-healthcheck ('' @ short (f_qualified_check f) 80 @ '') directly reports: '' @ short (f_message f) 160 @
     ''. This is the check's own statement, not an inference. Why the service is not running is NOT determined by this finding.''"

definition service_confidence :: confidence where
  "service_confidence = \<lparr>c_level = HIGH, c_rationale = ''Direct report from ipa-healthcheck's service status check.'',
     c_corroborating = 1, c_contradicting = 0\<rparr>"

definition ipactl_managed :: "string \<Rightarrow> bool" where
  "ipactl_managed service = (before_at service \<in> set IPACTL_SERVICES)"

definition service_command :: "string \<Rightarrow> string" where
  "service_command service =
     (if ipactl_managed service then ''ipactl status''
      else ''systemctl status --no-pager -- '' @ service @ ''; journalctl --no-pager -n 50 -u '' @ service)"

definition service_actions :: "string \<Rightarrow> action list" where
  "service_actions service =
     [safe_action ''Check why the service is not running before starting it.'' (service_command service)
        (if ipactl_managed service then ''Read-only: lists the state of every FreeIPA-managed service.''
         else ''Read-only: shows the unit state and its most recent log lines.'')]"

definition service_title :: "string \<Rightarrow> string" where
  "service_title service = ''Required service '' @ [CHR 0x27] @ service @ [CHR 0x27] @ '' is not running''"

definition service_fields :: "finding \<Rightarrow> string \<Rightarrow> severity \<Rightarrow> diagnosis" where
  "service_fields f service sev =
     (new_diagnosis PACK_ID (''service-not-running-'' @ service) DIAGNOSED (service_title service) (service_why f)
        service_confidence)
      \<lparr>d_severity := sev,
       d_evidence_for := [finding_ref ''ipa-healthcheck states this service is not running.'' f],
       d_impact := ''Functions that depend on this service are unavailable or degraded. Other failures in this '' @
         ''report (for example ipa-healthcheck checks that could not connect) may be consequences.'',
       d_actions := service_actions service,
       d_limitations := ''Root cause of the outage is not established by this finding alone.'',
       d_resolution_key := Some ''healthcheck.service-not-running'',
       d_bindings := [(''service'', PStr service)]\<rparr>"

definition service_diagnosis :: "finding \<Rightarrow> string \<Rightarrow> exn + diagnosis" where
  "service_diagnosis f service =
     post_init (service_fields f service (if before_at service \<in> set CORE_SERVICES then Sev_CRITICAL else Sev_ERROR))"

definition grouped_why :: "finding list \<Rightarrow> string" where
  "grouped_why findings =
     (let shown = take MAX_GROUPED findings;
          lines = join ''; '' (map (\<lambda>f. short (f_qualified_check f) 80 @ '' ('' @ severity_value (f_severity f) @ ''): '' @
            short (message_or_keywords f) 110) shown)
      in show_nat (length findings) @ '' finding(s) from ipa-healthcheck are at ERROR or CRITICAL and are not covered by any '' @
         ''ipa-diagnose rule, so their cause is not determined: '' @ lines @ more_note findings shown @
         ''. They may be consequences of another problem in this report (for example a stopped service) or independent problems.'')"

definition grouped_confidence :: confidence where
  "grouped_confidence = \<lparr>c_level = INSUFFICIENT,
     c_rationale = ''No rule links these findings to a cause; shown so they are never silently dropped.'',
     c_corroborating = 0, c_contradicting = 0\<rparr>"

definition grouped_actions :: "string \<Rightarrow> action list" where
  "grouped_actions recheck = [safe_action ''Re-run the specific failing check for full detail.'' recheck ''Read-only.'']"

definition grouped_fields :: "finding list \<Rightarrow> severity \<Rightarrow> string \<Rightarrow> diagnosis" where
  "grouped_fields findings worst recheck =
     (new_diagnosis PACK_ID ''unexplained-findings'' UNKNOWN_INSUFFICIENT_EVIDENCE
        ''ipa-healthcheck reports ERROR/CRITICAL findings that no diagnostic rule explains'' (grouped_why findings)
        grouped_confidence)
      \<lparr>d_severity := worst,
       d_evidence_for := map (finding_ref ''Unexplained ipa-healthcheck finding.'') (take MAX_GROUPED findings),
       d_impact := ''Unknown - depends on what the underlying checks were verifying.'',
       d_next_diagnostic_step := Some recheck,
       d_actions := grouped_actions recheck,
       d_limitations := ''ipa-diagnose has no rule for these findings; this is a visibility safeguard, not a diagnosis.'',
       d_upstream_candidates := SERVICE_UPSTREAMS\<rparr>"

definition grouped_unknown :: "finding list \<Rightarrow> exn + diagnosis" where
  "grouped_unknown findings =
     (case worst_severity findings of
        Inl e \<Rightarrow> Inl e
      | Inr worst \<Rightarrow> post_init (grouped_fields findings worst (recheck_command (hd findings))))"

text \<open>\<open>_NOT_RUNNING_RE.match(f.message or "")\<close>, its first group, on a \<open>meta.services\<close> finding\<close>

definition stopped_service :: "finding \<Rightarrow> string option" where
  "stopped_service f =
     (if ends_with (f_source f) ''meta.services''
      then (case rx_match not_running_rx (f_message f) of None \<Rightarrow> None | Some t \<Rightarrow> group t 1) else None)"

text \<open>The loop over the unclaimed findings: (service diagnoses, others, crashed checks, seen services).\<close>

type_synonym net_state = "(exn + diagnosis) list \<times> finding list \<times> finding list \<times> string list"

definition net_step :: "finding \<Rightarrow> net_state \<Rightarrow> net_state" where
  "net_step f = (\<lambda>(result, others, crashed, seen).
     if is_check_crash f then (result, others, crashed @ [f], seen)
     else (case stopped_service f of
             Some service \<Rightarrow>
               (if service \<notin> set seen then (result @ [service_diagnosis f service], others, crashed, seen @ [service])
                else (result, others, crashed, seen))
           | None \<Rightarrow> (result, others @ [f], crashed, seen)))"

definition unclaimed_findings :: "evidence_bundle \<Rightarrow> diagnosis list \<Rightarrow> finding list" where
  "unclaimed_findings b ds =
     filter (\<lambda>f. rank (f_severity f) \<ge> rank Sev_ERROR \<and>
         (f_finding_id f \<notin> set (claimed_ids ds) \<or> length (filter (\<lambda>g. f_finding_id g = f_finding_id f) (b_findings b)) > 1))
       (b_findings b)"

definition unexplained_finding_diagnoses :: "evidence_bundle \<Rightarrow> diagnosis list \<Rightarrow> exn + diagnosis list" where
  "unexplained_finding_diagnoses b ds =
     (case fold net_step (unclaimed_findings b ds) ([], [], [], []) of
        (result, others, crashed, seen) \<Rightarrow>
          sequence_exn (result
            @ (if others \<noteq> [] then [grouped_unknown others] else [])
            @ (if crashed \<noteq> [] then [check_failed_diagnosis crashed] else [])))"

section \<open>Lemmas\<close>

fun fresh_services :: "string list \<Rightarrow> finding list \<Rightarrow> (finding \<times> string) list" where
  "fresh_services seen [] = []"
| "fresh_services seen (f # fs) =
     (if is_check_crash f then fresh_services seen fs
      else (case stopped_service f of
              Some v \<Rightarrow> if v \<notin> set seen then (f, v) # fresh_services (seen @ [v]) fs else fresh_services seen fs
            | None \<Rightarrow> fresh_services seen fs))"

lemma fold_net_step:
  "fold net_step fs (r, os, c, seen) =
     (r @ map (\<lambda>(f, v). service_diagnosis f v) (fresh_services seen fs),
      os @ filter (\<lambda>f. \<not> is_check_crash f \<and> stopped_service f = None) fs,
      c @ filter is_check_crash fs,
      seen @ map snd (fresh_services seen fs))"
  by (induction fs arbitrary: r os c seen) (auto simp: net_step_def split: option.splits)

lemma fresh_services_sound:
  "(f, v) \<in> set (fresh_services seen fs) \<Longrightarrow> f \<in> set fs \<and> \<not> is_check_crash f \<and> stopped_service f = Some v"
  by (induction seen fs rule: fresh_services.induct) (auto split: if_splits option.splits)

lemma fresh_services_complete:
  "f \<in> set fs \<Longrightarrow> \<not> is_check_crash f \<Longrightarrow> stopped_service f = Some v \<Longrightarrow>
     v \<in> set seen \<or> v \<in> snd ` set (fresh_services seen fs)"
  by (induction seen fs rule: fresh_services.induct) (auto split: if_splits option.splits)

lemma fresh_services_distinct:
  "distinct (map snd (fresh_services seen fs)) \<and> set (map snd (fresh_services seen fs)) \<inter> set seen = {}"
  by (induction seen fs rule: fresh_services.induct) (auto split: option.splits)

text \<open>What is common to the diagnoses of the safety net.\<close>

definition net_diagnosis :: "string \<Rightarrow> diagnosis \<Rightarrow> bool" where
  "net_diagnosis rule d = (d_pack_id d = PACK_ID \<and> d_rule_id d = rule \<and> d_diagnosis_id d = PACK_ID @ ''.'' @ rule)"

lemma post_init_ok:
  "d_diagnosis_id d0 = [] \<Longrightarrow>
     (if d_status d0 = DIAGNOSED then c_level (d_confidence d0) = HIGH else \<not> no_step d0) \<Longrightarrow>
   post_init d0 = Inr (d0\<lparr>d_diagnosis_id := d_pack_id d0 @ ''.'' @ d_rule_id d0\<rparr>)"
  by (auto simp: post_init_def no_step_def split: if_splits)

lemma recheck_command_ne: "recheck_command f \<noteq> []"
  by (simp add: recheck_command_def)

lemmas net_fields = service_fields_def grouped_fields_def check_failed_fields_def
  service_confidence_def grouped_confidence_def check_failed_confidence_def

lemma service_diagnosis_ok:
  "\<exists>d. service_diagnosis f v = Inr d \<and> net_diagnosis (''service-not-running-'' @ v) d
     \<and> d_status d = DIAGNOSED \<and> rank (d_severity d) \<ge> rank Sev_ERROR
     \<and> d_evidence_for d = [finding_ref ''ipa-healthcheck states this service is not running.'' f]
     \<and> d_next_diagnostic_step d = None \<and> d_actions d = service_actions v"
  unfolding service_diagnosis_def
  by (subst post_init_ok) (simp_all add: net_fields new_diagnosis_def net_diagnosis_def)

lemma grouped_unknown_ok:
  "\<exists>d. grouped_unknown (f # fs) = Inr d \<and> net_diagnosis ''unexplained-findings'' d
     \<and> d_status d = UNKNOWN_INSUFFICIENT_EVIDENCE \<and> d_severity d = max_by rank (f_severity f) (map f_severity fs)
     \<and> d_evidence_for d = map (finding_ref ''Unexplained ipa-healthcheck finding.'') (take MAX_GROUPED (f # fs))
     \<and> d_next_diagnostic_step d = Some (recheck_command f) \<and> d_actions d = grouped_actions (recheck_command f)"
  using recheck_command_ne [of f] unfolding grouped_unknown_def worst_severity_def
  by (simp del: take_Cons_numeral, subst post_init_ok) (simp_all add: net_fields new_diagnosis_def net_diagnosis_def no_step_def)

lemma check_failed_diagnosis_ok:
  "\<exists>d. check_failed_diagnosis (f # fs) = Inr d \<and> net_diagnosis ''healthcheck-check-failed'' d
     \<and> d_status d = UNKNOWN_INSUFFICIENT_EVIDENCE \<and> d_severity d = max_by rank (f_severity f) (map f_severity fs)
     \<and> d_evidence_for d = map (finding_ref ''ipa-healthcheck check raised an exception.'') (take MAX_GROUPED (f # fs))
     \<and> d_next_diagnostic_step d = Some (recheck_command f) \<and> d_actions d = check_failed_actions (recheck_command f)"
  using recheck_command_ne [of f] unfolding check_failed_diagnosis_def worst_severity_def
  by (simp del: take_Cons_numeral, subst post_init_ok) (simp_all add: net_fields new_diagnosis_def net_diagnosis_def no_step_def)

lemma max_severity_ge: "g \<in> set (f # fs) \<Longrightarrow> rank (f_severity g) \<le> rank (max_by rank (f_severity f) (map f_severity fs))"
  using max_by_ge [of rank "f_severity f" "map f_severity fs"] by auto

text \<open>The safety net never raises; its result is made of these three kinds of diagnoses.\<close>

definition group_or_none :: "(finding list \<Rightarrow> exn + diagnosis) \<Rightarrow> finding list \<Rightarrow> (exn + diagnosis) list" where
  "group_or_none mk fs = (if fs \<noteq> [] then [mk fs] else [])"

lemma group_or_none_ok:
  assumes "\<And>f fs. \<exists>d. mk (f # fs) = Inr d"
  shows "\<exists>ds. group_or_none mk fs = map Inr ds"
proof (cases fs)
  case Nil
  then show ?thesis by (simp add: group_or_none_def)
next
  case (Cons f fs')
  with assms obtain d where "mk (f # fs') = Inr d" by blast
  then show ?thesis using Cons by (intro exI [of _ "[d]"]) (simp add: group_or_none_def)
qed

lemma net_result:
  obtains svcs grp crs where
    "unexplained_finding_diagnoses b ds0 = Inr (svcs @ grp @ crs)"
    "map Inr svcs = map (\<lambda>(f, v). service_diagnosis f v) (fresh_services [] (unclaimed_findings b ds0))"
    "map Inr grp = group_or_none grouped_unknown
       (filter (\<lambda>f. \<not> is_check_crash f \<and> stopped_service f = None) (unclaimed_findings b ds0))"
    "map Inr crs = group_or_none check_failed_diagnosis (filter is_check_crash (unclaimed_findings b ds0))"
proof -
  let ?u = "unclaimed_findings b ds0"
  let ?s = "map (\<lambda>(f, v). service_diagnosis f v) (fresh_services [] ?u)"
  let ?g = "group_or_none grouped_unknown (filter (\<lambda>f. \<not> is_check_crash f \<and> stopped_service f = None) ?u)"
  let ?c = "group_or_none check_failed_diagnosis (filter is_check_crash ?u)"
  have eq: "unexplained_finding_diagnoses b ds0 = sequence_exn (?s @ ?g @ ?c)"
    by (simp add: unexplained_finding_diagnoses_def fold_net_step group_or_none_def)
  have "\<forall>x \<in> set ?s. \<exists>y. x = Inr y" using service_diagnosis_ok by fastforce
  then obtain svcs where s: "?s = map Inr svcs" using sequence_exn_Inr by blast
  obtain grp where g: "?g = map Inr grp" using group_or_none_ok grouped_unknown_ok by meson
  obtain crs where c: "?c = map Inr crs" using group_or_none_ok check_failed_diagnosis_ok by meson
  have "unexplained_finding_diagnoses b ds0 = Inr (svcs @ grp @ crs)"
    unfolding eq s g c map_append [symmetric] by (rule sequence_exn_map_Inr)
  then show thesis using s g c by (intro that) simp_all
qed

text \<open>Which diagnosis of the safety net speaks for a finding.\<close>

definition net_rule :: "finding \<Rightarrow> string" where
  "net_rule f =
     (if is_check_crash f then ''healthcheck-check-failed''
      else case stopped_service f of Some v \<Rightarrow> ''service-not-running-'' @ v | None \<Rightarrow> ''unexplained-findings'')"

lemma map_Inr_single: "map Inr ds = group_or_none mk (f # fs) \<Longrightarrow> \<exists>d. ds = [d] \<and> mk (f # fs) = Inr d"
  by (cases ds) (auto simp: group_or_none_def)

lemma net_rules:
  assumes "unexplained_finding_diagnoses b ds0 = Inr ds" "d \<in> set ds"
  shows "(\<exists>f v. (f, v) \<in> set (fresh_services [] (unclaimed_findings b ds0)) \<and> service_diagnosis f v = Inr d)
     \<or> (\<exists>f fs. filter (\<lambda>f. \<not> is_check_crash f \<and> stopped_service f = None) (unclaimed_findings b ds0) = f # fs
          \<and> grouped_unknown (f # fs) = Inr d)
     \<or> (\<exists>f fs. filter is_check_crash (unclaimed_findings b ds0) = f # fs \<and> check_failed_diagnosis (f # fs) = Inr d)"
proof -
  let ?u = "unclaimed_findings b ds0"
  obtain svcs grp crs where r0: "unexplained_finding_diagnoses b ds0 = Inr (svcs @ grp @ crs)" and r:
    "map Inr svcs = map (\<lambda>(f, v). service_diagnosis f v) (fresh_services [] ?u)"
    "map Inr grp = group_or_none grouped_unknown (filter (\<lambda>f. \<not> is_check_crash f \<and> stopped_service f = None) ?u)"
    "map Inr crs = group_or_none check_failed_diagnosis (filter is_check_crash ?u)"
    by (rule net_result)
  have single: "map Inr ds = group_or_none mk fs \<Longrightarrow> d \<in> set ds \<Longrightarrow> \<exists>g gs. fs = g # gs \<and> mk (g # gs) = Inr d"
    for ds fs and mk :: "finding list \<Rightarrow> exn + diagnosis"
    by (cases fs) (auto simp: group_or_none_def)
  from assms r0 consider "d \<in> set svcs" | "d \<in> set grp" | "d \<in> set crs" by auto
  then show ?thesis
  proof cases
    case 1
    then have "(Inr d :: exn + diagnosis) \<in> set (map Inr svcs)" by simp
    then obtain f v where "(f, v) \<in> set (fresh_services [] ?u)" "service_diagnosis f v = Inr d"
      unfolding r(1) by force
    then show ?thesis by blast
  next
    case 2
    then show ?thesis using single [OF r(2)] by blast
  next
    case 3
    then show ?thesis using single [OF r(3)] by blast
  qed
qed

lemma head_in_filter: "filter P xs = x # ys \<Longrightarrow> x \<in> set xs \<and> P x"
  by (metis (mono_tags) filter_eq_ConsD in_set_conv_decomp)

lemma net_rule_of:
  assumes "unexplained_finding_diagnoses b ds0 = Inr ds" "d \<in> set ds"
  shows "\<exists>f \<in> set (unclaimed_findings b ds0). net_diagnosis (net_rule f) d \<and> rank Sev_ERROR \<le> rank (d_severity d)
     \<and> wf_diagnosis d"
proof -
  have wf: "service_diagnosis f v = Inr d \<Longrightarrow> wf_diagnosis d" "grouped_unknown fs = Inr d \<Longrightarrow> wf_diagnosis d"
    "check_failed_diagnosis fs = Inr d \<Longrightarrow> wf_diagnosis d" for f v fs
    by (auto simp: service_diagnosis_def grouped_unknown_def check_failed_diagnosis_def intro: post_init_wf
        split: sum.splits)
  have err: "f \<in> set (unclaimed_findings b ds0) \<Longrightarrow> rank Sev_ERROR \<le> rank (f_severity f)" for f
    by (simp add: unclaimed_findings_def)
  from net_rules [OF assms] show ?thesis
  proof (elim disjE exE conjE)
    fix f v assume fv: "(f, v) \<in> set (fresh_services [] (unclaimed_findings b ds0))" "service_diagnosis f v = Inr d"
    then show ?thesis
      using fresh_services_sound [OF fv(1)] service_diagnosis_ok [of f v] wf(1) [OF fv(2)]
      by (intro bexI [of _ f]) (auto simp: net_rule_def)
  next
    fix f fs assume ff: "filter (\<lambda>f. \<not> is_check_crash f \<and> stopped_service f = None) (unclaimed_findings b ds0) = f # fs"
      "grouped_unknown (f # fs) = Inr d"
    then show ?thesis
      using head_in_filter [OF ff(1)] grouped_unknown_ok [of f fs] wf(2) [OF ff(2)] err [of f]
        max_severity_ge [of f f fs]
      by (intro bexI [of _ f]) (auto simp: net_rule_def)
  next
    fix f fs assume ff: "filter is_check_crash (unclaimed_findings b ds0) = f # fs" "check_failed_diagnosis (f # fs) = Inr d"
    then show ?thesis
      using head_in_filter [OF ff(1)] check_failed_diagnosis_ok [of f fs] wf(3) [OF ff(2)] err [of f]
        max_severity_ge [of f f fs]
      by (intro bexI [of _ f]) (auto simp: net_rule_def)
  qed
qed

lemma net_covers:
  assumes "unexplained_finding_diagnoses b ds0 = Inr ds" "f \<in> set (unclaimed_findings b ds0)"
  shows "net_rule f \<in> d_rule_id ` set ds"
proof -
  let ?u = "unclaimed_findings b ds0"
  obtain svcs grp crs where r0: "unexplained_finding_diagnoses b ds0 = Inr (svcs @ grp @ crs)" and r:
    "map Inr svcs = map (\<lambda>(f, v). service_diagnosis f v) (fresh_services [] ?u)"
    "map Inr grp = group_or_none grouped_unknown (filter (\<lambda>f. \<not> is_check_crash f \<and> stopped_service f = None) ?u)"
    "map Inr crs = group_or_none check_failed_diagnosis (filter is_check_crash ?u)"
    by (rule net_result)
  have ds: "ds = svcs @ grp @ crs" using r0 assms(1) by simp
  have some: "map Inr es = group_or_none mk (filter P ?u) \<Longrightarrow> P f \<Longrightarrow> \<exists>g gs d. mk (g # gs) = Inr d \<and> d \<in> set es"
    for es mk P
  proof -
    assume es: "map Inr es = group_or_none mk (filter P ?u)" and "P f"
    then have "filter P ?u \<noteq> []" using assms(2) by (auto simp: filter_empty_conv)
    then obtain g gs where "filter P ?u = g # gs" by (cases "filter P ?u") auto
    then obtain d where "es = [d]" "mk (g # gs) = Inr d" using map_Inr_single es by metis
    then show ?thesis by auto
  qed
  consider "is_check_crash f" | v where "\<not> is_check_crash f" "stopped_service f = Some v"
    | "\<not> is_check_crash f" "stopped_service f = None" by (cases "stopped_service f") auto
  then show ?thesis
  proof cases
    case 1
    then obtain g gs d where "check_failed_diagnosis (g # gs) = Inr d" "d \<in> set crs" using some [OF r(3)] by blast
    then show ?thesis using 1 ds check_failed_diagnosis_ok [of g gs] by (force simp: net_rule_def net_diagnosis_def)
  next
    case (2 v)
    then obtain g where g: "(g, v) \<in> set (fresh_services [] ?u)" using fresh_services_complete [OF assms(2)] by force
    then have "service_diagnosis g v \<in> set (map Inr svcs)" unfolding r(1) by force
    then obtain d where "service_diagnosis g v = Inr d" "d \<in> set svcs" by auto
    then show ?thesis using 2 ds service_diagnosis_ok [of g v] by (force simp: net_rule_def net_diagnosis_def)
  next
    case 3
    then obtain g gs d where "grouped_unknown (g # gs) = Inr d" "d \<in> set grp" using some [OF r(2)] by blast
    then show ?thesis using 3 ds grouped_unknown_ok [of g gs] by (force simp: net_rule_def net_diagnosis_def)
  qed
qed

lemma net_distinct:
  assumes "unexplained_finding_diagnoses b ds0 = Inr ds"
  shows "distinct (map d_diagnosis_id ds)"
proof -
  let ?u = "unclaimed_findings b ds0"
  obtain svcs grp crs where r0: "unexplained_finding_diagnoses b ds0 = Inr (svcs @ grp @ crs)" and r:
    "map Inr svcs = map (\<lambda>(f, v). service_diagnosis f v) (fresh_services [] ?u)"
    "map Inr grp = group_or_none grouped_unknown (filter (\<lambda>f. \<not> is_check_crash f \<and> stopped_service f = None) ?u)"
    "map Inr crs = group_or_none check_failed_diagnosis (filter is_check_crash ?u)"
    by (rule net_result)
  have ids: "map Inr es = map (\<lambda>(f, v). service_diagnosis f v) fvs \<Longrightarrow>
      map d_diagnosis_id es = map (\<lambda>(f, v). PACK_ID @ ''.service-not-running-'' @ v) fvs" for es fvs
  proof (induction fvs arbitrary: es)
    case (Cons fv fvs)
    then show ?case using service_diagnosis_ok [of "fst fv" "snd fv"]
      by (cases es) (auto simp: net_diagnosis_def split: prod.splits)
  qed simp
  define S where "S v = PACK_ID @ ''.service-not-running-'' @ v" for v :: string
  define X where "X = PACK_ID @ ''.unexplained-findings''"
  define Y where "Y = PACK_ID @ ''.healthcheck-check-failed''"
  have ne: "X \<noteq> Y" "S v \<noteq> X" "S v \<noteq> Y" for v by (simp_all add: X_def Y_def S_def)
  have sv: "map d_diagnosis_id svcs = map S (map snd (fresh_services [] ?u))"
    unfolding ids [OF r(1)] by (simp add: S_def split_def)
  have d: "distinct (map d_diagnosis_id svcs)"
    unfolding sv by (rule distinct_map [THEN iffD2])
      (use fresh_services_distinct [of "[]" ?u] in \<open>auto simp: S_def inj_on_def\<close>)
  have g: "map d_diagnosis_id grp = [] \<or> map d_diagnosis_id grp = [X]"
  proof (cases "filter (\<lambda>f. \<not> is_check_crash f \<and> stopped_service f = None) ?u")
    case Nil
    then show ?thesis using r(2) by (simp add: group_or_none_def)
  next
    case (Cons f fs)
    then obtain e where "grp = [e]" "grouped_unknown (f # fs) = Inr e" using map_Inr_single r(2) by metis
    then show ?thesis using grouped_unknown_ok [of f fs] by (auto simp: net_diagnosis_def X_def)
  qed
  have c: "map d_diagnosis_id crs = [] \<or> map d_diagnosis_id crs = [Y]"
  proof (cases "filter is_check_crash ?u")
    case Nil
    then show ?thesis using r(3) by (simp add: group_or_none_def)
  next
    case (Cons f fs)
    then obtain e where "crs = [e]" "check_failed_diagnosis (f # fs) = Inr e" using map_Inr_single r(3) by metis
    then show ?thesis using check_failed_diagnosis_ok [of f fs] by (auto simp: net_diagnosis_def Y_def)
  qed
  have out: "X \<notin> set (map d_diagnosis_id svcs)" "Y \<notin> set (map d_diagnosis_id svcs)"
    unfolding sv using ne(2,3) by (metis (no_types) ex_map_conv)+
  have "ds = svcs @ grp @ crs" using r0 assms by simp
  then have eq: "map d_diagnosis_id ds = map d_diagnosis_id svcs @ map d_diagnosis_id grp @ map d_diagnosis_id crs"
    by simp
  show ?thesis
    unfolding eq distinct_append using d g c out ne(1) by (elim disjE) simp_all
qed

text \<open>The commands the safety net prints.\<close>

definition command_char :: "char \<Rightarrow> bool" where
  "command_char = alnum_or '' -_.;@''"

definition safe_command_action :: "action \<Rightarrow> bool" where
  "safe_command_action a \<longleftrightarrow> a_risk a = SAFE
     \<and> (case a_command a of None \<Rightarrow> False | Some c \<Rightarrow> c \<noteq> [] \<and> list_all command_char c)"

lemma command_char_mono: "alnum_or cs c \<Longrightarrow> set cs \<subseteq> set '' -_.;@'' \<Longrightarrow> command_char c"
  by (auto simp: command_char_def alnum_or_def)

lemma all_command_char: "list_all (alnum_or cs) w \<Longrightarrow> set cs \<subseteq> set '' -_.;@'' \<Longrightarrow> list_all command_char w"
  using command_char_mono by (metis (no_types, lifting) list.pred_mono_strong)

lemma safe_target_chars:
  assumes "safe_target f"
  shows "list_all command_char (f_source f) \<and> list_all command_char (f_check f)"
proof -
  have "rx_all (alnum_or ''_.'') source_rx" "rx_all (alnum_or ''_'') check_rx"
    by (auto simp: source_rx_def check_rx_def rx_shape alnum_or_def)
  then have "list_all (alnum_or ''_.'') (f_source f)" "list_all (alnum_or ''_'') (f_check f)"
    using assms rx_full_chars unfolding safe_target_def by blast+
  then show ?thesis by (auto elim!: all_command_char)
qed

lemma recheck_command_chars: "list_all command_char (recheck_command f)"
  using safe_target_chars [of f]
  by (auto simp: recheck_command_def command_char_def alnum_or_def is_alnum_ascii_def is_lower_def is_upper_def
      is_digit09_def rng_def)

lemma stopped_service_chars:
  assumes "stopped_service f = Some v"
  shows "list_all (alnum_or ''_.@-'') v"
proof -
  have ci: "list_all (\<lambda>n. n < 128) (map code ''_.@-'')" "list_all (\<lambda>n. n < 128) (map code ''_'')" by simp_all
  let ?body = "ci (Seq (Cls (alnum_or ''_'')) (star (Cls (alnum_or ''_.@-''))))"
  have "rx_all (alnum_or ''_.@-'') ?body"
    using ci_chars [OF ci(1)] ci_chars [OF ci(2)] by (auto simp: star_def alnum_or_def)
  moreover have "rx_caps (list_all (alnum_or ''_.@-'')) 1 ?body" by (simp add: star_def)
  ultimately have grp: "rx_caps (list_all (alnum_or ''_.@-'')) 1 (ci (Grp 1 (Seq (Cls (alnum_or ''_'')) (star (Cls (alnum_or ''_.@-''))))))"
    unfolding ci.simps(9) by (intro rx_caps_GrpI)
  have "rx_caps (list_all (alnum_or ''_.@-'')) 1 not_running_rx"
    unfolding not_running_rx_def ci_seqs rx_caps_seqs list.map list.pred_inject
    by (intro conjI grp) (simp_all add: rx_shape)
  then show ?thesis using assms rx_match_group unfolding stopped_service_def by (auto split: if_splits option.splits)
qed

lemma recheck_command_nonempty_chars: "recheck_command f \<noteq> [] \<and> list_all command_char (recheck_command f)"
  by (simp add: recheck_command_ne recheck_command_chars)

lemma service_actions_safe:
  assumes "stopped_service f = Some v"
  shows "list_all safe_command_action (service_actions v)"
proof -
  have "list_all command_char v" using stopped_service_chars [OF assms] by (elim all_command_char) auto
  then show ?thesis
    by (auto simp: service_actions_def safe_action_def safe_command_action_def service_command_def command_char_def
        alnum_or_def is_alnum_ascii_def is_lower_def is_upper_def is_digit09_def rng_def)
qed

lemma recheck_actions_safe:
  "list_all safe_command_action (grouped_actions (recheck_command f))"
  "list_all safe_command_action (check_failed_actions (recheck_command f))"
  using recheck_command_nonempty_chars [of f]
  by (auto simp: grouped_actions_def check_failed_actions_def safe_action_def safe_command_action_def)

lemma net_actions:
  assumes "unexplained_finding_diagnoses b ds0 = Inr ds" "d \<in> set ds"
  shows "d_actions d \<noteq> [] \<and> list_all safe_command_action (d_actions d)"
  using net_rules [OF assms]
proof (elim disjE exE conjE)
  fix f v assume "(f, v) \<in> set (fresh_services [] (unclaimed_findings b ds0))" "service_diagnosis f v = Inr d"
  then show ?thesis
    using fresh_services_sound service_diagnosis_ok [of f v] service_actions_safe [of f v]
    by (force simp: service_actions_def)
next
  fix f fs assume "grouped_unknown (f # fs) = Inr d"
  then show ?thesis using grouped_unknown_ok [of f fs] recheck_actions_safe by (auto simp: grouped_actions_def)
next
  fix f fs assume "check_failed_diagnosis (f # fs) = Inr d"
  then show ?thesis using check_failed_diagnosis_ok [of f fs] recheck_actions_safe by (auto simp: check_failed_actions_def)
qed

section \<open>Properties\<close>

text \<open>What the safety net has to speak for, said without the code: a result that is ERROR, CRITICAL or of a severity this build
  does not know, and that no diagnosis cites, for or against, or whose identifier another result has too.\<close>

definition cited_by :: "diagnosis list \<Rightarrow> string \<Rightarrow> bool" where
  "cited_by ds i = (\<exists>d \<in> set ds. \<exists>r \<in> set (d_evidence_for d) \<union> set (d_evidence_against d). r_evidence_id r = i)"

definition shared_id :: "finding list \<Rightarrow> string \<Rightarrow> bool" where
  "shared_id fs i = (\<exists>m n. m < n \<and> n < length fs \<and> f_finding_id (fs ! m) = i \<and> f_finding_id (fs ! n) = i)"

definition owed_an_answer :: "evidence_bundle \<Rightarrow> diagnosis list \<Rightarrow> finding \<Rightarrow> bool" where
  "owed_an_answer b ds f =
     (f \<in> set (b_findings b) \<and> (f_severity f = Sev_ERROR \<or> f_severity f = Sev_CRITICAL \<or> f_severity f = Sev_UNKNOWN)
      \<and> (\<not> cited_by ds (f_finding_id f) \<or> shared_id (b_findings b) (f_finding_id f)))"

text \<open>Where it is answered: a check that raised, by the exception or traceback in its keywords; a stopped service; the rest.\<close>

definition answered_under :: "finding \<Rightarrow> string" where
  "answered_under f =
     (if \<exists>k v. (k = ''exception'' \<or> k = ''traceback'') \<and> dict_get (as_dict (f_keywords f)) k = Some v \<and> truthy v
      then ''healthcheck-check-failed''
      else case stopped_service f of Some v \<Rightarrow> ''service-not-running-'' @ v | None \<Rightarrow> ''unexplained-findings'')"

lemma shared_id_iff: "shared_id fs i \<longleftrightarrow> 1 < length (filter (\<lambda>g. f_finding_id g = i) fs)"
proof -
  have one: "0 < length (filter (\<lambda>g. f_finding_id g = i) fs) \<longleftrightarrow> (\<exists>n < length fs. f_finding_id (fs ! n) = i)" for fs
    by (simp add: filter_empty_conv) (metis in_set_conv_nth)
  show ?thesis
  proof (induction fs)
    case (Cons f fs)
    have "shared_id (f # fs) i \<longleftrightarrow> f_finding_id f = i \<and> (\<exists>n < length fs. f_finding_id (fs ! n) = i) \<or> shared_id fs i"
    proof
      assume "shared_id (f # fs) i"
      then obtain m n where mn: "m < n" "n < Suc (length fs)" "f_finding_id ((f # fs) ! m) = i" "f_finding_id ((f # fs) ! n) = i"
        by (auto simp: shared_id_def)
      then obtain n' where n: "n = Suc n'" by (cases n) auto
      show "f_finding_id f = i \<and> (\<exists>n < length fs. f_finding_id (fs ! n) = i) \<or> shared_id fs i"
        using mn unfolding n shared_id_def by (cases m) auto
    next
      assume "f_finding_id f = i \<and> (\<exists>n < length fs. f_finding_id (fs ! n) = i) \<or> shared_id fs i"
      then show "shared_id (f # fs) i"
      proof (elim disjE conjE exE)
        fix n assume "f_finding_id f = i" "n < length fs" "f_finding_id (fs ! n) = i"
        then show ?thesis unfolding shared_id_def by (intro exI [of _ 0] exI [of _ "Suc n"]) simp
      next
        assume "shared_id fs i"
        then obtain m n where "m < n" "n < length fs" "f_finding_id (fs ! m) = i" "f_finding_id (fs ! n) = i" by (auto simp: shared_id_def)
        then show ?thesis unfolding shared_id_def by (intro exI [of _ "Suc m"] exI [of _ "Suc n"]) simp
      qed
    qed
    then show ?case using Cons.IH one [of fs] by auto
  qed (simp add: shared_id_def)
qed

lemma unclaimed_owed: "set (unclaimed_findings b ds) = {f. owed_an_answer b ds f}"
proof -
  have "rank Sev_ERROR \<le> rank s \<longleftrightarrow> s = Sev_ERROR \<or> s = Sev_CRITICAL \<or> s = Sev_UNKNOWN" for s by (cases s) simp_all
  moreover have "i \<in> set (claimed_ids ds) \<longleftrightarrow> cited_by ds i" for i by (auto simp: claimed_ids_def cited_by_def)
  ultimately show ?thesis unfolding unclaimed_findings_def owed_an_answer_def shared_id_iff by auto
qed

lemma net_rule_answered: "net_rule f = answered_under f"
  by (auto simp: net_rule_def answered_under_def is_check_crash_def truthy_opt_def dict_get_def Let_def split: option.splits)

text \<open>C37: The safety net drops nothing and never fails. Whatever the bundle and whatever the rules have already diagnosed, it
  returns a list of well-formed diagnoses with distinct identifiers, each ERROR, CRITICAL or of unknown severity, and the rules
  they speak for are exactly those of the results owed an answer: every result that is ERROR, CRITICAL or of unknown severity and
  that no diagnosis cites (or whose identifier is not its own) appears under the crashed checks, under its stopped service or under
  the unexplained findings, and no diagnosis appears without such a result.\<close>

theorem unexplained_total_and_complete:
  "\<exists>ds. unexplained_finding_diagnoses b ds0 = Inr ds
     \<and> d_rule_id ` set ds = answered_under ` {f. owed_an_answer b ds0 f}
     \<and> distinct (map d_diagnosis_id ds)
     \<and> list_all (\<lambda>d. wf_diagnosis d \<and> d_severity d \<noteq> Sev_SUCCESS \<and> d_severity d \<noteq> Sev_WARNING) ds"
proof -
  obtain ds where ds: "unexplained_finding_diagnoses b ds0 = Inr ds" by (rule net_result)
  have "d_rule_id ` set ds = net_rule ` set (unclaimed_findings b ds0)"
    using net_rule_of [OF ds] net_covers [OF ds] by (fastforce simp: net_diagnosis_def)
  moreover have "list_all (\<lambda>d. wf_diagnosis d \<and> d_severity d \<noteq> Sev_SUCCESS \<and> d_severity d \<noteq> Sev_WARNING) ds"
    using net_rule_of [OF ds] by (fastforce simp: list_all_iff)
  ultimately show ?thesis using ds net_distinct [OF ds] unfolding unclaimed_owed net_rule_answered by blast
qed

text \<open>Everything the safety net tells an operator to run is read-only and safe to paste: every diagnosis
  has actions, each is classed SAFE and has a command made of letters, digits, blank and \<open>-_.;@\<close> only, although
  the service, source and check names in it come from the evidence file.\<close>

theorem unexplained_commands_safe:
  "\<exists>ds. unexplained_finding_diagnoses b ds0 = Inr ds
     \<and> list_all (\<lambda>d. d_actions d \<noteq> [] \<and> list_all safe_command_action (d_actions d)) ds"
proof -
  obtain ds where ds: "unexplained_finding_diagnoses b ds0 = Inr ds" by (rule net_result)
  then show ?thesis using net_actions [OF ds] by (intro exI [of _ ds]) (simp add: list_all_iff)
qed

end
