(* ===== verification/Redact.thy ===== *)
theory Redact
  imports PyRegex
begin

text \<open>
  \<open>privacy/redact.py\<close>: masking of secrets, by field name and by the shape of the text. The patterns run in
  order, each on the result of the one before; every replacement is recorded in the audit trail.
\<close>

section \<open>Definitions\<close>

definition SENSITIVE_KEY_MARKERS :: "string list" where
  "SENSITIVE_KEY_MARKERS = [''password'', ''passwd'', ''pwd'', ''secret'', ''token'', ''apikey'', ''api_key'', ''bearer'',
     ''private_key'', ''privatekey'', ''keytab'', ''credential'', ''bindpw'', ''bind_pw'', ''access_key'', ''secret_key'',
     ''session'', ''cookie'', ''authorization'']"

definition non_space :: "char \<Rightarrow> bool" where "non_space c = (\<not> is_space c)"
definition upper_digit :: "char \<Rightarrow> bool" where "upper_digit c = (is_upper c \<or> is_digit09 c)"
definition upper_blank :: "char \<Rightarrow> bool" where "upper_blank c = (is_upper c \<or> c = CHR '' '')"
definition url_part :: "char \<Rightarrow> bool" where "url_part c = (\<not> is_space c \<and> c \<notin> set '':@/'')"
definition lower_hex :: "char \<Rightarrow> bool" where "lower_hex c = (is_digit09 c \<or> rng 97 102 c)"

definition at_least :: "nat \<Rightarrow> rx \<Rightarrow> rx" where "at_least n r = Rep n None True r"

definition aws_access_key_rx :: rx where
  "aws_access_key_rx = seqs [WordB, Grp 1 (alts [lit ''AKIA'', lit ''ASIA'']), upto 16 16 (Cls upper_digit), WordB]"

definition aws_secret_key_rx :: rx where
  "aws_secret_key_rx = ci (seqs [lit ''aws_secret_access_key'', star (Cls is_space), Cls (\<lambda>c. c \<in> set ''=:''),
     star (Cls is_space), plus (Cls non_space)])"

definition private_key_block_rx :: rx where
  "private_key_block_rx = seqs [lit ''-----BEGIN '', star (Cls upper_blank), lit ''PRIVATE KEY-----'',
     Rep 0 None False (Cls (\<lambda>_. True)), lit ''-----END '', star (Cls upper_blank), lit ''PRIVATE KEY-----'']"

definition openai_key_rx :: rx where
  "openai_key_rx = seqs [WordB, lit ''sk-'', at_least 16 (Cls is_alnum_ascii), WordB]"

definition github_token_rx :: rx where
  "github_token_rx = seqs [WordB, lit ''gh'', Cls (\<lambda>c. c \<in> set ''oprsu''), lit ''_'', at_least 20 (Cls is_alnum_ascii), WordB]"

definition anthropic_key_rx :: rx where
  "anthropic_key_rx = seqs [WordB, lit ''sk-ant-'', at_least 16 (Cls (alnum_or ''-_'')), WordB]"

definition slack_token_rx :: rx where
  "slack_token_rx = seqs [WordB, lit ''xox'', Cls (\<lambda>c. c \<in> set ''baprs''), lit ''-'', at_least 10 (Cls (alnum_or ''-'')), WordB]"

definition bearer_token_rx :: rx where
  "bearer_token_rx = ci (seqs [WordB, lit ''bearer'', plus (Cls is_space), at_least 10 (Cls (alnum_or ''-_.='')), WordB])"

definition basic_auth_url_rx :: rx where
  "basic_auth_url_rx = ci (seqs [WordB, plus (Cls is_word), lit ''://'', plus (Cls url_part), lit '':'', plus (Cls url_part),
     lit ''@''])"

definition krb5_keytab_hex_rx :: rx where
  "krb5_keytab_hex_rx = ci (seqs [WordB, lit ''keytab'', star (Cls non_space), Cls (\<lambda>c. c \<in> set '':=''),
     star (Cls is_space), at_least 32 (Cls lower_hex), WordB])"

definition high_entropy_token_rx :: rx where
  "high_entropy_token_rx = seqs [WordB, at_least 40 (Cls (alnum_or ''+/_-'')), upto 0 2 (Cls (\<lambda>c. c = CHR ''='')), WordB]"

lemmas redact_rx_defs [rx_defs] = aws_access_key_rx_def aws_secret_key_rx_def private_key_block_rx_def openai_key_rx_def
  github_token_rx_def anthropic_key_rx_def slack_token_rx_def bearer_token_rx_def basic_auth_url_rx_def
  krb5_keytab_hex_rx_def high_entropy_token_rx_def at_least_def

definition PATTERNS :: "(string \<times> rx) list" where
  "PATTERNS = [(''aws_access_key'', aws_access_key_rx), (''aws_secret_key'', aws_secret_key_rx),
     (''private_key_block'', private_key_block_rx), (''openai_key'', openai_key_rx), (''github_token'', github_token_rx),
     (''anthropic_key'', anthropic_key_rx), (''slack_token'', slack_token_rx), (''bearer_token'', bearer_token_rx),
     (''basic_auth_url'', basic_auth_url_rx), (''krb5_keytab_hex'', krb5_keytab_hex_rx),
     (''high_entropy_token'', high_entropy_token_rx)]"

text \<open>A pass of one pattern: the new text, and the name once per match.\<close>

definition redact_pass :: "string \<times> rx \<Rightarrow> string \<times> string list \<Rightarrow> string \<times> string list" where
  "redact_pass p r = (case p of (name, pat) \<Rightarrow>
     (rx_sub pat (\<lambda>_ _. ''[REDACTED:'' @ name @ '']'') (fst r), snd r @ replicate (rx_count pat (fst r)) name))"

definition redact_text :: "string \<Rightarrow> string \<times> string list" where
  "redact_text s = fold redact_pass PATTERNS (s, [])"

definition is_sensitive_key :: "string \<Rightarrow> bool" where
  "is_sensitive_key key = list_ex (\<lambda>m. contains (str_lower key) m) SENSITIVE_KEY_MARKERS"

text \<open>An entry of a dictionary: text under a sensitive key is dropped whole, any other value is walked.\<close>

definition masked_field :: "string \<Rightarrow> pyval \<Rightarrow> bool" where
  "masked_field k v = ((case v of PStr s \<Rightarrow> True | _ \<Rightarrow> False) \<and> is_sensitive_key k)"

definition redact_field :: "string \<Rightarrow> pyval \<Rightarrow> pyval \<times> string list \<Rightarrow> (string \<times> pyval) \<times> string list" where
  "redact_field k v walked =
     (if masked_field k v then ((k, PStr ''[REDACTED]''), [''field:'' @ k]) else ((k, fst walked), snd walked))"

text \<open>\<open>_walk\<close>: the redacted copy and the matches, in the order in which they are found.\<close>

fun redact_walk :: "pyval \<Rightarrow> pyval \<times> string list" where
  "redact_walk (PDict d) =
     (let rs = map (\<lambda>(k, v). redact_field k v (redact_walk v)) d
      in (PDict (map fst rs), concat (map snd rs)))"
| "redact_walk (PList xs) = (let rs = map redact_walk xs in (PList (map fst rs), concat (map snd rs)))"
| "redact_walk (PStr s) = (case redact_text s of (t, ms) \<Rightarrow> (PStr t, ms))"
| "redact_walk v = (v, [])"

definition redact_mapping :: "pydict \<Rightarrow> pyval \<times> string list" where
  "redact_mapping d = redact_walk (PDict d)"

section \<open>Lemmas\<close>

lemma redact_pass_silent: "snd (redact_pass p r) = snd r \<Longrightarrow> fst (redact_pass p r) = fst r"
  by (cases p) (simp add: redact_pass_def rx_count_0)

lemma redact_pass_trail: "\<exists>ms. snd (redact_pass p r) = snd r @ ms"
  by (cases p) (simp add: redact_pass_def)

lemma redact_passes_trail: "\<exists>ms. snd (fold redact_pass ps r) = snd r @ ms"
proof (induction ps arbitrary: r)
  case (Cons p ps)
  then show ?case using redact_pass_trail [of p r] by (metis append_assoc fold_simps(2))
qed simp

lemma redact_passes_silent: "snd (fold redact_pass ps r) = snd r \<Longrightarrow> fold redact_pass ps r = r"
proof (induction ps arbitrary: r)
  case (Cons p ps)
  obtain ms ms' where ms: "snd (redact_pass p r) = snd r @ ms"
      "snd (fold redact_pass ps (redact_pass p r)) = snd (redact_pass p r) @ ms'"
    using redact_pass_trail redact_passes_trail by blast
  with Cons.prems have "ms = []" "ms' = []" by simp_all
  with ms have "snd (redact_pass p r) = snd r" "snd (fold redact_pass ps (redact_pass p r)) = snd (redact_pass p r)" by simp_all
  then show ?case using Cons.IH redact_pass_silent by (simp add: prod_eq_iff)
qed simp

lemma redact_text_silent: "redact_text s = (t, []) \<Longrightarrow> t = s"
  using redact_passes_silent [of PATTERNS "(s, [])"] by (simp add: redact_text_def)

text \<open>What a name of a secret is, said without the code: one of these words occurs in it, in whatever letter case.\<close>

definition secret_words :: "string list" where
  "secret_words = [''password'', ''passwd'', ''pwd'', ''secret'', ''token'', ''apikey'', ''api_key'', ''bearer'', ''private_key'',
     ''privatekey'', ''keytab'', ''credential'', ''bindpw'', ''bind_pw'', ''access_key'', ''secret_key'', ''session'', ''cookie'',
     ''authorization'']"

definition secret_name :: "string \<Rightarrow> bool" where
  "secret_name k = (\<exists>a b c. k = a @ b @ c \<and> str_lower b \<in> set secret_words)"

text \<open>Text \<open>s\<close> stands directly under the key \<open>k\<close> of a dict, somewhere inside the value.\<close>

inductive text_under :: "pyval \<Rightarrow> string \<Rightarrow> string \<Rightarrow> bool" where
  under_here: "(k, PStr s) \<in> set d \<Longrightarrow> text_under (PDict d) k s"
| under_entry: "(k', v) \<in> set d \<Longrightarrow> text_under v k s \<Longrightarrow> text_under (PDict d) k s"
| under_member: "v \<in> set xs \<Longrightarrow> text_under v k s \<Longrightarrow> text_under (PList xs) k s"

inductive_cases text_under_dictE: "text_under (PDict d) k s"
inductive_cases text_under_listE: "text_under (PList xs) k s"

text \<open>The redacted copy of a value: the same keys in the same order, lists of the same length, text directly under the name of
  a secret replaced, every other text as \<open>redact_text\<close> leaves it, anything else as it was.\<close>

fun redacted_copy :: "pyval \<Rightarrow> pyval \<Rightarrow> bool" where
  "redacted_copy (PDict d) (PDict e) =
     list_all2 (\<lambda>(k, v) (k', v').
       k' = k \<and> (if (\<exists>s. v = PStr s) \<and> secret_name k then v' = PStr ''[REDACTED]'' else redacted_copy v v')) d e"
| "redacted_copy (PList xs) (PList ys) = list_all2 redacted_copy xs ys"
| "redacted_copy (PStr s) (PStr t) = (t = fst (redact_text s))"
| "redacted_copy v w = (v = w)"

lemma contains_parts: "contains s p \<longleftrightarrow> (\<exists>a c. s = a @ p @ c)"
proof (induction s)
  case (Cons x s)
  have "(\<exists>a c. x # s = a @ p @ c) \<longleftrightarrow> (\<exists>c. x # s = p @ c) \<or> (\<exists>a c. s = a @ p @ c)"
    by (metis append_Cons append_Nil list.exhaust list.inject)
  then show ?case using Cons by (simp add: starts_with_iff)
qed simp

lemma sensitive_key_iff: "is_sensitive_key k \<longleftrightarrow> secret_name k"
proof -
  have m: "contains (str_lower k) m \<longleftrightarrow> (\<exists>a b c. k = a @ b @ c \<and> str_lower b = m)" for m
  proof
    assume "contains (str_lower k) m"
    then obtain x y where "map lower_char k = x @ m @ y" unfolding contains_parts str_lower_def by blast
    then obtain a r where r: "k = a @ r" "map lower_char r = m @ y" unfolding map_eq_append_conv [of lower_char k] by metis
    from r(2) obtain b c where "r = b @ c" "map lower_char b = m" unfolding map_eq_append_conv by metis
    then show "\<exists>a b c. k = a @ b @ c \<and> str_lower b = m" using r(1) unfolding str_lower_def by blast
  next
    assume "\<exists>a b c. k = a @ b @ c \<and> str_lower b = m"
    then show "contains (str_lower k) m" unfolding contains_parts str_lower_def by (metis map_append)
  qed
  have "is_sensitive_key k \<longleftrightarrow> (\<exists>m \<in> set secret_words. contains (str_lower k) m)"
    by (simp add: is_sensitive_key_def SENSITIVE_KEY_MARKERS_def secret_words_def)
  then show ?thesis unfolding m secret_name_def by blast
qed

lemma masked_field_iff: "masked_field k v \<longleftrightarrow> (\<exists>s. v = PStr s) \<and> secret_name k"
  by (cases v) (simp_all add: masked_field_def sensitive_key_iff)

lemma redact_walk_str [simp]: "fst (redact_walk (PStr s)) = PStr (fst (redact_text s))"
  by (simp split: prod.splits)

lemma redact_field_fst: "fst (redact_field k v r) = (k, if masked_field k v then PStr ''[REDACTED]'' else fst r)"
  by (simp add: redact_field_def)

lemma redact_walk_dict: "fst (redact_walk (PDict d)) = PDict (map (\<lambda>(k, v). fst (redact_field k v (redact_walk v))) d)"
  by (simp add: Let_def split_def)

lemma redact_walk_list: "fst (redact_walk (PList xs)) = PList (map (fst \<circ> redact_walk) xs)"
  by (simp add: Let_def)

lemma redact_walk_copy: "redacted_copy v (fst (redact_walk v))"
proof (induction v)
  case (PDict d)
  have "redacted_copy v (fst (redact_walk v))" if "(k, v) \<in> set d" for k v
    using PDict that by fastforce
  then show ?case
    unfolding redact_walk_dict redacted_copy.simps list_all2_map2 list_all2_same by (auto simp: redact_field_fst masked_field_iff)
next
  case (PList xs)
  then show ?case unfolding redact_walk_list redacted_copy.simps list_all2_map2 list_all2_same by simp
qed (simp_all split: prod.splits)

lemma redacted_entry:
  assumes "redacted_copy v (PDict e)" "(k, w) \<in> set e"
  shows "\<exists>v'. if (\<exists>s. v' = PStr s) \<and> secret_name k then w = PStr ''[REDACTED]'' else redacted_copy v' w"
proof (cases v)
  case (PDict d)
  obtain n where n: "n < length e" "e ! n = (k, w)" using assms(2) by (auto simp: in_set_conv_nth)
  obtain k' v' where d: "d ! n = (k', v')" by (cases "d ! n")
  from list_all2_nthD2 [OF assms(1) [unfolded PDict redacted_copy.simps] n(1)] show ?thesis
    unfolding n(2) d prod.case by blast
qed (use assms in auto)

lemma redacted_under: "text_under w k s \<Longrightarrow> redacted_copy v w \<Longrightarrow> secret_name k \<Longrightarrow> s = ''[REDACTED]''"
proof (induction arbitrary: v rule: text_under.induct)
  case (under_here k s d)
  then obtain v' where v': "if (\<exists>s. v' = PStr s) \<and> secret_name k then PStr s = PStr ''[REDACTED]'' else redacted_copy v' (PStr s)"
    using redacted_entry by blast
  then show ?case using under_here.prems(2) by (cases v') auto
next
  case (under_entry k' w d k s)
  then obtain v' where "if (\<exists>s. v' = PStr s) \<and> secret_name k' then w = PStr ''[REDACTED]'' else redacted_copy v' w"
    using redacted_entry by blast
  then show ?case using under_entry.IH under_entry.hyps(2) under_entry.prems(2) by (auto elim: text_under.cases split: if_splits)
next
  case (under_member w xs k s)
  then obtain v' where "redacted_copy v' w" by (cases v) (auto simp: list_all2_conv_all_nth in_set_conv_nth)
  then show ?case using under_member by blast
qed

lemma masked_in_trail: "text_under v k s \<Longrightarrow> secret_name k \<Longrightarrow> ''field:'' @ k \<in> set (snd (redact_walk v))"
proof (induction rule: text_under.induct)
  case (under_here k s d)
  then show ?case by (auto simp: Let_def redact_field_def masked_field_iff intro!: bexI [of _ "(k, PStr s)"])
next
  case (under_entry k' v d k s)
  have "\<not> masked_field k' v" using under_entry.hyps(2) by (auto simp: masked_field_iff elim: text_under.cases)
  then show ?case using under_entry by (auto simp: Let_def redact_field_def intro!: bexI [of _ "(k', v)"])
next
  case (under_member v xs k s)
  then show ?case by (auto simp: Let_def)
qed

lemma redact_walk_silent: "snd (redact_walk v) = [] \<Longrightarrow> fst (redact_walk v) = v"
proof (induction v)
  case (PDict d)
  have "fst (redact_field k v (redact_walk v)) = (k, v)" if kv: "(k, v) \<in> set d" for k v
  proof -
    have "snd (redact_field k v (redact_walk v)) = []" using PDict.prems kv by (fastforce simp: Let_def)
    then have "\<not> masked_field k v" "snd (redact_walk v) = []" by (auto simp: redact_field_def split: if_splits)
    then show ?thesis using PDict.IH kv by (fastforce simp: redact_field_def)
  qed
  then show ?case unfolding redact_walk_dict by (auto intro!: map_idI)
next
  case (PList xs)
  then show ?case unfolding redact_walk_list by (auto simp: Let_def intro!: map_idI)
next
  case (PStr s)
  then show ?case using redact_text_silent by (auto split: prod.splits)
qed simp_all

section \<open>Properties\<close>

text \<open>C38: After redaction every text that stands directly under the name of a secret is \<open>[REDACTED]\<close>, however deep in the
  mapping, and for each such text of the input the audit trail names the field. Nothing else about the data is changed but what
  \<open>redact_text\<close> makes of the other texts: the same keys in the same order, lists of the same length, numbers, booleans and None
  as they were. (A list or a dict under such a name is walked, not masked: the texts of a list there go to \<open>redact_text\<close>.)\<close>

theorem redact_mapping_safe:
  "(text_under (fst (redact_mapping d)) k s \<and> secret_name k \<longrightarrow> s = ''[REDACTED]'')
   \<and> (text_under (PDict d) k t \<and> secret_name k \<longrightarrow> ''field:'' @ k \<in> set (snd (redact_mapping d)))
   \<and> redacted_copy (PDict d) (fst (redact_mapping d))"
  unfolding redact_mapping_def using redacted_under redact_walk_copy masked_in_trail by blast

theorem redact_mapping_safe_witness:
  "text_under (fst (redact_mapping [(''kw'', PDict [(''BindPW'', PStr ''hunter2'')])])) ''BindPW'' ''[REDACTED]''
   \<and> ''field:BindPW'' \<in> set (snd (redact_mapping [(''kw'', PDict [(''BindPW'', PStr ''hunter2'')])]))"
proof -
  let ?d = "[(''kw'', PDict [(''BindPW'', PStr ''hunter2'')])]"
  have n: "secret_name ''BindPW''" unfolding sensitive_key_iff [symmetric] by code_simp
  have i: "text_under (PDict ?d) ''BindPW'' ''hunter2''" by (rule under_entry, simp, rule under_here, simp)
  have o: "fst (redact_mapping ?d) = PDict [(''kw'', PDict [(''BindPW'', PStr ''[REDACTED]'')])]" by code_simp
  have "text_under (fst (redact_mapping ?d)) ''BindPW'' ''[REDACTED]''" unfolding o by (rule under_entry, simp, rule under_here, simp)
  then show ?thesis using redact_mapping_safe [of ?d "''BindPW''" "''[REDACTED]''" "''hunter2''"] n i by simp
qed

text \<open>The audit trail is complete: when redaction reports no match, neither by field name nor by pattern, the
  data that goes out is the data that came in.\<close>

theorem redact_mapping_audit:
  assumes "snd (redact_mapping d) = []"
  shows "fst (redact_mapping d) = PDict d"
  using assms unfolding redact_mapping_def by (rule redact_walk_silent)

theorem redact_mapping_audit_witness:
  "fst (redact_mapping [(''msg'', PStr ''ok''), (''password'', PList [PStr ''hunter2''])]) =
     PDict [(''msg'', PStr ''ok''), (''password'', PList [PStr ''hunter2''])]"
  by (rule redact_mapping_audit) code_simp

end
