(* ===== verification/Catalog.thy ===== *)
theory Catalog
  imports Prelude
begin

text \<open>
  \<open>evidence/healthcheck_catalog.py\<close>: the generated table of upstream ipa-healthcheck checks, each with the first and
  the last release it was seen in. It is only looked up, never iterated; the table is split in halves for readability.
\<close>

definition catalog_ds_ipa :: "(string \<times> string \<times> string) list" where
  "catalog_ds_ipa =
    [(''ipahealthcheck.dogtag.ca.DogtagCertsConfigCheck'', ''0.2'', ''master''),
     (''ipahealthcheck.dogtag.ca.DogtagCertsConnectivityCheck'', ''0.2'', ''master''),
     (''ipahealthcheck.ds.backends.BackendsCheck'', ''0.6'', ''master''),
     (''ipahealthcheck.ds.config.ConfigCheck'', ''0.6'', ''master''),
     (''ipahealthcheck.ds.disk_space.DiskSpaceCheck'', ''0.6'', ''master''),
     (''ipahealthcheck.ds.ds_plugins.RIPluginCheck'', ''0.6'', ''master''),
     (''ipahealthcheck.ds.dse.DSECheck'', ''0.6'', ''master''),
     (''ipahealthcheck.ds.encryption.EncryptionCheck'', ''0.6'', ''master''),
     (''ipahealthcheck.ds.fs_checks.FSCheck'', ''0.6'', ''master''),
     (''ipahealthcheck.ds.nss_ssl.NssCheck'', ''0.6'', ''master''),
     (''ipahealthcheck.ds.replication.ReplicationChangelogCheck'', ''0.6'', ''master''),
     (''ipahealthcheck.ds.replication.ReplicationCheck'', ''0.6'', ''master''),
     (''ipahealthcheck.ds.replication.ReplicationConflictCheck'', ''0.2'', ''0.5''),
     (''ipahealthcheck.ds.ruv.KnownRUVCheck'', ''0.6'', ''master''),
     (''ipahealthcheck.ds.ruv.RUVCheck'', ''0.4'', ''master''),
     (''ipahealthcheck.ipa.certs.CertmongerFIPSTokensCheck'', ''0.19'', ''master''),
     (''ipahealthcheck.ipa.certs.CertmongerStuckCheck'', ''0.13'', ''master''),
     (''ipahealthcheck.ipa.certs.IPACAChainExpirationCheck'', ''0.4'', ''master''),
     (''ipahealthcheck.ipa.certs.IPACertDNSSAN'', ''0.7'', ''master''),
     (''ipahealthcheck.ipa.certs.IPACertMatchCheck'', ''0.9'', ''master''),
     (''ipahealthcheck.ipa.certs.IPACertNSSTrust'', ''0.2'', ''master''),
     (''ipahealthcheck.ipa.certs.IPACertRevocation'', ''0.2'', ''master''),
     (''ipahealthcheck.ipa.certs.IPACertTracking'', ''0.2'', ''master''),
     (''ipahealthcheck.ipa.certs.IPACertfileExpirationCheck'', ''0.2'', ''master''),
     (''ipahealthcheck.ipa.certs.IPACertmongerCA'', ''0.2'', ''master''),
     (''ipahealthcheck.ipa.certs.IPACertmongerExpirationCheck'', ''0.2'', ''master''),
     (''ipahealthcheck.ipa.certs.IPADogtagCertsMatchCheck'', ''0.9'', ''master''),
     (''ipahealthcheck.ipa.certs.IPAKRAAgent'', ''0.9'', ''master''),
     (''ipahealthcheck.ipa.certs.IPANSSChainValidation'', ''0.2'', ''master''),
     (''ipahealthcheck.ipa.certs.IPAOpenSSLChainValidation'', ''0.2'', ''master''),
     (''ipahealthcheck.ipa.certs.IPARAAgent'', ''0.2'', ''master''),
     (''ipahealthcheck.ipa.certs.IPAUserProvidedExpirationCheck'', ''0.18'', ''master''),
     (''ipahealthcheck.ipa.config.IPAkrbLastSuccessfulAuth'', ''0.18'', ''master''),
     (''ipahealthcheck.ipa.config.SSSDAllowedUids389Check'', ''0.19'', ''master''),
     (''ipahealthcheck.ipa.dna.IPADNARangeCheck'', ''0.3'', ''master''),
     (''ipahealthcheck.ipa.files.IPAFileCheck'', ''0.2'', ''master''),
     (''ipahealthcheck.ipa.files.IPAFileNSSDBCheck'', ''0.2'', ''master''),
     (''ipahealthcheck.ipa.files.TomcatFileCheck'', ''0.2'', ''master''),
     (''ipahealthcheck.ipa.host.DNSKeytab'', ''0.15'', ''master''),
     (''ipahealthcheck.ipa.host.DNS_keysyncKeytab'', ''0.15'', ''master''),
     (''ipahealthcheck.ipa.host.DSKeytab'', ''0.15'', ''master''),
     (''ipahealthcheck.ipa.host.HTTPKeytab'', ''0.15'', ''master'')]"

definition catalog_ipa_system :: "(string \<times> string \<times> string) list" where
  "catalog_ipa_system =
    [(''ipahealthcheck.ipa.host.IPAHostKeytab'', ''0.2'', ''master''),
     (''ipahealthcheck.ipa.host.ODS_EXPORTERKeytab'', ''0.15'', ''master''),
     (''ipahealthcheck.ipa.idns.IPADNSSystemRecordsCheck'', ''0.4'', ''master''),
     (''ipahealthcheck.ipa.kdc.KDCWorkersCheck'', ''0.11'', ''master''),
     (''ipahealthcheck.ipa.meta.IPAMetaCheck'', ''0.6'', ''master''),
     (''ipahealthcheck.ipa.nss.IPAGroupMemberCheck'', ''0.10'', ''master''),
     (''ipahealthcheck.ipa.proxy.IPAProxySecretCheck'', ''0.10'', ''master''),
     (''ipahealthcheck.ipa.roles.IPACRLManagerCheck'', ''0.3'', ''master''),
     (''ipahealthcheck.ipa.roles.IPARenewalMasterCheck'', ''0.3'', ''master''),
     (''ipahealthcheck.ipa.roles.IPARenewalMasterHasKRACheck'', ''0.13'', ''master''),
     (''ipahealthcheck.ipa.topology.IPATopologyDomainCheck'', ''0.2'', ''master''),
     (''ipahealthcheck.ipa.trust.IPADomainCheck'', ''0.4'', ''master''),
     (''ipahealthcheck.ipa.trust.IPATrustAgentCheck'', ''0.2'', ''master''),
     (''ipahealthcheck.ipa.trust.IPATrustAgentMemberCheck'', ''0.2'', ''master''),
     (''ipahealthcheck.ipa.trust.IPATrustCatalogCheck'', ''0.2'', ''master''),
     (''ipahealthcheck.ipa.trust.IPATrustControllerAdminSIDCheck'', ''0.7'', ''master''),
     (''ipahealthcheck.ipa.trust.IPATrustControllerConfCheck'', ''0.2'', ''master''),
     (''ipahealthcheck.ipa.trust.IPATrustControllerGroupSIDCheck'', ''0.2'', ''master''),
     (''ipahealthcheck.ipa.trust.IPATrustControllerPrincipalCheck'', ''0.2'', ''master''),
     (''ipahealthcheck.ipa.trust.IPATrustControllerServiceCheck'', ''0.2'', ''master''),
     (''ipahealthcheck.ipa.trust.IPATrustDomainsCheck'', ''0.2'', ''master''),
     (''ipahealthcheck.ipa.trust.IPATrustPackageCheck'', ''0.3'', ''master''),
     (''ipahealthcheck.ipa.trust.IPAauthzdatapacCheck'', ''0.18'', ''master''),
     (''ipahealthcheck.ipa.trust.IPAsidgenpluginCheck'', ''0.2'', ''master''),
     (''ipahealthcheck.meta.core.MetaCheck'', ''0.2'', ''master''),
     (''ipahealthcheck.meta.services.certmonger'', ''0.2'', ''master''),
     (''ipahealthcheck.meta.services.chronyd'', ''0.13'', ''master''),
     (''ipahealthcheck.meta.services.dirsrv'', ''0.2'', ''master''),
     (''ipahealthcheck.meta.services.gssproxy'', ''0.2'', ''master''),
     (''ipahealthcheck.meta.services.httpd'', ''0.2'', ''master''),
     (''ipahealthcheck.meta.services.ipa_custodia'', ''0.3'', ''master''),
     (''ipahealthcheck.meta.services.ipa_dnskeysyncd'', ''0.3'', ''master''),
     (''ipahealthcheck.meta.services.ipa_ods_exporter'', ''0.13'', ''0.16''),
     (''ipahealthcheck.meta.services.ipa_otpd'', ''0.3'', ''master''),
     (''ipahealthcheck.meta.services.kadmin'', ''0.3'', ''master''),
     (''ipahealthcheck.meta.services.krb5kdc'', ''0.2'', ''master''),
     (''ipahealthcheck.meta.services.named'', ''0.2'', ''master''),
     (''ipahealthcheck.meta.services.ods_enforcerd'', ''0.13'', ''master''),
     (''ipahealthcheck.meta.services.pki_tomcatd'', ''0.2'', ''master''),
     (''ipahealthcheck.meta.services.smb'', ''0.13'', ''master''),
     (''ipahealthcheck.meta.services.sssd'', ''0.3'', ''master''),
     (''ipahealthcheck.meta.services.winbind'', ''0.13'', ''master''),
     (''ipahealthcheck.system.filesystemspace.FileSystemSpaceCheck'', ''0.2'', ''master'')]"

definition CATALOG :: "(string \<times> string \<times> string) list" where
  "CATALOG = catalog_ds_ipa @ catalog_ipa_system"

end
