(* ===== verification/PyFloat.thy ===== *)
theory PyFloat
  imports Complex_Main Prelude "HOL-Library.Log_Nat"
begin

text \<open>
  IEEE 754 binary64 arithmetic, as far as the code uses it (weights of a score, clock values in
  seconds): a float is the rational number it stands for, and every operation rounds its exact result to
  53 bits, ties to even. Values so large or so small that the exponent matters do not occur.
\<close>

definition round_half_even :: "rat \<Rightarrow> int" where
  "round_half_even q =
     (let f = \<lfloor>q\<rfloor>; r = q - of_int f
      in if r < 1 / 2 then f else if r > 1 / 2 then f + 1 else if even f then f else f + 1)"

definition pow2 :: "int \<Rightarrow> rat" where
  "pow2 e = (if 0 \<le> e then 2 ^ nat e else 1 / 2 ^ nat (- e))"

text \<open>The exponent of the last of the 53 bits.\<close>

definition ulp_exp :: "rat \<Rightarrow> int" where
  "ulp_exp x =
     (case quotient_of \<bar>x\<bar> of (n, d) \<Rightarrow>
        let e = bitlen n - bitlen d - 53 in if \<bar>x\<bar> / pow2 e \<ge> 2 ^ 53 then e + 1 else e)"

definition fl64 :: "rat \<Rightarrow> rat" where
  "fl64 x = (if x = 0 then 0 else of_int (round_half_even (x / pow2 (ulp_exp x))) * pow2 (ulp_exp x))"

definition fadd :: "rat \<Rightarrow> rat \<Rightarrow> rat" where "fadd a b = fl64 (a + b)"
definition fsub :: "rat \<Rightarrow> rat \<Rightarrow> rat" where "fsub a b = fl64 (a - b)"
definition fmul :: "rat \<Rightarrow> rat \<Rightarrow> rat" where "fmul a b = fl64 (a * b)"

lemma pow2_pos [simp]: "0 < pow2 e"
  by (simp add: pow2_def)

lemma round_half_even_pos: "1 \<le> q \<Longrightarrow> 1 \<le> round_half_even q"
  by (auto simp: round_half_even_def Let_def le_floor_iff intro: order_trans)

end
