(* ===== verification/Correlate.thy ===== *)
theory Correlate
  imports Unexplained Redact Catalog PyFloat "HOL-Library.Product_Lexorder" "HOL-Library.List_Lexorder"
begin

text \<open>
  \<open>engine/correlate.py\<close>: prioritisation of the diagnoses of a run and the report. The diagnoses are objects the
  code mutates; here each pass maps over their list, and where the code compares objects by identity
  (the root candidates) their positions stand for them.
\<close>

section \<open>Scores\<close>

fun STATUS_WEIGHT :: "diagnosis_status \<Rightarrow> rat" where
  "STATUS_WEIGHT DIAGNOSED = 1"
| "STATUS_WEIGHT UNKNOWN_CONFLICTING_EVIDENCE = fl64 (85 / 100)"
| "STATUS_WEIGHT UNKNOWN_INSUFFICIENT_EVIDENCE = fl64 (7 / 10)"
| "STATUS_WEIGHT TRANSIENT_SUSPECTED = fl64 (5 / 10)"

fun CONFIDENCE_WEIGHT :: "confidence_level \<Rightarrow> rat" where
  "CONFIDENCE_WEIGHT HIGH = 1"
| "CONFIDENCE_WEIGHT MEDIUM = fl64 (7 / 10)"
| "CONFIDENCE_WEIGHT LOW = fl64 (4 / 10)"
| "CONFIDENCE_WEIGHT INSUFFICIENT = fl64 (2 / 10)"

definition evidence_rank :: "diagnosis \<Rightarrow> nat" where
  "evidence_rank d = (case d_evidence_severity d of None \<Rightarrow> rank (d_severity d) | Some s \<Rightarrow> min (rank (d_severity d)) (rank s))"

definition score :: "diagnosis \<Rightarrow> rat" where
  "score d =
     fmul (fmul (fmul (of_nat (evidence_rank d) + 1) (STATUS_WEIGHT (d_status d))) (CONFIDENCE_WEIGHT (c_level (d_confidence d))))
       (fadd 1 (fmul (fl64 (5 / 100)) (of_int (min (c_corroborating (d_confidence d)) 6))))"

definition is_real_problem :: "diagnosis \<Rightarrow> bool" where
  "is_real_problem d = (rank (d_severity d) \<ge> rank Sev_ERROR)"

section \<open>Causality\<close>

definition SERVICE_PACK :: "(string \<times> string) list" where
  "SERVICE_PACK = [(''dirsrv'', ''directory-server''), (''krb5kdc'', ''kerberos''), (''named'', ''dns''),
     (''named-pkcs11'', ''dns''), (''pki-tomcatd'', ''certificates''), (''pki_tomcatd'', ''certificates''),
     (''certmonger'', ''certificates'')]"

definition service_prefix :: string where "service_prefix = ''service-not-running-''"

text \<open>\<open>rule_id[len("service-not-running-"):].split("@")[0]\<close>\<close>

definition rule_service :: "string \<Rightarrow> string" where
  "rule_service rule_id = before_at (drop (length service_prefix) rule_id)"

definition effective_pack :: "diagnosis \<Rightarrow> string" where
  "effective_pack d =
     (if d_pack_id d = ''healthcheck'' \<and> starts_with (d_rule_id d) service_prefix
      then (case map_of SERVICE_PACK (rule_service (d_rule_id d)) of None \<Rightarrow> d_pack_id d | Some p \<Rightarrow> p)
      else d_pack_id d)"

definition NEEDS_DIRSRV :: "string list" where
  "NEEDS_DIRSRV = [''krb5kdc'', ''kadmin'', ''httpd'', ''ipa-custodia'', ''pki-tomcatd'', ''pki_tomcatd'', ''ipa-dnskeysyncd'',
     ''named'', ''named-pkcs11'']"

definition IMPLICIT_RULE_UPSTREAMS :: "(string \<times> string list) list" where
  "IMPLICIT_RULE_UPSTREAMS =
     [(''kerberos.kdc-discovery-failure'', [''healthcheck.service-not-running-dirsrv*'']),
      (''dns.srv-autodiscovery'', [''dns.named-service-down'', ''healthcheck.service-not-running-named'',
         ''healthcheck.service-not-running-named-pkcs11'']),
      (''certificates.certmonger-tracking-stuck'',
         [''healthcheck.service-not-running-pki-tomcatd*'', ''healthcheck.service-not-running-pki_tomcatd*'']),
      (''certificates.ra-agent-desync'',
         [''healthcheck.service-not-running-pki-tomcatd*'', ''healthcheck.service-not-running-pki_tomcatd*'']),
      (''healthcheck.service-not-running-dirsrv*'', [''directory-server.disk-space-exhaustion''])]
     @ map (\<lambda>svc. (''healthcheck.service-not-running-'' @ svc, [''healthcheck.service-not-running-dirsrv*''])) NEEDS_DIRSRV"

definition SAFETY_NETS :: "string list" where
  "SAFETY_NETS = [''healthcheck-check-failed'', ''unexplained-findings'']"

definition CHECKS_ASKING_SERVICE :: "(string \<times> string list) list" where
  "CHECKS_ASKING_SERVICE = [(''certmonger'', [''IPACertmongerCA''])]"

definition is_service_down :: "diagnosis \<Rightarrow> bool" where
  "is_service_down u =
     (d_pack_id u = ''healthcheck'' \<and> starts_with (d_rule_id u) service_prefix \<or> d_diagnosis_id u = ''dns.named-service-down'')"

definition pack_sources :: "pack list \<Rightarrow> string \<Rightarrow> string list" where
  "pack_sources packs pid = concat (map pk_healthcheck_sources (filter (\<lambda>p. pk_pack_id p = pid) packs))"

text \<open>\<open>key\<close> is "source::check".\<close>

definition asked_service :: "diagnosis \<Rightarrow> string" where
  "asked_service u = (if starts_with (d_rule_id u) service_prefix then rule_service (d_rule_id u) else [])"

definition explains_source :: "pack list \<Rightarrow> diagnosis \<Rightarrow> string \<Rightarrow> bool \<Rightarrow> bool" where
  "explains_source packs u key crashed =
     (case partition_str ''::'' key of (source, _, check) \<Rightarrow>
        if starts_with source ''ipahealthcheck.system.filesystemspace'' then False
        else if d_pack_id u = ''healthcheck'' \<and> rule_service (d_rule_id u) = ''dirsrv'' \<and> crashed then True
        else if starts_with source ''ipahealthcheck.meta.services'' then True
        else if \<not> crashed
          then (case map_of CHECKS_ASKING_SERVICE (asked_service u) of None \<Rightarrow> False | Some cs \<Rightarrow> check \<in> set cs)
        else list_ex (starts_with source) (pack_sources packs (effective_pack u)))"

text \<open>A trailing \<open>*\<close> of a pattern matches a prefix.\<close>

definition match_pat :: "string \<Rightarrow> string \<Rightarrow> bool" where
  "match_pat pattern v = (v = pattern \<or> ends_with pattern ''*'' \<and> starts_with v (butlast pattern))"

definition implicit_cause :: "diagnosis \<Rightarrow> diagnosis \<Rightarrow> bool" where
  "implicit_cause d u =
     (d_explains_downstream u
      \<and> list_ex (\<lambda>(key, causes). match_pat key (d_diagnosis_id d) \<and> list_ex (\<lambda>c. match_pat c (d_diagnosis_id u)) causes)
          IMPLICIT_RULE_UPSTREAMS)"

definition causes_of :: "diagnosis list \<Rightarrow> diagnosis list" where
  "causes_of ds = filter (\<lambda>u. is_real_problem u \<and> d_explains_downstream u \<and> evidence_rank u \<ge> rank Sev_ERROR) ds"

definition declared_causes :: "diagnosis list \<Rightarrow> diagnosis \<Rightarrow> diagnosis list" where
  "declared_causes ds d =
     filter (\<lambda>u. effective_pack u \<in> set (d_upstream_candidates d) \<and> effective_pack u \<noteq> d_pack_id d
                \<and> effective_pack u \<notin> set (d_not_caused_by d)) (causes_of ds)"

definition all_causes :: "diagnosis list \<Rightarrow> diagnosis \<Rightarrow> diagnosis list" where
  "all_causes ds d =
     declared_causes ds d
     @ filter (\<lambda>u. implicit_cause d u \<and> is_real_problem u \<and> u \<notin> set (declared_causes ds d)
                  \<and> effective_pack u \<notin> set (d_not_caused_by d)) ds"

definition cited_sources :: "(string \<times> string) list \<Rightarrow> diagnosis \<Rightarrow> string list" where
  "cited_sources finding_sources d =
     map (\<lambda>r. case dict_get finding_sources (r_evidence_id r) of None \<Rightarrow> [] | Some s \<Rightarrow> s)
       (filter (\<lambda>r. r_kind r = ''finding'') (d_evidence_for d))"

text \<open>Whether \<open>u\<close> may absorb \<open>d\<close>: the two branches over the safety nets and all other diagnoses.\<close>

definition may_absorb :: "pack list \<Rightarrow> (string \<times> string) list \<Rightarrow> diagnosis \<Rightarrow> diagnosis \<Rightarrow> bool" where
  "may_absorb packs finding_sources d u =
     (if d_pack_id d = ''healthcheck'' \<and> d_rule_id d \<in> set SAFETY_NETS
      then (let srcs = cited_sources finding_sources d; crashed = (d_rule_id d = ''healthcheck-check-failed'')
            in d_status u = DIAGNOSED \<and> is_service_down u \<and> srcs \<noteq> []
               \<and> list_all (\<lambda>s. explains_source packs u s crashed) srcs
               \<and> (crashed \<or> evidence_rank u \<ge> evidence_rank d))
      else d_status u = DIAGNOSED \<or> d_status d \<noteq> DIAGNOSED \<and> evidence_rank u \<ge> evidence_rank d)"

definition causes_for :: "pack list \<Rightarrow> (string \<times> string) list \<Rightarrow> diagnosis list \<Rightarrow> diagnosis \<Rightarrow> diagnosis list" where
  "causes_for packs finding_sources ds d = filter (may_absorb packs finding_sources d) (all_causes ds d)"

type_synonym demotion_state = "(string \<times> string list) list \<times> (string \<times> string list) list"

definition demote_step :: "pack list \<Rightarrow> (string \<times> string) list \<Rightarrow> diagnosis list \<Rightarrow> diagnosis \<Rightarrow> demotion_state \<Rightarrow> demotion_state" where
  "demote_step packs finding_sources ds d st =
     (let candidates = causes_for packs finding_sources ds d; pks = dedup (map effective_pack candidates)
      in if pks \<noteq> []
         then (dict_set (d_diagnosis_id d) pks (fst st),
               dict_set (d_diagnosis_id d) (map d_title (filter (\<lambda>u. d_title u \<noteq> d_title d) candidates)) (snd st))
         else st)"

text \<open>\<open>_demote_via_causality\<close>: the demotions, and \<open>cause_titles\<close>, which the code keeps in a module global that it
  clears first.\<close>

definition demote_via_causality :: "pack list \<Rightarrow> diagnosis list \<Rightarrow> (string \<times> string) list \<Rightarrow> demotion_state" where
  "demote_via_causality packs ds finding_sources = fold (demote_step packs finding_sources ds) ds ([], [])"

section \<open>Undiagnosed findings\<close>

definition placeholder_rx :: rx where
  "placeholder_rx = seqs [lit [CHR 0x7B], Grp 1 (Seq (Cls (\<lambda>c. is_lower c \<or> is_upper c \<or> c = CHR ''_'')) (upto 0 40 (Cls (alnum_or ''_'')))),
     lit [CHR 0x7D]]"

definition fill_placeholders :: "pydict \<Rightarrow> string \<Rightarrow> string" where
  "fill_placeholders kw text =
     (let vals = dict_of (map (\<lambda>(k, v). (k, sanitize_val v 80)) (take 64 kw))
      in rx_sub placeholder_rx
           (\<lambda>m g. case dict_get g 1 of None \<Rightarrow> m | Some name \<Rightarrow> (case dict_get vals name of None \<Rightarrow> m | Some v \<Rightarrow> v))
           (take 2000 text))"

definition display_message :: "finding \<Rightarrow> string" where
  "display_message f =
     (let kw = as_dict (f_keywords f); text = f_message f
      in if text = []
         then (let names = join '', '' (map (\<lambda>k. sanitize_text k 40) (take 8 (map fst kw)))
               in if names \<noteq> [] then ''(no message; fields: '' @ names @ '')'' else ''(no message)'')
         else (let text = (if CHR 0x7B \<in> set text then fill_placeholders kw text else text)
               in fst (redact_text (sanitize_text text 300))))"

definition undiagnosed_reason :: "bool \<Rightarrow> bool \<Rightarrow> string" where
  "undiagnosed_reason crashed known =
     (if crashed then ''The check raised an exception instead of returning a result, so it says nothing about the system.''
      else if \<not> known
        then ''ipa-diagnose has no rule for this check, and it is not in this build's catalog of upstream checks (possibly newer or custom).''
      else ''ipa-diagnose has no rule that explains this finding; it may or may not matter.'')"

definition key_text :: "finding \<Rightarrow> string option" where
  "key_text f =
     (case map_of (as_dict (f_keywords f)) ''key'' of
        Some (PStr s) \<Rightarrow> if s \<noteq> f_check f then Some (sanitize_text s 160) else None
      | Some (PInt i) \<Rightarrow> if py_str (PInt i) \<noteq> f_check f then Some (sanitize_val (PInt i) 160) else None
      | Some (PBool b) \<Rightarrow> if py_str (PBool b) \<noteq> f_check f then Some (sanitize_val (PBool b) 160) else None
      | _ \<Rightarrow> None)"

definition known_check :: "finding \<Rightarrow> (string \<times> string) option" where
  "known_check f = map_of CATALOG (f_qualified_check f)"

definition healthcheck_version :: "evidence_bundle \<Rightarrow> string option" where
  "healthcheck_version b = (case b_environment b of None \<Rightarrow> None | Some e \<Rightarrow> env_ipa_healthcheck_version e)"

definition undiagnosed_of :: "evidence_bundle \<Rightarrow> finding \<Rightarrow> undiagnosed_finding" where
  "undiagnosed_of b f =
     \<lparr>u_source = sanitize_text (f_source f) 120, u_check = sanitize_text (f_check f) 120,
      u_severity = severity_value (f_severity f), u_message = display_message f,
      u_reason = undiagnosed_reason (is_check_crash f) (known_check f \<noteq> None), u_crashed = is_check_crash f,
      u_check_known_since = map_option fst (known_check f),
      u_ipa_healthcheck_version =
        (case healthcheck_version b of None \<Rightarrow> None | Some v \<Rightarrow> if v = [] then None else Some (sanitize_text v 40)),
      u_finding_id = sanitize_text (f_finding_id f) 120, u_key = key_text f\<rparr>"

text \<open>The findings the loop does not skip: only positive citations count, and only of an unambiguous id.\<close>

definition cited_for :: "diagnosis list \<Rightarrow> string list" where
  "cited_for ds = concat (map (\<lambda>d. map r_evidence_id (d_evidence_for d)) ds)"

definition unexplained_here :: "evidence_bundle \<Rightarrow> diagnosis list \<Rightarrow> finding \<Rightarrow> bool" where
  "unexplained_here b ds f =
     (f_severity f \<noteq> Sev_SUCCESS
      \<and> \<not> (f_finding_id f \<in> set (cited_for ds)
           \<and> length (filter (\<lambda>g. f_finding_id g = f_finding_id f) (b_findings b)) = 1))"

definition severity_weight :: "string \<Rightarrow> int" where
  "severity_weight s = (if s = ''CRITICAL'' then 4 else if s = ''ERROR'' \<or> s = ''UNKNOWN'' then 3 else if s = ''WARNING'' then 1 else 2)"

definition undiagnosed_findings :: "evidence_bundle \<Rightarrow> diagnosis list \<Rightarrow> undiagnosed_finding list" where
  "undiagnosed_findings b ds =
     sort_key (\<lambda>u. (- severity_weight (u_severity u), u_source u, u_check u))
       (map (undiagnosed_of b) (filter (unexplained_here b ds) (b_findings b)))"

section \<open>Completeness\<close>

definition CAPABILITY_LABELS :: "(string \<times> string) list" where
  "CAPABILITY_LABELS = [(''ipa-healthcheck'', ''ipa-healthcheck (base health evidence)''),
     (''ipa-healthcheck-coverage'', ''ipa-healthcheck coverage (Directory Server and IPA checks)''),
     (''replication_agreements'', ''Replication agreements / RUV'')]"

definition sanitize_error_text :: "string \<Rightarrow> string" where
  "sanitize_error_text t = sanitize_text t 300"

definition hint_for :: "string \<Rightarrow> string \<Rightarrow> string" where
  "hint_for collector reason =
     (let low = str_lower reason; hc = (collector = ''ipa-healthcheck'')
      in if contains low ''ldapsearch is not installed''
         then ''Install the OpenLDAP client tools (dnf install openldap-clients) and run as root.''
         else if contains low ''not running as root'' then ''Run ipa-diagnose as root (sudo ipa-diagnose).''
         else if hc \<and> contains low ''not installed'' then ''Install ipa-healthcheck (dnf install freeipa-healthcheck).''
         else if hc \<and> contains low ''timed out''
         then ''ipa-healthcheck did not finish in time. A stopped or unreachable DNS, LDAP or Kerberos service '' @
              ''is a common cause - check those services, then re-run.''
         else if hc \<and> (contains low ''no output'' \<or> contains low ''could not parse'' \<or> contains low ''no usable'')
         then ''ipa-healthcheck produced no usable output; it normally needs root - re-run with sudo.''
         else if contains low ''directory manager password''
         then ''ipa-diagnose never asks for the Directory Manager password; as root it reads the replica '' @
              ''update vector over the local LDAPI socket instead.''
         else [])"

definition unverified_of :: "collection_error \<Rightarrow> unverified_capability" where
  "unverified_of e =
     \<lparr>uc_capability = (case map_of CAPABILITY_LABELS (ce_collector e) of None \<Rightarrow> ce_collector e | Some l \<Rightarrow> l),
      uc_collector = ce_collector e, uc_reason = sanitize_error_text (ce_message e),
      uc_permission_related = ce_permission_related e,
      uc_hint = hint_for (ce_collector e) (sanitize_error_text (ce_message e))\<rparr>"

definition no_replication :: "evidence_bundle \<Rightarrow> bool" where
  "no_replication b =
     list_ex (\<lambda>i. i_kind i = ''replication_topology''
        \<and> map_of (i_data i) ''state'' = Some (PStr ''no_replication_configured'')) (b_items b)"

definition ruv_assessment :: "evidence_bundle \<Rightarrow> string \<times> string option" where
  "ruv_assessment b =
     (let has_ruv = list_ex (\<lambda>i. i_kind i = ''replication_ruv'') (b_items b)
      in if no_replication b \<and> \<not> has_ruv then (''NONE_CONFIGURED'', None)
         else if has_ruv then (''VERIFIED'', None)
         else case find (\<lambda>e. ce_collector e = ''replication_agreements'') (b_collection_errors b) of
                Some e \<Rightarrow> (''NOT_VERIFIED'', Some (sanitize_error_text (ce_message e)))
              | None \<Rightarrow> (''NOT_COLLECTED'', None))"

definition healthcheck_ok :: "evidence_bundle \<Rightarrow> bool" where
  "healthcheck_ok b = list_all (\<lambda>e. ce_collector e \<noteq> ''ipa-healthcheck'') (b_collection_errors b)"

definition assess_completeness :: "evidence_bundle \<Rightarrow> evidence_completeness" where
  "assess_completeness b =
     \<lparr>ec_level = (if \<not> healthcheck_ok b then ''insufficient'' else if b_collection_errors b \<noteq> [] then ''partial'' else ''complete''),
      ec_healthcheck_collected = healthcheck_ok b,
      ec_unverified = map unverified_of (b_collection_errors b),
      ec_ruv_state = fst (ruv_assessment b), ec_ruv_reason = snd (ruv_assessment b)\<rparr>"

definition apply_completeness :: "overall_status \<Rightarrow> evidence_completeness \<Rightarrow> bool \<Rightarrow> overall_status" where
  "apply_completeness status c has_undiagnosed =
     (if ec_level c = ''insufficient'' \<and> status \<in> {HEALTHY, OS_UNKNOWN, NOT_FULLY_VERIFIED} then OS_UNKNOWN
      else if status = OS_UNKNOWN then NOT_FULLY_VERIFIED
      else if status \<noteq> HEALTHY then status
      else if ec_level c = ''partial'' \<or> has_undiagnosed then NOT_FULLY_VERIFIED
      else HEALTHY)"

definition severity_note :: "finding \<Rightarrow> string" where
  "severity_note f =
     sanitize_text (f_source f @ ''.'' @ f_check f @ '': unrecognized severity '' @
       py_repr (case map_of (as_dict (f_raw f)) ''result'' of None \<Rightarrow> PNone | Some v \<Rightarrow> v) @
       '' - treated as ERROR-equivalent, not dropped'') 300"

definition unknown_severity_notes :: "evidence_bundle \<Rightarrow> string list" where
  "unknown_severity_notes b =
     (let notes = map severity_note (filter (\<lambda>f. f_severity f = Sev_UNKNOWN) (b_findings b))
      in if length notes > 20
         then take 20 notes @ [''(+'' @ show_nat (length notes - 20) @ '' more unrecognized severity value(s) not shown)'']
         else notes)"

section \<open>Priorities and the report\<close>

fun priority_order :: "priority_bucket \<Rightarrow> nat" where
  "priority_order PRIMARY = 0"
| "priority_order SECONDARY_INDEPENDENT = 1"
| "priority_order RELATED_SYMPTOM = 2"
| "priority_order PB_WARNING = 3"
| "priority_order INFORMATIONAL = 4"

instantiation priority_bucket :: linorder
begin

definition less_eq_priority_bucket :: "priority_bucket \<Rightarrow> priority_bucket \<Rightarrow> bool" where
  "less_eq_priority_bucket a b = (priority_order a \<le> priority_order b)"

definition less_priority_bucket :: "priority_bucket \<Rightarrow> priority_bucket \<Rightarrow> bool" where
  "less_priority_bucket a b = (priority_order a < priority_order b)"

instance
proof
  fix x y z :: priority_bucket
  show "x \<le> y \<Longrightarrow> y \<le> x \<Longrightarrow> x = y"
    by (cases x; cases y) (simp_all add: less_eq_priority_bucket_def)
qed (auto simp: less_eq_priority_bucket_def less_priority_bucket_def)

end

definition newlines :: string where "newlines = [CHR 0x0A, CHR 0x0A]"

definition certmonger_note :: string where
  "certmonger_note = ''Note: certmonger is running now - ipa-healthcheck's certificate checks started it '' @
     ''during this run (see the note at the top). If it had been stopped on purpose, stop or mask it again.''"

definition certmonger_started :: "evidence_bundle \<Rightarrow> bool" where
  "certmonger_started b = list_ex (\<lambda>s. contains s ''certmonger was not running'') (b_side_effects b)"

definition adjust_certmonger :: "evidence_bundle \<Rightarrow> diagnosis \<Rightarrow> diagnosis" where
  "adjust_certmonger b d =
     (if certmonger_started b \<and> d_pack_id d = ''healthcheck'' \<and> d_rule_id d = ''service-not-running-certmonger''
      then d\<lparr>d_why := d_why d @ newlines @ certmonger_note, d_severity := Sev_WARNING\<rparr> else d)"

definition related_why :: "diagnosis list \<Rightarrow> string list \<Rightarrow> diagnosis \<Rightarrow> string" where
  "related_why ds causes d =
     (let cause_note = join '' and '' causes
      in if d_status d = DIAGNOSED
         then d_why d @ newlines @ ''Likely a downstream symptom of the '' @ cause_note @ '' problem reported above.'' @
              (if is_service_down d \<and> list_ex (\<lambda>u. contains (d_diagnosis_id u) ''service-not-running-dirsrv'') ds
               then '' It does not start by itself when the Directory Server is started: once dirsrv is '' @
                    ''running, run ipa-diagnose again (or verify), which then shows its own fix.''
               else [])
         else d_why d @ newlines @ ''May be a downstream symptom of the '' @ cause_note @ '' problem reported above (not established).'')"

definition demoted :: "demotion_state \<Rightarrow> diagnosis \<Rightarrow> bool" where
  "demoted st d = (dict_get (fst st) (d_diagnosis_id d) \<noteq> None)"

definition plain_warning :: "diagnosis \<Rightarrow> bool" where
  "plain_warning d = (d_severity d = Sev_WARNING \<and> d_status d = DIAGNOSED)"

definition is_root :: "demotion_state \<Rightarrow> diagnosis \<Rightarrow> bool" where
  "is_root st d = (\<not> demoted st d \<and> \<not> plain_warning d)"

text \<open>The first pass: symptoms and warnings get their priority, the others are root candidates.\<close>

definition prioritize_one :: "demotion_state \<Rightarrow> diagnosis list \<Rightarrow> diagnosis \<Rightarrow> diagnosis" where
  "prioritize_one st ds d =
     (case dict_get (fst st) (d_diagnosis_id d) of
        Some causes \<Rightarrow>
          d\<lparr>d_priority := RELATED_SYMPTOM,
            d_related_to_titles := dedup (case dict_get (snd st) (d_diagnosis_id d) of None \<Rightarrow> [] | Some ts \<Rightarrow> ts),
            d_why := related_why ds causes d\<rparr>
      | None \<Rightarrow> if plain_warning d then d\<lparr>d_priority := PB_WARNING\<rparr> else d)"

definition root_key :: "diagnosis \<Rightarrow> bool \<times> rat" where
  "root_key d = (evidence_rank d \<ge> rank Sev_ERROR, score d)"

text \<open>The root candidates, as positions, in the order of \<open>sort(key=..., reverse=True)\<close>.\<close>

definition root_order :: "demotion_state \<Rightarrow> diagnosis list \<Rightarrow> (nat \<times> diagnosis) list" where
  "root_order st ds = sort_desc (\<lambda>p. root_key (snd p)) (filter (\<lambda>p. is_root st (snd p)) (enumerate 0 ds))"

definition set_root_priority :: "(nat \<times> diagnosis) list \<Rightarrow> nat \<times> diagnosis \<Rightarrow> diagnosis" where
  "set_root_priority roots p =
     (if p \<in> set roots
      then (snd p)\<lparr>d_priority := (if p = hd roots then PRIMARY else SECONDARY_INDEPENDENT)\<rparr>
      else snd p)"

definition prioritize :: "demotion_state \<Rightarrow> diagnosis list \<Rightarrow> diagnosis list" where
  "prioritize st ds =
     (let ds1 = map (prioritize_one st ds) ds in map (set_root_priority (root_order st ds1)) (enumerate 0 ds1))"

definition priority_sort_key :: "diagnosis \<Rightarrow> nat \<times> rat" where
  "priority_sort_key d = (priority_order (d_priority d), - score d)"

definition overall_status_of :: "diagnosis list \<Rightarrow> overall_status" where
  "overall_status_of ds =
     (case ds of [] \<Rightarrow> HEALTHY
      | d # ds' \<Rightarrow>
          let unresolved = list_ex (\<lambda>x. d_priority x = PRIMARY \<and> d_status x \<noteq> DIAGNOSED) ds;
              worst = max_by rank (d_severity d) (map d_severity ds')
          in if unresolved \<and> rank worst \<ge> rank Sev_ERROR then OS_UNKNOWN
             else if rank worst \<ge> rank Sev_CRITICAL then OS_CRITICAL
             else if rank worst \<ge> rank Sev_ERROR then DEGRADED
             else if list_ex (\<lambda>x. d_priority x \<noteq> INFORMATIONAL) ds then DEGRADED
             else HEALTHY)"

definition finding_source_map :: "evidence_bundle \<Rightarrow> (string \<times> string) list" where
  "finding_source_map b = dict_of (map (\<lambda>f. (f_finding_id f, f_source f @ ''::'' @ f_check f)) (b_findings b))"

definition prioritized :: "pack list \<Rightarrow> evidence_bundle \<Rightarrow> diagnosis list \<Rightarrow> diagnosis list" where
  "prioritized packs b ds0 =
     (let ds = map (adjust_certmonger b) ds0
      in prioritize (demote_via_causality packs ds (finding_source_map b)) ds)"

definition unclaimed_warnings :: "evidence_bundle \<Rightarrow> diagnosis list \<Rightarrow> nat" where
  "unclaimed_warnings b ds =
     length (filter (\<lambda>f. f_severity f = Sev_WARNING \<and> f_finding_id f \<notin> set (claimed_ids ds)) (b_findings b))"

definition build_report :: "pack list \<Rightarrow> string \<Rightarrow> evidence_bundle \<Rightarrow> diagnosis list \<Rightarrow> string list \<Rightarrow> diagnosis_report" where
  "build_report packs now b ds0 packs_evaluated =
     (let ds = prioritized packs b ds0; completeness = assess_completeness b; undiagnosed = undiagnosed_findings b ds
      in \<lparr>rep_generated_at = now, rep_hostname = b_hostname b,
          rep_overall_status = apply_completeness (overall_status_of ds) completeness (undiagnosed \<noteq> []),
          rep_diagnoses = sort_key priority_sort_key ds,
          rep_collection_errors =
            map (\<lambda>e. ce_collector e @ '': '' @ sanitize_error_text (ce_message e)) (b_collection_errors b),
          rep_packs_evaluated = packs_evaluated, rep_replay_source = b_replay_source b,
          rep_environment = b_environment b, rep_evidence_completeness = completeness,
          rep_unclaimed_warnings = unclaimed_warnings b ds, rep_undiagnosed_findings = undiagnosed,
          rep_resolutions = [], rep_carried_fixes = [], rep_carried_diagnoses = [],
          rep_service_states = b_service_states b, rep_side_effects = b_side_effects b,
          rep_unknown_severity_findings = unknown_severity_notes b\<rparr>)"

section \<open>A run\<close>

text \<open>\<open>engine/run.py\<close>: rules see only results of checks that ran; the safety net sees everything.\<close>

definition rule_bundle :: "evidence_bundle \<Rightarrow> evidence_bundle" where
  "rule_bundle b = b\<lparr>b_findings := filter (\<lambda>f. \<not> is_check_crash f) (b_findings b)\<rparr>"

definition run_diagnosis :: "pack list \<Rightarrow> string \<Rightarrow> evidence_bundle \<Rightarrow> exn + diagnosis_report" where
  "run_diagnosis packs now b =
     bind_exn (sequence_exn (map (\<lambda>p. pack_evaluate p (rule_bundle b)) packs)) (\<lambda>dss.
     bind_exn (unexplained_finding_diagnoses b (concat dss)) (\<lambda>net.
     Inr (build_report packs now b (concat dss @ net) (map pk_pack_id packs))))"

section \<open>Lemmas\<close>

text \<open>What prioritisation never touches.\<close>

definition core :: "diagnosis \<Rightarrow> diagnosis" where
  "core d = d\<lparr>d_priority := INFORMATIONAL, d_why := [], d_related_to_titles := []\<rparr>"

lemma core_prioritize_one [simp]: "core (prioritize_one st ds d) = core d"
  by (simp add: core_def prioritize_one_def split: option.splits)

lemma core_set_root_priority [simp]: "core (set_root_priority roots p) = core (snd p)"
  by (simp add: core_def set_root_priority_def)

lemma core_prioritize: "map core (prioritize st ds) = map core ds"
proof -
  let ?ds1 = "map (prioritize_one st ds) ds"
  have "map core (prioritize st ds) = map core (map snd (enumerate 0 ?ds1))"
    by (simp add: prioritize_def Let_def comp_def del: map_snd_enumerate)
  also have "\<dots> = map core ds" unfolding map_snd_enumerate by simp
  finally show ?thesis .
qed

lemma core_invariant:
  assumes "\<And>d. f d = f (core d)" "core d = core e"
  shows "f d = f e"
  using assms(1) [of d] assms(1) [of e] unfolding assms(2) by (rule trans [OF _ sym])

lemma evidence_rank_core: "evidence_rank d = evidence_rank (core d)"
  by (simp add: evidence_rank_def core_def cong: option.case_cong)

lemma score_core: "score d = score (core d)"
  using evidence_rank_core [of d] by (simp add: score_def) (simp add: core_def)

lemma root_key_core: "root_key d = root_key (core d)"
  using evidence_rank_core [of d] score_core [of d] by (simp add: root_key_def)

lemma fields_core: "d_diagnosis_id d = d_diagnosis_id (core d)" "d_evidence_for d = d_evidence_for (core d)"
    "d_evidence_against d = d_evidence_against (core d)" "d_rule_id d = d_rule_id (core d)"
    "d_severity d = d_severity (core d)" "d_status d = d_status (core d)"
  by (simp_all add: core_def)

lemmas core_eqD = core_invariant [of d_diagnosis_id, OF fields_core(1)] core_invariant [of d_evidence_for, OF fields_core(2)]
  core_invariant [of d_evidence_against, OF fields_core(3)] core_invariant [of d_rule_id, OF fields_core(4)]
  core_invariant [of d_severity, OF fields_core(5)] core_invariant [of d_status, OF fields_core(6)]
  core_invariant [of root_key, OF root_key_core] core_invariant [of score, OF score_core]

lemma map_coreD: "map core ds = map core es \<Longrightarrow> (\<And>d e. core d = core e \<Longrightarrow> f d = f e) \<Longrightarrow> map f ds = map f es"
proof (induction ds arbitrary: es)
  case (Cons d ds)
  from Cons.prems(1) obtain e es' where es: "es = e # es'" "core d = core e" "map core ds = map core es'"
    by (cases es) auto
  have "map f ds = map f es'" by (rule Cons.IH [OF es(3) Cons.prems(2)])
  moreover have "f d = f e" by (rule Cons.prems(2) [OF es(2)])
  ultimately show ?case by (simp add: es(1))
qed simp

text \<open>The roots are positions of the list, each once.\<close>

lemma root_order_set: "set (root_order st ds) = {p \<in> set (enumerate 0 ds). is_root st (snd p)}"
  by (auto simp: root_order_def)

lemma root_order_hd_max:
  assumes "p \<in> set (root_order st ds)"
  shows "root_key (snd p) \<le> root_key (snd (hd (root_order st ds)))"
  using assms sort_desc_hd_max unfolding root_order_def by (metis set_sort_desc)

lemma prioritize_one_demoted [simp]: "demoted st (prioritize_one st ds d) = demoted st d"
  and prioritize_one_warning [simp]: "plain_warning (prioritize_one st ds d) = plain_warning d"
  by (simp_all add: demoted_def plain_warning_def prioritize_one_def split: option.splits)

lemma prioritize_one_priority:
  "demoted st d \<Longrightarrow> d_priority (prioritize_one st ds d) = RELATED_SYMPTOM"
  "\<not> demoted st d \<Longrightarrow> plain_warning d \<Longrightarrow> d_priority (prioritize_one st ds d) = PB_WARNING"
  by (auto simp: demoted_def prioritize_one_def split: option.splits)

definition final_priority :: "demotion_state \<Rightarrow> (nat \<times> diagnosis) list \<Rightarrow> nat \<times> diagnosis \<Rightarrow> priority_bucket" where
  "final_priority st roots p =
     (if demoted st (snd p) then RELATED_SYMPTOM else if plain_warning (snd p) then PB_WARNING
      else if p = hd roots then PRIMARY else SECONDARY_INDEPENDENT)"

lemma set_root_priority_final:
  assumes "p \<in> set (enumerate 0 (map (prioritize_one st ds) ds))"
  shows "d_priority (set_root_priority (root_order st (map (prioritize_one st ds) ds)) p)
     = final_priority st (root_order st (map (prioritize_one st ds) ds)) p"
proof -
  let ?ds1 = "map (prioritize_one st ds) ds"
  obtain d where d: "snd p = prioritize_one st ds d"
    using assms by (metis imageE in_set_zip list.set_map enumerate_eq_zip nth_mem)
  show ?thesis
  proof (cases "is_root st (snd p)")
    case True
    then have "p \<in> set (root_order st ?ds1)" using assms by (simp add: root_order_set)
    then show ?thesis using True by (simp add: set_root_priority_def final_priority_def is_root_def)
  next
    case False
    then have "p \<notin> set (root_order st ?ds1)" by (simp add: root_order_set)
    then show ?thesis using False prioritize_one_priority [of st d ds]
      by (auto simp: set_root_priority_def final_priority_def is_root_def d)
  qed
qed

lemma prioritize_priorities:
  "map d_priority (prioritize st ds) =
     map (final_priority st (root_order st (map (prioritize_one st ds) ds))) (enumerate 0 (map (prioritize_one st ds) ds))"
  unfolding prioritize_def Let_def map_map comp_def
  by (rule map_cong [OF refl]) (rule set_root_priority_final)

lemma count_member: "distinct xs \<Longrightarrow> length (filter (\<lambda>x. x = h) xs) = (if h \<in> set xs then 1 else 0)"
  by (induction xs) auto

lemma primary_count:
  "length (filter (\<lambda>d. d_priority d = PRIMARY) (prioritize st ds)) = (if list_ex (is_root st) ds then 1 else 0)"
proof -
  let ?ds1 = "map (prioritize_one st ds) ds"
  let ?ps = "enumerate 0 ?ds1"
  let ?roots = "root_order st ?ds1"
  have snds: "snd ` set ?ps = set ?ds1" by (metis list.set_map map_snd_enumerate)
  have len: "length (filter (\<lambda>d. d_priority d = PRIMARY) (prioritize st ds))
      = length (filter (\<lambda>p. is_root st (snd p) \<and> p = hd ?roots) ?ps)"
  proof -
    have "length (filter (\<lambda>d. d_priority d = PRIMARY) (prioritize st ds))
      = length (filter (\<lambda>x. x = PRIMARY) (map (final_priority st ?roots) ?ps))"
      unfolding prioritize_priorities [symmetric] by (simp add: filter_map comp_def)
    also have "\<dots> = length (filter (\<lambda>p. final_priority st ?roots p = PRIMARY) ?ps)"
      by (simp add: filter_map comp_def)
    also have "(\<lambda>p. final_priority st ?roots p = PRIMARY) = (\<lambda>p. is_root st (snd p) \<and> p = hd ?roots)"
      by (auto simp: final_priority_def is_root_def fun_eq_iff)
    finally show ?thesis .
  qed
  have ex: "list_ex (is_root st) ds \<longleftrightarrow> (\<exists>p \<in> set ?ps. is_root st (snd p))"
  proof -
    have "list_ex (is_root st) ds \<longleftrightarrow> (\<exists>d \<in> set ?ds1. is_root st d)" by (auto simp: list_ex_iff is_root_def)
    then show ?thesis unfolding snds [symmetric] by simp
  qed
  show ?thesis
  proof (cases "list_ex (is_root st) ds")
    case True
    then have "?roots \<noteq> []" using ex root_order_set [of st ?ds1] by (metis (mono_tags, lifting) empty_iff empty_set mem_Collect_eq)
    then have "hd ?roots \<in> set ?roots" by simp
    then have h: "hd ?roots \<in> set ?ps" "is_root st (snd (hd ?roots))" by (auto simp: root_order_set)
    have "filter (\<lambda>p. is_root st (snd p) \<and> p = hd ?roots) ?ps = filter (\<lambda>p. p = hd ?roots) ?ps"
      using h(2) by (intro filter_cong) auto
    then show ?thesis using True h(1) len count_member [OF distinct_enumerate, of "hd ?roots" 0 ?ds1] by simp
  next
    case False
    then show ?thesis using ex len by (simp add: filter_empty_conv)
  qed
qed

lemma prioritize_core_priority:
  assumes "d \<in> set (prioritize st ds)"
  shows "\<exists>e \<in> set ds. core d = core e
     \<and> (d_priority d = RELATED_SYMPTOM \<longleftrightarrow> demoted st e)
     \<and> (d_priority d = PB_WARNING \<longleftrightarrow> \<not> demoted st e \<and> plain_warning e)
     \<and> (d_priority d \<in> {PRIMARY, SECONDARY_INDEPENDENT} \<longleftrightarrow> is_root st e)
     \<and> d_priority d \<noteq> INFORMATIONAL"
proof -
  let ?ds1 = "map (prioritize_one st ds) ds"
  let ?roots = "root_order st ?ds1"
  from assms obtain p where p: "p \<in> set (enumerate 0 ?ds1)" "d = set_root_priority ?roots p"
    unfolding prioritize_def Let_def by auto
  then have "snd p \<in> set ?ds1" by (metis imageI list.set_map map_snd_enumerate)
  then obtain e where e: "e \<in> set ds" "snd p = prioritize_one st ds e" by auto
  have pr: "d_priority d = final_priority st ?roots p" unfolding p(2) by (rule set_root_priority_final [OF p(1)])
  have "core d = core e" using e(2) p(2) by simp
  then show ?thesis
    by (intro bexI [OF _ e(1)]) (auto simp: pr final_priority_def e(2) is_root_def)
qed

lemma dedup_Nil [simp]: "dedup xs = [] \<longleftrightarrow> xs = []"
  by (cases xs) simp_all

lemma demote_fold:
  "dict_get (fst (fold (demote_step packs src ds) xs st)) i \<noteq> None \<longleftrightarrow>
     dict_get (fst st) i \<noteq> None \<or> (\<exists>d \<in> set xs. d_diagnosis_id d = i \<and> causes_for packs src ds d \<noteq> [])"
proof (induction xs arbitrary: st)
  case (Cons x xs)
  have "dict_get (fst (demote_step packs src ds x st)) i \<noteq> None \<longleftrightarrow>
      dict_get (fst st) i \<noteq> None \<or> d_diagnosis_id x = i \<and> causes_for packs src ds x \<noteq> []"
    by (auto simp: demote_step_def Let_def dict.get_set)
  then show ?case using Cons by auto
qed simp

lemma demoted_iff:
  "demoted (demote_via_causality packs ds src) e \<longleftrightarrow>
     (\<exists>d \<in> set ds. d_diagnosis_id d = d_diagnosis_id e \<and> causes_for packs src ds d \<noteq> [])"
  unfolding demoted_def demote_via_causality_def demote_fold by (simp add: dict_get_def)

text \<open>What may explain a diagnosis: a diagnosis of the same run that is a real problem, can break other
  subsystems, is not excluded by the evidence of the diagnosis it explains, and is itself established when
  that diagnosis is.\<close>

definition real_cause :: "diagnosis \<Rightarrow> diagnosis \<Rightarrow> bool" where
  "real_cause d u \<longleftrightarrow>
     is_real_problem u \<and> d_explains_downstream u \<and> effective_pack u \<notin> set (d_not_caused_by d)
     \<and> (d_status d = DIAGNOSED \<longrightarrow> d_status u = DIAGNOSED)
     \<and> (d_status u \<noteq> DIAGNOSED \<longrightarrow> evidence_rank d \<le> evidence_rank u)"

lemma causes_for_real: "u \<in> set (causes_for packs src ds d) \<Longrightarrow> u \<in> set ds \<and> real_cause d u"
  by (auto simp: causes_for_def all_causes_def declared_causes_def causes_of_def may_absorb_def real_cause_def
      implicit_cause_def Let_def split: if_splits)

lemma report_diagnoses: "set (rep_diagnoses (build_report packs now b ds0 evaluated)) = set (prioritized packs b ds0)"
  by (simp add: build_report_def Let_def)

lemma prioritized_core: "map core (prioritized packs b ds0) = map core (map (adjust_certmonger b) ds0)"
  unfolding prioritized_def Let_def by (rule core_prioritize)

lemma adjust_fields [simp]:
  "d_diagnosis_id (adjust_certmonger b d) = d_diagnosis_id d" "d_evidence_for (adjust_certmonger b d) = d_evidence_for d"
  "d_evidence_against (adjust_certmonger b d) = d_evidence_against d" "d_rule_id (adjust_certmonger b d) = d_rule_id d"
  by (simp_all add: adjust_certmonger_def)

lemma prioritized_fields:
  "map d_evidence_for (prioritized packs b ds0) = map d_evidence_for ds0"
  "map d_rule_id (prioritized packs b ds0) = map d_rule_id ds0"
  using map_coreD [OF prioritized_core [of packs b ds0] core_eqD(2)] map_coreD [OF prioritized_core [of packs b ds0] core_eqD(4)]
  by (simp_all add: comp_def)

lemma cited_for_prioritized: "cited_for (prioritized packs b ds0) = cited_for ds0"
  using prioritized_fields(1) [of packs b ds0]
  by (metis (no_types, lifting) cited_for_def list.map_comp comp_def map_eq_conv)

lemma by_priority_report:
  "by_priority (build_report packs now b ds0 evaluated) x
     = filter (\<lambda>d. d_priority d = x) (sort_key priority_sort_key (prioritized packs b ds0))"
  by (simp add: by_priority_def build_report_def Let_def)

lemma undiagnosed_set:
  "set (rep_undiagnosed_findings (build_report packs now b ds0 evaluated))
     = undiagnosed_of b ` {f \<in> set (b_findings b). unexplained_here b ds0 f}"
  by (auto simp: build_report_def Let_def undiagnosed_findings_def unexplained_here_def cited_for_prioritized)

lemma overall_status_nonempty:
  "ds = e # es \<Longrightarrow> d_priority e \<noteq> INFORMATIONAL \<Longrightarrow> overall_status_of ds \<noteq> HEALTHY"
  by (simp add: overall_status_of_def Let_def)

lemma overall_healthy: "overall_status_of (prioritize st ds) = HEALTHY \<longleftrightarrow> ds = []"
proof (cases ds)
  case Nil
  then show ?thesis by (simp add: prioritize_def overall_status_of_def)
next
  case (Cons d ds')
  then have "length (prioritize st ds) > 0" by (simp add: prioritize_def Let_def)
  then obtain e es where es: "prioritize st ds = e # es" by (cases "prioritize st ds") auto
  then have "d_priority e \<noteq> INFORMATIONAL" using prioritize_core_priority [of e st ds] by auto
  then show ?thesis using Cons overall_status_nonempty [OF es] by simp
qed

lemma prioritized_member:
  assumes "d \<in> set (prioritized packs b ds0)"
  obtains e where "e \<in> set (map (adjust_certmonger b) ds0)" "core d = core e"
    "d_priority d = RELATED_SYMPTOM \<longleftrightarrow>
       demoted (demote_via_causality packs (map (adjust_certmonger b) ds0) (finding_source_map b)) e"
    "d_priority d \<in> {PRIMARY, SECONDARY_INDEPENDENT} \<longleftrightarrow>
       is_root (demote_via_causality packs (map (adjust_certmonger b) ds0) (finding_source_map b)) e"
    "d_priority d \<noteq> INFORMATIONAL"
  using prioritize_core_priority assms unfolding prioritized_def Let_def by (metis (no_types, lifting))

lemma by_priority_set:
  "set (by_priority (build_report packs now b ds0 evaluated) x) = {d \<in> set (prioritized packs b ds0). d_priority d = x}"
  unfolding by_priority_report by simp

lemma by_priority_length:
  "length (by_priority (build_report packs now b ds0 evaluated) x)
     = length (filter (\<lambda>d. d_priority d = x) (prioritized packs b ds0))"
proof -
  have "mset (by_priority (build_report packs now b ds0 evaluated) x)
      = mset (filter (\<lambda>d. d_priority d = x) (prioritized packs b ds0))"
    unfolding by_priority_report by simp
  then show ?thesis by (rule mset_eq_length)
qed

text \<open>Roots and the report: the primary problem has the greatest key.\<close>

lemma root_key_prioritize_one [simp]: "root_key (prioritize_one st ds d) = root_key d"
  by (rule core_eqD(7)) simp

lemma root_key_set_root [simp]: "root_key (set_root_priority roots p) = root_key (snd p)"
  by (rule core_eqD(7)) simp

lemma primary_max:
  assumes "p \<in> set (prioritize st ds)" "d_priority p = PRIMARY" "s \<in> set (prioritize st ds)"
    "d_priority s = SECONDARY_INDEPENDENT"
  shows "root_key s \<le> root_key p"
proof -
  let ?ds1 = "map (prioritize_one st ds) ds"
  let ?roots = "root_order st ?ds1"
  obtain q r where q: "q \<in> set (enumerate 0 ?ds1)" "p = set_root_priority ?roots q"
    and r: "r \<in> set (enumerate 0 ?ds1)" "s = set_root_priority ?roots r"
    using assms(1,3) unfolding prioritize_def Let_def by auto
  have "final_priority st ?roots q = PRIMARY" "final_priority st ?roots r = SECONDARY_INDEPENDENT"
    using assms(2,4) set_root_priority_final [OF q(1)] set_root_priority_final [OF r(1)] q(2) r(2) by simp_all
  then have "q = hd ?roots" "is_root st (snd r)" by (auto simp: final_priority_def is_root_def split: if_splits)
  then show ?thesis
    using root_order_hd_max [of r st ?ds1] r q by (simp add: root_order_set)
qed

lemma sorted_fst:
  fixes ys :: "('a::linorder \<times> 'b::linorder) list"
  assumes "sorted ys"
  shows "sorted (map fst ys)"
  unfolding sorted_map by (rule sorted_wrt_mono_rel [OF _ assms]) (auto simp: less_eq_prod_def)

lemma report_sorted: "sorted (map d_priority (rep_diagnoses (build_report packs now b ds0 evaluated)))"
proof -
  have "sorted (map fst (map priority_sort_key (sort_key priority_sort_key (prioritized packs b ds0))))"
    by (rule sorted_fst) simp
  then have "sorted (map (\<lambda>d. priority_order (d_priority d)) (sort_key priority_sort_key (prioritized packs b ds0)))"
    by (simp add: comp_def priority_sort_key_def)
  then show ?thesis
    by (simp add: build_report_def Let_def sorted_map less_eq_priority_bucket_def)
qed

lemma report_primary_count:
  "length (by_priority (build_report packs now b ds0 evaluated) PRIMARY)
     = (if list_all (\<lambda>d. d_priority d \<in> {RELATED_SYMPTOM, PB_WARNING}) (prioritized packs b ds0) then 0 else 1)"
proof -
  let ?ds = "map (adjust_certmonger b) ds0"
  let ?st = "demote_via_causality packs ?ds (finding_source_map b)"
  have "list_ex (is_root ?st) ?ds \<longleftrightarrow> \<not> list_all (\<lambda>d. d_priority d \<in> {RELATED_SYMPTOM, PB_WARNING}) (prioritized packs b ds0)"
  proof
    assume "list_ex (is_root ?st) ?ds"
    then have "length (filter (\<lambda>d. d_priority d = PRIMARY) (prioritized packs b ds0)) = 1"
      unfolding prioritized_def Let_def by (simp add: primary_count)
    then have "filter (\<lambda>d. d_priority d = PRIMARY) (prioritized packs b ds0) \<noteq> []" by auto
    then show "\<not> list_all (\<lambda>d. d_priority d \<in> {RELATED_SYMPTOM, PB_WARNING}) (prioritized packs b ds0)"
      by (force simp: filter_empty_conv list_all_iff)
  next
    assume "\<not> list_all (\<lambda>d. d_priority d \<in> {RELATED_SYMPTOM, PB_WARNING}) (prioritized packs b ds0)"
    then obtain d where d: "d \<in> set (prioritized packs b ds0)" "d_priority d \<notin> {RELATED_SYMPTOM, PB_WARNING}"
      by (auto simp: list_all_iff)
    obtain e where e: "e \<in> set ?ds" "d_priority d \<in> {PRIMARY, SECONDARY_INDEPENDENT} \<longleftrightarrow> is_root ?st e"
      "d_priority d \<noteq> INFORMATIONAL"
      by (rule prioritized_member [OF d(1)])
    then have "is_root ?st e" using d(2) by (cases "d_priority d") auto
    then show "list_ex (is_root ?st) ?ds" using e(1) unfolding list_ex_iff by blast
  qed
  then show ?thesis unfolding by_priority_length prioritized_def Let_def primary_count by simp
qed

lemma undiagnosed_empty:
  "rep_undiagnosed_findings (build_report packs now b ds0 evaluated) = []
     \<longleftrightarrow> list_all (\<lambda>f. \<not> unexplained_here b ds0 f) (b_findings b)"
  unfolding set_empty2 [symmetric] set_empty undiagnosed_set by (auto simp: list_all_iff)

lemma apply_completeness_healthy:
  "apply_completeness s c u = HEALTHY \<longleftrightarrow> s = HEALTHY \<and> ec_level c \<noteq> ''insufficient'' \<and> ec_level c \<noteq> ''partial'' \<and> \<not> u"
  by (auto simp: apply_completeness_def)

lemma complete_iff: "ec_level (assess_completeness b) \<noteq> ''insufficient'' \<and> ec_level (assess_completeness b) \<noteq> ''partial''
    \<longleftrightarrow> b_collection_errors b = []"
  by (auto simp: assess_completeness_def healthcheck_ok_def)

lemma run_Inr:
  assumes "run_diagnosis packs now b = Inr r"
  obtains dss net where "unexplained_finding_diagnoses b (concat dss) = Inr net"
    "r = build_report packs now b (concat dss @ net) (map pk_pack_id packs)"
  using assms unfolding run_diagnosis_def bind_exn_Inr by auto

lemma unexplained_ok: "\<exists>net. unexplained_finding_diagnoses b ds = Inr net"
  by (rule net_result) blast

lemma sequence_exn_Inl: "sequence_exn xs = Inl e \<Longrightarrow> Inl e \<in> set xs"
  by (induction xs rule: sequence_exn.induct) (auto split: sum.splits)

lemma sorted_report_claims:
  "set (claimed_ids (rep_diagnoses (build_report packs now b ds0 evaluated))) = set (claimed_ids ds0)"
  "set (cited_for (rep_diagnoses (build_report packs now b ds0 evaluated))) = set (cited_for ds0)"
  "d_rule_id ` set (rep_diagnoses (build_report packs now b ds0 evaluated)) = d_rule_id ` set ds0"
proof -
  have "map d_evidence_against (prioritized packs b ds0) = map d_evidence_against ds0"
    using map_coreD [OF prioritized_core [of packs b ds0] core_eqD(3)] by (simp add: comp_def)
  then have m: "map d_evidence_against (prioritized packs b ds0) = map d_evidence_against ds0"
    "map d_evidence_for (prioritized packs b ds0) = map d_evidence_for ds0"
    "map d_rule_id (prioritized packs b ds0) = map d_rule_id ds0"
    using prioritized_fields [of packs b ds0] by simp_all
  have s: "f ` set (prioritized packs b ds0) = f ` set ds0" if "map f (prioritized packs b ds0) = map f ds0"
    for f :: "diagnosis \<Rightarrow> 'x"
    using arg_cong [OF that, of set] by simp
  have "set (claimed_ids ds) = (\<Union>rs \<in> d_evidence_for ` set ds. r_evidence_id ` set rs)
      \<union> (\<Union>rs \<in> d_evidence_against ` set ds. r_evidence_id ` set rs)"
    "set (cited_for ds) = (\<Union>rs \<in> d_evidence_for ` set ds. r_evidence_id ` set rs)" for ds
    by (auto simp: claimed_ids_def cited_for_def)
  then show "set (claimed_ids (rep_diagnoses (build_report packs now b ds0 evaluated))) = set (claimed_ids ds0)"
    "set (cited_for (rep_diagnoses (build_report packs now b ds0 evaluated))) = set (cited_for ds0)"
    by (simp_all only: report_diagnoses s [OF m(1)] s [OF m(2)])
  show "d_rule_id ` set (rep_diagnoses (build_report packs now b ds0 evaluated)) = d_rule_id ` set ds0"
    by (simp add: report_diagnoses s [OF m(3)])
qed

section \<open>Properties\<close>

text \<open>Every diagnosis is reported once: what the rules and the safety net found is a permutation of what the
  report lists, up to the priority, the explanation and the related titles that prioritisation sets and
  the downgrade of a certmonger that was started during the run.\<close>

theorem report_keeps_diagnoses:
  "mset (map core (rep_diagnoses (build_report packs now b ds evaluated)))
     = mset (map core (map (adjust_certmonger b) ds))"
proof -
  have "mset (map core (rep_diagnoses (build_report packs now b ds evaluated)))
      = image_mset core (mset (prioritized packs b ds))"
    by (simp add: build_report_def Let_def)
  also have "\<dots> = mset (map core (prioritized packs b ds))" by simp
  finally show ?thesis unfolding prioritized_core .
qed

text \<open>C34: The report is in order of priority and has one primary problem: exactly one unless every diagnosis is a
  symptom or a plain warning. No diagnosis is left without a priority, and no secondary problem outranks
  the primary one (evidence of ERROR first, then the score).\<close>

theorem report_priorities:
  "sorted (map d_priority (rep_diagnoses (build_report packs now b ds evaluated)))
   \<and> length (by_priority (build_report packs now b ds evaluated) PRIMARY)
       = (if list_all (\<lambda>d. d_priority d \<in> {RELATED_SYMPTOM, PB_WARNING}) (rep_diagnoses (build_report packs now b ds evaluated))
          then 0 else 1)
   \<and> by_priority (build_report packs now b ds evaluated) INFORMATIONAL = []
   \<and> list_all (\<lambda>p. list_all (\<lambda>s. root_key s \<le> root_key p)
         (by_priority (build_report packs now b ds evaluated) SECONDARY_INDEPENDENT))
       (by_priority (build_report packs now b ds evaluated) PRIMARY)"
proof (intro conjI)
  show "length (by_priority (build_report packs now b ds evaluated) PRIMARY)
      = (if list_all (\<lambda>d. d_priority d \<in> {RELATED_SYMPTOM, PB_WARNING}) (rep_diagnoses (build_report packs now b ds evaluated))
         then 0 else 1)"
    unfolding report_primary_count list_all_iff report_diagnoses by simp
  show "by_priority (build_report packs now b ds evaluated) INFORMATIONAL = []"
    by (auto simp: by_priority_report filter_empty_conv elim!: prioritized_member)
  show "list_all (\<lambda>p. list_all (\<lambda>s. root_key s \<le> root_key p)
      (by_priority (build_report packs now b ds evaluated) SECONDARY_INDEPENDENT))
      (by_priority (build_report packs now b ds evaluated) PRIMARY)"
    unfolding list_all_iff by_priority_set prioritized_def Let_def by (auto intro: primary_max)
qed (rule report_sorted)

text \<open>A problem is called a symptom only for a reason: each diagnosis reported as a related symptom has a
  diagnosis of the same run that may explain it, that is, a real problem that can break other subsystems, is
  not ruled out by the evidence of the symptom, and is established itself if the symptom is a confirmed
  diagnosis (an unconfirmed problem never hides a confirmed one).\<close>

theorem symptoms_have_causes:
  "d_diagnosis_id ` set (by_priority (build_report packs now b ds0 evaluated) RELATED_SYMPTOM)
     \<subseteq> (let ds = map (adjust_certmonger b) ds0
        in d_diagnosis_id ` {d \<in> set ds. \<exists>u \<in> set ds. real_cause d u})"
  unfolding Let_def
proof (rule image_subsetI)
  let ?ds = "map (adjust_certmonger b) ds0"
  fix d assume "d \<in> set (by_priority (build_report packs now b ds0 evaluated) RELATED_SYMPTOM)"
  then have d: "d \<in> set (prioritized packs b ds0)" "d_priority d = RELATED_SYMPTOM" by (auto simp: by_priority_set)
  obtain e where e: "e \<in> set ?ds" "core d = core e"
    "d_priority d = RELATED_SYMPTOM \<longleftrightarrow> demoted (demote_via_causality packs ?ds (finding_source_map b)) e"
    by (rule prioritized_member [OF d(1)])
  then obtain f where f: "f \<in> set ?ds" "d_diagnosis_id f = d_diagnosis_id e"
    "causes_for packs (finding_source_map b) ?ds f \<noteq> []"
    using d(2) unfolding demoted_iff by blast
  then obtain u where "u \<in> set (causes_for packs (finding_source_map b) ?ds f)" by fastforce
  then have "u \<in> set ?ds \<and> real_cause f u" by (rule causes_for_real)
  moreover have "d_diagnosis_id d = d_diagnosis_id f" using f(2) core_eqD(1) [OF e(2)] by simp
  ultimately show "d_diagnosis_id d \<in> d_diagnosis_id ` {d \<in> set ?ds. \<exists>u \<in> set ?ds. real_cause d u}"
    using f(1) by blast
qed

text \<open>HEALTHY is claimed only with complete evidence and nothing found: exactly when there is no diagnosis, every
  collector worked, and every result of ipa-healthcheck is a success.\<close>

theorem report_healthy_iff:
  "rep_overall_status (build_report packs now b ds evaluated) = HEALTHY \<longleftrightarrow>
     ds = [] \<and> b_collection_errors b = [] \<and> list_all (\<lambda>f. f_severity f = Sev_SUCCESS) (b_findings b)"
proof -
  have "overall_status_of (prioritized packs b ds) = HEALTHY \<longleftrightarrow> ds = []"
    unfolding prioritized_def Let_def overall_healthy by simp
  moreover have "list_all (\<lambda>f. \<not> unexplained_here b [] f) (b_findings b)
      \<longleftrightarrow> list_all (\<lambda>f. f_severity f = Sev_SUCCESS) (b_findings b)"
    by (simp add: unexplained_here_def cited_for_def)
  moreover have "rep_overall_status (build_report packs now b ds evaluated) = HEALTHY \<longleftrightarrow>
      overall_status_of (prioritized packs b ds) = HEALTHY \<and> b_collection_errors b = []
      \<and> rep_undiagnosed_findings (build_report packs now b ds evaluated) = []"
    unfolding complete_iff [symmetric] by (auto simp: build_report_def Let_def apply_completeness_healthy)
  ultimately show ?thesis unfolding undiagnosed_empty by auto
qed

text \<open>C32: No finding disappears in a run. Every result of ipa-healthcheck that is not a success is cited as evidence by
  a reported diagnosis or listed by name among the undiagnosed findings (and listed in any case when its id
  is shared with another finding).\<close>

theorem run_loses_no_finding:
  "case run_diagnosis packs now b of
     Inl e \<Rightarrow> True
   | Inr r \<Rightarrow> {f \<in> set (b_findings b). f_severity f \<noteq> Sev_SUCCESS}
       \<subseteq> {f. f_finding_id f \<in> set (cited_for (rep_diagnoses r))
              \<and> length (filter (\<lambda>g. f_finding_id g = f_finding_id f) (b_findings b)) = 1}
         \<union> {f. undiagnosed_of b f \<in> set (rep_undiagnosed_findings r)}"
proof (cases "run_diagnosis packs now b")
  case (Inr r)
  then obtain dss net where r: "r = build_report packs now b (concat dss @ net) (map pk_pack_id packs)" by (rule run_Inr)
  show ?thesis
    unfolding Inr r sum.case sorted_report_claims(2) undiagnosed_set by (auto simp: unexplained_here_def)
qed simp

text \<open>C33: Results at ERROR or CRITICAL are always visible as diagnoses: each is cited by a reported diagnosis, for or
  against, or the report has the diagnosis of the safety net that speaks for it. A run fails only if a rule
  raises.\<close>

theorem run_shows_errors:
  "case run_diagnosis packs now b of
     Inl e \<Rightarrow> Inl e \<in> (\<lambda>p. pack_evaluate p (rule_bundle b)) ` set packs
   | Inr r \<Rightarrow> {f \<in> set (b_findings b). rank Sev_ERROR \<le> rank (f_severity f)}
       \<subseteq> {f. f_finding_id f \<in> set (claimed_ids (rep_diagnoses r))} \<union> {f. net_rule f \<in> d_rule_id ` set (rep_diagnoses r)}"
proof (cases "run_diagnosis packs now b")
  case (Inl e)
  then show ?thesis
  proof -
    have net: "unexplained_finding_diagnoses b ds \<noteq> Inl e'" for ds e' using unexplained_ok [of b ds] by auto
    show ?thesis
      using Inl unfolding run_diagnosis_def
      by (cases "sequence_exn (map (\<lambda>p. pack_evaluate p (rule_bundle b)) packs)") (auto simp: net bind_exn_def dest!: sequence_exn_Inl split: sum.splits)
  qed
next
  case (Inr r)
  then obtain dss net where net: "unexplained_finding_diagnoses b (concat dss) = Inr net"
    and r: "r = build_report packs now b (concat dss @ net) (map pk_pack_id packs)" by (rule run_Inr)
  have "net_rule f \<in> d_rule_id ` set net" if "f \<in> set (b_findings b)" "rank Sev_ERROR \<le> rank (f_severity f)"
    "f_finding_id f \<notin> set (claimed_ids (concat dss))" for f
    using net_covers [OF net, of f] that by (simp add: unclaimed_findings_def)
  moreover have "set (claimed_ids (concat dss)) \<subseteq> set (claimed_ids (concat dss @ net))" by (auto simp: claimed_ids_def)
  ultimately show ?thesis unfolding Inr r sum.case sorted_report_claims by auto
qed

end
