(* ===== verification/Checks.thy ===== *)
theory Checks
  imports ValueTypes PyFloat
begin

text \<open>
  The runner of the closed check registry, \<open>resolution/checks.py\<close>: parameters are validated by type, a check is
  run at most once per check and parameters, and a replay answers from recorded data. What a check does
  when it runs is a function of the world (a parameter of the model), as is the clock.
\<close>

section \<open>Data\<close>

record check_result =
  cr_check_id :: string
  cr_params :: "(string \<times> string) list"
  cr_status :: string
  cr_fields :: pydict
  cr_display :: string
  cr_command :: string

definition OK :: string where "OK = ''OK''"
definition FAILED :: string where "FAILED = ''FAILED''"
definition NOT_RUN :: string where "NOT_RUN = ''NOT_RUN''"
definition DENIED :: string where "DENIED = ''DENIED''"

definition result_ok :: "check_result \<Rightarrow> bool" where
  "result_ok r = (cr_status r = OK)"

definition res :: "string \<Rightarrow> (string \<times> string) list \<Rightarrow> string \<Rightarrow> pydict \<Rightarrow> string \<Rightarrow> string \<Rightarrow> check_result" where
  "res check_id params status flds display command =
     \<lparr>cr_check_id = check_id, cr_params = params, cr_status = status, cr_fields = flds,
      cr_display = sanitize_text display 240, cr_command = sanitize_text command 240\<rparr>"

text \<open>A check gets the world and returns it changed; it may raise.\<close>

record 'w check_spec =
  cs_check_id :: string
  cs_params :: "(string \<times> string) list"
  cs_describe :: string
  cs_run :: "(string \<times> string) list \<Rightarrow> 'w \<Rightarrow> (exn + check_result) \<times> 'w"
  cs_privilege :: string
  cs_side_effects :: string
  cs_timeout :: rat
  cs_evidence :: "string list"
  cs_secrets :: string
  cs_applies :: string

type_synonym 'w registry = "(string \<times> 'w check_spec) list"

record 'w runner =
  rn_cache :: "(string \<times> check_result) list"
  rn_runs :: nat
  rn_world :: 'w

section \<open>The runner\<close>

definition params_key :: "string \<Rightarrow> (string \<times> string) list \<Rightarrow> string" where
  "params_key check_id params =
     check_id @ ''|'' @ join '','' (map (\<lambda>k. k @ ''='' @ the_default [] (dict_get params k)) (sort (dict_keys params)))"

fun validate_each :: "(string \<times> string) list \<Rightarrow> pydict \<Rightarrow> exn + (string \<times> string) list option" where
  "validate_each [] params = Inr (Some [])"
| "validate_each ((name, type_name) # spec) params =
     bind_exn (validate type_name (the_default PNone (dict_get params name))) (\<lambda>v.
       case v of None \<Rightarrow> Inr None
       | Some s \<Rightarrow> bind_exn (validate_each spec params) (\<lambda>rest. Inr (map_option (\<lambda>r. (name, s) # r) rest)))"

definition validated_params :: "'w check_spec \<Rightarrow> pydict \<Rightarrow> exn + (string \<times> string) list option" where
  "validated_params spec params =
     (if set (dict_keys params) \<noteq> set (dict_keys (cs_params spec)) then Inr None
      else validate_each (cs_params spec) params)"

text \<open>\<open>round(x, 3)\<close> of seconds, and its \<open>repr\<close>.\<close>

definition millis :: "rat \<Rightarrow> int" where "millis x = round_half_even (x * 1000)"

definition show_millis :: "int \<Rightarrow> string" where
  "show_millis m =
     (let a = nat \<bar>m\<bar>; frac = a mod 1000;
          digits = [digit_char (frac div 100), digit_char (frac div 10 mod 10), digit_char (frac mod 10)]
      in (if m < 0 then ''-'' else []) @ show_nat (a div 1000) @ ''.'' @ [hd digits] @ rstrip_of {CHR ''0''} (tl digits))"

fun exn_name :: "exn \<Rightarrow> string" where
  "exn_name TypeError = ''TypeError''"
| "exn_name (ValueError m) = ''ValueError''"
| "exn_name AttributeError = ''AttributeError''"
| "exn_name KeyError = ''KeyError''"
| "exn_name OverflowError = ''OverflowError''"
| "exn_name IndexError = ''IndexError''"
| "exn_name KeyboardInterrupt = ''KeyboardInterrupt''"
| "exn_name (PlanError m) = ''PlanError''"
| "exn_name (OtherError n) = n"

definition setdefault :: "string \<Rightarrow> pyval \<Rightarrow> pydict \<Rightarrow> pydict" where
  "setdefault k v d = (if dict_get d k = None then dict_set k v d else d)"

text \<open>\<open>_execute\<close> of the live runner: every exception but an interrupt becomes a FAILED result.\<close>

definition live_execute :: "('w \<Rightarrow> rat \<times> 'w) \<Rightarrow> 'w check_spec \<Rightarrow> (string \<times> string) list \<Rightarrow> 'w \<Rightarrow> (exn + check_result) \<times> 'w" where
  "live_execute clock spec params w =
     (case clock w of (t0, w0) \<Rightarrow>
      case cs_run spec params w0 of (r, w1) \<Rightarrow>
        (case r of
           Inl KeyboardInterrupt \<Rightarrow> (Inl KeyboardInterrupt, w1)
         | _ \<Rightarrow>
           (let result = (case r of Inr x \<Rightarrow> x
                          | Inl e \<Rightarrow> res (cs_check_id spec) params FAILED [] (''check failed: '' @ exn_name e) [])
            in case clock w1 of (t1, w2) \<Rightarrow>
                 (Inr (result\<lparr>cr_fields := setdefault ''_duration_s'' (PFloat (show_millis (millis (fsub t1 t0)))) (cr_fields result)\<rparr>),
                  w2))))"

definition runner_run ::
  "('w check_spec \<Rightarrow> (string \<times> string) list \<Rightarrow> 'w \<Rightarrow> (exn + check_result) \<times> 'w) \<Rightarrow> 'w registry \<Rightarrow>
   string \<Rightarrow> pydict \<Rightarrow> bool \<Rightarrow> 'w runner \<Rightarrow> (exn + check_result) \<times> 'w runner" where
  "runner_run execute registry check_id params fresh rn =
     (case dict_get registry check_id of
        None \<Rightarrow> (Inr (res check_id [] FAILED [] ''unknown check'' []), rn)
      | Some spec \<Rightarrow>
          (case validated_params spec params of
             Inl e \<Rightarrow> (Inl e, rn)
           | Inr None \<Rightarrow> (Inr (res check_id [] FAILED [] ''parameters did not validate'' []), rn)
           | Inr (Some vp) \<Rightarrow>
               (let key = params_key check_id vp
                in case (if fresh then None else dict_get (rn_cache rn) key) of
                     Some r \<Rightarrow> (Inr r, rn)
                   | None \<Rightarrow>
                       (case execute spec vp (rn_world rn) of (r, w) \<Rightarrow>
                          (let rn' = rn\<lparr>rn_runs := Suc (rn_runs rn), rn_world := w\<rparr>
                           in case r of Inl e \<Rightarrow> (Inl e, rn')
                              | Inr x \<Rightarrow> (Inr x, rn'\<lparr>rn_cache := dict_set key x (rn_cache rn')\<rparr>))))))"

section \<open>Replay\<close>

fun replay_value :: "nat \<Rightarrow> nat \<Rightarrow> pyval \<Rightarrow> pyval" where
  "replay_value limit depth (PStr s) = PStr (sanitize_text s limit)"
| "replay_value limit depth (PBool b) = PBool b"
| "replay_value limit depth PNone = PNone"
| "replay_value limit depth (PInt i) = PInt i"
| "replay_value limit depth (PFloat r) = (if r \<in> {''nan'', ''inf'', ''-inf''} then PNone else PFloat r)"
| "replay_value limit depth (PList xs) =
     (if 4 \<le> depth then PNone else PList (take 200 (map (replay_value limit (Suc depth)) xs)))"
| "replay_value limit depth (PDict d) =
     (if 4 \<le> depth then PNone
      else PDict (dict_of (take 100 (map (\<lambda>(k, v). (sanitize_text k 60, replay_value limit (Suc depth) v)) d))))"

definition dict_del :: "string \<Rightarrow> pydict \<Rightarrow> pydict" where
  "dict_del k d = filter (\<lambda>e. fst e \<noteq> k) d"

definition is_int :: "pyval \<Rightarrow> bool" where
  "is_int v = (case v of PInt i \<Rightarrow> True | PBool b \<Rightarrow> True | _ \<Rightarrow> False)"

definition rename_days :: "pydict \<Rightarrow> pydict" where
  "rename_days flds =
     (case dict_get flds ''not_after_in_days'' of
        None \<Rightarrow> flds
      | Some v \<Rightarrow> if is_int v then dict_set ''days_left'' v (dict_del ''not_after_in_days'' flds) else flds)"

definition unit_rx_of :: "string \<Rightarrow> string \<Rightarrow> rx" where
  "unit_rx_of pre post = seqs [lit pre, Cls is_alnum_ascii, upto 0 63 (Cls (alnum_or ''_.-'')), lit post]"

definition recorded_unit_matches :: "(string \<times> string) list \<Rightarrow> pyval option \<Rightarrow> exn + bool" where
  "recorded_unit_matches params unit_val =
     (case (map_of IPA_SERVICES (the_default [] (dict_get params ''service'')), unit_val) of
        (Some (template, how), Some (PStr u)) \<Rightarrow>
          bind_exn (validate ''systemd_unit'' (PStr u)) (\<lambda>v.
            if v = None then Inr False
            else (case partition_str ''{instance}'' template of
                    (pre, found, post) \<Rightarrow> if \<not> found then Inr (u = template) else Inr (rx_full (unit_rx_of pre post) u)))
      | _ \<Rightarrow> Inr False)"

definition replay_status :: "pydict \<Rightarrow> string" where
  "replay_status entry =
     (case dict_get entry ''status'' of
        Some (PStr s) \<Rightarrow> if s \<in> {OK, FAILED, NOT_RUN, DENIED} then s else FAILED
      | _ \<Rightarrow> FAILED)"

definition replay_text :: "pydict \<Rightarrow> string \<Rightarrow> string" where
  "replay_text entry k = py_str (the_default (PStr []) (dict_get entry k))"

definition replay_fields :: "nat \<Rightarrow> pydict \<Rightarrow> pydict" where
  "replay_fields limit entry =
     rename_days (dict_of (map (\<lambda>(k, v). (sanitize_text k 60, replay_value limit 0 v))
       (take 200 (as_dict (the_default PNone (dict_get entry ''fields''))))))"

definition replay_execute ::
  "pydict \<Rightarrow> nat \<Rightarrow> 'w check_spec \<Rightarrow> (string \<times> string) list \<Rightarrow> 'w \<Rightarrow> (exn + check_result) \<times> 'w" where
  "replay_execute data limit spec params w =
     ((case dict_get data (params_key (cs_check_id spec) params) of
         Some (PDict entry) \<Rightarrow>
           (let flds = replay_fields limit entry; status = replay_status entry;
                answer = res (cs_check_id spec) params status flds (replay_text entry ''display'') (replay_text entry ''command'')
            in if cs_check_id spec = ''systemd.unit'' \<and> status = OK
               then bind_exn (recorded_unit_matches params (dict_get flds ''unit'')) (\<lambda>ok.
                      Inr (if ok then answer
                           else res (cs_check_id spec) params NOT_RUN [] ''the recorded unit does not belong to this service'' []))
               else Inr answer)
       | _ \<Rightarrow> Inr (res (cs_check_id spec) params NOT_RUN [] ''not recorded in this replay fixture'' [])), w)"

section \<open>The interface of a runner\<close>

text \<open>
  What the planner uses of its surroundings: a check is run in a state, a counter tells how many checks were
  really executed, and there are a monotonic clock and the time of day.
\<close>

record 's env =
  en_run :: "string \<Rightarrow> pydict \<Rightarrow> bool \<Rightarrow> 's \<Rightarrow> (exn + check_result) \<times> 's"
  en_runs :: "'s \<Rightarrow> nat"
  en_replay :: bool
  en_clock :: "'s \<Rightarrow> rat \<times> 's"
  en_utc :: "'s \<Rightarrow> string \<times> 's"

text \<open>The contract: a call runs at most one check, and reading a clock runs none.\<close>

locale check_runner =
  fixes env :: "'s env"
  assumes run_counts: "en_run env c p f s = (r, s') \<Longrightarrow> en_runs env s \<le> en_runs env s' \<and> en_runs env s' \<le> Suc (en_runs env s)"
    and clock_counts: "en_clock env s = (t, s') \<Longrightarrow> en_runs env s' = en_runs env s"
    and utc_counts: "en_utc env s = (u, s') \<Longrightarrow> en_runs env s' = en_runs env s"

definition on_world :: "('w \<Rightarrow> 'a \<times> 'w) \<Rightarrow> 'w runner \<Rightarrow> 'a \<times> 'w runner" where
  "on_world f rn = (case f (rn_world rn) of (x, w) \<Rightarrow> (x, rn\<lparr>rn_world := w\<rparr>))"

definition live_env :: "('w \<Rightarrow> rat \<times> 'w) \<Rightarrow> ('w \<Rightarrow> string \<times> 'w) \<Rightarrow> 'w registry \<Rightarrow> 'w runner env" where
  "live_env clock utc registry =
     \<lparr>en_run = runner_run (live_execute clock) registry, en_runs = rn_runs, en_replay = False,
      en_clock = on_world clock, en_utc = on_world utc\<rparr>"

definition replay_env :: "pydict \<Rightarrow> nat \<Rightarrow> ('w \<Rightarrow> rat \<times> 'w) \<Rightarrow> ('w \<Rightarrow> string \<times> 'w) \<Rightarrow> 'w registry \<Rightarrow> 'w runner env" where
  "replay_env data limit clock utc registry =
     \<lparr>en_run = runner_run (replay_execute data limit) registry, en_runs = rn_runs, en_replay = True,
      en_clock = on_world clock, en_utc = on_world utc\<rparr>"

lemma runner_run_counts:
  "runner_run execute registry c p f rn = (r, rn') \<Longrightarrow> rn_runs rn \<le> rn_runs rn' \<and> rn_runs rn' \<le> Suc (rn_runs rn)"
  by (auto simp: runner_run_def Let_def split: option.splits sum.splits prod.splits if_splits)

lemma on_world_runs: "on_world f rn = (x, rn') \<Longrightarrow> rn_runs rn' = rn_runs rn"
  by (auto simp: on_world_def split: prod.splits)

interpretation live: check_runner "live_env clock utc registry" for clock utc registry
  by unfold_locales (auto simp: live_env_def dest: runner_run_counts on_world_runs)

interpretation replay: check_runner "replay_env data limit clock utc registry" for data limit clock utc registry
  by unfold_locales (auto simp: replay_env_def dest: runner_run_counts on_world_runs)

section \<open>What a check is given, and what a replay answers\<close>

definition checked_args :: "'w check_spec \<Rightarrow> (string \<times> string) list \<Rightarrow> bool" where
  "checked_args spec ps =
     list_all2 (\<lambda>(n, ty) (m, s). m = n \<and> validate ty (PStr s) = Inr (Some s) \<and> safe_value s) (cs_params spec) ps"

lemma validate_accepts:
  assumes "validate ty v = Inr (Some s)"
  shows "validate ty (PStr s) = Inr (Some s) \<and> safe_value s"
proof -
  obtain fn where fn: "(ty, fn) \<in> set VALIDATORS" "fn v = Inr (Some s)" "map_of VALIDATORS ty = Some fn"
    using assms by (rule validate_cases)
  then have "canonical fn" "yields_safe fn" using validators_canonical validators_safe by (auto simp: list_all_iff)
  then show ?thesis using fn by (auto simp: canonical_def yields_safe_def validate_def)
qed

lemma validate_each_checked:
  "validate_each spec ps = Inr (Some vp) \<Longrightarrow>
     list_all2 (\<lambda>(n, ty) (m, s). m = n \<and> validate ty (PStr s) = Inr (Some s) \<and> safe_value s) spec vp"
proof (induction spec arbitrary: vp)
  case (Cons e spec)
  obtain n ty where e: "e = (n, ty)" by (cases e)
  then obtain s r where "validate ty (the_default PNone (dict_get ps n)) = Inr (Some s)" "validate_each spec ps = Inr (Some r)" "vp = (n, s) # r"
    using Cons.prems by (auto simp: bind_exn_Inr split: option.splits)
  then show ?case using Cons.IH validate_accepts e by simp
qed simp

lemma validated_params_checked: "validated_params spec ps = Inr (Some vp) \<Longrightarrow> checked_args spec vp"
  by (auto simp: validated_params_def checked_args_def validate_each_checked split: if_splits)

definition guarded ::
  "('w check_spec \<Rightarrow> (string \<times> string) list \<Rightarrow> 'w \<Rightarrow> (exn + check_result) \<times> 'w) \<Rightarrow>
   'w check_spec \<Rightarrow> (string \<times> string) list \<Rightarrow> 'w \<Rightarrow> (exn + check_result) \<times> 'w" where
  "guarded execute spec ps w = (if checked_args spec ps then execute spec ps w else (Inl (OtherError ''unchecked''), w))"

text \<open>The strings of a replayed value, at any depth.\<close>

fun sane :: "nat \<Rightarrow> pyval \<Rightarrow> bool" where
  "sane limit (PStr s) = (length s \<le> limit \<and> list_all is_printable s)"
| "sane limit (PList xs) = (length xs \<le> 200 \<and> list_all (sane limit) xs)"
| "sane limit (PDict d) = (length d \<le> 100 \<and> list_all (\<lambda>(k, v). length k \<le> 60 \<and> list_all is_printable k \<and> sane limit v) d)"
| "sane limit v = True"

lemma sanitized: "length (sanitize_text s n) \<le> n" "list_all is_printable (sanitize_text s n)"
  by (simp add: sanitize_text_eq truncate_text_length) (auto simp: list_all_iff dest: sanitize_text_chars)

definition sane_entry :: "nat \<Rightarrow> string \<times> pyval \<Rightarrow> bool" where
  "sane_entry limit = (\<lambda>(k, v). length k \<le> 60 \<and> list_all is_printable k \<and> sane limit v)"

lemma replay_value_sane: "sane limit (replay_value limit depth v)"
proof (induction limit depth v rule: replay_value.induct)
  case (6 limit depth xs)
  then show ?case by (auto simp: list_all_iff dest!: in_set_takeD)
next
  case (7 limit depth d)
  let ?kvs = "take 100 (map (\<lambda>(k, v). (sanitize_text k 60, replay_value limit (Suc depth) v)) d)"
  show ?case
  proof (cases "4 \<le> depth")
    case False
    have "list_all (sane_entry limit) ?kvs"
      using 7 False sanitized by (fastforce simp: list_all_iff sane_entry_def dest!: in_set_takeD)
    then have "list_all (sane_entry limit) (dict_of ?kvs)" using dict_of_subset [of ?kvs] by (auto simp: list_all_iff)
    moreover have "length (dict_of ?kvs) \<le> 100" using dict_of_length [of ?kvs] by simp
    ultimately show ?thesis using False by (simp add: sane_entry_def)
  qed simp
qed (simp_all add: sanitized)

lemma days_left_plain: "list_all is_printable ''days_left''"
  by code_simp

lemma rename_days_sane:
  assumes "list_all (sane_entry limit) flds"
  shows "list_all (sane_entry limit) (rename_days flds)"
proof (cases "dict_get flds ''not_after_in_days''")
  case (Some v)
  then have "sane_entry limit (''days_left'', v)"
    using assms dict_get_member [OF Some] days_left_plain by (auto simp: list_all_iff sane_entry_def)
  moreover have "list_all (sane_entry limit) (dict_del ''not_after_in_days'' flds)"
    using assms by (auto simp: list_all_iff dict_del_def)
  ultimately show ?thesis
    using Some assms dict_set_subset [of "''days_left''" v "dict_del ''not_after_in_days'' flds"]
    by (auto simp: rename_days_def list_all_iff)
qed (simp add: rename_days_def assms)

lemma replay_fields_sane: "list_all (sane_entry limit) (replay_fields limit entry)"
proof -
  let ?kvs = "map (\<lambda>(k, v). (sanitize_text k 60, replay_value limit 0 v)) (take 200 (as_dict (the_default PNone (dict_get entry ''fields''))))"
  have "list_all (sane_entry limit) ?kvs" using replay_value_sane sanitized by (fastforce simp: list_all_iff sane_entry_def)
  then have "list_all (sane_entry limit) (dict_of ?kvs)" using dict_of_subset [of ?kvs] by (auto simp: list_all_iff)
  then show ?thesis by (simp add: replay_fields_def rename_days_sane)
qed

lemma validate_total: "ty \<noteq> ''ldap_port'' \<Longrightarrow> \<exists>x. validate ty v = Inr x"
  by (auto simp: validate_def VALIDATORS_def)

lemma recorded_unit_total: "\<exists>b. recorded_unit_matches ps u = Inr b"
proof -
  have "validate ''systemd_unit'' v \<noteq> Inl e" for v e using validate_total [of "''systemd_unit''" v] by auto
  then show ?thesis
    unfolding recorded_unit_matches_def by (auto simp: bind_exn_def split: option.splits pyval.splits sum.splits prod.splits)
qed

lemma res_simps [simp]:
  "cr_status (res c p s f d m) = s" "cr_fields (res c p s f d m) = f" "cr_params (res c p s f d m) = p"
  "cr_display (res c p s f d m) = sanitize_text d 240" "cr_command (res c p s f d m) = sanitize_text m 240"
  by (simp_all add: res_def)

section \<open>Properties\<close>

text \<open>No check ever sees an argument that was not validated. A runner behaves as one whose executor refuses every
  argument list but those that match the check's declared parameters, name by name, with values that validate as their
  type to themselves, are not empty, do not begin with a dash and hold no character special to a shell.\<close>

theorem only_checked_arguments:
  "runner_run execute registry check_id ps fresh rn = runner_run (guarded execute) registry check_id ps fresh rn"
  by (auto simp: runner_run_def guarded_def Let_def dest: validated_params_checked split: option.splits sum.splits)

text \<open>A result is computed once. After a call that returned a result, the same call returns the same result again
  and runs nothing: the state does not change.\<close>

theorem runner_caches:
  "case runner_run execute registry check_id ps fresh rn of
     (Inl e, rn') \<Rightarrow> True
   | (Inr r, rn') \<Rightarrow> runner_run execute registry check_id ps False rn' = (Inr r, rn')"
  by (auto simp: runner_run_def Let_def dict.get_set split: option.splits sum.splits prod.splits)

text \<open>A replay answers from the recording alone, and nothing recorded is trusted. It leaves the world as it is,
  always returns one of the four statuses, every string and key it returns is sanitised and bounded at every depth,
  and a recorded systemd unit is reported OK only if its name validates and belongs to the service that was asked.\<close>

theorem replay_answers_safe:
  "case replay_execute data limit spec ps w of
     (Inl e, w') \<Rightarrow> False
   | (Inr r, w') \<Rightarrow>
       w' = w \<and> cr_status r \<in> {OK, FAILED, NOT_RUN, DENIED} \<and> list_all (sane_entry limit) (cr_fields r)
       \<and> list_all is_printable (cr_display r) \<and> length (cr_display r) \<le> 240
       \<and> (if cs_check_id spec = ''systemd.unit'' \<and> cr_status r = OK
          then recorded_unit_matches ps (dict_get (cr_fields r) ''unit'') = Inr True else True)"
proof -
  have unit_total: "recorded_unit_matches ps u \<noteq> Inl e" for u e using recorded_unit_total [of ps u] by auto
  have status: "replay_status entry \<in> {OK, FAILED, NOT_RUN, DENIED}" for entry
    by (auto simp: replay_status_def split: option.splits pyval.splits)
  have strings: "NOT_RUN \<noteq> OK" by (simp add: NOT_RUN_def OK_def)
  show ?thesis
    using unit_total status strings replay_fields_sane sanitized
    by (auto simp: replay_execute_def Let_def bind_exn_def split: option.splits pyval.splits sum.splits)
qed

end
