(* ===== verification/Plan.thy ===== *)
theory Plan
  imports Checks
begin

text \<open>
  The plans of \<open>planner/core.py\<close>: steps, templates and their static validation. Gates and classifiers are the plan's
  own code, functions of the context; a parameter of a step is a literal or a reference (a tuple).
\<close>

section \<open>Bounds and outcomes\<close>

definition MAX_STEPS :: nat where "MAX_STEPS = 48"
definition MAX_DEPTH :: nat where "MAX_DEPTH = 12"
definition MAX_FANOUT :: nat where "MAX_FANOUT = 10"
definition MAX_RETRIES :: nat where "MAX_RETRIES = 1"
definition MAX_INSTANCES :: nat where "MAX_INSTANCES = 16"
definition HARD_MAX_STEPS :: nat where "HARD_MAX_STEPS = 200"

definition NOT_RUN_ON_PURPOSE :: string where "NOT_RUN_ON_PURPOSE = ''not run on purpose:''"

datatype outcome = PASS | WARN | FAIL | Out_UNKNOWN | SKIPPED

fun outcome_value :: "outcome \<Rightarrow> string" where
  "outcome_value PASS = ''PASS''"
| "outcome_value WARN = ''WARN''"
| "outcome_value FAIL = ''FAIL''"
| "outcome_value Out_UNKNOWN = ''UNKNOWN''"
| "outcome_value SKIPPED = ''SKIPPED''"

section \<open>Records and the context\<close>

record req =
  rq_step :: string
  rq_accept :: "outcome list"

record classified =
  cl_outcome :: outcome
  cl_summary :: string
  cl_facts :: pydict

record step_record =
  rc_step_id :: string
  rc_capability :: string
  rc_check :: string
  rc_title :: string
  rc_why :: string
  rc_outcome :: outcome
  rc_summary :: string
  rc_selected_because :: string
  rc_skip_reason :: string
  rc_params :: "(string \<times> string) list"
  rc_command :: string
  rc_seconds :: rat
  rc_collected_at :: "string option"
  rc_source :: string
  rc_status :: string
  rc_reused :: bool
  rc_side_effects :: string
  rc_privilege :: string
  rc_facts :: pydict
  rc_fields :: pydict
  rc_attempts :: nat
  rc_blocked_by :: "string option"
  rc_subject :: "string option"
  rc_template :: "string option"
  rc_base_step :: "string option"

text \<open>
  One record for \<open>Context\<close> and \<open>SubjectContext\<close>: without a subject no step id is local. The records are the
  dictionary by step id, at the moment a gate or a classifier reads it.
\<close>

record ctx =
  cx_inputs :: pydict
  cx_is_root :: bool
  cx_records :: "(string \<times> step_record) list"
  cx_subject :: "string option"
  cx_item :: pydict
  cx_local :: "string list"

definition cx_key :: "ctx \<Rightarrow> string \<Rightarrow> string" where
  "cx_key c step_id =
     (case cx_subject c of
        None \<Rightarrow> step_id
      | Some subject \<Rightarrow> if step_id \<in> set (cx_local c) then step_id @ ''@'' @ subject else step_id)"

definition cx_outcome :: "ctx \<Rightarrow> string \<Rightarrow> outcome option" where
  "cx_outcome c step_id = map_option rc_outcome (dict_get (cx_records c) (cx_key c step_id))"

definition cx_ran :: "ctx \<Rightarrow> string \<Rightarrow> bool" where
  "cx_ran c step_id =
     (case dict_get (cx_records c) (cx_key c step_id) of None \<Rightarrow> False | Some r \<Rightarrow> rc_outcome r \<noteq> SKIPPED)"

definition ref_step :: "string \<Rightarrow> string" where
  "ref_step ref = fst (rpartition_char (CHR ''.'') ref)"

definition ref_name :: "string \<Rightarrow> string" where
  "ref_name ref = snd (snd (rpartition_char (CHR ''.'') ref))"

definition cx_fact :: "ctx \<Rightarrow> string \<Rightarrow> pyval \<Rightarrow> pyval" where
  "cx_fact c ref dflt =
     (case dict_get (cx_records c) (cx_key c (ref_step ref)) of
        None \<Rightarrow> dflt
      | Some r \<Rightarrow>
          if rc_outcome r = SKIPPED then dflt
          else (case dict_get (rc_facts r) (ref_name ref) of
                  Some v \<Rightarrow> v
                | None \<Rightarrow> the_default dflt (dict_get (rc_fields r) (ref_name ref))))"

definition cx_input :: "ctx \<Rightarrow> string \<Rightarrow> pyval \<Rightarrow> pyval" where
  "cx_input c name dflt = the_default dflt (dict_get (cx_inputs c) name)"

section \<open>Steps and templates\<close>

datatype param = PLit pyval | PTup "string list"

type_synonym gate = "ctx \<Rightarrow> exn + (bool \<times> string)"

record step =
  st_step_id :: string
  st_capability :: string
  st_check :: string
  st_title :: string
  st_why :: string
  st_params :: "(string \<times> param) list"
  st_requires :: "req list"
  st_after :: "string list"
  st_when :: "gate option"
  st_classify :: "(check_result \<Rightarrow> ctx \<Rightarrow> exn + classified) option"
  st_stop :: "(ctx \<Rightarrow> exn + string option) option"
  st_needs_root :: bool
  st_applies :: "gate option"
  st_retries :: nat
  st_stop_subject :: "(ctx \<Rightarrow> exn + string option) option"

record for_each =
  fe_template_id :: string
  fe_source :: string
  fe_subject_type :: string
  fe_steps :: "step list"
  fe_max_instances :: nat
  fe_title :: string
  fe_complete_fact :: "string option"
  fe_subject_seconds :: "rat option"

datatype plan_item = PStep step | PForEach for_each

section \<open>Validation\<close>

definition deps :: "step \<Rightarrow> string list" where
  "deps s = map rq_step (st_requires s) @ st_after s"

definition max_default :: "nat \<Rightarrow> nat list \<Rightarrow> nat" where
  "max_default x xs = (case xs of [] \<Rightarrow> x | y # ys \<Rightarrow> foldl max y ys)"

text \<open>The depth of a template's steps: \<open>local[d] if d in local else depth.get(d, 0)\<close>\<close>

fun template_depths :: "(string \<times> nat) list \<Rightarrow> nat \<Rightarrow> (string \<times> nat) list \<Rightarrow> step list \<Rightarrow> (string \<times> nat) list" where
  "template_depths depth base loc [] = loc"
| "template_depths depth base loc (s # ss) =
     (let d = (\<lambda>x. case dict_get loc x of Some n \<Rightarrow> n | None \<Rightarrow> the_default 0 (dict_get depth x))
      in template_depths depth base (dict_set (st_step_id s) (1 + max_default 0 (base # map d (deps s))) loc) ss)"

text \<open>\<open>depth[d]\<close> of a dependency raises KeyError for an id that is not a key.\<close>

fun lookup_all :: "(string \<times> nat) list \<Rightarrow> string list \<Rightarrow> exn + nat list" where
  "lookup_all depth [] = Inr []"
| "lookup_all depth (x # xs) =
     (case dict_get depth x of None \<Rightarrow> Inl KeyError
      | Some n \<Rightarrow> bind_exn (lookup_all depth xs) (\<lambda>ns. Inr (n # ns)))"

fun plan_depths :: "(string \<times> nat) list \<Rightarrow> plan_item list \<Rightarrow> exn + (string \<times> nat) list" where
  "plan_depths depth [] = Inr depth"
| "plan_depths depth (PForEach fe # items) =
     (let base = the_default 0 (dict_get depth (ref_step (fe_source fe)));
          loc = template_depths depth base [] (fe_steps fe)
      in plan_depths (dict_set (fe_template_id fe) (max_default base (map snd loc)) depth) items)"
| "plan_depths depth (PStep s # items) =
     bind_exn (lookup_all depth (deps s)) (\<lambda>ns. plan_depths (dict_set (st_step_id s) (1 + max_default 0 ns) depth) items)"

definition depth_of :: "plan_item list \<Rightarrow> exn + nat" where
  "depth_of plan = bind_exn (plan_depths [] plan) (\<lambda>depth. Inr (max_default 0 (map snd depth)))"

definition repr_tuple :: "string list \<Rightarrow> string" where
  "repr_tuple xs =
     (case xs of [x] \<Rightarrow> ''('' @ repr_str x @ '',)'' | _ \<Rightarrow> ''('' @ join '', '' (map repr_str xs) @ '')'')"

datatype seen_item = SeenStep step | SeenForEach for_each

type_synonym seen = "(string \<times> seen_item) list"
type_synonym fanout = "(string \<times> nat) list"

fun check_deps :: "step \<Rightarrow> seen \<Rightarrow> string list \<Rightarrow> string list \<Rightarrow> fanout \<Rightarrow> exn + fanout" where
  "check_deps s sn loc [] fo = Inr fo"
| "check_deps s sn loc (dep # ds) fo =
     (if dict_get sn dep = None \<and> dep \<notin> set loc
      then Inl (PlanError (st_step_id s @ '': depends on '' @ dep @ '', which is not declared before it''))
      else (case dict_get sn dep of
              Some (SeenForEach fe) \<Rightarrow>
                Inl (PlanError (st_step_id s @ '': depends on the template '' @ dep @ ''; depend on a plan step instead''))
            | _ \<Rightarrow> check_deps s sn loc ds (dict_set dep (the_default 0 (dict_get fo dep) + 1) fo)))"

fun check_params :: "step \<Rightarrow> seen \<Rightarrow> string list \<Rightarrow> bool \<Rightarrow> (string \<times> param) list \<Rightarrow> exn + unit" where
  "check_params s sn loc in_template [] = Inr ()"
| "check_params s sn loc in_template ((k, PLit v) # ps) = check_params s sn loc in_template ps"
| "check_params s sn loc in_template ((k, PTup v) # ps) =
     (let kinds = (if in_template then [''fact'', ''input'', ''item''] else [''fact'', ''input''])
      in case v of
           [kind, ref] \<Rightarrow>
             if kind \<notin> set kinds
             then Inl (PlanError (st_step_id s @ '': bad parameter reference '' @ repr_tuple v))
             else if kind = ''fact'' \<and> dict_get sn (ref_step ref) = None \<and> ref_step ref \<notin> set loc
             then Inl (PlanError (st_step_id s @ '': parameter refers to a later or unknown step ('' @ ref @ '')''))
             else check_params s sn loc in_template ps
         | _ \<Rightarrow> Inl (PlanError (st_step_id s @ '': bad parameter reference '' @ repr_tuple v)))"

definition check_kind :: "step \<Rightarrow> bool \<Rightarrow> exn + unit" where
  "check_kind s in_template =
     (if in_template
      then if st_stop s \<noteq> None
           then Inl (PlanError (st_step_id s @ '': a template step may not stop the whole run (use stop_subject)''))
           else if st_retries s \<noteq> 0 then Inl (PlanError (st_step_id s @ '': template steps do not retry''))
           else Inr ()
      else if st_stop_subject s \<noteq> None
           then Inl (PlanError (st_step_id s @ '': stop_subject is for template steps only''))
           else Inr ())"

definition validate_step :: "step \<Rightarrow> 'w check_spec \<Rightarrow> seen \<Rightarrow> string list \<Rightarrow> fanout \<Rightarrow> bool \<Rightarrow> exn + fanout" where
  "validate_step s spec sn loc fo in_template =
     (if CHR ''@'' \<in> set (st_step_id s) \<or> st_step_id s = []
      then Inl (PlanError (repr_str (st_step_id s) @ '': '' @ [CHR 0x27] @ ''@'' @ [CHR 0x27] @ '' is reserved for template instances''))
      else if set (dict_keys (st_params s)) \<noteq> set (dict_keys (cs_params spec))
      then Inl (PlanError (st_step_id s @ '': parameters must be exactly '' @
             py_repr (PList (map PStr (sort (dict_keys (cs_params spec)))))))
      else bind_exn (check_deps s sn loc (deps s) fo) (\<lambda>fo'.
           bind_exn (check_params s sn loc in_template (st_params s)) (\<lambda>_.
             if st_retries s > MAX_RETRIES
             then Inl (PlanError (st_step_id s @ '': at most '' @ show_nat MAX_RETRIES @ '' retry''))
             else if cs_privilege spec = ''root'' \<and> \<not> st_needs_root s
             then Inl (PlanError (st_step_id s @ '': '' @ st_check s @ '' needs root; the step must declare needs_root''))
             else bind_exn (check_kind s in_template) (\<lambda>_. Inr fo'))))"

definition not_in_registry :: "step \<Rightarrow> exn" where
  "not_in_registry s = PlanError (st_step_id s @ '': '' @ st_check s @ '' is not in the closed check registry'')"

fun validate_template_steps ::
  "'w registry \<Rightarrow> seen \<Rightarrow> (string \<times> step) list \<Rightarrow> fanout \<Rightarrow> step list \<Rightarrow> exn + (string \<times> step) list \<times> fanout" where
  "validate_template_steps reg sn loc fo [] = Inr (loc, fo)"
| "validate_template_steps reg sn loc fo (s # ss) =
     (if dict_get sn (st_step_id s) \<noteq> None \<or> dict_get loc (st_step_id s) \<noteq> None
      then Inl (PlanError (''duplicate step '' @ st_step_id s))
      else case dict_get reg (st_check s) of
             None \<Rightarrow> Inl (not_in_registry s)
           | Some spec \<Rightarrow>
               bind_exn (validate_step s spec sn (dict_keys loc) fo True) (\<lambda>fo'.
                 validate_template_steps reg sn (dict_set (st_step_id s) s loc) fo' ss))"

text \<open>The source of the subjects: an earlier plan step, not a step of an earlier template.\<close>

definition bad_source :: "seen \<Rightarrow> string \<Rightarrow> bool" where
  "bad_source sn ref =
     ((case dict_get sn (ref_step ref) of Some (SeenStep s) \<Rightarrow> False | _ \<Rightarrow> True)
      \<or> list_ex (\<lambda>(k, x). case x of SeenForEach fe \<Rightarrow> ref_step ref \<in> set (map st_step_id (fe_steps fe)) | SeenStep s \<Rightarrow> False) sn)"

definition source_error :: "for_each \<Rightarrow> string \<Rightarrow> exn" where
  "source_error fe ref = PlanError (fe_template_id fe @ '': subjects must come from an earlier plan step ('' @ ref @ '')'')"

definition validate_template :: "'w registry \<Rightarrow> seen \<Rightarrow> fanout \<Rightarrow> for_each \<Rightarrow> exn + seen \<times> fanout" where
  "validate_template reg sn fo fe =
     (let tid = fe_template_id fe
      in if dict_get sn tid \<noteq> None \<or> CHR ''@'' \<in> set tid \<or> tid = []
         then Inl (PlanError (''duplicate or invalid template id '' @ tid))
         else if \<not> (1 \<le> fe_max_instances fe \<and> fe_max_instances fe \<le> MAX_INSTANCES)
         then Inl (PlanError (tid @ '': instance budget must be 1..'' @ show_nat MAX_INSTANCES))
         else if map_of VALIDATORS (fe_subject_type fe) = None
         then Inl (PlanError (tid @ '': unknown subject type '' @ fe_subject_type fe))
         else if bad_source sn (fe_source fe) then Inl (source_error fe (fe_source fe))
         else if (case fe_complete_fact fe of None \<Rightarrow> False | Some ref \<Rightarrow> bad_source sn ref)
         then Inl (source_error fe (the_default [] (fe_complete_fact fe)))
         else if fe_steps fe = [] then Inl (PlanError (tid @ '': a template needs at least one step''))
         else bind_exn (validate_template_steps reg sn [] fo (fe_steps fe)) (\<lambda>(loc, fo').
                Inr (dict_set tid (SeenForEach fe) (fold (\<lambda>(sid, s). dict_set sid (SeenStep s)) loc sn), fo')))"

fun validate_items :: "'w registry \<Rightarrow> seen \<Rightarrow> fanout \<Rightarrow> plan_item list \<Rightarrow> exn + seen \<times> fanout" where
  "validate_items reg sn fo [] = Inr (sn, fo)"
| "validate_items reg sn fo (PForEach fe # items) =
     bind_exn (validate_template reg sn fo fe) (\<lambda>(sn', fo'). validate_items reg sn' fo' items)"
| "validate_items reg sn fo (PStep s # items) =
     (if dict_get sn (st_step_id s) \<noteq> None then Inl (PlanError (''duplicate step '' @ st_step_id s))
      else case dict_get reg (st_check s) of
             None \<Rightarrow> Inl (not_in_registry s)
           | Some spec \<Rightarrow>
               bind_exn (validate_step s spec sn [] fo False) (\<lambda>fo'.
                 validate_items reg (dict_set (st_step_id s) (SeenStep s) sn) fo' items))"

fun item_declared :: "plan_item \<Rightarrow> nat" where
  "item_declared (PStep s) = 1"
| "item_declared (PForEach fe) = length (fe_steps fe)"

fun item_expanded :: "plan_item \<Rightarrow> nat" where
  "item_expanded (PStep s) = 1"
| "item_expanded (PForEach fe) = length (fe_steps fe) * fe_max_instances fe"

definition validate_plan :: "plan_item list \<Rightarrow> 'w registry \<Rightarrow> exn + unit" where
  "validate_plan plan reg =
     (let declared = sum_list (map item_declared plan); expanded = sum_list (map item_expanded plan)
      in if declared > MAX_STEPS
         then Inl (PlanError (''plan has '' @ show_nat declared @ '' steps (bound '' @ show_nat MAX_STEPS @ '')''))
         else if expanded > HARD_MAX_STEPS
         then Inl (PlanError (''plan can expand to '' @ show_nat expanded @ '' steps (hard bound '' @ show_nat HARD_MAX_STEPS @ '')''))
         else bind_exn (validate_items reg [] [] plan) (\<lambda>(sn, fo).
                let worst = max_default 0 (map snd fo)
                in if worst > MAX_FANOUT
                   then Inl (PlanError (''a step has '' @ show_nat worst @ '' dependents (bound '' @ show_nat MAX_FANOUT @ '')''))
                   else bind_exn (depth_of plan) (\<lambda>d.
                          if d > MAX_DEPTH
                          then Inl (PlanError (''dependency depth '' @ show_nat d @ '' exceeds '' @ show_nat MAX_DEPTH))
                          else Inr ())))"

section \<open>What validation establishes\<close>

fun item_steps :: "plan_item \<Rightarrow> step list" where
  "item_steps (PStep s) = [s]"
| "item_steps (PForEach fe) = fe_steps fe"

definition plan_steps :: "plan_item list \<Rightarrow> step list" where
  "plan_steps plan = concat (map item_steps plan)"

definition step_ids :: "plan_item list \<Rightarrow> string list" where
  "step_ids plan = map st_step_id (plan_steps plan)"

definition template_ids :: "plan_item list \<Rightarrow> string list" where
  "template_ids plan = concat (map (\<lambda>i. case i of PStep s \<Rightarrow> [] | PForEach fe \<Rightarrow> [fe_template_id fe]) plan)"

lemma step_ids_simps [simp]:
  "step_ids [] = []" "step_ids (PStep s # items) = st_step_id s # step_ids items"
  "step_ids (PForEach fe # items) = map st_step_id (fe_steps fe) @ step_ids items"
  by (simp_all add: step_ids_def plan_steps_def)

lemma plan_steps_simps [simp]:
  "plan_steps [] = []" "plan_steps (PStep s # items) = s # plan_steps items"
  "plan_steps (PForEach fe # items) = fe_steps fe @ plan_steps items"
  by (simp_all add: plan_steps_def)

lemma template_ids_simps [simp]:
  "template_ids [] = []" "template_ids (PStep s # items) = template_ids items"
  "template_ids (PForEach fe # items) = fe_template_id fe # template_ids items"
  by (simp_all add: template_ids_def)

text \<open>Every dependency of a step is a step declared before it.\<close>

fun ordered_steps :: "string list \<Rightarrow> step list \<Rightarrow> bool" where
  "ordered_steps prior [] = True"
| "ordered_steps prior (s # ss) = (set (deps s) \<subseteq> set prior \<and> ordered_steps (prior @ [st_step_id s]) ss)"

definition plain_id :: "string \<Rightarrow> bool" where
  "plain_id s = (s \<noteq> [] \<and> CHR ''@'' \<notin> set s)"

text \<open>What holds of one validated step.\<close>

definition step_checked :: "'w registry \<Rightarrow> bool \<Rightarrow> step \<Rightarrow> bool" where
  "step_checked reg in_template s \<longleftrightarrow>
     plain_id (st_step_id s) \<and> st_retries s \<le> MAX_RETRIES
     \<and> (in_template \<longrightarrow> st_stop s = None \<and> st_retries s = 0) \<and> (\<not> in_template \<longrightarrow> st_stop_subject s = None)
     \<and> (case dict_get reg (st_check s) of
          None \<Rightarrow> False
        | Some spec \<Rightarrow> set (dict_keys (st_params s)) = set (dict_keys (cs_params spec))
            \<and> (cs_privilege spec = ''root'' \<longrightarrow> st_needs_root s))"

lemma check_deps_ok:
  "check_deps s sn loc ds fo = Inr fo' \<Longrightarrow> d \<in> set ds \<Longrightarrow>
     d \<in> set loc \<and> (\<nexists>fe. dict_get sn d = Some (SeenForEach fe)) \<or> (\<exists>t. dict_get sn d = Some (SeenStep t))"
proof (induction s sn loc ds fo rule: check_deps.induct)
  case (2 s sn loc dep ds fo)
  show ?case
  proof (cases "dict_get sn dep")
    case None
    then show ?thesis using 2 by (auto split: if_splits)
  next
    case (Some x)
    then show ?thesis using 2 by (cases x) auto
  qed
qed simp

lemma validate_step_ok:
  assumes "validate_step s spec sn loc fo tmpl = Inr fo'" "dict_get reg (st_check s) = Some spec"
  shows "step_checked reg tmpl s \<and> (\<forall>d \<in> set (deps s). d \<in> set loc \<or> (\<exists>t. dict_get sn d = Some (SeenStep t)))"
proof -
  have c: "plain_id (st_step_id s)" "set (dict_keys (st_params s)) = set (dict_keys (cs_params spec))"
    using assms(1) by (auto simp: validate_step_def plain_id_def split: if_splits)
  then obtain fo1 where d: "check_deps s sn loc (deps s) fo = Inr fo1"
    and r: "bind_exn (check_params s sn loc tmpl (st_params s)) (\<lambda>_.
             if st_retries s > MAX_RETRIES
             then Inl (PlanError (st_step_id s @ '': at most '' @ show_nat MAX_RETRIES @ '' retry''))
             else if cs_privilege spec = ''root'' \<and> \<not> st_needs_root s
             then Inl (PlanError (st_step_id s @ '': '' @ st_check s @ '' needs root; the step must declare needs_root''))
             else bind_exn (check_kind s tmpl) (\<lambda>_. Inr fo1)) = Inr fo'"
    using assms(1) unfolding validate_step_def by (auto simp: plain_id_def bind_exn_Inr split: if_splits)
  have k: "check_kind s tmpl = Inr ()" "st_retries s \<le> MAX_RETRIES" "cs_privilege spec = ''root'' \<longrightarrow> st_needs_root s"
    using r by (auto simp: bind_exn_Inr split: if_splits)
  have "tmpl \<longrightarrow> st_stop s = None \<and> st_retries s = 0" "\<not> tmpl \<longrightarrow> st_stop_subject s = None"
    using k(1) by (auto simp: check_kind_def split: if_splits)
  then have "step_checked reg tmpl s" using c k assms(2) by (simp add: step_checked_def)
  moreover have "\<forall>d \<in> set (deps s). d \<in> set loc \<or> (\<exists>t. dict_get sn d = Some (SeenStep t))"
    using check_deps_ok [OF d] by blast
  ultimately show ?thesis by blast
qed

definition seen_steps_in :: "seen \<Rightarrow> string list \<Rightarrow> bool" where
  "seen_steps_in sn prior = (\<forall>k t. dict_get sn k = Some (SeenStep t) \<longrightarrow> k \<in> set prior)"

lemma template_steps_ok:
  assumes "validate_template_steps reg sn loc fo ss = Inr (loc', fo')"
    "seen_steps_in sn prior"
  shows "list_all (step_checked reg True) ss \<and> ordered_steps (prior @ dict_keys loc) ss
     \<and> dict_keys loc' = dict_keys loc @ map st_step_id ss \<and> (distinct (dict_keys loc) \<longrightarrow> distinct (dict_keys loc'))
     \<and> (\<forall>s \<in> set ss. dict_get sn (st_step_id s) = None)"
  using assms(1)
proof (induction ss arbitrary: loc fo)
  case (Cons s ss)
  from Cons.prems have new: "dict_get sn (st_step_id s) = None" "dict_get loc (st_step_id s) = None"
    by (auto split: if_splits)
  then obtain spec fo1 where sp: "dict_get reg (st_check s) = Some spec"
      "validate_step s spec sn (dict_keys loc) fo True = Inr fo1"
      "validate_template_steps reg sn (dict_set (st_step_id s) s loc) fo1 ss = Inr (loc', fo')"
    using Cons.prems by (auto simp: bind_exn_Inr split: option.splits)
  have keys: "dict_keys (dict_set (st_step_id s) s loc) = dict_keys loc @ [st_step_id s]"
    using new(2) by (simp add: dict.keys_set dict.get_None_iff)
  have "set (deps s) \<subseteq> set (prior @ dict_keys loc)"
    using validate_step_ok [OF sp(2,1)] assms(2) by (fastforce simp: seen_steps_in_def)
  then show ?case
    using Cons.IH [OF sp(3)] validate_step_ok [OF sp(2,1)] new keys by (auto simp: dict.get_None_iff disjoint_iff image_iff; blast)
qed simp

lemma fold_dict_set: "dict_get (fold (\<lambda>(sid, s). dict_set sid (f s)) loc sn) k \<noteq> None \<longleftrightarrow> dict_get sn k \<noteq> None \<or> k \<in> set (dict_keys loc)"
  by (induction loc arbitrary: sn) (auto simp: dict.get_set dict_keys_def split: if_splits)

lemma fold_seen_steps:
  "dict_get (fold (\<lambda>(sid, s). dict_set sid (SeenStep s)) loc sn) k = Some x \<Longrightarrow>
     dict_get sn k = Some x \<or> k \<in> set (dict_keys loc)"
  by (induction loc arbitrary: sn) (fastforce simp: dict.get_set dict_keys_def split: if_splits)+

text \<open>The plan as a whole: by induction over its items, with the ids seen so far.\<close>

fun ordered_items :: "'w registry \<Rightarrow> string list \<Rightarrow> plan_item list \<Rightarrow> bool" where
  "ordered_items reg prior [] = True"
| "ordered_items reg prior (PStep s # items) =
     (set (deps s) \<subseteq> set prior \<and> step_checked reg False s \<and> ordered_items reg (prior @ [st_step_id s]) items)"
| "ordered_items reg prior (PForEach fe # items) =
     (ordered_steps prior (fe_steps fe) \<and> list_all (step_checked reg True) (fe_steps fe)
      \<and> fe_steps fe \<noteq> [] \<and> ref_step (fe_source fe) \<in> set prior \<and> fe_max_instances fe \<le> MAX_INSTANCES
      \<and> ordered_items reg (prior @ map st_step_id (fe_steps fe)) items)"

lemma validate_template_ok:
  assumes "validate_template reg sn fo fe = Inr (sn', fo')" "seen_steps_in sn prior"
  shows "dict_get sn (fe_template_id fe) = None" "fe_steps fe \<noteq> []" "fe_max_instances fe \<le> MAX_INSTANCES"
    "ref_step (fe_source fe) \<in> set prior"
    "ordered_steps prior (fe_steps fe)" "list_all (step_checked reg True) (fe_steps fe)"
    "distinct (map st_step_id (fe_steps fe))" "\<forall>s \<in> set (fe_steps fe). dict_get sn (st_step_id s) = None"
    "\<And>k. dict_get sn' k \<noteq> None \<longleftrightarrow> dict_get sn k \<noteq> None \<or> k = fe_template_id fe \<or> k \<in> set (map st_step_id (fe_steps fe))"
    "seen_steps_in sn' (prior @ map st_step_id (fe_steps fe))"
proof -
  have g: "dict_get sn (fe_template_id fe) = None" "fe_steps fe \<noteq> []" "fe_max_instances fe \<le> MAX_INSTANCES"
    "\<not> bad_source sn (fe_source fe)"
    using assms(1) by (auto simp: validate_template_def Let_def split: if_splits)
  obtain loc fo1 where loc: "validate_template_steps reg sn [] fo (fe_steps fe) = Inr (loc, fo1)"
    and sn': "sn' = dict_set (fe_template_id fe) (SeenForEach fe) (fold (\<lambda>(sid, s). dict_set sid (SeenStep s)) loc sn)"
    using assms(1) by (auto simp: validate_template_def Let_def bind_exn_Inr split: if_splits)
  have t: "list_all (step_checked reg True) (fe_steps fe) \<and> ordered_steps (prior @ dict_keys ([] :: (string \<times> step) list)) (fe_steps fe)
     \<and> dict_keys loc = dict_keys ([] :: (string \<times> step) list) @ map st_step_id (fe_steps fe) \<and> (distinct (dict_keys ([] :: (string \<times> step) list)) \<longrightarrow> distinct (dict_keys loc))
     \<and> (\<forall>s \<in> set (fe_steps fe). dict_get sn (st_step_id s) = None)"
    by (rule template_steps_ok [OF loc assms(2)])
  have keys: "dict_keys loc = map st_step_id (fe_steps fe)" using t by (simp add: dict_keys_def)
  show "dict_get sn (fe_template_id fe) = None" "fe_steps fe \<noteq> []" "fe_max_instances fe \<le> MAX_INSTANCES" by (fact g)+
  show "ref_step (fe_source fe) \<in> set prior"
    using g(4) assms(2) by (auto simp: bad_source_def seen_steps_in_def split: option.splits seen_item.splits)
  show "ordered_steps prior (fe_steps fe)" "list_all (step_checked reg True) (fe_steps fe)"
    "\<forall>s \<in> set (fe_steps fe). dict_get sn (st_step_id s) = None"
    using t by (simp_all add: dict_keys_def)
  show "distinct (map st_step_id (fe_steps fe))" using t keys by (metis dict_keys_def distinct.simps(1) list.simps(8))
  show "dict_get sn' k \<noteq> None \<longleftrightarrow> dict_get sn k \<noteq> None \<or> k = fe_template_id fe \<or> k \<in> set (map st_step_id (fe_steps fe))" for k
    using fold_dict_set [of SeenStep loc sn k] keys by (auto simp: sn' dict.get_set)
  show "seen_steps_in sn' (prior @ map st_step_id (fe_steps fe))"
    unfolding seen_steps_in_def
  proof (intro allI impI)
    fix k t assume "dict_get sn' k = Some (SeenStep t)"
    then show "k \<in> set (prior @ map st_step_id (fe_steps fe))"
      using fold_seen_steps [of loc sn k "SeenStep t"] keys assms(2)
      by (auto simp: sn' seen_steps_in_def dict.get_set split: if_splits)
  qed
qed

lemma validate_items_ok:
  assumes "validate_items reg sn fo items = Inr r" "seen_steps_in sn prior"
    "\<And>k. k \<in> set prior \<Longrightarrow> dict_get sn k \<noteq> None"
  shows "ordered_items reg prior items \<and> distinct (step_ids items) \<and> set prior \<inter> set (step_ids items) = {}
     \<and> distinct (template_ids items) \<and> (\<forall>x \<in> set (step_ids items) \<union> set (template_ids items). dict_get sn x = None)"
  using assms
proof (induction items arbitrary: sn fo prior)
  case (Cons item items)
  show ?case
  proof (cases item)
    case (PStep s)
    from Cons.prems(1) have new: "dict_get sn (st_step_id s) = None" by (auto simp: PStep split: if_splits)
    then obtain spec fo1 where sp: "dict_get reg (st_check s) = Some spec" "validate_step s spec sn [] fo False = Inr fo1"
        "validate_items reg (dict_set (st_step_id s) (SeenStep s) sn) fo1 items = Inr r"
      using Cons.prems(1) by (auto simp: PStep bind_exn_Inr split: option.splits)
    note ok = validate_step_ok [OF sp(2,1)]
    have seen': "k \<in> set (prior @ [st_step_id s]) \<Longrightarrow> dict_get (dict_set (st_step_id s) (SeenStep s) sn) k \<noteq> None" for k
      using Cons.prems(3) [of k] by (auto simp: dict.get_set)
    have "set (deps s) \<subseteq> set prior" using ok Cons.prems(2) by (fastforce simp: seen_steps_in_def)
    moreover have IH: "ordered_items reg (prior @ [st_step_id s]) items \<and> distinct (step_ids items)
        \<and> set (prior @ [st_step_id s]) \<inter> set (step_ids items) = {} \<and> distinct (template_ids items)
        \<and> (\<forall>x \<in> set (step_ids items) \<union> set (template_ids items). dict_get (dict_set (st_step_id s) (SeenStep s) sn) x = None)"
      by (rule Cons.IH [OF sp(3) _ seen']) (use Cons.prems(2) in \<open>auto simp: dict.get_set seen_steps_in_def split: if_splits\<close>)
    moreover have "st_step_id s \<notin> set prior" using Cons.prems(3) new by blast
    ultimately show ?thesis using ok new by (auto simp: PStep dict.get_set split: if_splits)
  next
    case (PForEach fe)
    obtain sn' fo1 where v: "validate_template reg sn fo fe = Inr (sn', fo1)" "validate_items reg sn' fo1 items = Inr r"
      using Cons.prems(1) by (auto simp: PForEach bind_exn_Inr)
    note t = validate_template_ok [where prior = prior, OF v(1) Cons.prems(2)]
    let ?ids = "map st_step_id (fe_steps fe)"
    have seen': "k \<in> set (prior @ ?ids) \<Longrightarrow> dict_get sn' k \<noteq> None" for k using t(9) Cons.prems(3) by auto
    have IH: "ordered_items reg (prior @ ?ids) items \<and> distinct (step_ids items)
        \<and> set (prior @ ?ids) \<inter> set (step_ids items) = {} \<and> distinct (template_ids items)
        \<and> (\<forall>x \<in> set (step_ids items) \<union> set (template_ids items). dict_get sn' x = None)"
      by (rule Cons.IH [OF v(2) t(10) seen'])
    have out: "set prior \<inter> set ?ids = {}" using t(8) Cons.prems(3) by fastforce
    have n: "dict_get sn x = None" if "dict_get sn' x = None" for x using t(9) [of x] that by auto
    have tid: "fe_template_id fe \<notin> set (template_ids items)" using IH t(9) [of "fe_template_id fe"] by auto
    show ?thesis
      unfolding PForEach ordered_items.simps step_ids_simps template_ids_simps distinct_append distinct.simps
      using IH t(1-8) out n tid by auto
  qed
qed simp

text \<open>A plan that validates is well formed.\<close>

definition wf_plan :: "'w registry \<Rightarrow> plan_item list \<Rightarrow> bool" where
  "wf_plan reg plan \<longleftrightarrow> ordered_items reg [] plan \<and> distinct (step_ids plan) \<and> distinct (template_ids plan)
     \<and> sum_list (map item_expanded plan) \<le> HARD_MAX_STEPS \<and> sum_list (map item_declared plan) \<le> MAX_STEPS"

lemma validate_plan_wf: "validate_plan plan reg = Inr u \<Longrightarrow> wf_plan reg plan"
proof -
  assume v: "validate_plan plan reg = Inr u"
  then obtain r where r: "validate_items reg [] [] plan = Inr r"
    by (auto simp: validate_plan_def Let_def bind_exn_Inr split: if_splits)
  have b: "sum_list (map item_expanded plan) \<le> HARD_MAX_STEPS" "sum_list (map item_declared plan) \<le> MAX_STEPS"
    using v by (auto simp: validate_plan_def Let_def split: if_splits)
  have "ordered_items reg [] plan \<and> distinct (step_ids plan) \<and> set [] \<inter> set (step_ids plan) = {}
     \<and> distinct (template_ids plan) \<and> (\<forall>x \<in> set (step_ids plan) \<union> set (template_ids plan). dict_get ([] :: seen) x = None)"
    by (rule validate_items_ok [OF r]) (simp_all add: dict_get_def seen_steps_in_def)
  then show ?thesis using b by (simp add: wf_plan_def)
qed

text \<open>The dependency graph.\<close>

definition dep_edges :: "plan_item list \<Rightarrow> (string \<times> string) set" where
  "dep_edges plan = {(d, st_step_id s) | d s. s \<in> set (plan_steps plan) \<and> d \<in> set (deps s)}"

definition position :: "string list \<Rightarrow> string \<Rightarrow> nat" where
  "position xs x = length (takeWhile (\<lambda>y. y \<noteq> x) xs)"

lemma position_before: "d \<in> set pre \<Longrightarrow> x \<notin> set pre \<Longrightarrow> position (pre @ ys) d < position (pre @ ys) x"
proof -
  assume d: "d \<in> set pre" and x: "x \<notin> set pre"
  have "length (takeWhile (\<lambda>y. y \<noteq> d) pre) < length pre"
    using d by (metis (mono_tags, lifting) length_takeWhile_le nat_less_le takeWhile_eq_all_conv takeWhile_eq_take take_all_iff linorder_not_le)
  moreover have "takeWhile (\<lambda>y. y \<noteq> d) (pre @ ys) = takeWhile (\<lambda>y. y \<noteq> d) pre" using d by (rule takeWhile_append1) simp
  moreover have "takeWhile (\<lambda>y. y \<noteq> x) (pre @ ys) = pre @ takeWhile (\<lambda>y. y \<noteq> x) ys"
    using x by (intro takeWhile_append2) auto
  ultimately show ?thesis by (simp add: position_def)
qed

lemma ordered_steps_before:
  "ordered_steps prior ss \<Longrightarrow> s \<in> set ss \<Longrightarrow> d \<in> set (deps s) \<Longrightarrow>
     \<exists>a b. map st_step_id ss = a @ st_step_id s # b \<and> d \<in> set (prior @ a)"
proof (induction prior ss rule: ordered_steps.induct)
  case (2 prior t ss)
  show ?case
  proof (cases "d \<in> set (deps t) \<and> s = t")
    case True
    then have "d \<in> set prior" using 2(2) by auto
    then show ?thesis using True by (intro exI [of _ "[]"] exI [of _ "map st_step_id ss"]) auto
  next
    case False
    then have "s \<in> set ss" using 2(3,4) by auto
    then obtain a b where "map st_step_id ss = a @ st_step_id s # b" "d \<in> set ((prior @ [st_step_id t]) @ a)"
      using 2 by auto
    then show ?thesis by (intro exI [of _ "st_step_id t # a"] exI [of _ b]) auto
  qed
qed simp

lemma ordered_items_before:
  "ordered_items reg prior items \<Longrightarrow> s \<in> set (plan_steps items) \<Longrightarrow> d \<in> set (deps s) \<Longrightarrow>
     \<exists>a b. step_ids items = a @ st_step_id s # b \<and> d \<in> set (prior @ a)"
proof (induction reg prior items rule: ordered_items.induct)
  case (2 reg prior t items)
  show ?case
  proof (cases "s = t")
    case True
    then show ?thesis using 2(2,4) by (intro exI [of _ "[]"] exI [of _ "step_ids items"]) auto
  next
    case False
    then obtain a b where "step_ids items = a @ st_step_id s # b" "d \<in> set ((prior @ [st_step_id t]) @ a)"
      using 2 by auto
    then show ?thesis by (intro exI [of _ "st_step_id t # a"] exI [of _ b]) auto
  qed
next
  case (3 reg prior fe items)
  show ?case
  proof (cases "s \<in> set (fe_steps fe)")
    case True
    then obtain a b where "map st_step_id (fe_steps fe) = a @ st_step_id s # b" "d \<in> set (prior @ a)"
      using 3(2,4) ordered_steps_before by fastforce
    then show ?thesis by (intro exI [of _ a] exI [of _ "b @ step_ids items"]) auto
  next
    case False
    then obtain a b where "step_ids items = a @ st_step_id s # b" "d \<in> set ((prior @ map st_step_id (fe_steps fe)) @ a)"
      using 3 by auto
    then show ?thesis by (intro exI [of _ "map st_step_id (fe_steps fe) @ a"] exI [of _ b]) auto
  qed
qed simp

lemma wf_plan_before:
  assumes "wf_plan reg plan" "(d, x) \<in> dep_edges plan"
  shows "position (step_ids plan) d < position (step_ids plan) x"
proof -
  obtain s where s: "s \<in> set (plan_steps plan)" "d \<in> set (deps s)" "x = st_step_id s"
    using assms(2) by (auto simp: dep_edges_def)
  then obtain a b where ab: "step_ids plan = a @ x # b" "d \<in> set a"
    using ordered_items_before [of reg "[]" plan s d] assms(1) by (auto simp: wf_plan_def)
  have "x \<notin> set a" using assms(1) ab(1) by (simp add: wf_plan_def)
  then show ?thesis using position_before [OF ab(2)] ab(1) by simp
qed

section \<open>Properties\<close>

text \<open>C31: The dependency graph of a plan that validates has no cycle, its step ids are distinct, and it can never
  expand to more records than the hard bound; so one ordered pass visits every step once.\<close>

theorem valid_plan_acyclic:
  "case validate_plan plan reg of
     Inl e \<Rightarrow> True
   | Inr u \<Rightarrow> acyclic (dep_edges plan) \<and> distinct (step_ids plan) \<and> sum_list (map item_expanded plan) \<le> HARD_MAX_STEPS"
proof (cases "validate_plan plan reg")
  case (Inr u)
  then have wf: "wf_plan reg plan" by (rule validate_plan_wf)
  have "dep_edges plan \<subseteq> measure (position (step_ids plan))" using wf_plan_before [OF wf] by auto
  then have "wf (dep_edges plan)" by (rule wf_subset [OF wf_measure])
  then show ?thesis using Inr wf by (auto simp: wf_plan_def wf_acyclic)
qed simp

end
