(* ===== verification/Planner.thy ===== *)
theory Planner
  imports Plan
begin

text \<open>
  Running a plan, \<open>planner/core.py\<close>. A record is created as SKIPPED, appended to the list and entered in the context
  under its id, and then changed in place while its step is visited; only the newest record changes, so
  the context is computed from the list of the records. A step is decided (run it, or skip it and why) and then run.
\<close>

section \<open>State\<close>

text \<open>\<open>_Run\<close>: what is fixed for a run, and what changes.\<close>

record run_config =
  rg_max_seconds :: rat
  rg_max_steps :: nat
  rg_start :: rat
  rg_is_root :: bool
  rg_privilege_hint :: string
  rg_inputs :: pydict

record 's run_state =
  ru_world :: 's
  ru_executed :: nat
  ru_stop_reason :: string
  ru_cancelled :: bool
  ru_records :: "step_record list"

text \<open>The view a step has: the run's context, or its subject's.\<close>

record view =
  vw_subject :: "string option"
  vw_item :: pydict
  vw_local :: "string list"

definition plan_view :: view where
  "plan_view = \<lparr>vw_subject = None, vw_item = [], vw_local = []\<rparr>"

definition records_dict :: "step_record list \<Rightarrow> (string \<times> step_record) list" where
  "records_dict rs = dict_of (map (\<lambda>r. (rc_step_id r, r)) rs)"

definition mk_ctx :: "run_config \<Rightarrow> view \<Rightarrow> step_record list \<Rightarrow> ctx" where
  "mk_ctx cfg v rs =
     \<lparr>cx_inputs = rg_inputs cfg, cx_is_root = rg_is_root cfg, cx_records = records_dict rs,
      cx_subject = vw_subject v, cx_item = vw_item v, cx_local = vw_local v\<rparr>"

section \<open>Deciding a step\<close>

definition resolve_param :: "ctx \<Rightarrow> string list \<Rightarrow> pyval" where
  "resolve_param c v =
     (case v of
        [kind, ref] \<Rightarrow>
          if kind = ''fact'' then cx_fact c ref PNone
          else if kind = ''item'' then the_default PNone (dict_get (cx_item c) ref)
          else cx_input c ref PNone
      | _ \<Rightarrow> PNone)"

fun resolve_params :: "ctx \<Rightarrow> (string \<times> param) list \<Rightarrow> string + pydict" where
  "resolve_params c [] = Inr []"
| "resolve_params c ((k, PLit v) # ps) =
     (case resolve_params c ps of Inl w \<Rightarrow> Inl w | Inr out \<Rightarrow> Inr ((k, v) # out))"
| "resolve_params c ((k, PTup v) # ps) =
     (let val = resolve_param c v
      in if val = PNone \<or> val = PStr []
         then Inl (''no value for '' @ k @ '' ('' @ last v @ '' is unknown)'')
         else (case resolve_params c ps of Inl w \<Rightarrow> Inl w | Inr out \<Rightarrow> Inr ((k, val) # out)))"

text \<open>The exceptions that unusable evidence causes, and that are caught.\<close>

fun evidence_exn :: "exn \<Rightarrow> bool" where
  "evidence_exn TypeError = True"
| "evidence_exn (ValueError m) = True"
| "evidence_exn (PlanError m) = True"
| "evidence_exn AttributeError = True"
| "evidence_exn KeyError = True"
| "evidence_exn OverflowError = True"
| "evidence_exn IndexError = True"
| "evidence_exn KeyboardInterrupt = False"
| "evidence_exn (OtherError n) = False"

definition caught :: "'a \<Rightarrow> exn + 'a \<Rightarrow> exn + 'a" where
  "caught fallback r = (case r of Inr x \<Rightarrow> Inr x | Inl e \<Rightarrow> if evidence_exn e then Inr fallback else Inl e)"

definition safe_gate :: "gate \<Rightarrow> ctx \<Rightarrow> exn + bool \<times> string" where
  "safe_gate g c = caught (False, ''the evidence this decision needs has an unexpected type or value'') (g c)"

definition accepted :: "ctx \<Rightarrow> req \<Rightarrow> bool" where
  "accepted c r = (case cx_outcome c (rq_step r) of None \<Rightarrow> False | Some o' \<Rightarrow> o' \<in> set (rq_accept r))"

definition blocked_by :: "ctx \<Rightarrow> step \<Rightarrow> req option" where
  "blocked_by c step = find (\<lambda>r. \<not> accepted c r) (st_requires step)"

definition blocked_reason :: "ctx \<Rightarrow> req \<Rightarrow> string" where
  "blocked_reason c b =
     ''blocked: needs '' @ [CHR 0x27] @
     (case dict_get (cx_records c) (cx_key c (rq_step b)) of Some up \<Rightarrow> rc_title up | None \<Rightarrow> rq_step b) @ [CHR 0x27] @
     '' to pass first (it was '' @
     (case cx_outcome c (rq_step b) of Some o' \<Rightarrow> outcome_value o' | None \<Rightarrow> ''not visited'') @ '')''"

definition gate_gap :: "string \<Rightarrow> bool" where
  "gate_gap why = (starts_with why ''the evidence this decision needs'' \<or> starts_with why NOT_RUN_ON_PURPOSE)"

definition stopped_reason :: "string \<Rightarrow> string" where "stopped_reason why = ''stopped: '' @ why"

text \<open>A decision about the current record: skip it, skip it and end the run, or run its check.\<close>

datatype decision = Skip step_record | StopRun step_record string | Go step_record pydict

text \<open>The guards of \<open>visit\<close>, in its order: applicability, relevance, privilege and the budget of steps.\<close>

definition applies_gate :: "step \<Rightarrow> ctx \<Rightarrow> exn + bool \<times> string" where
  "applies_gate step c = (case st_applies step of None \<Rightarrow> Inr (True, []) | Some g \<Rightarrow> safe_gate g c)"

definition when_gate :: "step \<Rightarrow> ctx \<Rightarrow> step_record \<Rightarrow> exn + bool \<times> step_record" where
  "when_gate step c rec =
     (case st_when step of
        None \<Rightarrow> Inr (True, rec)
      | Some g \<Rightarrow> bind_exn (safe_gate g c) (\<lambda>(ok, why).
          let rec' = rec\<lparr>rc_selected_because := why\<rparr>
          in Inr (ok, if ok then rec'
                      else rec'\<lparr>rc_skip_reason := (if gate_gap why then ''not applicable: '' else ''not needed: '') @ why\<rparr>)))"

definition budget_decision :: "run_config \<Rightarrow> nat \<Rightarrow> step \<Rightarrow> step_record \<Rightarrow> decision" where
  "budget_decision cfg executed step rec =
     (if st_needs_root step \<and> \<not> rg_is_root cfg
      then Skip (rec\<lparr>rc_skip_reason := ''privilege: needs root ('' @ rg_privilege_hint cfg @ '')''\<rparr>)
      else if executed \<ge> rg_max_steps cfg
      then StopRun rec (''step budget of '' @ show_nat (rg_max_steps cfg) @ '' checks used up'')
      else Go rec [])"

definition decide_gates :: "run_config \<Rightarrow> nat \<Rightarrow> step \<Rightarrow> (step_record \<Rightarrow> ctx) \<Rightarrow> step_record \<Rightarrow> exn + decision" where
  "decide_gates cfg executed step c rec =
     (case blocked_by (c rec) step of
        Some b \<Rightarrow> Inr (Skip (rec\<lparr>rc_skip_reason := blocked_reason (c rec) b, rc_blocked_by := Some (cx_key (c rec) (rq_step b))\<rparr>))
      | None \<Rightarrow>
          bind_exn (applies_gate step (c rec)) (\<lambda>(ok, why).
            if \<not> ok then Inr (Skip (rec\<lparr>rc_skip_reason := ''not applicable: '' @ why\<rparr>))
            else bind_exn (when_gate step (c rec) rec) (\<lambda>(ok2, rec2).
                   Inr (if ok2 then budget_decision cfg executed step rec2 else Skip rec2))))"

text \<open>\<open>f"{x:.0f}"\<close> of a number of seconds\<close>

definition fmt0 :: "rat \<Rightarrow> string" where "fmt0 x = show_int (round_half_even x)"

text \<open>The time budget and the parameters.\<close>

definition decide_clock :: "'s env \<Rightarrow> run_config \<Rightarrow> step \<Rightarrow> (step_record \<Rightarrow> ctx) \<Rightarrow> step_record \<Rightarrow> 's \<Rightarrow> decision \<times> 's" where
  "decide_clock env cfg step c rec w0 =
     (case en_clock env w0 of (now, w) \<Rightarrow>
        if fsub now (rg_start cfg) > rg_max_seconds cfg
        then (StopRun rec (''time budget of '' @ fmt0 (rg_max_seconds cfg) @ '' s used up''), w)
        else (case resolve_params (c rec) (st_params step) of
                Inl why \<Rightarrow> (Skip (rec\<lparr>rc_skip_reason := ''blocked: '' @ why\<rparr>), w)
              | Inr params \<Rightarrow> (Go rec params, w)))"

definition decide :: "'s env \<Rightarrow> run_config \<Rightarrow> step \<Rightarrow> (step_record \<Rightarrow> ctx) \<Rightarrow> step_record \<Rightarrow> 's run_state \<Rightarrow> exn + decision \<times> 's" where
  "decide env cfg step c rec st =
     (if ru_stop_reason st \<noteq> []
      then Inr (Skip (rec\<lparr>rc_skip_reason := stopped_reason (ru_stop_reason st)\<rparr>), ru_world st)
      else bind_exn (decide_gates cfg (ru_executed st) step c rec) (\<lambda>d.
        case d of
          Go rec2 _ \<Rightarrow> Inr (decide_clock env cfg step c rec2 (ru_world st))
        | _ \<Rightarrow> Inr (d, ru_world st)))"

section \<open>Running a check\<close>

text \<open>The attempts: at most \<open>1 + retries\<close>, again only after a result that timed out. \<open>Inr None\<close> is an interrupt.\<close>

definition timed_out :: "check_result \<Rightarrow> bool" where
  "timed_out r = (cr_status r = NOT_RUN \<and> contains (cr_display r) ''timed out'')"

fun attempts :: "'s env \<Rightarrow> string \<Rightarrow> pydict \<Rightarrow> nat \<Rightarrow> nat \<Rightarrow> step_record \<Rightarrow> 's \<Rightarrow> (exn + step_record \<times> check_result option) \<times> 's" where
  "attempts env chk params left k rec w =
     (case en_run env chk params (0 < k) w of (r, w') \<Rightarrow>
        let rec1 = rec\<lparr>rc_attempts := Suc k\<rparr>
        in case r of
             Inl KeyboardInterrupt \<Rightarrow> (Inr (rec1, None), w')
           | Inl e \<Rightarrow> (Inl e, w')
           | Inr result \<Rightarrow>
               (let rec2 = rec1\<lparr>rc_reused := (en_runs env w' = en_runs env w \<and> k = 0)\<rparr>
                in if \<not> timed_out result then (Inr (rec2, Some result), w')
                   else case left of 0 \<Rightarrow> (Inr (rec2, Some result), w')
                        | Suc n \<Rightarrow> attempts env chk params n (Suc k) rec2 w'))"

declare attempts.simps [simp del]

definition default_classify :: "check_result \<Rightarrow> ctx \<Rightarrow> exn + classified" where
  "default_classify r c =
     Inr \<lparr>cl_outcome = (if result_ok r then PASS else Out_UNKNOWN), cl_summary = cr_display r, cl_facts = []\<rparr>"

definition status_word :: "string \<Rightarrow> string" where
  "status_word s =
     (if s = DENIED then ''not permitted'' else if s = NOT_RUN then ''could not run'' else if s = FAILED then ''failed'' else s)"

definition missing_evidence :: "'w check_spec \<Rightarrow> check_result \<Rightarrow> string list" where
  "missing_evidence spec r =
     (if result_ok r then filter (\<lambda>f. dict_get (cr_fields r) f = None) (cs_evidence spec) else [])"

definition unreadable :: classified where
  "unreadable = \<lparr>cl_outcome = Out_UNKNOWN,
     cl_summary = ''the evidence has an unexpected type or value and was not interpreted'', cl_facts = []\<rparr>"

text \<open>The result enters the record: what it carries, then how it is classified.\<close>

definition fill_record :: "bool \<Rightarrow> string \<Rightarrow> rat \<Rightarrow> check_result \<Rightarrow> step_record \<Rightarrow> step_record" where
  "fill_record replay utc seconds r rec =
     rec\<lparr>rc_seconds := seconds, rc_collected_at := Some utc, rc_source := (if replay then ''REPLAY'' else ''LIVE''),
         rc_status := cr_status r, rc_params := map (\<lambda>(k, v). (k, sanitize_text v 253)) (cr_params r),
         rc_command := cr_command r, rc_fields := cr_fields r\<rparr>"

definition classify_record :: "'w check_spec \<Rightarrow> step \<Rightarrow> (step_record \<Rightarrow> ctx) \<Rightarrow> check_result \<Rightarrow> step_record \<Rightarrow> exn + step_record" where
  "classify_record spec step c r rec =
     (let missing = missing_evidence spec r; what = status_word (cr_status r)
      in if missing \<noteq> []
         then Inr (rec\<lparr>rc_outcome := Out_UNKNOWN, rc_summary := ''unexpected evidence shape (missing '' @ join '', '' missing @ '')''\<rparr>)
         else if \<not> result_ok r
         then Inr (rec\<lparr>rc_outcome := Out_UNKNOWN,
                       rc_summary := (if cr_display r \<noteq> [] then what @ '': '' @ cr_display r else what)\<rparr>)
         else bind_exn (caught unreadable ((the_default default_classify (st_classify step)) r (c rec))) (\<lambda>cl.
                Inr (rec\<lparr>rc_outcome := cl_outcome cl, rc_summary := sanitize_text (cl_summary cl) 400, rc_facts := cl_facts cl\<rparr>)))"

definition ask_stop :: "(ctx \<Rightarrow> exn + string option) option \<Rightarrow> ctx \<Rightarrow> exn + string option" where
  "ask_stop f c = (case f of None \<Rightarrow> Inr None | Some g \<Rightarrow> caught None (g c))"

definition commit :: "step_record \<Rightarrow> 's run_state \<Rightarrow> 's run_state" where
  "commit rec st = st\<lparr>ru_records := ru_records st @ [rec]\<rparr>"

definition truthy_reason :: "string option \<Rightarrow> string" where
  "truthy_reason r = the_default [] r"

definition run_check ::
  "'s env \<Rightarrow> 'w check_spec \<Rightarrow> step \<Rightarrow> (step_record \<Rightarrow> ctx) \<Rightarrow> pydict \<Rightarrow> step_record \<Rightarrow> 's run_state \<Rightarrow> exn + string option \<times> 's run_state" where
  "run_check env spec step c params rec st =
     (let st1 = st\<lparr>ru_executed := Suc (ru_executed st)\<rparr>
      in case en_clock env (ru_world st) of (t0, w0) \<Rightarrow>
         case attempts env (st_check step) params (st_retries step) 0 rec w0 of (r, w1) \<Rightarrow>
         bind_exn r (\<lambda>(rec1, result).
           case result of
             None \<Rightarrow>
               Inr (None, commit (rec1\<lparr>rc_skip_reason := stopped_reason ''cancelled by the operator''\<rparr>)
                 (st1\<lparr>ru_world := w1, ru_cancelled := True, ru_stop_reason := ''cancelled by the operator''\<rparr>))
           | Some got \<Rightarrow>
               (case en_clock env w1 of (t1, w2) \<Rightarrow>
                case en_utc env w2 of (utc, w3) \<Rightarrow>
                  let rec2 = fill_record (en_replay env) utc (fl64 (of_int (millis (fsub t1 t0)) / 1000)) got rec1
                  in bind_exn (classify_record spec step c got rec2) (\<lambda>rec3.
                     bind_exn (ask_stop (st_stop step) (c rec3)) (\<lambda>why.
                     bind_exn (ask_stop (st_stop_subject step) (c rec3)) (\<lambda>why_subject.
                       Inr (why_subject, commit rec3
                         (st1\<lparr>ru_world := w3,
                              ru_stop_reason := (if truthy_reason why \<noteq> [] then truthy_reason why else ru_stop_reason st1)\<rparr>))))))))"

definition visit ::
  "'s env \<Rightarrow> 'w check_spec \<Rightarrow> run_config \<Rightarrow> view \<Rightarrow> step \<Rightarrow> step_record \<Rightarrow> 's run_state \<Rightarrow> exn + string option \<times> 's run_state" where
  "visit env spec cfg v step rec st =
     (let c = (\<lambda>r. mk_ctx cfg v (ru_records st @ [r]))
      in bind_exn (decide env cfg step c rec st) (\<lambda>(d, w).
           case d of
             Skip rec' \<Rightarrow> Inr (None, commit rec' (st\<lparr>ru_world := w\<rparr>))
           | StopRun rec' why \<Rightarrow>
               Inr (None, commit (rec'\<lparr>rc_skip_reason := stopped_reason why\<rparr>) (st\<lparr>ru_world := w, ru_stop_reason := why\<rparr>))
           | Go rec' params \<Rightarrow> run_check env spec step c params rec' (st\<lparr>ru_world := w\<rparr>)))"

section \<open>Subjects of a template\<close>

record enumeration =
  en_source :: string
  en_status :: string
  en_subjects :: "string list"
  en_dropped :: "string list"
  en_rejected :: "string list"
  en_reason :: string
  en_budget :: nat
  en_unfinished :: "string list"

definition empty_enum :: "for_each \<Rightarrow> string \<Rightarrow> string \<Rightarrow> enumeration" where
  "empty_enum fe status reason =
     \<lparr>en_source = fe_source fe, en_status = status, en_subjects = [], en_dropped = [], en_rejected = [], en_reason = reason,
      en_budget = fe_max_instances fe, en_unfinished = []\<rparr>"

definition entry_key :: "pyval \<Rightarrow> pyval" where
  "entry_key e = (case e of PDict d \<Rightarrow> the_default PNone (dict_get d ''subject'') | _ \<Rightarrow> e)"

text \<open>The loop over the listed entries: the valid ones by subject, and the rejected names.\<close>

type_synonym subject_state = "(string \<times> pydict) list \<times> string list"

definition subject_step :: "string \<Rightarrow> pyval \<Rightarrow> subject_state \<Rightarrow> exn + subject_state" where
  "subject_step ty e = (\<lambda>(good, rejected).
     bind_exn (validate ty (entry_key e)) (\<lambda>v.
       case v of
         None \<Rightarrow> Inr (good, rejected @ [case entry_key e of PStr s \<Rightarrow> sanitize_text s 120 | _ \<Rightarrow> ''(not a name)''])
       | Some valid \<Rightarrow>
           Inr (if dict_get good valid = None
                then dict_set valid (dict_set ''subject'' (PStr valid) (as_dict e)) good else good, rejected)))"

fun subject_loop :: "string \<Rightarrow> pyval list \<Rightarrow> subject_state \<Rightarrow> exn + subject_state" where
  "subject_loop ty [] st = Inr st"
| "subject_loop ty (e # es) st = bind_exn (subject_step ty e st) (subject_loop ty es)"

definition enum_reasons :: "for_each \<Rightarrow> ctx \<Rightarrow> string list \<Rightarrow> string list \<Rightarrow> string list" where
  "enum_reasons fe c dropped rejected =
     (if dropped \<noteq> [] then [show_nat (length dropped) @ '' subject(s) not investigated: the budget is '' @ show_nat (fe_max_instances fe)] else [])
     @ (if rejected \<noteq> [] then [show_nat (length rejected) @ '' listed subject(s) have a name that does not validate''] else [])
     @ (case fe_complete_fact fe of None \<Rightarrow> []
        | Some ref \<Rightarrow> if cx_fact c ref PNone \<noteq> PBool True then [''the source did not establish that it read the whole list''] else [])"

text \<open>The subjects in order, the ones within the budget, and what the enumeration says of the others.\<close>

definition settle_subjects :: "for_each \<Rightarrow> ctx \<Rightarrow> subject_state \<Rightarrow> (string \<times> pydict) list \<times> enumeration" where
  "settle_subjects fe c = (\<lambda>(good, rejected).
     let ordered = sort (dict_keys good);
         kept = take (fe_max_instances fe) ordered; dropped = drop (fe_max_instances fe) ordered;
         reasons = enum_reasons fe c dropped rejected
     in (map (\<lambda>k. (k, the_default [] (dict_get good k))) kept,
         (empty_enum fe (if reasons \<noteq> [] then ''PARTIAL'' else ''COMPLETE'') (join ''; '' reasons))
           \<lparr>en_subjects := kept, en_dropped := dropped, en_rejected := rejected\<rparr>))"

definition subjects_of :: "for_each \<Rightarrow> ctx \<Rightarrow> exn + (string \<times> pydict) list \<times> enumeration" where
  "subjects_of fe c =
     (let outc = cx_outcome c (ref_step (fe_source fe)); raw = cx_fact c (fe_source fe) PNone
      in if outc = None \<or> outc = Some SKIPPED
         then Inr ([], empty_enum fe ''NOT_ASKED'' ''the step that lists the subjects did not run'')
         else if (outc \<noteq> Some PASS \<and> outc \<noteq> Some WARN) \<or> as_list raw = None
         then Inr ([], empty_enum fe ''FAILED'' ''the list of subjects could not be established'')
         else bind_exn (subject_loop (fe_subject_type fe) (take 1000 (the_default [] (as_list raw))) ([], []))
                (\<lambda>found. Inr (settle_subjects fe c found)))"

section \<open>The run\<close>

definition new_record :: "step \<Rightarrow> 'w check_spec \<Rightarrow> string \<Rightarrow> string option \<Rightarrow> string option \<Rightarrow> string option \<Rightarrow> step_record" where
  "new_record step spec sid subject template base =
     \<lparr>rc_step_id = sid, rc_capability = st_capability step, rc_check = st_check step, rc_title = st_title step,
      rc_why = st_why step, rc_outcome = SKIPPED, rc_summary = [], rc_selected_because = [], rc_skip_reason = [],
      rc_params = [], rc_command = [], rc_seconds = 0, rc_collected_at = None, rc_source = [], rc_status = [],
      rc_reused = False, rc_side_effects = cs_side_effects spec, rc_privilege = cs_privilege spec, rc_facts = [],
      rc_fields = [], rc_attempts = 0, rc_blocked_by = None, rc_subject = subject, rc_template = template,
      rc_base_step = base\<rparr>"

text \<open>The steps of one subject: its stop reason, whether it is unfinished, its start.\<close>

record subject_run =
  sr_stop :: string
  sr_unfinished :: bool
  sr_start :: rat

definition only_this :: "string \<Rightarrow> string" where "only_this why = stopped_reason why @ '' (this subject only)''"

definition slice_used :: "'s env \<Rightarrow> for_each \<Rightarrow> subject_run \<Rightarrow> 's run_state \<Rightarrow> bool \<times> 's run_state" where
  "slice_used env fe sr st =
     (case fe_subject_seconds fe of
        None \<Rightarrow> (False, st)
      | Some limit \<Rightarrow>
          if sr_stop sr \<noteq> [] then (False, st)
          else (case en_clock env (ru_world st) of (now, w) \<Rightarrow> (fsub now (sr_start sr) > limit, st\<lparr>ru_world := w\<rparr>)))"

definition subject_visit ::
  "'s env \<Rightarrow> 'w check_spec \<Rightarrow> run_config \<Rightarrow> for_each \<Rightarrow> view \<Rightarrow> step \<Rightarrow> step_record \<Rightarrow> subject_run \<Rightarrow> 's run_state \<Rightarrow>
   exn + subject_run \<times> 's run_state" where
  "subject_visit env spec cfg fe v step rec sr st =
     (case slice_used env fe sr st of (used, st1) \<Rightarrow>
      if used
      then (let why = ''its time slice of '' @ fmt0 (the_default 0 (fe_subject_seconds fe)) @ '' s is used up''
            in Inr (sr\<lparr>sr_stop := why, sr_unfinished := True\<rparr>, commit (rec\<lparr>rc_skip_reason := only_this why\<rparr>) st1))
      else if sr_stop sr \<noteq> []
      then Inr (sr, commit (rec\<lparr>rc_skip_reason := (if sr_unfinished sr then only_this (sr_stop sr)
                                 else ''not needed: stopped for this subject: '' @ sr_stop sr)\<rparr>) st1)
      else bind_exn (visit env spec cfg v step rec st1) (\<lambda>(why, st2).
             let reason = truthy_reason why
             in Inr (sr\<lparr>sr_stop := (if reason \<noteq> [] then sanitize_text reason 300 else sr_stop sr),
                       sr_unfinished := (sr_unfinished sr \<or> starts_with (rc_skip_reason (last (ru_records st2))) ''stopped:'')\<rparr>, st2)))"

fun subject_steps ::
  "'s env \<Rightarrow> 'w registry \<Rightarrow> run_config \<Rightarrow> for_each \<Rightarrow> view \<Rightarrow> string \<Rightarrow> step list \<Rightarrow> subject_run \<Rightarrow> 's run_state \<Rightarrow>
   exn + subject_run \<times> 's run_state" where
  "subject_steps env reg cfg fe v subject [] sr st = Inr (sr, st)"
| "subject_steps env reg cfg fe v subject (step # steps) sr st =
     (case dict_get reg (st_check step) of
        None \<Rightarrow> Inl KeyError
      | Some spec \<Rightarrow>
          bind_exn (subject_visit env spec cfg fe v step
              (new_record step spec (st_step_id step @ ''@'' @ subject) (Some subject) (Some (fe_template_id fe)) (Some (st_step_id step)))
              sr st)
            (\<lambda>(sr', st'). subject_steps env reg cfg fe v subject steps sr' st'))"

fun template_subjects ::
  "'s env \<Rightarrow> 'w registry \<Rightarrow> run_config \<Rightarrow> for_each \<Rightarrow> (string \<times> pydict) list \<Rightarrow> string list \<Rightarrow> 's run_state \<Rightarrow>
   exn + string list \<times> 's run_state" where
  "template_subjects env reg cfg fe [] unfinished st = Inr (unfinished, st)"
| "template_subjects env reg cfg fe ((subject, item) # subs) unfinished st =
     (case en_clock env (ru_world st) of (t0, w) \<Rightarrow>
        bind_exn (subject_steps env reg cfg fe
            \<lparr>vw_subject = Some subject, vw_item = item, vw_local = map st_step_id (fe_steps fe)\<rparr> subject (fe_steps fe)
            \<lparr>sr_stop = [], sr_unfinished = False, sr_start = t0\<rparr> (st\<lparr>ru_world := w\<rparr>))
          (\<lambda>(sr, st'). template_subjects env reg cfg fe subs (if sr_unfinished sr then unfinished @ [subject] else unfinished) st'))"

definition finish_enum :: "enumeration \<Rightarrow> string list \<Rightarrow> enumeration" where
  "finish_enum e unfinished =
     (if unfinished \<noteq> []
      then e\<lparr>en_status := ''PARTIAL'', en_unfinished := unfinished,
             en_reason := join ''; '' (filter (\<lambda>x. x \<noteq> [])
               [en_reason e, ''the run stopped before '' @ show_nat (length unfinished) @ '' subject(s) were fully investigated''])\<rparr>
      else e)"

definition template_start :: "run_config \<Rightarrow> for_each \<Rightarrow> 's run_state \<Rightarrow> exn + (string \<times> pydict) list \<times> enumeration" where
  "template_start cfg fe st =
     (if ru_stop_reason st \<noteq> [] then Inr ([], empty_enum fe ''NOT_ASKED'' (stopped_reason (ru_stop_reason st)))
      else subjects_of fe (mk_ctx cfg plan_view (ru_records st)))"

type_synonym enums = "(string \<times> enumeration) list"

fun run_items :: "'s env \<Rightarrow> 'w registry \<Rightarrow> run_config \<Rightarrow> plan_item list \<Rightarrow> enums \<Rightarrow> 's run_state \<Rightarrow> exn + enums \<times> 's run_state" where
  "run_items env reg cfg [] enums st = Inr (enums, st)"
| "run_items env reg cfg (PForEach fe # items) enums st =
     bind_exn (template_start cfg fe st) (\<lambda>(subs, e).
     bind_exn (template_subjects env reg cfg fe subs [] st) (\<lambda>(unfinished, st').
     run_items env reg cfg items (dict_set (fe_template_id fe) (finish_enum e unfinished) enums) st'))"
| "run_items env reg cfg (PStep step # items) enums st =
     (case dict_get reg (st_check step) of
        None \<Rightarrow> Inl KeyError
      | Some spec \<Rightarrow>
          bind_exn (visit env spec cfg plan_view step (new_record step spec (st_step_id step) None None None) st)
            (\<lambda>(why, st'). run_items env reg cfg items enums st'))"

record trace =
  tr_records :: "step_record list"
  tr_stop_reason :: string
  tr_started_at :: string
  tr_seconds :: rat
  tr_max_steps :: nat
  tr_max_wall_seconds :: rat
  tr_checks_run :: nat
  tr_checks_reused :: nat
  tr_cancelled :: bool
  tr_enumerations :: enums

definition run_plan ::
  "'s env \<Rightarrow> 'w registry \<Rightarrow> plan_item list \<Rightarrow> pydict \<Rightarrow> bool \<Rightarrow> rat \<Rightarrow> nat \<Rightarrow> string \<Rightarrow> 's \<Rightarrow> exn + trace \<times> 's" where
  "run_plan env reg plan inputs is_root max_seconds max_steps hint w0 =
     bind_exn (validate_plan plan reg) (\<lambda>_.
       case en_clock env w0 of (t0, w1) \<Rightarrow>
       case en_utc env w1 of (started, w2) \<Rightarrow>
         let cfg = \<lparr>rg_max_seconds = max_seconds, rg_max_steps = min max_steps HARD_MAX_STEPS, rg_start = t0,
                    rg_is_root = is_root, rg_privilege_hint = hint, rg_inputs = inputs\<rparr>
         in bind_exn (run_items env reg cfg plan []
               \<lparr>ru_world = w2, ru_executed = 0, ru_stop_reason = [], ru_cancelled = False, ru_records = []\<rparr>) (\<lambda>(enums, st).
            case en_clock env (ru_world st) of (t1, w3) \<Rightarrow>
              Inr (\<lparr>tr_records = ru_records st,
                    tr_stop_reason = (if ru_stop_reason st \<noteq> [] then ru_stop_reason st
                                      else ''every relevant check in the plan was visited''),
                    tr_started_at = started, tr_seconds = fsub t1 t0, tr_max_steps = rg_max_steps cfg,
                    tr_max_wall_seconds = max_seconds, tr_checks_run = en_runs env w3 - en_runs env w2,
                    tr_checks_reused = length (filter rc_reused (ru_records st)), tr_cancelled = ru_cancelled st,
                    tr_enumerations = enums\<rparr>, w3)))"

section \<open>Reading a trace\<close>

definition trace_get :: "trace \<Rightarrow> string \<Rightarrow> string option \<Rightarrow> step_record option" where
  "trace_get t step_id subject =
     (case subject of
        Some s \<Rightarrow> find (\<lambda>r. rc_base_step r = Some step_id \<and> rc_subject r = Some s) (tr_records t)
      | None \<Rightarrow> find (\<lambda>r. rc_step_id r = step_id) (tr_records t))"

definition for_subject :: "trace \<Rightarrow> string \<Rightarrow> step_record list" where
  "for_subject t subject = filter (\<lambda>r. rc_subject r = Some subject) (tr_records t)"

definition skip_kind :: "step_record \<Rightarrow> string" where
  "skip_kind r = fst (partition_char (CHR '':'') (rc_skip_reason r))"

definition skipped_by_reason :: "trace \<Rightarrow> (string \<times> nat) list" where
  "skipped_by_reason t =
     fold (\<lambda>r d. dict_set (skip_kind r) (the_default 0 (dict_get d (skip_kind r)) + 1) d)
       (filter (\<lambda>r. rc_outcome r = SKIPPED) (tr_records t)) []"

definition steps_run :: "trace \<Rightarrow> nat" where
  "steps_run t = length (filter (\<lambda>r. rc_outcome r \<noteq> SKIPPED) (tr_records t))"

section \<open>The planner as a state machine\<close>

text \<open>
  What a run does, step by step, without the code of gates and classifiers: it appends one record at a time, and
  each record is either skipped or the result of a check that was justified by the records before it.
\<close>

record machine =
  mc_records :: "step_record list"
  mc_executed :: nat
  mc_stopped :: bool
  mc_runs :: nat

definition skipped :: "step_record \<Rightarrow> bool" where
  "skipped r = (rc_attempts r = 0 \<and> rc_outcome r = SKIPPED \<and> rc_status r = [])"

text \<open>A verdict rests on an OK result that carries all the evidence its check promises.\<close>

definition trusted :: "'w registry \<Rightarrow> step_record \<Rightarrow> bool" where
  "trusted reg r =
     (if rc_outcome r \<in> {PASS, WARN, FAIL}
      then rc_status r = OK \<and>
        (case dict_get reg (rc_check r) of None \<Rightarrow> False
         | Some spec \<Rightarrow> list_all (\<lambda>f. f \<in> set (dict_keys (rc_fields r))) (cs_evidence spec))
      else True)"

text \<open>The record of a step under a view: an instance carries its subject.\<close>

definition instance_id :: "view \<Rightarrow> string \<Rightarrow> string" where
  "instance_id v step_id = (case vw_subject v of None \<Rightarrow> step_id | Some s \<Rightarrow> step_id @ ''@'' @ s)"

definition view_key :: "view \<Rightarrow> string \<Rightarrow> string" where
  "view_key v step_id = (if step_id \<in> set (vw_local v) then instance_id v step_id else step_id)"

text \<open>The views of a plan: the plan's own, and for each template one per subject.\<close>

definition view_of_step :: "plan_item list \<Rightarrow> view \<Rightarrow> step \<Rightarrow> bool" where
  "view_of_step plan v s =
     (case vw_subject v of
        None \<Rightarrow> PStep s \<in> set plan \<and> vw_local v = []
      | Some subject \<Rightarrow> \<exists>fe. PForEach fe \<in> set plan \<and> s \<in> set (fe_steps fe) \<and> vw_local v = map st_step_id (fe_steps fe))"

text \<open>A check was allowed to run: every step it requires has an accepted outcome before it (a template's own steps
  those of the same subject), and a step that needs root ran as root.\<close>

definition justified :: "plan_item list \<Rightarrow> bool \<Rightarrow> step_record list \<Rightarrow> step_record \<Rightarrow> bool" where
  "justified plan is_root before r =
     (\<exists>s v. view_of_step plan v s \<and> rc_check r = st_check s \<and> rc_step_id r = instance_id v (st_step_id s)
        \<and> rc_subject r = vw_subject v \<and> (st_needs_root s \<longrightarrow> is_root)
        \<and> (\<forall>q \<in> set (st_requires s). \<exists>r' \<in> set before. rc_step_id r' = view_key v (rq_step q) \<and> rc_outcome r' \<in> set (rq_accept q)))"

inductive machine_step :: "nat \<Rightarrow> 'w registry \<Rightarrow> plan_item list \<Rightarrow> bool \<Rightarrow> machine \<Rightarrow> machine \<Rightarrow> bool"
  for bnd reg plan is_root where
  skip: "skipped r \<Longrightarrow> (mc_stopped m \<longrightarrow> stopped') \<Longrightarrow>
     machine_step bnd reg plan is_root m (m\<lparr>mc_records := mc_records m @ [r], mc_stopped := stopped'\<rparr>)"
| execute: "\<not> mc_stopped m \<Longrightarrow> mc_executed m < bnd \<Longrightarrow> 0 < rc_attempts r \<Longrightarrow> rc_attempts r \<le> Suc MAX_RETRIES \<Longrightarrow>
     justified plan is_root (mc_records m) r \<Longrightarrow> trusted reg r \<Longrightarrow> mc_runs m \<le> n \<Longrightarrow> n \<le> mc_runs m + rc_attempts r \<Longrightarrow>
     machine_step bnd reg plan is_root m
       \<lparr>mc_records = mc_records m @ [r], mc_executed = Suc (mc_executed m), mc_stopped = stopped', mc_runs = n\<rparr>"

inductive_cases machine_stepE: "machine_step bnd reg plan is_root m m'"

definition machine_of :: "'s env \<Rightarrow> 's run_state \<Rightarrow> machine" where
  "machine_of env st =
     \<lparr>mc_records = ru_records st, mc_executed = ru_executed st, mc_stopped = (ru_stop_reason st \<noteq> []),
      mc_runs = en_runs env (ru_world st)\<rparr>"

abbreviation run_machine :: "'s env \<Rightarrow> 'w registry \<Rightarrow> plan_item list \<Rightarrow> run_config \<Rightarrow> 's run_state \<Rightarrow> 's run_state \<Rightarrow> bool" where
  "run_machine env reg plan cfg st st' \<equiv>
     (machine_step (rg_max_steps cfg) reg plan (rg_is_root cfg))\<^sup>*\<^sup>* (machine_of env st) (machine_of env st')"

section \<open>The planner refines the machine\<close>

lemma dict_of_snoc: "dict_of (kvs @ [(k, v)]) = dict_set k v (dict_of kvs)"
  by (simp add: dict_of_def)

lemma records_dict_snoc: "records_dict (rs @ [r]) = dict_set (rc_step_id r) r (records_dict rs)"
  by (simp add: records_dict_def dict_of_snoc)

lemma records_dict_get: "dict_get (records_dict rs) k = Some r \<Longrightarrow> r \<in> set rs \<and> rc_step_id r = k"
proof (induction rs rule: rev_induct)
  case Nil
  then show ?case by (simp add: records_dict_def dict_of_def dict_get_def)
next
  case (snoc x xs)
  then show ?case by (auto simp: records_dict_snoc dict.get_set split: if_splits)
qed

text \<open>What deciding leaves alone in a record.\<close>

definition frame :: "step_record \<Rightarrow> step_record \<Rightarrow> bool" where
  "frame r r' \<longleftrightarrow> rc_step_id r' = rc_step_id r \<and> rc_check r' = rc_check r \<and> rc_attempts r' = rc_attempts r
     \<and> rc_outcome r' = rc_outcome r \<and> rc_status r' = rc_status r \<and> rc_subject r' = rc_subject r
     \<and> rc_template r' = rc_template r \<and> rc_base_step r' = rc_base_step r"

lemma frame_refl [simp]: "frame r r"
  and frame_skip [simp]: "frame r (r'\<lparr>rc_skip_reason := x\<rparr>) = frame r r'"
  and frame_blocked [simp]: "frame r (r'\<lparr>rc_blocked_by := y\<rparr>) = frame r r'"
  and frame_selected [simp]: "frame r (r'\<lparr>rc_selected_because := z\<rparr>) = frame r r'"
  by (simp_all add: frame_def)

lemma when_gate_frame: "when_gate step c rec = Inr (ok, rec') \<Longrightarrow> frame rec rec'"
  by (auto simp: when_gate_def bind_exn_Inr Let_def split: option.splits)

text \<open>The three kinds of decision.\<close>

definition decision_ok :: "run_config \<Rightarrow> nat \<Rightarrow> step \<Rightarrow> bool \<Rightarrow> step_record \<Rightarrow> decision \<Rightarrow> bool" where
  "decision_ok cfg executed step open_run rec d =
     (case d of
        Skip rec' \<Rightarrow> frame rec rec'
      | StopRun rec' why \<Rightarrow> frame rec rec' \<and> why \<noteq> [] \<and> open_run
      | Go rec' ps \<Rightarrow> frame rec rec' \<and> open_run \<and> executed < rg_max_steps cfg \<and> (st_needs_root step \<longrightarrow> rg_is_root cfg))"

lemma budget_decision_ok: "frame rec rec' \<Longrightarrow> decision_ok cfg executed step True rec (budget_decision cfg executed step rec')"
  by (simp add: budget_decision_def decision_ok_def)

lemma decide_gates_ok:
  assumes "decide_gates cfg executed step c rec = Inr d"
  shows "decision_ok cfg executed step True rec d \<and> (\<forall>rec' ps. d = Go rec' ps \<longrightarrow> blocked_by (c rec) step = None)"
proof (cases "blocked_by (c rec) step")
  case (Some b)
  then show ?thesis using assms by (auto simp: decide_gates_def decision_ok_def)
next
  case None
  from assms obtain ok why where a: "applies_gate step (c rec) = Inr (ok, why)"
    unfolding decide_gates_def None by (auto simp: bind_exn_Inr)
  show ?thesis
  proof (cases ok)
    case False
    then show ?thesis using assms None a by (auto simp: decide_gates_def decision_ok_def)
  next
    case True
    with assms None a obtain ok2 rec2 where w: "when_gate step (c rec) rec = Inr (ok2, rec2)"
      and d: "d = (if ok2 then budget_decision cfg executed step rec2 else Skip rec2)"
      by (auto simp: decide_gates_def bind_exn_Inr)
    show ?thesis
      using None d budget_decision_ok [OF when_gate_frame [OF w]] when_gate_frame [OF w] by (simp add: decision_ok_def)
  qed
qed

context check_runner
begin

lemma decide_clock_ok:
  assumes "decide_clock env cfg step c rec w = (d, w')" "decision_ok cfg executed step True rec0 (Go rec ps)"
  shows "en_runs env w' = en_runs env w \<and> decision_ok cfg executed step True rec0 d"
proof -
  obtain now w1 where c: "en_clock env w = (now, w1)" by (cases "en_clock env w")
  then have "en_runs env w1 = en_runs env w" by (rule clock_counts)
  then show ?thesis
    using assms c by (auto simp: decide_clock_def decision_ok_def split: if_splits sum.splits)
qed

lemma decide_ok:
  assumes "decide env cfg step c rec st = Inr (d, w)"
  shows "en_runs env w = en_runs env (ru_world st) \<and> decision_ok cfg (ru_executed st) step (ru_stop_reason st = []) rec d
     \<and> (\<forall>rec' ps. d = Go rec' ps \<longrightarrow> blocked_by (c rec) step = None)"
proof (cases "ru_stop_reason st = []")
  case False
  then show ?thesis using assms by (auto simp: decide_def decision_ok_def)
next
  case True
  then obtain d0 where d0: "decide_gates cfg (ru_executed st) step c rec = Inr d0"
    using assms by (auto simp: decide_def bind_exn_Inr)
  note ok = decide_gates_ok [OF d0]
  show ?thesis
  proof (cases d0)
    case (Go rec2 ps)
    then have "decide_clock env cfg step c rec2 (ru_world st) = (d, w)" using assms True d0 by (simp add: decide_def)
    then show ?thesis using decide_clock_ok ok Go True by fastforce
  qed (use assms True d0 ok in \<open>auto simp: decide_def\<close>)
qed

lemma attempts_ok:
  "attempts env chk params left k rec w = (Inr (rec', out), w') \<Longrightarrow>
     k < rc_attempts rec' \<and> rc_attempts rec' \<le> Suc (k + left)
     \<and> en_runs env w \<le> en_runs env w' \<and> en_runs env w' + k \<le> en_runs env w + rc_attempts rec'
     \<and> rc_step_id rec' = rc_step_id rec \<and> rc_check rec' = rc_check rec \<and> rc_outcome rec' = rc_outcome rec
     \<and> rc_status rec' = rc_status rec \<and> rc_subject rec' = rc_subject rec"
proof (induction left arbitrary: k rec w)
  case 0
  obtain r w1 where r: "en_run env chk params (0 < k) w = (r, w1)" by (cases "en_run env chk params (0 < k) w")
  then have "en_runs env w \<le> en_runs env w1" "en_runs env w1 \<le> Suc (en_runs env w)" using run_counts by blast+
  then show ?case
    using 0 r unfolding attempts.simps [of env chk params 0 k]
    by (auto simp: Let_def split: sum.splits exn.splits if_splits)
next
  case (Suc left)
  obtain r w1 where r: "en_run env chk params (0 < k) w = (r, w1)" by (cases "en_run env chk params (0 < k) w")
  then have c: "en_runs env w \<le> en_runs env w1" "en_runs env w1 \<le> Suc (en_runs env w)" using run_counts by blast+
  let ?rec2 = "rec\<lparr>rc_attempts := Suc k, rc_reused := (en_runs env w1 = en_runs env w \<and> k = 0)\<rparr>"
  have eq: "attempts env chk params (Suc left) k rec w =
      (case r of
         Inl KeyboardInterrupt \<Rightarrow> (Inr (rec\<lparr>rc_attempts := Suc k\<rparr>, None), w1)
       | Inl e \<Rightarrow> (Inl e, w1)
       | Inr got \<Rightarrow> if \<not> timed_out got then (Inr (?rec2, Some got), w1)
                     else attempts env chk params left (Suc k) ?rec2 w1)"
    unfolding attempts.simps [of env chk params "Suc left" k] r by (simp add: Let_def split: sum.splits exn.splits)
  show ?case
  proof (cases "\<exists>got. r = Inr got \<and> timed_out got")
    case True
    then have "attempts env chk params left (Suc k) ?rec2 w1 = (Inr (rec', out), w')" using Suc.prems eq by auto
    from Suc.IH [OF this] show ?thesis using c by auto
  next
    case False
    then show ?thesis using Suc.prems c unfolding eq by (auto split: sum.splits exn.splits if_splits)
  qed
qed

end

text \<open>Facts about a valid plan that the refinement needs.\<close>

lemma ordered_items_checked:
  "ordered_items reg prior items \<Longrightarrow> s \<in> set (plan_steps items) \<Longrightarrow> step_checked reg True s \<or> step_checked reg False s"
  by (induction reg prior items rule: ordered_items.induct) (auto simp: list_all_iff)

lemma wf_plan_step:
  assumes "wf_plan reg plan" "s \<in> set (plan_steps plan)"
  shows "plain_id (st_step_id s)" "st_retries s \<le> MAX_RETRIES"
  using ordered_items_checked [of reg "[]" plan s] assms by (auto simp: wf_plan_def step_checked_def)

lemma wf_plan_dep:
  assumes "wf_plan reg plan" "s \<in> set (plan_steps plan)" "d \<in> set (deps s)"
  shows "plain_id d" "d \<noteq> st_step_id s"
proof -
  have "(d, st_step_id s) \<in> dep_edges plan" using assms by (auto simp: dep_edges_def)
  then show "d \<noteq> st_step_id s" using wf_plan_before [OF assms(1)] by fastforce
  obtain a b where "step_ids plan = a @ st_step_id s # b" "d \<in> set a"
    using ordered_items_before [of reg "[]" plan s d] assms by (auto simp: wf_plan_def)
  then have "d \<in> set (step_ids plan)" by simp
  then obtain t where "t \<in> set (plan_steps plan)" "d = st_step_id t" by (auto simp: step_ids_def)
  then show "plain_id d" using wf_plan_step(1) [OF assms(1)] by blast
qed

lemma view_step_in_plan: "view_of_step plan v s \<Longrightarrow> s \<in> set (plan_steps plan)"
  by (auto simp: view_of_step_def plan_steps_def split: option.splits intro: bexI [rotated])

lemma cx_key_view: "cx_key (mk_ctx cfg v rs) x = view_key v x"
  by (auto simp: cx_key_def mk_ctx_def view_key_def instance_id_def split: option.splits)

lemma cx_records_mk: "cx_records (mk_ctx cfg v rs) = records_dict rs"
  by (simp add: mk_ctx_def)

lemma own_key_differs:
  assumes "wf_plan reg plan" "view_of_step plan v s" "d \<in> set (deps s)"
  shows "view_key v d \<noteq> instance_id v (st_step_id s)"
proof -
  note d = wf_plan_dep [OF assms(1) view_step_in_plan [OF assms(2)] assms(3)]
  show ?thesis
    using d assms(2) by (auto simp: view_key_def instance_id_def view_of_step_def plain_id_def split: option.splits)
qed

lemma unblocked_justified:
  assumes "wf_plan reg plan" "view_of_step plan v s" "rc_step_id rec = instance_id v (st_step_id s)"
    "blocked_by (mk_ctx cfg v (rs @ [rec])) s = None" "q \<in> set (st_requires s)"
  shows "\<exists>r \<in> set rs. rc_step_id r = view_key v (rq_step q) \<and> rc_outcome r \<in> set (rq_accept q)"
proof -
  have "accepted (mk_ctx cfg v (rs @ [rec])) q" using assms(4,5) by (auto simp: blocked_by_def find_None_iff)
  then obtain r where r: "dict_get (records_dict (rs @ [rec])) (view_key v (rq_step q)) = Some r" "rc_outcome r \<in> set (rq_accept q)"
    by (auto simp: accepted_def cx_outcome_def cx_key_view cx_records_mk split: option.splits)
  have "rq_step q \<in> set (deps s)" using assms(5) by (simp add: deps_def)
  then have "view_key v (rq_step q) \<noteq> rc_step_id rec" using own_key_differs [OF assms(1,2)] assms(3) by simp
  then have "dict_get (records_dict rs) (view_key v (rq_step q)) = Some r"
    using r(1) by (simp add: records_dict_snoc dict.get_set)
  then show ?thesis using records_dict_get r(2) by blast
qed

lemma classify_record_ok:
  assumes "classify_record spec step c got rec = Inr rec'"
  shows "rc_step_id rec' = rc_step_id rec" "rc_check rec' = rc_check rec" "rc_subject rec' = rc_subject rec"
    "rc_attempts rec' = rc_attempts rec" "rc_status rec' = rc_status rec" "rc_fields rec' = rc_fields rec"
    "rc_outcome rec' \<in> {PASS, WARN, FAIL} \<Longrightarrow> result_ok got \<and> missing_evidence spec got = []"
  using assms by (auto simp: classify_record_def Let_def bind_exn_Inr split: if_splits)

lemma missing_evidence_none:
  "result_ok got \<Longrightarrow> missing_evidence spec got = [] \<Longrightarrow> list_all (\<lambda>f. f \<in> set (dict_keys (cr_fields got))) (cs_evidence spec)"
  by (auto simp: missing_evidence_def list_all_iff filter_empty_conv dict.get_None_iff)

text \<open>What running a check does to the state: a record is committed, and counted.\<close>

definition executed_step :: "'s env \<Rightarrow> 'w registry \<Rightarrow> step_record \<Rightarrow> 's run_state \<Rightarrow> 's run_state \<Rightarrow> bool" where
  "executed_step env reg rec st st' \<longleftrightarrow>
     (\<exists>r. ru_records st' = ru_records st @ [r] \<and> ru_executed st' = Suc (ru_executed st)
        \<and> 0 < rc_attempts r \<and> rc_attempts r \<le> Suc MAX_RETRIES \<and> trusted reg r
        \<and> rc_step_id r = rc_step_id rec \<and> rc_check r = rc_check rec \<and> rc_subject r = rc_subject rec
        \<and> en_runs env (ru_world st) \<le> en_runs env (ru_world st')
        \<and> en_runs env (ru_world st') \<le> en_runs env (ru_world st) + rc_attempts r)"

context check_runner
begin

lemma run_check_ok:
  assumes run: "run_check env spec step c params rec st = Inr (why, st')"
    and fresh: "skipped rec" and bound: "st_retries step \<le> MAX_RETRIES"
    and spec: "dict_get reg (rc_check rec) = Some spec"
  shows "executed_step env reg rec st st'"
proof -
  obtain t0 w0 where c0: "en_clock env (ru_world st) = (t0, w0)" by (cases "en_clock env (ru_world st)")
  obtain r w1 where a: "attempts env (st_check step) params (st_retries step) 0 rec w0 = (r, w1)"
    by (cases "attempts env (st_check step) params (st_retries step) 0 rec w0")
  from run obtain rec1 result where r: "r = Inr (rec1, result)"
    unfolding run_check_def Let_def c0 prod.case a by (auto simp: bind_exn_Inr)
  note at = attempts_ok [OF a [unfolded r]]
  have runs0: "en_runs env w0 = en_runs env (ru_world st)" by (rule clock_counts [OF c0])
  show ?thesis
  proof (cases result)
    case None
    then show ?thesis
      using run at runs0 fresh bound unfolding run_check_def Let_def c0 prod.case a r
      by (auto simp: executed_step_def commit_def trusted_def skipped_def)
  next
    case (Some got)
    obtain t1 w2 where c1: "en_clock env w1 = (t1, w2)" by (cases "en_clock env w1")
    obtain utc w3 where u: "en_utc env w2 = (utc, w3)" by (cases "en_utc env w2")
    have runs3: "en_runs env w3 = en_runs env w1" using clock_counts [OF c1] utc_counts [OF u] by simp
    let ?rec2 = "fill_record (en_replay env) utc (fl64 (of_int (millis (fsub t1 t0)) / 1000)) got rec1"
    from run Some obtain rec3 stop where cl: "classify_record spec step c got ?rec2 = Inr rec3"
      and st': "ru_records st' = ru_records st @ [rec3]" "ru_executed st' = Suc (ru_executed st)" "ru_world st' = w3"
      unfolding run_check_def Let_def c0 prod.case a r c1 u by (auto simp: bind_exn_Inr commit_def c1 u)
    note ok = classify_record_ok [OF cl]
    have "trusted reg rec3"
      using ok missing_evidence_none [of got spec] spec at
      by (auto simp: trusted_def fill_record_def result_ok_def)
    then show ?thesis
      using st' ok at runs0 runs3 bound by (auto simp: executed_step_def fill_record_def intro!: exI [of _ rec3])
  qed
qed

lemma visit_refines:
  assumes v: "visit env spec cfg v step rec st = Inr (why, st')"
    and wf: "wf_plan reg plan" and view: "view_of_step plan v step" and fresh: "skipped rec"
    and rec: "rc_step_id rec = instance_id v (st_step_id step)" "rc_check rec = st_check step" "rc_subject rec = vw_subject v"
    and spec: "dict_get reg (st_check step) = Some spec"
  shows "machine_step (rg_max_steps cfg) reg plan (rg_is_root cfg) (machine_of env st) (machine_of env st')"
    "map rc_step_id (ru_records st') = map rc_step_id (ru_records st) @ [rc_step_id rec]"
proof -
  let ?c = "\<lambda>r. mk_ctx cfg v (ru_records st @ [r])"
  from v obtain d w where d: "decide env cfg step ?c rec st = Inr (d, w)"
    unfolding visit_def Let_def by (auto simp: bind_exn_Inr)
  note ok = decide_ok [OF d]
  have "machine_step (rg_max_steps cfg) reg plan (rg_is_root cfg) (machine_of env st) (machine_of env st')
     \<and> map rc_step_id (ru_records st') = map rc_step_id (ru_records st) @ [rc_step_id rec]"
  proof (cases d)
    case (Skip r)
    then have st': "st' = commit r (st\<lparr>ru_world := w\<rparr>)" using v d by (simp add: visit_def Let_def)
    have "skipped r" "rc_step_id r = rc_step_id rec" using ok fresh Skip by (auto simp: decision_ok_def frame_def skipped_def)
    moreover have "machine_of env st' = (machine_of env st)\<lparr>mc_records := mc_records (machine_of env st) @ [r],
        mc_stopped := mc_stopped (machine_of env st)\<rparr>"
      using ok by (simp add: st' machine_of_def commit_def)
    ultimately show ?thesis
      using machine_step.skip [of r "machine_of env st" "mc_stopped (machine_of env st)" "rg_max_steps cfg" reg plan "rg_is_root cfg"]
      by (simp add: st' commit_def)
  next
    case (StopRun r reason)
    let ?r = "r\<lparr>rc_skip_reason := stopped_reason reason\<rparr>"
    have st': "st' = commit ?r (st\<lparr>ru_world := w, ru_stop_reason := reason\<rparr>)"
      using v d StopRun by (simp add: visit_def Let_def)
    have "skipped ?r" "rc_step_id r = rc_step_id rec"
      using ok fresh StopRun by (auto simp: decision_ok_def frame_def skipped_def)
    moreover have "machine_of env st' = (machine_of env st)\<lparr>mc_records := mc_records (machine_of env st) @ [?r], mc_stopped := True\<rparr>"
      using ok StopRun by (simp add: st' machine_of_def commit_def decision_ok_def)
    ultimately show ?thesis by (simp add: machine_step.skip st' commit_def)
  next
    case (Go r params)
    have run: "run_check env spec step ?c params r (st\<lparr>ru_world := w\<rparr>) = Inr (why, st')"
      using v d Go by (simp add: visit_def Let_def)
    have r: "frame rec r" "ru_stop_reason st = []" "ru_executed st < rg_max_steps cfg" "st_needs_root step \<longrightarrow> rg_is_root cfg"
      "blocked_by (?c rec) step = None" using ok Go by (auto simp: decision_ok_def)
    have "skipped r" using r(1) fresh by (simp add: frame_def skipped_def)
    moreover have "dict_get reg (rc_check r) = Some spec" using r(1) rec(2) spec by (simp add: frame_def)
    ultimately have "executed_step env reg r (st\<lparr>ru_world := w\<rparr>) st'"
      using run_check_ok [OF run] wf_plan_step(2) [OF wf view_step_in_plan [OF view]] by blast
    then obtain r' where r': "ru_records st' = ru_records st @ [r']" "ru_executed st' = Suc (ru_executed st)"
        "0 < rc_attempts r'" "rc_attempts r' \<le> Suc MAX_RETRIES" "trusted reg r'" "rc_step_id r' = rc_step_id rec"
        "rc_check r' = st_check step" "rc_subject r' = vw_subject v"
        "en_runs env (ru_world st) \<le> en_runs env (ru_world st')"
        "en_runs env (ru_world st') \<le> en_runs env (ru_world st) + rc_attempts r'"
      using r(1) rec ok by (auto simp: executed_step_def frame_def)
    have "justified plan (rg_is_root cfg) (ru_records st) r'"
      unfolding justified_def using r' rec view r(4) unblocked_justified [OF wf view rec(1) r(5)] by auto
    then have "machine_step (rg_max_steps cfg) reg plan (rg_is_root cfg) (machine_of env st)
        \<lparr>mc_records = mc_records (machine_of env st) @ [r'], mc_executed = Suc (mc_executed (machine_of env st)),
         mc_stopped = (ru_stop_reason st' \<noteq> []), mc_runs = en_runs env (ru_world st')\<rparr>"
      using r r' by (intro machine_step.execute) (simp_all add: machine_of_def)
    then show ?thesis using r' by (simp add: machine_of_def)
  qed
  then show "machine_step (rg_max_steps cfg) reg plan (rg_is_root cfg) (machine_of env st) (machine_of env st')"
    "map rc_step_id (ru_records st') = map rc_step_id (ru_records st) @ [rc_step_id rec]" by simp_all
qed

lemma slice_used_ok:
  assumes "slice_used env fe sr st = (used, st1)"
  shows "ru_records st1 = ru_records st" "machine_of env st1 = machine_of env st"
  using assms by (auto simp: slice_used_def machine_of_def split: option.splits if_splits prod.splits dest: clock_counts)

lemma skip_step:
  assumes "skipped r" "ru_records st' = ru_records st @ [r]" "machine_of env st' = (machine_of env st)\<lparr>mc_records := ru_records st'\<rparr>"
  shows "machine_step bnd reg plan rt (machine_of env st) (machine_of env st')"
proof -
  have "machine_of env st' = (machine_of env st)\<lparr>mc_records := mc_records (machine_of env st) @ [r],
      mc_stopped := mc_stopped (machine_of env st)\<rparr>"
    using assms by (simp add: machine_of_def)
  then show ?thesis using machine_step.skip [OF assms(1), of "machine_of env st" "mc_stopped (machine_of env st)"] by simp
qed

lemma subject_visit_refines:
  assumes sv: "subject_visit env spec cfg fe v step rec sr st = Inr (sr', st')"
    and wf: "wf_plan reg plan" and view: "view_of_step plan v step" and fresh: "skipped rec"
    and rec: "rc_step_id rec = instance_id v (st_step_id step)" "rc_check rec = st_check step" "rc_subject rec = vw_subject v"
    and spec: "dict_get reg (st_check step) = Some spec"
  shows "machine_step (rg_max_steps cfg) reg plan (rg_is_root cfg) (machine_of env st) (machine_of env st')
     \<and> map rc_step_id (ru_records st') = map rc_step_id (ru_records st) @ [rc_step_id rec]"
proof -
  obtain used st1 where s: "slice_used env fe sr st = (used, st1)" by (cases "slice_used env fe sr st")
  note ok = slice_used_ok [OF s]
  have skip: "machine_step (rg_max_steps cfg) reg plan (rg_is_root cfg) (machine_of env st) (machine_of env st')
     \<and> map rc_step_id (ru_records st') = map rc_step_id (ru_records st) @ [rc_step_id rec]"
    if "st' = commit (rec\<lparr>rc_skip_reason := why\<rparr>) st1" for why
  proof -
    have "skipped (rec\<lparr>rc_skip_reason := why\<rparr>)" using fresh by (simp add: skipped_def)
    moreover have "ru_records st' = ru_records st @ [rec\<lparr>rc_skip_reason := why\<rparr>]" using that ok by (simp add: commit_def)
    moreover have "machine_of env st' = (machine_of env st)\<lparr>mc_records := ru_records st'\<rparr>"
      using that ok(2) by (simp add: commit_def machine_of_def)
    ultimately have "machine_step (rg_max_steps cfg) reg plan (rg_is_root cfg) (machine_of env st) (machine_of env st')"
      by (rule skip_step)
    then show ?thesis using that ok(1) by (simp add: commit_def)
  qed
  show ?thesis
  proof (cases "used \<or> sr_stop sr \<noteq> []")
    case True
    then show ?thesis
      using sv skip unfolding subject_visit_def s prod.case Let_def by (cases used) (auto split: if_splits)
  next
    case False
    then obtain why st2 where "visit env spec cfg v step rec st1 = Inr (why, st2)" "st' = st2"
      using sv s by (auto simp: subject_visit_def bind_exn_Inr Let_def)
    then show ?thesis using visit_refines [OF _ wf view fresh rec spec] ok by metis
  qed
qed

lemma subject_steps_refines:
  assumes "wf_plan reg plan" "PForEach fe \<in> set plan" "vw_subject v = Some subject" "vw_local v = map st_step_id (fe_steps fe)"
  shows "subject_steps env reg cfg fe v subject steps sr st = Inr (sr', st') \<Longrightarrow> set steps \<subseteq> set (fe_steps fe) \<Longrightarrow>
     run_machine env reg plan cfg st st'
     \<and> map rc_step_id (ru_records st') = map rc_step_id (ru_records st) @ map (\<lambda>s. st_step_id s @ ''@'' @ subject) steps"
proof (induction steps arbitrary: sr st)
  case (Cons s steps)
  then obtain spec where spec: "dict_get reg (st_check s) = Some spec" by (auto split: option.splits)
  let ?rec = "new_record s spec (st_step_id s @ ''@'' @ subject) (Some subject) (Some (fe_template_id fe)) (Some (st_step_id s))"
  obtain sr1 st1 where v: "subject_visit env spec cfg fe v s ?rec sr st = Inr (sr1, st1)"
      "subject_steps env reg cfg fe v subject steps sr1 st1 = Inr (sr', st')"
    using Cons.prems(1) spec by (auto simp: bind_exn_Inr)
  have view: "view_of_step plan v s" using assms Cons.prems(2) by (auto simp: view_of_step_def)
  have "skipped ?rec" "rc_step_id ?rec = instance_id v (st_step_id s)" "rc_check ?rec = st_check s" "rc_subject ?rec = vw_subject v"
    by (simp_all add: new_record_def skipped_def instance_id_def assms(3))
  note one = subject_visit_refines [OF v(1) assms(1) view this spec]
  have "run_machine env reg plan cfg st1 st'
     \<and> map rc_step_id (ru_records st') = map rc_step_id (ru_records st1) @ map (\<lambda>s. st_step_id s @ ''@'' @ subject) steps"
    using Cons.IH [OF v(2)] Cons.prems(2) by simp
  then show ?case using one by (auto simp: new_record_def intro: converse_rtranclp_into_rtranclp)
qed simp

lemma machine_of_world: "en_clock env (ru_world st) = (t, w) \<Longrightarrow> machine_of env (st\<lparr>ru_world := w\<rparr>) = machine_of env st"
  by (auto simp: machine_of_def dest: clock_counts)

lemma template_subjects_refines:
  assumes "wf_plan reg plan" "PForEach fe \<in> set plan"
  shows "template_subjects env reg cfg fe subs unf st = Inr (unf', st') \<Longrightarrow>
     run_machine env reg plan cfg st st'
     \<and> map rc_step_id (ru_records st') = map rc_step_id (ru_records st)
         @ concat (map (\<lambda>x. map (\<lambda>s. st_step_id s @ ''@'' @ x) (fe_steps fe)) (map fst subs))"
proof (induction subs arbitrary: unf st)
  case (Cons sub subs)
  obtain subject item where sub: "sub = (subject, item)" by (cases sub)
  obtain t0 w where c: "en_clock env (ru_world st) = (t0, w)" by (cases "en_clock env (ru_world st)")
  let ?v = "\<lparr>vw_subject = Some subject, vw_item = item, vw_local = map st_step_id (fe_steps fe)\<rparr>"
  obtain sr st1 where s: "subject_steps env reg cfg fe ?v subject (fe_steps fe) \<lparr>sr_stop = [], sr_unfinished = False, sr_start = t0\<rparr>
        (st\<lparr>ru_world := w\<rparr>) = Inr (sr, st1)"
      "template_subjects env reg cfg fe subs (if sr_unfinished sr then unf @ [subject] else unf) st1 = Inr (unf', st')"
    using Cons.prems c by (auto simp: sub bind_exn_Inr)
  have "run_machine env reg plan cfg (st\<lparr>ru_world := w\<rparr>) st1
     \<and> map rc_step_id (ru_records st1) = map rc_step_id (ru_records (st\<lparr>ru_world := w\<rparr>))
         @ map (\<lambda>s. st_step_id s @ ''@'' @ subject) (fe_steps fe)"
    using subject_steps_refines [OF assms, where v = ?v and subject = subject] s(1) by simp
  then show ?case using Cons.IH [OF s(2)] machine_of_world [OF c] by (auto simp: sub intro: rtranclp_trans)
qed simp

end

end
