(* ===== verification/PlanRun.thy ===== *)
theory PlanRun
  imports Planner
begin

text \<open>
  What every run of a plan promises: one record per step and instance, verdicts that rest on complete evidence and
  on the outcomes they require, and the budgets.
\<close>

section \<open>The records of a run\<close>

text \<open>One record per plan step, and one per step and subject of a template, in the order of the plan.\<close>

definition instance_ids :: "for_each \<Rightarrow> string list \<Rightarrow> string list" where
  "instance_ids fe subjects = concat (map (\<lambda>x. map (\<lambda>s. st_step_id s @ ''@'' @ x) (fe_steps fe)) subjects)"

definition subjects_in :: "enums \<Rightarrow> for_each \<Rightarrow> string list" where
  "subjects_in enums fe = (case dict_get enums (fe_template_id fe) of None \<Rightarrow> [] | Some e \<Rightarrow> en_subjects e)"

fun expected_ids :: "enums \<Rightarrow> plan_item list \<Rightarrow> string list" where
  "expected_ids enums [] = []"
| "expected_ids enums (PForEach fe # items) = instance_ids fe (subjects_in enums fe) @ expected_ids enums items"
| "expected_ids enums (PStep s # items) = st_step_id s # expected_ids enums items"

text \<open>What an enumeration promises: its subjects are valid names, sorted, within the budget; COMPLETE means nothing
  was left out.\<close>

definition enum_ok :: "for_each \<Rightarrow> enumeration \<Rightarrow> bool" where
  "enum_ok fe e \<longleftrightarrow>
     en_status e \<in> {''COMPLETE'', ''PARTIAL'', ''NOT_ASKED'', ''FAILED''}
     \<and> en_source e = fe_source fe \<and> length (en_subjects e) \<le> fe_max_instances fe
     \<and> sorted (en_subjects e) \<and> distinct (en_subjects e)
     \<and> list_all (\<lambda>s. validate (fe_subject_type fe) (PStr s) = Inr (Some s)) (en_subjects e)
     \<and> (en_status e = ''COMPLETE'' \<longrightarrow> en_dropped e = [] \<and> en_rejected e = [] \<and> en_unfinished e = [])
     \<and> (en_status e \<in> {''NOT_ASKED'', ''FAILED''} \<longrightarrow> en_subjects e = [])"

lemma validate_idem: "validate ty v = Inr (Some s) \<Longrightarrow> validate ty (PStr s) = Inr (Some s)"
proof -
  assume v: "validate ty v = Inr (Some s)"
  then obtain fn where fn: "map_of VALIDATORS ty = Some fn" "fn v = Inr (Some s)"
    by (auto simp: validate_def split: option.splits)
  then have "canonical fn" using validators_canonical map_of_SomeD [OF fn(1)] by (auto simp: list_all_iff)
  then show ?thesis using fn by (auto simp: canonical_def validate_def)
qed

definition good_subjects :: "string \<Rightarrow> (string \<times> pydict) list \<Rightarrow> bool" where
  "good_subjects ty good \<longleftrightarrow> distinct (dict_keys good)
     \<and> list_all (\<lambda>s. validate ty (PStr s) = Inr (Some s)) (dict_keys good)"

lemma subject_step_good:
  assumes "subject_step ty e (good, rej) = Inr (good', rej')" "good_subjects ty good"
  shows "good_subjects ty good'"
proof -
  obtain v where v: "validate ty (entry_key e) = Inr v" using assms(1) by (auto simp: subject_step_def bind_exn_Inr)
  show ?thesis
  proof (cases v)
    case None
    then show ?thesis using assms v by (simp add: subject_step_def)
  next
    case (Some s)
    then show ?thesis
      using assms v validate_idem [of ty "entry_key e" s]
      by (auto simp: subject_step_def good_subjects_def dict.keys_set dict.get_None_iff split: if_splits)
  qed
qed

lemma subject_loop_good:
  "subject_loop ty es (good, rej) = Inr (good', rej') \<Longrightarrow> good_subjects ty good \<Longrightarrow> good_subjects ty good'"
proof (induction es arbitrary: good rej)
  case (Cons e es)
  then obtain g r where s: "subject_step ty e (good, rej) = Inr (g, r)" "subject_loop ty es (g, r) = Inr (good', rej')"
    by (auto simp: bind_exn_Inr)
  then show ?case using Cons.IH subject_step_good Cons.prems(2) by blast
qed simp

lemma enum_reasons_none: "enum_reasons fe c d r = [] \<Longrightarrow> d = [] \<and> r = []"
  by (auto simp: enum_reasons_def split: if_splits)

lemma settle_subjects_ok:
  assumes good: "good_subjects (fe_subject_type fe) good" and settle: "settle_subjects fe c (good, rej) = (subs, e)"
  shows "enum_ok fe e \<and> map fst subs = en_subjects e"
proof -
  define kept where "kept = take (fe_max_instances fe) (sort (dict_keys good))"
  define dropped where "dropped = drop (fe_max_instances fe) (sort (dict_keys good))"
  define reasons where "reasons = enum_reasons fe c dropped rej"
  have subs: "subs = map (\<lambda>k. (k, the_default [] (dict_get good k))) kept"
    and e: "e = (empty_enum fe (if reasons \<noteq> [] then ''PARTIAL'' else ''COMPLETE'') (join ''; '' reasons))
           \<lparr>en_subjects := kept, en_dropped := dropped, en_rejected := rej\<rparr>"
    using settle by (simp_all add: settle_subjects_def Let_def kept_def dropped_def reasons_def)
  have "set kept \<subseteq> set (dict_keys good)" using set_take_subset by (fastforce simp: kept_def)
  then have "list_all (\<lambda>s. validate (fe_subject_type fe) (PStr s) = Inr (Some s)) kept"
    using good by (auto simp: good_subjects_def list_all_iff)
  moreover have "sorted kept" "distinct kept" "length kept \<le> fe_max_instances fe"
    using good by (simp_all add: kept_def sorted_wrt_take good_subjects_def)
  moreover have "reasons = [] \<longrightarrow> dropped = [] \<and> rej = []" using enum_reasons_none [of fe c dropped rej] by (simp add: reasons_def)
  moreover have "map fst subs = kept" by (simp add: subs comp_def)
  ultimately show ?thesis by (simp add: e enum_ok_def empty_enum_def)
qed

lemma subjects_of_ok:
  assumes "subjects_of fe c = Inr (subs, e)"
  shows "enum_ok fe e \<and> map fst subs = en_subjects e"
proof (cases "\<exists>good rej. settle_subjects fe c (good, rej) = (subs, e) \<and> good_subjects (fe_subject_type fe) good")
  case True
  then show ?thesis using settle_subjects_ok by blast
next
  case False
  have start: "good_subjects (fe_subject_type fe) []" by (simp add: good_subjects_def dict_keys_def)
  then have "\<nexists>found. subject_loop (fe_subject_type fe) (take 1000 (the_default [] (as_list (cx_fact c (fe_source fe) PNone)))) ([], []) = Inr found
      \<and> settle_subjects fe c found = (subs, e)"
    using False subject_loop_good [OF _ start] by (metis surj_pair)
  then have "e = empty_enum fe ''NOT_ASKED'' ''the step that lists the subjects did not run'' \<and> subs = []
        \<or> e = empty_enum fe ''FAILED'' ''the list of subjects could not be established'' \<and> subs = []"
    using assms by (auto simp: subjects_of_def Let_def bind_exn_Inr split: if_splits)
  then show ?thesis by (auto simp: empty_enum_def enum_ok_def)
qed


lemma template_start_ok:
  assumes "template_start cfg fe st = Inr (subs, e)"
  shows "enum_ok fe e \<and> map fst subs = en_subjects e"
  using assms subjects_of_ok
  by (auto simp: template_start_def enum_ok_def empty_enum_def split: if_splits)

lemma finish_enum_ok: "enum_ok fe e \<Longrightarrow> en_subjects e = [] \<longrightarrow> unf = [] \<Longrightarrow>
    enum_ok fe (finish_enum e unf) \<and> en_subjects (finish_enum e unf) = en_subjects e"
  by (auto simp: finish_enum_def enum_ok_def)

lemma template_subjects_none: "template_subjects env reg cfg fe [] unf st = Inr (unf', st') \<Longrightarrow> unf' = unf \<and> st' = st"
  by simp

text \<open>
  What became of the entries that were listed. An enumeration that was made rests on the record of its source step, which passed
  and has a list under the fact's name; of the first 1000 entries of that list, each whose name does not validate is among the
  rejected names, once per entry, and the names of the others are exactly the subjects and the dropped ones.
\<close>

definition entry_name :: "pyval \<Rightarrow> string" where
  "entry_name e = (case entry_key e of PStr s \<Rightarrow> sanitize_text s 120 | _ \<Rightarrow> ''(not a name)'')"

definition fact_value :: "step_record \<Rightarrow> string \<Rightarrow> pyval" where
  "fact_value r name = (case dict_get (rc_facts r) name of Some v \<Rightarrow> v | None \<Rightarrow> the_default PNone (dict_get (rc_fields r) name))"

definition accounts_for :: "for_each \<Rightarrow> pyval list \<Rightarrow> enumeration \<Rightarrow> bool" where
  "accounts_for fe listed e \<longleftrightarrow>
     en_rejected e = map entry_name (filter (\<lambda>x. validate (fe_subject_type fe) (entry_key x) = Inr None) listed)
     \<and> set (en_subjects e) \<union> set (en_dropped e) = {s. \<exists>x \<in> set listed. validate (fe_subject_type fe) (entry_key x) = Inr (Some s)}
     \<and> list_all (\<lambda>x. validate (fe_subject_type fe) (entry_key x) \<in> range Inr) listed"

definition made_from :: "step_record list \<Rightarrow> for_each \<Rightarrow> enumeration \<Rightarrow> bool" where
  "made_from rs fe e \<longleftrightarrow>
     en_status e \<in> {''COMPLETE'', ''PARTIAL''} \<longrightarrow>
       (\<exists>r xs. r \<in> set rs \<and> rc_step_id r = ref_step (fe_source fe) \<and> rc_outcome r \<in> {PASS, WARN}
          \<and> as_list (fact_value r (ref_name (fe_source fe))) = Some xs \<and> accounts_for fe (take 1000 xs) e)"

lemma subject_loop_accounts:
  assumes "subject_loop ty es (good, rej) = Inr (good', rej')"
  shows "rej' = rej @ map entry_name (filter (\<lambda>x. validate ty (entry_key x) = Inr None) es)
     \<and> set (dict_keys good') = set (dict_keys good) \<union> {s. \<exists>x \<in> set es. validate ty (entry_key x) = Inr (Some s)}
     \<and> list_all (\<lambda>x. validate ty (entry_key x) \<in> range Inr) es"
  using assms
proof (induction es arbitrary: good rej)
  case (Cons e es)
  then obtain g r where s: "subject_step ty e (good, rej) = Inr (g, r)" "subject_loop ty es (g, r) = Inr (good', rej')"
    by (auto simp: bind_exn_Inr)
  obtain v where v: "validate ty (entry_key e) = Inr v" using s(1) by (auto simp: subject_step_def bind_exn_Inr)
  have "r = rej @ map entry_name (filter (\<lambda>x. validate ty (entry_key x) = Inr None) [e])"
    "set (dict_keys g) = set (dict_keys good) \<union> {s. v = Some s}"
    using s(1) v by (cases v; auto simp: subject_step_def entry_name_def dict.set_keys dict.get_None_iff split: if_splits)+
  then show ?case using Cons.IH [OF s(2)] v by auto
qed simp

lemma settle_subjects_accounts:
  assumes "subject_loop (fe_subject_type fe) es ([], []) = Inr found" "settle_subjects fe c found = (subs, e)"
  shows "accounts_for fe es e"
proof -
  obtain good rej where found: "found = (good, rej)" by (cases found)
  have all: "set (take n xs) \<union> set (drop n xs) = set xs" for n and xs :: "string list"
    by (metis append_take_drop_id set_append)
  have e: "en_subjects e = take (fe_max_instances fe) (sort (dict_keys good))" "en_dropped e = drop (fe_max_instances fe) (sort (dict_keys good))"
    "en_rejected e = rej"
    using assms(2) by (auto simp: found settle_subjects_def Let_def)
  show ?thesis
    using subject_loop_accounts [OF assms(1) [unfolded found]] unfolding accounts_for_def e all by (simp add: dict_keys_def)
qed

lemma subjects_of_made:
  assumes "subjects_of fe (mk_ctx cfg plan_view rs) = Inr (subs, e)"
  shows "made_from rs fe e"
proof (cases "en_status e \<in> {''COMPLETE'', ''PARTIAL''}")
  case True
  let ?c = "mk_ctx cfg plan_view rs"
  let ?raw = "cx_fact ?c (fe_source fe) PNone"
  have go: "cx_outcome ?c (ref_step (fe_source fe)) \<in> {Some PASS, Some WARN}" "as_list ?raw \<noteq> None"
    and m: "bind_exn (subject_loop (fe_subject_type fe) (take 1000 (the_default [] (as_list ?raw))) ([], []))
                (\<lambda>found. Inr (settle_subjects fe ?c found)) = Inr (subs, e)"
    using assms True by (auto simp: subjects_of_def Let_def empty_enum_def split: if_splits)
  obtain found where f: "subject_loop (fe_subject_type fe) (take 1000 (the_default [] (as_list ?raw))) ([], []) = Inr found"
      "settle_subjects fe ?c found = (subs, e)"
    using m by (auto simp: bind_exn_Inr)
  obtain xs where xs: "as_list ?raw = Some xs" using go(2) by blast
  have key: "cx_key ?c k = k" "cx_records ?c = records_dict rs" for k by (simp_all add: cx_key_def mk_ctx_def plan_view_def)
  obtain r where r: "dict_get (records_dict rs) (ref_step (fe_source fe)) = Some r" "rc_outcome r \<in> {PASS, WARN}"
    using go(1) by (auto simp: cx_outcome_def key)
  have "?raw = fact_value r (ref_name (fe_source fe))"
    using r by (auto simp: cx_fact_def key fact_value_def split: option.splits)
  then show ?thesis
    using settle_subjects_accounts [OF f] xs r records_dict_get [OF r(1)] unfolding made_from_def by (auto simp: the_default_def)
qed (simp add: made_from_def)

lemma template_start_made: "template_start cfg fe st = Inr (subs, e) \<Longrightarrow> made_from (ru_records st) fe e"
proof (cases "ru_stop_reason st = []")
  case True
  assume "template_start cfg fe st = Inr (subs, e)"
  then show ?thesis using True by (intro subjects_of_made) (simp add: template_start_def)
qed (auto simp: template_start_def made_from_def empty_enum_def)

lemma finish_enum_made:
  assumes "made_from rs fe e" "enum_ok fe e" "en_subjects e = [] \<longrightarrow> unf = []"
  shows "made_from rs fe (finish_enum e unf)"
proof (cases "unf = []")
  case False
  then have "en_status e \<in> {''COMPLETE'', ''PARTIAL''}" using assms(2,3) by (auto simp: enum_ok_def)
  then show ?thesis using assms(1) by (simp add: made_from_def finish_enum_def accounts_for_def)
qed (use assms(1) in \<open>simp add: finish_enum_def\<close>)

lemma made_from_more: "made_from rs fe e \<Longrightarrow> set rs \<subseteq> set rs' \<Longrightarrow> made_from rs' fe e"
  unfolding made_from_def by blast

text \<open>Records are only ever appended.\<close>

lemma machine_prefix: "(machine_step bnd reg plan is_root)\<^sup>*\<^sup>* m m' \<Longrightarrow> set (mc_records m) \<subseteq> set (mc_records m')"
  by (induction rule: rtranclp_induct) (auto elim!: machine_stepE)

lemma run_prefix: "run_machine env reg plan cfg st st' \<Longrightarrow> set (ru_records st) \<subseteq> set (ru_records st')"
  using machine_prefix by (fastforce simp: machine_of_def)

text \<open>The run of the items, from any state: the machine runs, the records are the expected ones, and every
  enumeration is in order.\<close>

definition items_ok :: "plan_item list \<Rightarrow> enums \<Rightarrow> bool" where
  "items_ok items enums =
     list_all (\<lambda>item. case item of PStep s \<Rightarrow> True
       | PForEach fe \<Rightarrow> (case dict_get enums (fe_template_id fe) of None \<Rightarrow> False | Some e \<Rightarrow> enum_ok fe e)) items"

definition items_made :: "step_record list \<Rightarrow> plan_item list \<Rightarrow> enums \<Rightarrow> bool" where
  "items_made rs items enums =
     list_all (\<lambda>item. case item of PStep s \<Rightarrow> True
       | PForEach fe \<Rightarrow> (case dict_get enums (fe_template_id fe) of None \<Rightarrow> False | Some e \<Rightarrow> made_from rs fe e)) items"

context check_runner
begin

lemma run_items_enums:
  "run_items env reg cfg items enums st = Inr (enums', st') \<Longrightarrow> k \<notin> set (template_ids items) \<Longrightarrow>
     dict_get enums' k = dict_get enums k"
  by (induction env reg cfg items enums st rule: run_items.induct) (auto simp: bind_exn_Inr dict.get_set split: option.splits)

lemma run_items_refines:
  assumes wf: "wf_plan reg plan"
  shows "run_items env reg cfg items enums st = Inr (enums', st') \<Longrightarrow> set items \<subseteq> set plan \<Longrightarrow> distinct (template_ids items) \<Longrightarrow>
     run_machine env reg plan cfg st st'
     \<and> map rc_step_id (ru_records st') = map rc_step_id (ru_records st) @ expected_ids enums' items
     \<and> items_ok items enums' \<and> items_made (ru_records st') items enums'"
proof (induction items arbitrary: enums st)
  case Nil
  then show ?case by (simp add: items_ok_def items_made_def)
next
  case (Cons item items)
  show ?case
  proof (cases item)
    case (PStep s)
    then obtain spec why st1 where spec: "dict_get reg (st_check s) = Some spec"
      and v: "visit env spec cfg plan_view s (new_record s spec (st_step_id s) None None None) st = Inr (why, st1)"
      and r: "run_items env reg cfg items enums st1 = Inr (enums', st')"
      using Cons.prems(1) by (auto simp: bind_exn_Inr split: option.splits)
    have "view_of_step plan plan_view s" using Cons.prems(2) PStep by (simp add: view_of_step_def plan_view_def)
    note one = visit_refines [OF v wf this _ _ _ _ spec]
    show ?thesis
      using one Cons.IH [OF r] Cons.prems(2,3) PStep
      by (auto simp: new_record_def skipped_def instance_id_def plan_view_def items_ok_def items_made_def
          intro: converse_rtranclp_into_rtranclp)
  next
    case (PForEach fe)
    then obtain subs e unf st1 where t: "template_start cfg fe st = Inr (subs, e)"
      and s: "template_subjects env reg cfg fe subs [] st = Inr (unf, st1)"
      and r: "run_items env reg cfg items (dict_set (fe_template_id fe) (finish_enum e unf) enums) st1 = Inr (enums', st')"
      using Cons.prems(1) by (auto simp: bind_exn_Inr)
    have fe: "PForEach fe \<in> set plan" using Cons.prems(2) PForEach by simp
    have ok: "enum_ok fe e" "map fst subs = en_subjects e" using template_start_ok [OF t] by auto
    have unf: "en_subjects e = [] \<longrightarrow> unf = []" using ok(2) s by auto
    note fin = finish_enum_ok [OF ok(1) unf]
    have e: "dict_get enums' (fe_template_id fe) = Some (finish_enum e unf)"
      using run_items_enums [OF r, of "fe_template_id fe"] Cons.prems(3) PForEach by (simp add: dict.get_set)
    have IH: "run_machine env reg plan cfg st1 st'
        \<and> map rc_step_id (ru_records st') = map rc_step_id (ru_records st1) @ expected_ids enums' items
        \<and> items_ok items enums' \<and> items_made (ru_records st') items enums'"
      using Cons.IH [OF r] Cons.prems(2,3) PForEach by simp
    note sub = template_subjects_refines [OF wf fe s]
    have run: "run_machine env reg plan cfg st st'" using IH sub by (auto intro: rtranclp_trans)
    have "made_from (ru_records st') fe (finish_enum e unf)"
      using made_from_more [OF finish_enum_made [OF template_start_made [OF t] ok(1) unf] run_prefix [OF run]] .
    then show ?thesis
      using run e IH sub fin ok(2) by (simp add: PForEach items_ok_def items_made_def subjects_in_def instance_ids_def)
  qed
qed

end

section \<open>Invariants of the machine\<close>

definition did_run :: "step_record \<Rightarrow> bool" where "did_run r = (0 < rc_attempts r)"

text \<open>Every record of a run that was executed was justified by the records before it.\<close>

definition justified_at :: "plan_item list \<Rightarrow> bool \<Rightarrow> step_record list \<Rightarrow> nat \<Rightarrow> bool" where
  "justified_at plan is_root rs i = (if did_run (rs ! i) then justified plan is_root (take i rs) (rs ! i) else True)"

definition machine_ok :: "nat \<Rightarrow> 'w registry \<Rightarrow> plan_item list \<Rightarrow> bool \<Rightarrow> nat \<Rightarrow> machine \<Rightarrow> bool" where
  "machine_ok bnd reg plan is_root runs0 m \<longleftrightarrow>
     mc_executed m = length (filter did_run (mc_records m)) \<and> mc_executed m \<le> bnd
     \<and> runs0 \<le> mc_runs m \<and> mc_runs m \<le> runs0 + sum_list (map rc_attempts (mc_records m))
     \<and> list_all (\<lambda>r. rc_attempts r \<le> (if did_run r then Suc MAX_RETRIES else 0)) (mc_records m)
     \<and> list_all (trusted reg) (mc_records m) \<and> list_all (\<lambda>r. did_run r \<or> skipped r) (mc_records m)
     \<and> list_all (justified_at plan is_root (mc_records m)) [0..<length (mc_records m)]"

lemma justified_at_snoc:
  "list_all (justified_at plan is_root (rs @ [r])) [0..<length (rs @ [r])] =
     (list_all (justified_at plan is_root rs) [0..<length rs] \<and> (did_run r \<longrightarrow> justified plan is_root rs r))"
  by (auto simp: list_all_iff justified_at_def nth_append less_Suc_eq)

lemma machine_step_ok:
  "machine_step bnd reg plan is_root m m' \<Longrightarrow> machine_ok bnd reg plan is_root runs0 m \<Longrightarrow>
     machine_ok bnd reg plan is_root runs0 m'"
proof (induction rule: machine_step.induct)
  case (skip r m stopped')
  then show ?case
    unfolding machine_ok_def using justified_at_snoc [of plan is_root "mc_records m" r]
    by (auto simp: skipped_def did_run_def trusted_def)
next
  case (execute m r n stopped')
  then show ?case
    unfolding machine_ok_def using justified_at_snoc [of plan is_root "mc_records m" r]
    by (auto simp: did_run_def)
qed

lemma machine_reaches_ok:
  "(machine_step bnd reg plan is_root)\<^sup>*\<^sup>* m m' \<Longrightarrow> machine_ok bnd reg plan is_root runs0 m \<Longrightarrow>
     machine_ok bnd reg plan is_root runs0 m'"
  by (induction rule: rtranclp_induct) (auto dest: machine_step_ok)

lemma attempts_bound:
  "list_all (\<lambda>r. rc_attempts r \<le> (if did_run r then Suc MAX_RETRIES else 0)) rs \<Longrightarrow>
     sum_list (map rc_attempts rs) \<le> Suc MAX_RETRIES * length (filter did_run rs)"
  by (induction rs) (auto split: if_splits)

section \<open>Runs of a plan\<close>

text \<open>The planner runs on the live runner, or on the replay of a recording.\<close>

definition plan_env ::
  "(pydict \<times> nat) option \<Rightarrow> ('w \<Rightarrow> rat \<times> 'w) \<Rightarrow> ('w \<Rightarrow> string \<times> 'w) \<Rightarrow> 'w registry \<Rightarrow> 'w runner env" where
  "plan_env src clock utc reg =
     (case src of None \<Rightarrow> live_env clock utc reg | Some (data, limit) \<Rightarrow> replay_env data limit clock utc reg)"

lemma plan_env_contract: "check_runner (plan_env src clock utc reg)"
  by (simp add: plan_env_def live.check_runner_axioms replay.check_runner_axioms split: option.splits prod.splits)

interpretation planned: check_runner "plan_env src clock utc reg" for src clock utc reg
  by (rule plan_env_contract)

definition start_machine :: "'w runner \<Rightarrow> machine" where
  "start_machine w = \<lparr>mc_records = [], mc_executed = 0, mc_stopped = False, mc_runs = rn_runs w\<rparr>"

lemma plan_env_runs [simp]: "en_runs (plan_env src clock utc reg) = rn_runs"
  by (simp add: plan_env_def live_env_def replay_env_def split: option.splits prod.splits)

lemma start_machine_ok: "machine_ok bnd reg plan is_root (rn_runs w) (start_machine w)"
  by (simp add: machine_ok_def start_machine_def)

text \<open>The facts of a run that returns.\<close>

definition run_facts ::
  "'w registry \<Rightarrow> plan_item list \<Rightarrow> bool \<Rightarrow> nat \<Rightarrow> 'w runner \<Rightarrow> trace \<Rightarrow> 'w runner \<Rightarrow> bool" where
  "run_facts reg plan is_root max_steps w t w' \<longleftrightarrow>
     wf_plan reg plan \<and> tr_max_steps t = min max_steps HARD_MAX_STEPS
     \<and> (\<exists>executed stopped. (machine_step (tr_max_steps t) reg plan is_root)\<^sup>*\<^sup>* (start_machine w)
           \<lparr>mc_records = tr_records t, mc_executed = executed, mc_stopped = stopped, mc_runs = rn_runs w'\<rparr>)
     \<and> tr_checks_run t = rn_runs w' - rn_runs w
     \<and> map rc_step_id (tr_records t) = expected_ids (tr_enumerations t) plan \<and> items_ok plan (tr_enumerations t)
     \<and> items_made (tr_records t) plan (tr_enumerations t)"

lemma run_plan_facts:
  assumes "run_plan (plan_env src clock utc reg) reg plan inputs is_root max_seconds max_steps hint w = Inr (t, w')"
  shows "run_facts reg plan is_root max_steps w t w'"
proof -
  let ?env = "plan_env src clock utc reg"
  obtain t0 w1 where c0: "en_clock ?env w = (t0, w1)" by (cases "en_clock ?env w")
  obtain started w2 where u: "en_utc ?env w1 = (started, w2)" by (cases "en_utc ?env w1")
  let ?cfg = "\<lparr>rg_max_seconds = max_seconds, rg_max_steps = min max_steps HARD_MAX_STEPS, rg_start = t0,
                    rg_is_root = is_root, rg_privilege_hint = hint, rg_inputs = inputs\<rparr>"
  let ?st = "\<lparr>ru_world = w2, ru_executed = 0, ru_stop_reason = [], ru_cancelled = False, ru_records = []\<rparr>"
  from assms obtain x where v: "validate_plan plan reg = Inr x" by (auto simp: run_plan_def bind_exn_Inr)
  obtain enums st where r: "run_items ?env reg ?cfg plan [] ?st = Inr (enums, st)"
    using assms by (cases "run_items ?env reg ?cfg plan [] ?st") (auto simp: run_plan_def v c0 u)
  obtain t1 w3 where c1: "en_clock ?env (ru_world st) = (t1, w3)" by (cases "en_clock ?env (ru_world st)")
  have t: "tr_records t = ru_records st" "tr_max_steps t = min max_steps HARD_MAX_STEPS" "tr_checks_run t = rn_runs w3 - rn_runs w2"
    "tr_enumerations t = enums" "w' = w3"
    using assms v r c1 by (auto simp: run_plan_def c0 u)
  have wf: "wf_plan reg plan" by (rule validate_plan_wf [OF v])
  have runs: "rn_runs w2 = rn_runs w" "rn_runs w3 = rn_runs (ru_world st)"
    using planned.clock_counts [OF c0] planned.utc_counts [OF u] planned.clock_counts [OF c1] by simp_all
  have "distinct (template_ids plan)" using wf by (simp add: wf_plan_def)
  note items = planned.run_items_refines [OF wf r subset_refl this]
  have "machine_of ?env ?st = start_machine w" by (simp add: machine_of_def start_machine_def runs)
  then have "(machine_step (tr_max_steps t) reg plan is_root)\<^sup>*\<^sup>* (start_machine w) (machine_of ?env st)"
    using items by (simp add: t)
  then have "\<exists>executed stopped. (machine_step (tr_max_steps t) reg plan is_root)\<^sup>*\<^sup>* (start_machine w)
           \<lparr>mc_records = tr_records t, mc_executed = executed, mc_stopped = stopped, mc_runs = rn_runs w'\<rparr>"
    by (auto simp: machine_of_def t runs)
  then show ?thesis using items wf t runs by (simp add: run_facts_def)
qed

lemma run_facts_ok:
  assumes "run_facts reg plan is_root max_steps w t w'"
  shows "\<exists>executed stopped. machine_ok (tr_max_steps t) reg plan is_root (rn_runs w)
           \<lparr>mc_records = tr_records t, mc_executed = executed, mc_stopped = stopped, mc_runs = rn_runs w'\<rparr>"
  using assms machine_reaches_ok [OF _ start_machine_ok] unfolding run_facts_def by blast

section \<open>The ids of the records\<close>

definition base_id :: "string \<Rightarrow> string" where "base_id x = takeWhile (\<lambda>c. c \<noteq> CHR ''@'') x"

lemma base_id_simps: "CHR ''@'' \<notin> set s \<Longrightarrow> base_id s = s" "CHR ''@'' \<notin> set s \<Longrightarrow> base_id (s @ ''@'' @ x) = s"
  by (auto simp: base_id_def takeWhile_eq_all_conv takeWhile_tail takeWhile_append2)

lemma instance_ids_product:
  "instance_ids fe subjects = map (\<lambda>(x, s). s @ ''@'' @ x) (List.product subjects (map st_step_id (fe_steps fe)))"
  by (induction subjects) (auto simp: instance_ids_def)

lemma instance_ids_distinct:
  assumes "distinct subjects" "distinct (map st_step_id (fe_steps fe))" "list_all (\<lambda>s. CHR ''@'' \<notin> set (st_step_id s)) (fe_steps fe)"
  shows "distinct (instance_ids fe subjects)"
proof -
  have "inj_on (\<lambda>(x, s). s @ ''@'' @ x) (set (List.product subjects (map st_step_id (fe_steps fe))))"
  proof (rule inj_onI, clarsimp)
    fix x y s t
    assume a: "s \<in> set (fe_steps fe)" "t \<in> set (fe_steps fe)" "st_step_id s @ CHR ''@'' # x = st_step_id t @ CHR ''@'' # y"
    then have "base_id (st_step_id s @ ''@'' @ x) = base_id (st_step_id t @ ''@'' @ y)" by simp
    then have "st_step_id s = st_step_id t"
      using a assms(3) base_id_simps(2) [of "st_step_id s" x] base_id_simps(2) [of "st_step_id t" y]
      by (simp add: list_all_iff)
    then show "x = y \<and> st_step_id s = st_step_id t" using a(3) by simp
  qed
  then show ?thesis
    using assms(1,2) by (simp add: instance_ids_product distinct_map distinct_product)
qed

lemma base_id_instance: "y \<in> set (instance_ids fe subjects) \<Longrightarrow> list_all (\<lambda>s. CHR ''@'' \<notin> set (st_step_id s)) (fe_steps fe) \<Longrightarrow>
     base_id y \<in> set (map st_step_id (fe_steps fe))"
  using base_id_simps(2) by (fastforce simp: instance_ids_def list_all_iff)

lemma base_id_expected:
  "ordered_items reg prior items \<Longrightarrow> y \<in> set (expected_ids enums items) \<Longrightarrow> base_id y \<in> set (step_ids items)"
proof (induction reg prior items rule: ordered_items.induct)
  case (2 reg prior s items)
  then show ?case using base_id_simps(1) [of "st_step_id s"] by (auto simp: step_checked_def plain_id_def)
next
  case (3 reg prior fe items)
  have "list_all (\<lambda>s. CHR ''@'' \<notin> set (st_step_id s)) (fe_steps fe)"
    using 3(2) by (auto simp: list_all_iff step_checked_def plain_id_def)
  then show ?case using 3 base_id_instance by auto
qed simp

lemma expected_ids_ok:
  "ordered_items reg prior items \<Longrightarrow> distinct (step_ids items) \<Longrightarrow> items_ok items enums \<Longrightarrow>
     distinct (expected_ids enums items) \<and> length (expected_ids enums items) \<le> sum_list (map item_expanded items)"
proof (induction reg prior items rule: ordered_items.induct)
  case (1 reg prior)
  then show ?case by simp
next
  case (2 reg prior s items)
  then have "distinct (expected_ids enums items) \<and> length (expected_ids enums items) \<le> sum_list (map item_expanded items)"
    by (simp add: items_ok_def)
  moreover have "st_step_id s \<notin> set (expected_ids enums items)"
  proof
    assume "st_step_id s \<in> set (expected_ids enums items)"
    then have "base_id (st_step_id s) \<in> set (step_ids items)" using base_id_expected 2(2) by fastforce
    then show False using 2(2,3) base_id_simps(1) [of "st_step_id s"] by (simp add: step_checked_def plain_id_def)
  qed
  ultimately show ?case by simp
next
  case (3 reg prior fe items)
  then have IH: "distinct (expected_ids enums items)" "length (expected_ids enums items) \<le> sum_list (map item_expanded items)"
    by (simp_all add: items_ok_def)
  obtain e where e: "dict_get enums (fe_template_id fe) = Some e" "enum_ok fe e"
    using 3(4) by (auto simp: items_ok_def split: option.splits)
  have plain: "list_all (\<lambda>s. CHR ''@'' \<notin> set (st_step_id s)) (fe_steps fe)"
    using 3(2) by (auto simp: list_all_iff step_checked_def plain_id_def)
  have "distinct (instance_ids fe (en_subjects e))"
    using instance_ids_distinct [OF _ _ plain] e(2) 3(3) by (simp add: enum_ok_def)
  moreover have "set (instance_ids fe (en_subjects e)) \<inter> set (expected_ids enums items) = {}"
  proof (rule ccontr)
    assume "set (instance_ids fe (en_subjects e)) \<inter> set (expected_ids enums items) \<noteq> {}"
    then obtain y where "y \<in> set (instance_ids fe (en_subjects e))" "y \<in> set (expected_ids enums items)" by blast
    then have "base_id y \<in> set (map st_step_id (fe_steps fe))" "base_id y \<in> set (step_ids items)"
      using base_id_instance [OF _ plain] base_id_expected 3(2) by fastforce+
    then show False using 3(3) by auto
  qed
  moreover have "length (instance_ids fe (en_subjects e)) \<le> length (fe_steps fe) * fe_max_instances fe"
    using e(2) by (simp add: instance_ids_product enum_ok_def mult.commute)
  ultimately show ?case using IH e by (simp add: subjects_in_def)
qed

section \<open>The records of an instance\<close>

text \<open>A record of an instance carries its step and its subject, and its id is made of them.\<close>

definition keyed :: "step_record \<Rightarrow> bool" where
  "keyed r =
     (case (rc_base_step r, rc_subject r) of
        (None, None) \<Rightarrow> CHR ''@'' \<notin> set (rc_step_id r)
      | (Some b, Some s) \<Rightarrow> CHR ''@'' \<notin> set b \<and> rc_step_id r = b @ ''@'' @ s
      | _ \<Rightarrow> False)"

definition same_key :: "step_record \<Rightarrow> step_record \<Rightarrow> bool" where
  "same_key r r' = (rc_step_id r' = rc_step_id r \<and> rc_subject r' = rc_subject r \<and> rc_base_step r' = rc_base_step r)"

lemma same_key_keyed: "same_key r r' \<Longrightarrow> keyed r \<Longrightarrow> keyed r'"
  by (auto simp: same_key_def keyed_def split: option.splits)

lemma attempts_key:
  "attempts env chk params left k rec w = (Inr (rec', out), w') \<Longrightarrow> same_key rec rec'"
proof (induction left arbitrary: k rec w)
  case 0
  then show ?case
    unfolding attempts.simps [of env chk params 0 k]
    by (auto simp: same_key_def Let_def split: prod.splits sum.splits exn.splits if_splits)
next
  case (Suc left)
  then show ?case
    unfolding attempts.simps [of env chk params "Suc left" k]
    by (fastforce simp: same_key_def Let_def split: prod.splits sum.splits exn.splits if_splits)
qed

lemma classify_key: "classify_record spec step c got rec = Inr rec' \<Longrightarrow> same_key rec rec'"
  by (auto simp: classify_record_def Let_def bind_exn_Inr same_key_def split: if_splits)

lemma run_check_key:
  assumes "run_check env spec step c params rec st = Inr (why, st')"
  shows "\<exists>r. ru_records st' = ru_records st @ [r] \<and> same_key rec r"
proof -
  obtain t0 w0 where c0: "en_clock env (ru_world st) = (t0, w0)" by (cases "en_clock env (ru_world st)")
  obtain r w1 where a: "attempts env (st_check step) params (st_retries step) 0 rec w0 = (r, w1)"
    by (cases "attempts env (st_check step) params (st_retries step) 0 rec w0")
  from assms obtain rec1 result where r: "r = Inr (rec1, result)"
    unfolding run_check_def Let_def c0 prod.case a by (auto simp: bind_exn_Inr)
  have key: "same_key rec rec1" by (rule attempts_key [OF a [unfolded r]])
  show ?thesis
  proof (cases result)
    case None
    then show ?thesis using assms key unfolding run_check_def Let_def c0 prod.case a r by (auto simp: commit_def same_key_def)
  next
    case (Some got)
    obtain t1 w2 where c1: "en_clock env w1 = (t1, w2)" by (cases "en_clock env w1")
    obtain utc w3 where u: "en_utc env w2 = (utc, w3)" by (cases "en_utc env w2")
    let ?rec2 = "fill_record (en_replay env) utc (fl64 (of_int (millis (fsub t1 t0)) / 1000)) got rec1"
    from assms Some obtain rec3 where cl: "classify_record spec step c got ?rec2 = Inr rec3"
      and st': "ru_records st' = ru_records st @ [rec3]"
      unfolding run_check_def Let_def c0 prod.case a r c1 u by (auto simp: bind_exn_Inr commit_def c1 u)
    then show ?thesis using key classify_key [OF cl] by (auto simp: same_key_def fill_record_def)
  qed
qed

context check_runner
begin

lemma visit_key:
  assumes "visit env spec cfg v step rec st = Inr (why, st')"
  shows "\<exists>r. ru_records st' = ru_records st @ [r] \<and> same_key rec r"
proof -
  let ?c = "\<lambda>r. mk_ctx cfg v (ru_records st @ [r])"
  from assms obtain d w where d: "decide env cfg step ?c rec st = Inr (d, w)"
    unfolding visit_def Let_def by (auto simp: bind_exn_Inr)
  note ok = decide_ok [OF d]
  show ?thesis
  proof (cases d)
    case (Go r ps)
    then have "run_check env spec step ?c ps r (st\<lparr>ru_world := w\<rparr>) = Inr (why, st')" using assms d by (simp add: visit_def Let_def)
    from run_check_key [OF this] show ?thesis using ok Go by (auto simp: decision_ok_def frame_def same_key_def)
  qed (use assms d ok in \<open>auto simp: visit_def Let_def commit_def decision_ok_def frame_def same_key_def\<close>)
qed

lemma subject_visit_key:
  assumes "subject_visit env spec cfg fe v step rec sr st = Inr (sr', st')"
  shows "\<exists>r. ru_records st' = ru_records st @ [r] \<and> same_key rec r"
proof -
  obtain used st1 where s: "slice_used env fe sr st = (used, st1)" by (cases "slice_used env fe sr st")
  note ok = slice_used_ok [OF s]
  show ?thesis
  proof (cases "used \<or> sr_stop sr \<noteq> []")
    case True
    then show ?thesis using assms ok unfolding subject_visit_def s prod.case Let_def
      by (cases used) (auto simp: commit_def same_key_def split: if_splits)
  next
    case False
    then obtain why st2 where "visit env spec cfg v step rec st1 = Inr (why, st2)" "st' = st2"
      using assms s by (auto simp: subject_visit_def bind_exn_Inr Let_def)
    then show ?thesis using visit_key ok by metis
  qed
qed

lemma subject_steps_keyed:
  "subject_steps env reg cfg fe v subject steps sr st = Inr (sr', st') \<Longrightarrow> list_all (\<lambda>s. CHR ''@'' \<notin> set (st_step_id s)) steps \<Longrightarrow>
     list_all keyed (ru_records st) \<Longrightarrow> list_all keyed (ru_records st')"
proof (induction steps arbitrary: sr st)
  case (Cons s steps)
  then obtain spec where spec: "dict_get reg (st_check s) = Some spec" by (auto split: option.splits)
  let ?rec = "new_record s spec (st_step_id s @ ''@'' @ subject) (Some subject) (Some (fe_template_id fe)) (Some (st_step_id s))"
  obtain sr1 st1 where v: "subject_visit env spec cfg fe v s ?rec sr st = Inr (sr1, st1)"
      "subject_steps env reg cfg fe v subject steps sr1 st1 = Inr (sr', st')"
    using Cons.prems(1) spec by (auto simp: bind_exn_Inr)
  obtain r where r: "ru_records st1 = ru_records st @ [r]" "same_key ?rec r" using subject_visit_key [OF v(1)] by blast
  have "keyed ?rec" using Cons.prems(2) by (simp add: keyed_def new_record_def)
  then have "keyed r" by (rule same_key_keyed [OF r(2)])
  then show ?case using Cons.IH [OF v(2)] Cons.prems r(1) by simp
qed simp

lemma template_subjects_keyed:
  "template_subjects env reg cfg fe subs unf st = Inr (unf', st') \<Longrightarrow> list_all (\<lambda>s. CHR ''@'' \<notin> set (st_step_id s)) (fe_steps fe) \<Longrightarrow>
     list_all keyed (ru_records st) \<Longrightarrow> list_all keyed (ru_records st')"
proof (induction subs arbitrary: unf st)
  case (Cons sub subs)
  obtain subject item where sub: "sub = (subject, item)" by (cases sub)
  obtain t0 w where c: "en_clock env (ru_world st) = (t0, w)" by (cases "en_clock env (ru_world st)")
  obtain sr st1 where s: "subject_steps env reg cfg fe
        \<lparr>vw_subject = Some subject, vw_item = item, vw_local = map st_step_id (fe_steps fe)\<rparr> subject (fe_steps fe)
        \<lparr>sr_stop = [], sr_unfinished = False, sr_start = t0\<rparr> (st\<lparr>ru_world := w\<rparr>) = Inr (sr, st1)"
      "template_subjects env reg cfg fe subs (if sr_unfinished sr then unf @ [subject] else unf) st1 = Inr (unf', st')"
    using Cons.prems(1) c by (auto simp: sub bind_exn_Inr)
  have "list_all keyed (ru_records st1)" using subject_steps_keyed [OF s(1)] Cons.prems(2,3) by simp
  then show ?case using Cons.IH [OF s(2)] Cons.prems(2) by simp
qed simp

lemma run_items_keyed:
  "run_items env reg cfg items enums st = Inr (enums', st') \<Longrightarrow> list_all (\<lambda>s. CHR ''@'' \<notin> set (st_step_id s)) (plan_steps items) \<Longrightarrow>
     list_all keyed (ru_records st) \<Longrightarrow> list_all keyed (ru_records st')"
proof (induction items arbitrary: enums st)
  case (Cons item items)
  show ?case
  proof (cases item)
    case (PStep s)
    then obtain spec why st1 where spec: "dict_get reg (st_check s) = Some spec"
      and v: "visit env spec cfg plan_view s (new_record s spec (st_step_id s) None None None) st = Inr (why, st1)"
      and r: "run_items env reg cfg items enums st1 = Inr (enums', st')"
      using Cons.prems(1) by (auto simp: bind_exn_Inr split: option.splits)
    let ?rec = "new_record s spec (st_step_id s) None None None"
    obtain x where x: "ru_records st1 = ru_records st @ [x]" "same_key ?rec x" using visit_key [OF v] by blast
    have "keyed ?rec" using Cons.prems(2) PStep by (simp add: keyed_def new_record_def)
    then have "keyed x" by (rule same_key_keyed [OF x(2)])
    then show ?thesis using Cons.IH [OF r] Cons.prems(2,3) PStep x(1) by simp
  next
    case (PForEach fe)
    then obtain subs e unf st1 where s: "template_subjects env reg cfg fe subs [] st = Inr (unf, st1)"
      and r: "run_items env reg cfg items (dict_set (fe_template_id fe) (finish_enum e unf) enums) st1 = Inr (enums', st')"
      using Cons.prems(1) by (auto simp: bind_exn_Inr)
    have "list_all keyed (ru_records st1)" using template_subjects_keyed [OF s] Cons.prems(2,3) PForEach by simp
    then show ?thesis using Cons.IH [OF r] Cons.prems(2) PForEach by simp
  qed
qed simp

end

lemma ordered_items_plain: "ordered_items reg prior items \<Longrightarrow> list_all (\<lambda>s. CHR ''@'' \<notin> set (st_step_id s)) (plan_steps items)"
  by (induction reg prior items rule: ordered_items.induct) (auto simp: step_checked_def plain_id_def list_all_iff)

lemma run_plan_keyed:
  assumes "run_plan (plan_env src clock utc reg) reg plan inputs is_root max_seconds max_steps hint w = Inr (t, w')"
  shows "list_all keyed (tr_records t)"
proof -
  let ?env = "plan_env src clock utc reg"
  obtain x where v: "validate_plan plan reg = Inr x" using assms by (auto simp: run_plan_def bind_exn_Inr)
  obtain t0 w1 where c0: "en_clock ?env w = (t0, w1)" by (cases "en_clock ?env w")
  obtain started w2 where u: "en_utc ?env w1 = (started, w2)" by (cases "en_utc ?env w1")
  let ?cfg = "\<lparr>rg_max_seconds = max_seconds, rg_max_steps = min max_steps HARD_MAX_STEPS, rg_start = t0,
                    rg_is_root = is_root, rg_privilege_hint = hint, rg_inputs = inputs\<rparr>"
  let ?st = "\<lparr>ru_world = w2, ru_executed = 0, ru_stop_reason = [], ru_cancelled = False, ru_records = []\<rparr>"
  obtain enums st where r: "run_items ?env reg ?cfg plan [] ?st = Inr (enums, st)"
    using assms by (cases "run_items ?env reg ?cfg plan [] ?st") (auto simp: run_plan_def v c0 u)
  obtain t1 w3 where c1: "en_clock ?env (ru_world st) = (t1, w3)" by (cases "en_clock ?env (ru_world st)")
  have "tr_records t = ru_records st" using assms v r c1 by (auto simp: run_plan_def c0 u)
  moreover have "list_all (\<lambda>s. CHR ''@'' \<notin> set (st_step_id s)) (plan_steps plan)"
    using ordered_items_plain validate_plan_wf [OF v] unfolding wf_plan_def by blast
  ultimately show ?thesis using planned.run_items_keyed [OF r] by simp
qed

text \<open>So a step of the plan, and a step of a template for an enumerated subject, has its record in the trace.\<close>

lemma find_present: "x \<in> set xs \<Longrightarrow> P x \<Longrightarrow> \<exists>y. find P xs = Some y"
  by (induction xs) auto

lemma step_recorded:
  assumes "run_facts reg plan is_root max_steps w t w'" "PStep s \<in> set plan"
  shows "\<exists>r. trace_get t (st_step_id s) None = Some r"
proof -
  have "st_step_id s \<in> set (expected_ids (tr_enumerations t) plan)"
    using assms(2) by (induction "tr_enumerations t" plan rule: expected_ids.induct) auto
  then have "st_step_id s \<in> set (map rc_step_id (tr_records t))" using assms(1) by (simp add: run_facts_def)
  then obtain x where "x \<in> set (tr_records t)" "rc_step_id x = st_step_id s" by auto
  then show ?thesis unfolding trace_get_def using find_present [of x _ "\<lambda>r. rc_step_id r = st_step_id s"] by simp
qed

lemma template_steps_in: "PForEach fe \<in> set plan \<Longrightarrow> set (fe_steps fe) \<subseteq> set (plan_steps plan)"
proof (induction plan)
  case (Cons item plan)
  then show ?case by (cases item) auto
qed simp

lemma instance_recorded:
  assumes facts: "run_facts reg plan is_root max_steps w t w'" and keys: "list_all keyed (tr_records t)"
    and fe: "PForEach fe \<in> set plan" "s \<in> set (fe_steps fe)" "dict_get (tr_enumerations t) (fe_template_id fe) = Some e" "subj \<in> set (en_subjects e)"
  shows "\<exists>r. trace_get t (st_step_id s) (Some subj) = Some r"
proof -
  have "st_step_id s @ ''@'' @ subj \<in> set (instance_ids fe (subjects_in (tr_enumerations t) fe))"
    using fe(2-4) by (auto simp: instance_ids_def subjects_in_def)
  then have "st_step_id s @ ''@'' @ subj \<in> set (expected_ids (tr_enumerations t) plan)"
    using fe(1) by (induction "tr_enumerations t" plan rule: expected_ids.induct) auto
  then have "st_step_id s @ ''@'' @ subj \<in> set (map rc_step_id (tr_records t))" using facts by (simp add: run_facts_def)
  then obtain x where x: "x \<in> set (tr_records t)" "rc_step_id x = st_step_id s @ ''@'' @ subj" by auto
  have plain: "CHR ''@'' \<notin> set (st_step_id s)"
  proof -
    have "s \<in> set (plan_steps plan)" using template_steps_in [OF fe(1)] fe(2) by blast
    then show ?thesis using ordered_items_plain [of reg "[]" plan] facts by (auto simp: run_facts_def wf_plan_def list_all_iff)
  qed
  have "keyed x" using keys x(1) by (auto simp: list_all_iff)
  then obtain b y where k: "rc_base_step x = Some b" "rc_subject x = Some y" "CHR ''@'' \<notin> set b" "rc_step_id x = b @ ''@'' @ y"
    using x(2) by (auto simp: keyed_def split: option.splits)
  have "b = st_step_id s"
    using base_id_simps(2) [OF k(3), of y] base_id_simps(2) [OF plain, of subj] k(4) x(2) by simp
  then have "rc_base_step x = Some (st_step_id s) \<and> rc_subject x = Some subj" using k x(2) by simp
  then show ?thesis unfolding trace_get_def using find_present [OF x(1), of "\<lambda>r. rc_base_step r = Some (st_step_id s) \<and> rc_subject r = Some subj"] by simp
qed

section \<open>Runs that return\<close>

text \<open>The code of a plan (its gates, classifiers and stop rules) raises at most the exceptions that are caught. One validator can
  raise as well, that of LDAP ports; it is asked for a check with such a parameter, and for a template of such subjects.\<close>

definition tame :: "exn + 'a \<Rightarrow> bool" where
  "tame r = (case r of Inl e \<Rightarrow> evidence_exn e | Inr x \<Rightarrow> True)"

definition tame_step :: "step \<Rightarrow> bool" where
  "tame_step s \<longleftrightarrow>
     (\<forall>c. pred_option (\<lambda>g. tame (g c)) (st_applies s) \<and> pred_option (\<lambda>g. tame (g c)) (st_when s)
        \<and> pred_option (\<lambda>g. tame (g c)) (st_stop s) \<and> pred_option (\<lambda>g. tame (g c)) (st_stop_subject s)
        \<and> (\<forall>r. pred_option (\<lambda>f. tame (f r c)) (st_classify s)))"

definition port_error :: "exn \<Rightarrow> bool" where
  "port_error e = (\<exists>v. validate ''ldap_port'' v = Inl e)"

definition check_asks_port :: "'w registry \<Rightarrow> string \<Rightarrow> bool" where
  "check_asks_port reg c =
     (case dict_get reg c of None \<Rightarrow> False | Some spec \<Rightarrow> list_ex (\<lambda>(k, ty). ty = ''ldap_port'') (cs_params spec))"

definition plan_asks_port :: "'w registry \<Rightarrow> plan_item list \<Rightarrow> bool" where
  "plan_asks_port reg plan =
     (list_ex (\<lambda>s. check_asks_port reg (st_check s)) (plan_steps plan)
      \<or> list_ex (\<lambda>item. case item of PStep s \<Rightarrow> False | PForEach fe \<Rightarrow> fe_subject_type fe = ''ldap_port'') plan)"

lemma caught_tame: "tame r \<Longrightarrow> \<exists>x. caught d r = Inr x"
  by (auto simp: tame_def caught_def split: sum.splits)

lemma validate_port_error: "validate ty v = Inl e \<Longrightarrow> ty = ''ldap_port'' \<and> port_error e"
  using validate_raises_iff [of ty v] unfolding port_error_def by blast

lemma validate_each_error:
  "validate_each spec ps = Inl e \<Longrightarrow> list_ex (\<lambda>(k, ty). ty = ''ldap_port'') spec \<and> port_error e"
proof (induction spec)
  case (Cons x spec)
  obtain k ty where x: "x = (k, ty)" by (cases x)
  show ?case using Cons validate_port_error [of ty _ e] by (auto simp: x bind_exn_def split: sum.splits option.splits)
qed simp

text \<open>A runner whose calls return, or are interrupted, or raise what the validator of ports raises.\<close>

definition returns :: "'w registry \<Rightarrow> 's env \<Rightarrow> bool" where
  "returns reg env \<longleftrightarrow>
     (\<forall>c p f s e. fst (en_run env c p f s) = Inl e \<longrightarrow> e = KeyboardInterrupt \<or> check_asks_port reg c \<and> port_error e)"

lemma live_execute_returns: "case fst (live_execute clock spec ps w) of Inl e \<Rightarrow> e = KeyboardInterrupt | Inr x \<Rightarrow> True"
  by (auto simp: live_execute_def Let_def split: prod.splits sum.splits exn.splits)

lemma replay_execute_returns: "case fst (replay_execute data limit spec ps w) of Inl e \<Rightarrow> e = KeyboardInterrupt | Inr x \<Rightarrow> True"
proof -
  have "recorded_unit_matches ps u \<noteq> Inl e" for u e using recorded_unit_total [of ps u] by auto
  then show ?thesis
    by (auto simp: replay_execute_def Let_def bind_exn_def split: option.splits pyval.splits sum.splits)
qed

lemma runner_run_returns:
  assumes "\<And>spec ps w. case fst (execute spec ps w) of Inl e \<Rightarrow> e = KeyboardInterrupt | Inr x \<Rightarrow> True"
    "fst (runner_run execute reg c p f rn) = Inl e"
  shows "e = KeyboardInterrupt \<or> check_asks_port reg c \<and> port_error e"
proof (cases "dict_get reg c")
  case (Some spec)
  show ?thesis
  proof (cases "validated_params spec p")
    case (Inl e')
    then have "check_asks_port reg c \<and> port_error e'"
      using validate_each_error [of "cs_params spec" p e'] Some
      by (auto simp: validated_params_def check_asks_port_def split: if_splits)
    then show ?thesis using assms(2) Some Inl by (simp add: runner_run_def)
  next
    case (Inr v)
    show ?thesis
    proof (cases v)
      case None
      then show ?thesis using Some Inr assms(2) by (simp add: runner_run_def)
    next
      case (Some vp)
      then show ?thesis
        using assms(1) [of spec vp "rn_world rn"] assms(2) Inr \<open>dict_get reg c = Some spec\<close>
        by (auto simp: runner_run_def Let_def split: option.splits sum.splits prod.splits if_splits)
    qed
  qed
qed (use assms(2) in \<open>simp add: runner_run_def\<close>)

lemma plan_env_returns: "returns reg (plan_env src clock utc reg)"
proof (cases src)
  case None
  then show ?thesis using runner_run_returns [OF live_execute_returns] by (fastforce simp: returns_def plan_env_def live_env_def)
next
  case (Some recording)
  obtain data limit where "recording = (data, limit)" by (cases recording)
  then show ?thesis
    using Some runner_run_returns [of "replay_execute data limit", OF replay_execute_returns]
    by (fastforce simp: returns_def plan_env_def replay_env_def)
qed

lemma bind_exn_Inl: "bind_exn r f = Inl e \<longleftrightarrow> r = Inl e \<or> (\<exists>x. r = Inr x \<and> f x = Inl e)"
  by (cases r) auto

lemma ask_stop_total: "pred_option (\<lambda>g. tame (g c)) f \<Longrightarrow> \<exists>x. ask_stop f c = Inr x"
proof (cases f)
  case (Some g)
  assume "pred_option (\<lambda>g. tame (g c)) f"
  then show ?thesis using Some caught_tame [of "g c" None] by (simp add: ask_stop_def)
qed (simp add: ask_stop_def)

lemma gates_total:
  assumes "tame_step step"
  shows "\<exists>x. applies_gate step c = Inr x" "\<exists>x. when_gate step c rec = Inr x"
    "\<exists>x. ask_stop (st_stop step) c = Inr x" "\<exists>x. ask_stop (st_stop_subject step) c = Inr x"
    "\<exists>x. caught unreadable ((the_default default_classify (st_classify step)) r c) = Inr x"
proof -
  have t: "pred_option (\<lambda>g. tame (g c)) (st_applies step)" "pred_option (\<lambda>g. tame (g c)) (st_when step)"
    "pred_option (\<lambda>g. tame (g c)) (st_stop step)" "pred_option (\<lambda>g. tame (g c)) (st_stop_subject step)"
    "pred_option (\<lambda>f. tame (f r c)) (st_classify step)"
    using assms by (auto simp: tame_step_def)
  show "\<exists>x. applies_gate step c = Inr x"
  proof (cases "st_applies step")
    case (Some g)
    then show ?thesis using t(1) caught_tame [of "g c"] unfolding applies_gate_def safe_gate_def by simp
  qed (auto simp: applies_gate_def)
  show "\<exists>x. when_gate step c rec = Inr x"
  proof (cases "st_when step")
    case (Some g)
    then obtain x where "safe_gate g c = Inr x" using t(2) caught_tame by (fastforce simp: safe_gate_def)
    then show ?thesis using Some by (cases x) (simp add: when_gate_def Let_def)
  qed (auto simp: when_gate_def)
  show "\<exists>x. ask_stop (st_stop step) c = Inr x" "\<exists>x. ask_stop (st_stop_subject step) c = Inr x"
    by (rule ask_stop_total [OF t(3)], rule ask_stop_total [OF t(4)])
  show "\<exists>x. caught unreadable ((the_default default_classify (st_classify step)) r c) = Inr x"
  proof (cases "st_classify step")
    case None
    then show ?thesis by (simp add: caught_def default_classify_def the_default_def)
  next
    case (Some f)
    then show ?thesis using t(5) caught_tame [of "f r c" unreadable] by (simp add: the_default_def)
  qed
qed

lemma decide_total: "tame_step step \<Longrightarrow> \<exists>x. decide env cfg step c rec st = Inr x"
proof -
  assume t: "tame_step step"
  have "\<exists>x. decide_gates cfg (ru_executed st) step c rec = Inr x"
  proof (cases "blocked_by (c rec) step")
    case None
    obtain ok why where "applies_gate step (c rec) = Inr (ok, why)" using gates_total(1) [OF t] by fastforce
    moreover obtain ok2 rec2 where "when_gate step (c rec) rec = Inr (ok2, rec2)" using gates_total(2) [OF t] by fastforce
    ultimately show ?thesis using None by (simp add: decide_gates_def)
  qed (simp add: decide_gates_def)
  then obtain d where "decide_gates cfg (ru_executed st) step c rec = Inr d" by blast
  then show ?thesis by (cases d) (simp_all add: decide_def)
qed

lemma attempts_error:
  assumes "returns reg env"
  shows "attempts env chk ps left k rec w = (Inl e, w') \<Longrightarrow> check_asks_port reg chk \<and> port_error e"
proof (induction left arbitrary: k rec w)
  case 0
  then show ?case using assms
    unfolding attempts.simps [of env chk ps 0 k] returns_def
    by (auto simp: Let_def split: prod.splits sum.splits exn.splits if_splits) (metis fst_conv exn.distinct exn.simps)+
next
  case (Suc left)
  then show ?case using assms
    unfolding attempts.simps [of env chk ps "Suc left" k] returns_def
    by (auto simp: Let_def split: prod.splits sum.splits exn.splits if_splits) (metis fst_conv exn.distinct exn.simps)+
qed

lemma classify_record_total: "tame_step step \<Longrightarrow> \<exists>x. classify_record spec step c got rec = Inr x"
proof -
  assume t: "tame_step step"
  obtain x where "caught unreadable ((the_default default_classify (st_classify step)) got (c rec)) = Inr x"
    using gates_total(5) [OF t] by blast
  then show ?thesis by (simp add: classify_record_def Let_def)
qed

lemma run_check_error:
  assumes "tame_step step" "returns reg env" "run_check env spec step c ps rec st = Inl e"
  shows "check_asks_port reg (st_check step) \<and> port_error e"
proof -
  obtain t0 w0 where c0: "en_clock env (ru_world st) = (t0, w0)" by (cases "en_clock env (ru_world st)")
  obtain r w1 where a: "attempts env (st_check step) ps (st_retries step) 0 rec w0 = (r, w1)"
    by (cases "attempts env (st_check step) ps (st_retries step) 0 rec w0")
  obtain t1 w2 where c1: "en_clock env w1 = (t1, w2)" by (cases "en_clock env w1")
  obtain utc w3 where u: "en_utc env w2 = (utc, w3)" by (cases "en_utc env w2")
  show ?thesis
  proof (cases r)
    case (Inl e')
    then show ?thesis using a c0 assms(3) by (auto simp: run_check_def Let_def dest: attempts_error [OF assms(2)])
  next
    case (Inr x)
    obtain rec1 result where x: "x = (rec1, result)" by (cases x)
    show ?thesis
    proof (cases result)
      case (Some got)
      let ?rec2 = "fill_record (en_replay env) utc (fl64 (of_int (millis (fsub t1 t0)) / 1000)) got rec1"
      obtain rec3 where r3: "classify_record spec step c got ?rec2 = Inr rec3" using classify_record_total [OF assms(1)] by blast
      obtain y z where "ask_stop (st_stop step) (c rec3) = Inr y" "ask_stop (st_stop_subject step) (c rec3) = Inr z"
        using gates_total(3,4) [OF assms(1)] by blast
      then show ?thesis using c0 a c1 u Some r3 Inr x assms(3) by (simp add: run_check_def Let_def)
    qed (use c0 a Inr x assms(3) in \<open>simp add: run_check_def Let_def\<close>)
  qed
qed

lemma visit_error:
  assumes t: "tame_step step" and r: "returns reg env" and v: "visit env spec cfg v step rec st = Inl e"
  shows "check_asks_port reg (st_check step) \<and> port_error e"
proof -
  obtain d w where d: "decide env cfg step (\<lambda>r. mk_ctx cfg v (ru_records st @ [r])) rec st = Inr (d, w)"
    using decide_total [OF t] by fastforce
  then show ?thesis using v by (cases d) (auto simp: visit_def Let_def dest: run_check_error [OF t r])
qed

lemma subject_visit_error:
  assumes "tame_step step" "returns reg env" "subject_visit env spec cfg fe v step rec sr st = Inl e"
  shows "check_asks_port reg (st_check step) \<and> port_error e"
proof -
  obtain used st1 where "slice_used env fe sr st = (used, st1)" by (cases "slice_used env fe sr st")
  then show ?thesis
    using assms(3) by (auto simp: subject_visit_def Let_def bind_exn_Inl split: if_splits dest: visit_error [OF assms(1,2)])
qed

lemma subject_steps_error:
  assumes "returns reg env"
  shows "subject_steps env reg cfg fe v subject steps sr st = Inl e \<Longrightarrow> list_all tame_step steps \<Longrightarrow>
     list_all (\<lambda>s. dict_get reg (st_check s) \<noteq> None) steps \<Longrightarrow>
     list_ex (\<lambda>s. check_asks_port reg (st_check s)) steps \<and> port_error e"
proof (induction steps arbitrary: sr st)
  case (Cons s steps)
  then obtain spec where spec: "dict_get reg (st_check s) = Some spec" by auto
  let ?rec = "new_record s spec (st_step_id s @ ''@'' @ subject) (Some subject) (Some (fe_template_id fe)) (Some (st_step_id s))"
  show ?case
  proof (cases "subject_visit env spec cfg fe v s ?rec sr st")
    case (Inl e')
    then show ?thesis using Cons.prems spec subject_visit_error [OF _ assms Inl] by simp
  next
    case (Inr x)
    then show ?thesis using Cons spec by (cases x) auto
  qed
qed simp

lemma template_subjects_error:
  assumes "returns reg env" "list_all tame_step (fe_steps fe)" "list_all (\<lambda>s. dict_get reg (st_check s) \<noteq> None) (fe_steps fe)"
  shows "template_subjects env reg cfg fe subs unf st = Inl e \<Longrightarrow>
     list_ex (\<lambda>s. check_asks_port reg (st_check s)) (fe_steps fe) \<and> port_error e"
proof (induction subs arbitrary: unf st)
  case (Cons sub subs)
  obtain subject item where sub: "sub = (subject, item)" by (cases sub)
  obtain t0 w where c: "en_clock env (ru_world st) = (t0, w)" by (cases "en_clock env (ru_world st)")
  show ?case
    using Cons by (auto simp: sub c bind_exn_Inl dest: subject_steps_error [OF assms(1) _ assms(2,3)])
qed simp

lemma subject_loop_error: "subject_loop ty es found = Inl e \<Longrightarrow> ty = ''ldap_port'' \<and> port_error e"
proof (induction es arbitrary: found)
  case (Cons x es)
  then show ?case using validate_port_error [of ty "entry_key x" e]
    by (auto simp: bind_exn_Inl subject_step_def split: prod.splits option.splits)
qed simp

lemma template_start_error: "template_start cfg fe st = Inl e \<Longrightarrow> fe_subject_type fe = ''ldap_port'' \<and> port_error e"
  by (auto simp: template_start_def subjects_of_def Let_def bind_exn_Inl split: if_splits dest: subject_loop_error)

lemma ordered_items_registered:
  "ordered_items reg prior items \<Longrightarrow> list_all (\<lambda>s. dict_get reg (st_check s) \<noteq> None) (plan_steps items)"
  by (induction reg prior items rule: ordered_items.induct) (auto simp: step_checked_def list_all_iff split: option.splits)

lemma plan_asks_port_Cons:
  "plan_asks_port reg (PStep s # items) = (check_asks_port reg (st_check s) \<or> plan_asks_port reg items)"
  "plan_asks_port reg (PForEach fe # items) =
     (list_ex (\<lambda>s. check_asks_port reg (st_check s)) (fe_steps fe) \<or> fe_subject_type fe = ''ldap_port'' \<or> plan_asks_port reg items)"
  by (auto simp: plan_asks_port_def)

lemma run_items_error:
  assumes "returns reg env"
  shows "run_items env reg cfg items enums st = Inl e \<Longrightarrow> list_all tame_step (plan_steps items) \<Longrightarrow>
     list_all (\<lambda>s. dict_get reg (st_check s) \<noteq> None) (plan_steps items) \<Longrightarrow> plan_asks_port reg items \<and> port_error e"
proof (induction items arbitrary: enums st)
  case (Cons item items)
  show ?case
  proof (cases item)
    case (PStep s)
    then obtain spec where "dict_get reg (st_check s) = Some spec" using Cons.prems by auto
    then show ?thesis using Cons PStep by (auto simp: bind_exn_Inl plan_asks_port_Cons dest: visit_error [OF _ assms])
  next
    case (PForEach fe)
    have r: "list_all tame_step (fe_steps fe)" "list_all (\<lambda>s. dict_get reg (st_check s) \<noteq> None) (fe_steps fe)"
      using Cons.prems(2,3) PForEach by simp_all
    show ?thesis
      using Cons PForEach
      by (auto simp: bind_exn_Inl plan_asks_port_Cons dest: template_start_error template_subjects_error [OF assms r])
  qed
qed simp

section \<open>Properties\<close>

text \<open>C6: The planner refines an abstract machine. A run that returns is a run of the machine that appends one record
  at a time, either skipped without running anything, or executed: then the run has not stopped, its step budget is not
  used up, the step is attempted at most twice, and its requirements were accepted before it. The trace has the
  machine's records and counts the checks it really ran.\<close>

theorem run_plan_refines:
  "case run_plan (plan_env src clock utc reg) reg plan inputs is_root max_seconds max_steps hint w of
     Inl e \<Rightarrow> True
   | Inr (t, w') \<Rightarrow>
       (\<exists>executed stopped. (machine_step (tr_max_steps t) reg plan is_root)\<^sup>*\<^sup>* (start_machine w)
          \<lparr>mc_records = tr_records t, mc_executed = executed, mc_stopped = stopped, mc_runs = rn_runs w'\<rparr>)
       \<and> tr_max_steps t = min max_steps HARD_MAX_STEPS \<and> tr_checks_run t = rn_runs w' - rn_runs w"
  using run_plan_facts by (fastforce simp: run_facts_def split: sum.splits)

text \<open>The budgets hold. A run that returns has at most 200 records, runs at most its budget of steps, and executes
  at most two checks for each step it runs.\<close>

theorem run_plan_within_budgets:
  "case run_plan (plan_env src clock utc reg) reg plan inputs is_root max_seconds max_steps hint w of
     Inl e \<Rightarrow> True
   | Inr (t, w') \<Rightarrow>
       length (tr_records t) \<le> HARD_MAX_STEPS \<and> length (filter did_run (tr_records t)) \<le> min max_steps HARD_MAX_STEPS
       \<and> tr_checks_run t \<le> Suc MAX_RETRIES * length (filter did_run (tr_records t))"
proof (cases "run_plan (plan_env src clock utc reg) reg plan inputs is_root max_seconds max_steps hint w")
  case (Inr r)
  obtain t w' where r: "r = (t, w')" by (cases r)
  note facts = run_plan_facts [OF Inr [unfolded r]]
  have "length (expected_ids (tr_enumerations t) plan) \<le> HARD_MAX_STEPS"
    using facts expected_ids_ok [of reg "[]" plan "tr_enumerations t"] by (auto simp: run_facts_def wf_plan_def)
  moreover have "map rc_step_id (tr_records t) = expected_ids (tr_enumerations t) plan" using facts by (simp add: run_facts_def)
  ultimately have "length (tr_records t) \<le> HARD_MAX_STEPS" by (metis length_map)
  moreover obtain executed stopped where m: "machine_ok (tr_max_steps t) reg plan is_root (rn_runs w)
           \<lparr>mc_records = tr_records t, mc_executed = executed, mc_stopped = stopped, mc_runs = rn_runs w'\<rparr>"
    using run_facts_ok [OF facts] by blast
  moreover have "tr_max_steps t = min max_steps HARD_MAX_STEPS" "tr_checks_run t = rn_runs w' - rn_runs w"
    using facts by (simp_all add: run_facts_def)
  ultimately show ?thesis
    using attempts_bound [of "tr_records t"] Inr r by (simp add: machine_ok_def le_diff_conv)
qed simp

text \<open>C7: No verdict without its grounds. In a trace, every record with a verdict (PASS, WARN or FAIL) is of a step of
  the plan that ran, as root if it needs root, after every step it requires (of the same subject, for the steps of its own
  template) had an outcome it accepts; and the verdict rests on an OK result that carries all the evidence its check
  promises. Every other record ran or is SKIPPED.\<close>

theorem verdicts_justified:
  "case run_plan (plan_env src clock utc reg) reg plan inputs is_root max_seconds max_steps hint w of
     Inl e \<Rightarrow> True
   | Inr (t, w') \<Rightarrow>
       list_all (justified_at plan is_root (tr_records t)) [0..<length (tr_records t)]
       \<and> list_all (trusted reg) (tr_records t) \<and> list_all (\<lambda>r. did_run r \<or> skipped r) (tr_records t)"
proof (cases "run_plan (plan_env src clock utc reg) reg plan inputs is_root max_seconds max_steps hint w")
  case (Inr r)
  obtain t w' where r: "r = (t, w')" by (cases r)
  then show ?thesis using run_facts_ok [OF run_plan_facts [OF Inr [unfolded r]]] Inr by (auto simp: machine_ok_def)
qed simp

text \<open>C8: Every step and every listed subject is accounted for. A trace has exactly one record for each plan step and one for each
  step and enumerated subject of a template, in the order of the plan, whatever happened; no id occurs twice. An enumeration that
  was made (COMPLETE or PARTIAL) rests on its source step's record, which passed: of the first 1000 entries listed there, the names
  that validate are exactly the subjects and the dropped ones, and every other entry is among the rejected. The subjects are sorted,
  distinct, valid and within the budget; COMPLETE means that none of these entries was dropped, rejected or left unfinished.\<close>

theorem every_step_has_a_record:
  "case run_plan (plan_env src clock utc reg) reg plan inputs is_root max_seconds max_steps hint w of
     Inl e \<Rightarrow> True
   | Inr (t, w') \<Rightarrow>
       map rc_step_id (tr_records t) = expected_ids (tr_enumerations t) plan \<and> distinct (map rc_step_id (tr_records t))
       \<and> items_ok plan (tr_enumerations t) \<and> items_made (tr_records t) plan (tr_enumerations t)"
proof (cases "run_plan (plan_env src clock utc reg) reg plan inputs is_root max_seconds max_steps hint w")
  case (Inr r)
  obtain t w' where r: "r = (t, w')" by (cases r)
  note facts = run_plan_facts [OF Inr [unfolded r]]
  then show ?thesis
    using expected_ids_ok [of reg "[]" plan "tr_enumerations t"] Inr r by (auto simp: run_facts_def wf_plan_def)
qed simp

text \<open>C9: A plan that validates runs to its end. If its gates, classifiers and stop rules raise at most what unusable evidence causes
  (TypeError, KeyError, ValueError and the like), then \<open>run_plan\<close> returns a trace, live or replayed, whatever the checks answer or
  raise. There is one exception: a plan with a check or a template that takes an LDAP port can end with the error the validator of
  ports raises; a plan without one always returns.\<close>

theorem run_plan_returns:
  assumes "validate_plan plan reg = Inr ()" "list_all tame_step (plan_steps plan)"
  shows "case run_plan (plan_env src clock utc reg) reg plan inputs is_root max_seconds max_steps hint w of
           Inl e \<Rightarrow> plan_asks_port reg plan \<and> port_error e
         | Inr t \<Rightarrow> True"
proof -
  let ?env = "plan_env src clock utc reg"
  obtain t0 w1 where c0: "en_clock ?env w = (t0, w1)" by (cases "en_clock ?env w")
  obtain started w2 where u: "en_utc ?env w1 = (started, w2)" by (cases "en_utc ?env w1")
  have "list_all (\<lambda>s. dict_get reg (st_check s) \<noteq> None) (plan_steps plan)"
    using ordered_items_registered validate_plan_wf [OF assms(1)] unfolding wf_plan_def by blast
  note err = run_items_error [OF plan_env_returns _ assms(2) this]
  show ?thesis
  proof (cases "run_plan ?env reg plan inputs is_root max_seconds max_steps hint w")
    case (Inl e)
    have "\<exists>cfg st. run_items ?env reg cfg plan [] st = Inl e"
      using Inl assms(1) c0 u by (auto simp: run_plan_def Let_def bind_exn_Inl split: prod.splits)
    then show ?thesis using err Inl by auto
  qed simp
qed

definition demo_spec :: "unit check_spec" where
  "demo_spec = \<lparr>cs_check_id = ''time.sync'', cs_params = [], cs_describe = [],
     cs_run = (\<lambda>p w. (Inr (res ''time.sync'' p OK [(''synchronized'', PBool True)] [] []), w)), cs_privilege = ''user'',
     cs_side_effects = ''none'', cs_timeout = 5, cs_evidence = [''synchronized''], cs_secrets = [], cs_applies = []\<rparr>"

definition demo_step :: step where
  "demo_step = \<lparr>st_step_id = ''time'', st_capability = ''time.sync'', st_check = ''time.sync'', st_title = ''Clock'', st_why = [],
     st_params = [], st_requires = [], st_after = [], st_when = None, st_classify = None, st_stop = None, st_needs_root = False,
     st_applies = None, st_retries = 0, st_stop_subject = None\<rparr>"

theorem run_plan_returns_witness:
  "validate_plan [PStep demo_step] [(''time.sync'', demo_spec)] = Inr () \<and> \<not> plan_asks_port [(''time.sync'', demo_spec)] [PStep demo_step] \<and>
   (\<exists>t. run_plan (plan_env None (\<lambda>w. (0, w)) (\<lambda>w. ([], w)) [(''time.sync'', demo_spec)]) [(''time.sync'', demo_spec)]
      [PStep demo_step] [] False 60 10 [] \<lparr>rn_cache = [], rn_runs = 0, rn_world = ()\<rparr> = Inr t)"
proof -
  have v: "validate_plan [PStep demo_step] [(''time.sync'', demo_spec)] = Inr ()" by code_simp
  have t: "list_all tame_step (plan_steps [PStep demo_step])" by (simp add: tame_step_def demo_step_def)
  have n: "\<not> plan_asks_port [(''time.sync'', demo_spec)] [PStep demo_step]" by code_simp
  show ?thesis
    using v n run_plan_returns [OF v t, of None "\<lambda>w. (0, w)" "\<lambda>w. ([], w)" "[]" False 60 10 "[]" "\<lparr>rn_cache = [], rn_runs = 0, rn_world = ()\<rparr>"]
    by (auto split: sum.splits)
qed

end
