(* ===== verification/ReplCause.thy ===== *)
theory ReplCause
  imports Prelude
begin

text \<open>
  The causal knowledge of replication, \<open>replication/causal.py\<close>: which capability may depend on which, the closed
  registry of rules that may establish one link of a cause chain, and the check every reported chain passes.
\<close>

section \<open>Definitions\<close>

definition SYMPTOM :: string where "SYMPTOM = ''SYMPTOM''"

definition DEPENDS_ON :: "(string \<times> string list) list" where
  "DEPENDS_ON =
    [(''REPLICATION'', [''LOCAL_DS'', ''DNS'', ''NETWORK'', ''PEER_DS'', ''TLS'', ''KERBEROS'', ''AUTHORIZATION'', ''REPLICA_DATA'']),
     (''KERBEROS'', [''LOCAL_KDC'', ''TIME'', ''PRINCIPAL'', ''KEYTAB'', ''DNS'', ''NETWORK'']),
     (''PEER_DS'', [''NETWORK'']), (''NETWORK'', [''DNS'']), (''LOCAL_DS'', [''STORAGE'']),
     (''LOCAL_KDC'', [''LOCAL_DS'']), (''AUTHORIZATION'', [''PRINCIPAL'']), (''TLS'', [''TIME'']), (''DNS'', []),
     (''TIME'', []), (''PRINCIPAL'', []), (''KEYTAB'', []), (''STORAGE'', []), (''REPLICA_DATA'', []),
     (''TOPOLOGY'', [''LOCAL_DS''])]"

record discriminator =
  di_id :: string
  di_source :: string
  di_target :: string
  di_rule :: string

definition discriminator_of :: "string \<Rightarrow> string \<Rightarrow> string \<Rightarrow> string \<Rightarrow> string \<times> discriminator" where
  "discriminator_of i s t r = (i, \<lparr>di_id = i, di_source = s, di_target = t, di_rule = r\<rparr>)"

definition DISCRIMINATORS :: "(string \<times> discriminator) list" where
  "DISCRIMINATORS =
    [discriminator_of ''agreement-status'' SYMPTOM ''REPLICATION''
       ''the agreement's last update status (389-DS text/JSON) falls in a failing class of replication.status'',
     discriminator_of ''local-ds-down'' SYMPTOM ''LOCAL_DS''
       ''this server's Directory Server unit is not active (systemd), so its agreements cannot run or be read'',
     discriminator_of ''local-kdc-down'' SYMPTOM ''LOCAL_KDC''
       ''this server's krb5kdc unit is not active (systemd)'',
     discriminator_of ''local-storage'' SYMPTOM ''STORAGE''
       ''the Directory Server's file system is read-only or has less free space than the threshold'',
     discriminator_of ''ds-keytab-local'' SYMPTOM ''KEYTAB''
       ''the Directory Server keytab is missing, not readable by the dirsrv user, or lacks this server's ldap/ key'',
     discriminator_of ''pair-clock-skew'' SYMPTOM ''TIME''
       ''this host's clock differs from the peer's root DSE currentTime by at least the 300 s Kerberos tolerance'',
     discriminator_of ''peer-name-unresolved-now'' SYMPTOM ''DNS''
       ''the peer's name does not resolve through this host's resolver now (the agreement's recorded status may still show its last session as successful)'',
     discriminator_of ''peer-ds-refused-now'' SYMPTOM ''PEER_DS''
       ''the agreement's LDAP port is refused now while 443 on the same peer accepts connections (the recorded status may still show the last session as successful)'',
     discriminator_of ''peer-no-ldap-answer-now'' SYMPTOM ''PEER_DS''
       ''this host's own read of the peer's root DSE gets no LDAP answer now (the recorded status may still show the last session as successful)'',
     discriminator_of ''peer-tls-fails-now'' SYMPTOM ''TLS''
       ''this host's own TLS connection to the agreement's port fails at the TLS layer now'',
     discriminator_of ''reverse-acceptor-kerberos'' ''REPLICATION'' ''KERBEROS''
       ''the peer's agreement towards this server fails with LDAP 49 or 389-DS's generic Local error (no specific Kerberos class, no measured skew of 300 s or more): its GSSAPI bind fails, and this server accepts it'',
     discriminator_of ''acceptor-keytab-unusable'' ''KERBEROS'' ''KEYTAB''
       ''this server, the accepting side of that GSSAPI bind, cannot use its own Directory Server keytab (missing, not readable by dirsrv, or without its ldap/ key)'',
     discriminator_of ''status-transport'' ''REPLICATION'' ''PEER_DS''
       ''status class TRANSPORT and this host's own read of the peer's root DSE gets no LDAP answer'',
     discriminator_of ''peer-ds-refused-host-up'' ''REPLICATION'' ''PEER_DS''
       ''status class TRANSPORT, the agreement's LDAP port is REFUSED while 443 on the same peer accepts connections: the host is up and reachable; its Directory Server is not accepting connections on that port'',
     discriminator_of ''peer-name-unresolved'' ''REPLICATION'' ''DNS''
       ''status class TRANSPORT and the peer's name does not resolve through this host's resolver (getent)'',
     discriminator_of ''peer-unreachable'' ''PEER_DS'' ''NETWORK''
       ''TCP to the agreement's port AND to 443 on the peer time out or are unreachable from this host'',
     discriminator_of ''status-gssapi'' ''REPLICATION'' ''KERBEROS''
       ''status class is a GSSAPI/Kerberos class, or this host's reproduction of the supplier's GSSAPI bind fails with one'',
     discriminator_of ''kerberos-no-kdc-local-down'' ''KERBEROS'' ''LOCAL_KDC''
       ''the Kerberos error is 'cannot contact any KDC' and this server's own krb5kdc is not active'',
     discriminator_of ''kdc-needs-local-ds'' ''LOCAL_KDC'' ''LOCAL_DS''
       ''krb5kdc is not active and this server's Directory Server (the KDC's database back end) is not active either'',
     discriminator_of ''kerberos-clock-skew'' ''KERBEROS'' ''TIME''
       ''a Kerberos clock-skew error and this host's clock differs from the peer's root DSE currentTime by at least the 300 s Kerberos tolerance'',
     discriminator_of ''kerberos-server-principal-absent'' ''KERBEROS'' ''PRINCIPAL''
       ([CHR 0x27] @ ''server not found in Kerberos database' and the peer's ldap/ service principal is absent from this server's complete list of ldap/ principals''),
     discriminator_of ''kerberos-local-credentials'' ''KERBEROS'' ''KEYTAB''
       ''a Kerberos credentials error and the Directory Server keytab is missing, unreadable for dirsrv, lacks the ldap/ key of this server, or the KDC rejects that key (kinit -k)'',
     discriminator_of ''status-invalid-credentials-gssapi'' ''REPLICATION'' ''KERBEROS''
       ''status LDAP 49 on a SASL/GSSAPI agreement, and this host's reproduction obtains its ticket but the peer rejects the GSSAPI bind with LDAP 49 as well (the failure is on the accepting side)'',
     discriminator_of ''status-access'' ''REPLICATION'' ''AUTHORIZATION''
       ''status class INSUFFICIENT_ACCESS (LDAP 50 / replication permission denied)'',
     discriminator_of ''access-not-a-manager'' ''AUTHORIZATION'' ''PRINCIPAL''
       ''this server's ldap/ principal is not a member of cn=replication managers in this server's copy of the directory (the peer's copy may differ)'',
     discriminator_of ''status-data'' ''REPLICATION'' ''REPLICA_DATA''
       ''status class says the consumer's data needs administrator action (changelog purged, generation ID mismatch, replica ID conflict, re-initialization required)'',
     discriminator_of ''status-tls'' ''REPLICATION'' ''TLS''
       ''status class TLS, or the status says the connection failed and this host's own TLS connection to the agreement's port fails at the TLS layer'',
     discriminator_of ''kerberos-49-with-measured-skew'' ''KERBEROS'' ''TIME''
       ''a GSSAPI bind refused with LDAP 49 (this host obtained its ticket) and a clock difference of at least the 300 s Kerberos tolerance measured between the two servers'',
     discriminator_of ''storage-under-ds'' ''LOCAL_DS'' ''STORAGE''
       ''the Directory Server is not active and its file system is read-only or nearly full'']"

record causal_link =
  lk_claim :: string
  lk_subject :: string
  lk_capability :: string
  lk_evidence :: "string list"
  lk_discriminator :: string
  lk_scope :: string

record cause_chain =
  ch_chain_id :: string
  ch_subject :: string
  ch_links :: "causal_link list"
  ch_boundary :: string
  ch_next_action :: "string list"
  ch_handoff :: "(string \<times> string) list option"

text \<open>\<open>links[-1]\<close> of no links raises IndexError.\<close>

definition chain_root :: "cause_chain \<Rightarrow> exn + causal_link" where
  "chain_root c = (if ch_links c = [] then Inl IndexError else Inr (last (ch_links c)))"

definition link_dict :: "causal_link \<Rightarrow> pyval" where
  "link_dict l = PDict [(''claim'', PStr (lk_claim l)), (''subject'', PStr (lk_subject l)),
     (''capability'', PStr (lk_capability l)), (''evidence'', PList (map PStr (lk_evidence l))),
     (''discriminator'', PStr (lk_discriminator l)), (''scope'', PStr (lk_scope l))]"

definition chain_dict :: "cause_chain \<Rightarrow> exn + pyval" where
  "chain_dict c = bind_exn (chain_root c) (\<lambda>r. Inr (PDict [(''chain_id'', PStr (ch_chain_id c)),
     (''subject'', PStr (ch_subject c)), (''links'', PList (map link_dict (ch_links c))), (''deepest_proven'', link_dict r),
     (''boundary'', PStr (ch_boundary c)), (''next_action'', PList (map PStr (ch_next_action c))),
     (''handoff'', (case ch_handoff c of None \<Rightarrow> PNone
        | Some h \<Rightarrow> if h = [] then PNone else PDict (map (\<lambda>(k, v). (k, PStr v)) h)))]))"

definition depends :: "string \<Rightarrow> string \<Rightarrow> bool" where
  "depends a b = (b \<in> set (the_default [] (map_of DEPENDS_ON a)))"

text \<open>The loop of \<open>check_chain\<close>: \<open>prev\<close> is the capability of the link before, \<open>i\<close> the number of the link.
  \<open>ChainError\<close> is a ValueError.\<close>

definition link_error :: "string \<Rightarrow> nat \<Rightarrow> string \<Rightarrow> exn" where
  "link_error chain_id i what = ValueError (''link '' @ show_nat i @ '' of '' @ chain_id @ '': '' @ what)"

fun check_links :: "string \<Rightarrow> nat \<Rightarrow> string \<Rightarrow> causal_link list \<Rightarrow> exn + unit" where
  "check_links chain_id i prev [] = Inr ()"
| "check_links chain_id i prev (l # ls) =
     (case map_of DISCRIMINATORS (lk_discriminator l) of
        None \<Rightarrow> Inl (link_error chain_id i (''unknown discriminator '' @ lk_discriminator l))
      | Some d \<Rightarrow>
          if di_source d \<noteq> prev \<or> di_target d \<noteq> lk_capability l
          then Inl (link_error chain_id i (di_id d @ '' is for '' @ di_source d @ ''->'' @ di_target d @ '', not '' @ prev
                      @ ''->'' @ lk_capability l))
          else if prev \<noteq> SYMPTOM \<and> \<not> depends prev (lk_capability l)
          then Inl (link_error chain_id i (prev @ ''->'' @ lk_capability l @ '' is not in the capability DAG''))
          else if lk_evidence l = [] then Inl (link_error chain_id i ''no evidence'')
          else check_links chain_id (Suc i) (lk_capability l) ls)"

definition check_chain :: "cause_chain \<Rightarrow> exn + unit" where
  "check_chain c = check_links (ch_chain_id c) 0 SYMPTOM (ch_links c)"

definition edges :: "(string \<times> string) list" where
  "edges = sort (concat (map (\<lambda>(a, bs). map (\<lambda>b. (a, b)) bs) DEPENDS_ON))"

section \<open>Lemmas\<close>

text \<open>A rank that every edge lowers: the capability graph has no cycle and no path of more than five capabilities.\<close>

definition rank :: "string \<Rightarrow> nat" where
  "rank c = the_default 0 (map_of [(''REPLICATION'', 5), (''KERBEROS'', 4), (''LOCAL_KDC'', 3), (''LOCAL_DS'', 2), (''STORAGE'', 1),
     (''PEER_DS'', 3), (''NETWORK'', 2), (''DNS'', 1), (''AUTHORIZATION'', 2), (''PRINCIPAL'', 1), (''TLS'', 2), (''TIME'', 1),
     (''KEYTAB'', 1), (''REPLICA_DATA'', 1), (''TOPOLOGY'', 3)] c)"

lemma depends_edges: "depends a b \<Longrightarrow> \<exists>bs. (a, bs) \<in> set DEPENDS_ON \<and> b \<in> set bs"
  by (auto simp: depends_def the_default_def split: option.splits dest!: map_of_SomeD [OF sym])

lemma edges_lower_rank: "list_all (\<lambda>(a, bs). list_all (\<lambda>b. rank b < rank a) bs) DEPENDS_ON"
  by code_simp

lemma depends_rank: "depends a b \<Longrightarrow> rank b < rank a"
  using depends_edges [of a b] edges_lower_rank by (fastforce simp: list_all_iff)

lemma rank_bound: "rank c \<le> 5"
  by (simp add: rank_def the_default_def)

lemma targets_ranked: "list_all (\<lambda>(i, d). 1 \<le> rank (di_target d) \<and> di_target d \<noteq> SYMPTOM) DISCRIMINATORS"
  by code_simp

definition chain_caps :: "cause_chain \<Rightarrow> string list" where
  "chain_caps c = map lk_capability (ch_links c)"

text \<open>A path of the capability graph from \<open>prev\<close>.\<close>

fun dag_path :: "string \<Rightarrow> string list \<Rightarrow> bool" where
  "dag_path prev [] = True"
| "dag_path prev (c # cs) = ((prev = SYMPTOM \<or> depends prev c) \<and> dag_path c cs)"

definition established :: "string \<Rightarrow> causal_link \<Rightarrow> bool" where
  "established prev l = (lk_evidence l \<noteq> [] \<and> (case map_of DISCRIMINATORS (lk_discriminator l) of
     None \<Rightarrow> False | Some d \<Rightarrow> di_source d = prev \<and> di_target d = lk_capability l))"

lemma check_links_iff:
  "check_links cid i prev ls = Inr () \<longleftrightarrow>
     dag_path prev (map lk_capability ls) \<and> list_all2 established (take (length ls) (prev # map lk_capability ls)) ls"
  by (induction cid i prev ls rule: check_links.induct) (auto simp: established_def split: option.splits)

lemma established_target: "established prev l \<Longrightarrow> 1 \<le> rank (lk_capability l) \<and> lk_capability l \<noteq> SYMPTOM"
  using targets_ranked by (auto simp: established_def list_all_iff split: option.splits dest!: map_of_SomeD)

lemma path_ranks:
  "dag_path prev cs \<Longrightarrow> prev \<noteq> SYMPTOM \<Longrightarrow> list_all (\<lambda>c. 1 \<le> rank c \<and> c \<noteq> SYMPTOM) (prev # cs) \<Longrightarrow>
     sorted_wrt (\<lambda>a b. rank b < rank a) (prev # cs) \<and> length (prev # cs) \<le> rank prev"
proof (induction prev cs rule: dag_path.induct)
  case (2 prev c cs)
  then have "rank c < rank prev" using depends_rank by simp
  moreover have "sorted_wrt (\<lambda>a b. rank b < rank a) (c # cs) \<and> length (c # cs) \<le> rank c" using 2 by simp
  ultimately show ?case by auto
qed simp

lemma descending_distinct: "sorted_wrt (\<lambda>a b. (f b :: nat) < f a) cs \<Longrightarrow> distinct cs"
  by (induction cs) auto

lemma chain_path:
  assumes "list_all2 established prevs ls" "dag_path SYMPTOM (map lk_capability ls)"
  shows "sorted_wrt (\<lambda>a b. rank b < rank a) (map lk_capability ls) \<and> length ls \<le> 5"
proof (cases "map lk_capability ls")
  case (Cons c cs)
  have "list_all (\<lambda>c. 1 \<le> rank c \<and> c \<noteq> SYMPTOM) (map lk_capability ls)"
    using assms(1) established_target by (auto simp: list_all2_conv_all_nth list_all_length)
  then have "sorted_wrt (\<lambda>a b. rank b < rank a) (c # cs) \<and> length (c # cs) \<le> rank c"
    using path_ranks [of c cs] assms(2) Cons by simp
  then show ?thesis using Cons rank_bound [of c] by (metis length_map le_trans)
qed simp

section \<open>Properties\<close>

text \<open>What is reported as a cause chain is one. \<open>check_chain\<close> accepts a chain exactly when every link has evidence and
  is of a registered discriminator for exactly the step it takes, and every step after the first is an edge of the
  capability graph.\<close>

theorem check_chain_iff:
  "check_chain c = Inr () \<longleftrightarrow>
     list_all2 established (take (length (ch_links c)) (SYMPTOM # chain_caps c)) (ch_links c)
     \<and> dag_path SYMPTOM (chain_caps c)"
  using check_links_iff [of "ch_chain_id c" 0 SYMPTOM "ch_links c"] by (auto simp: check_chain_def chain_caps_def)

text \<open>An accepted chain of causes descends. No capability occurs in it twice (so nothing is its own cause) and it
  has at most five links.\<close>

theorem accepted_chain_descends:
  "case check_chain c of
     Inl e \<Rightarrow> True
   | Inr u \<Rightarrow> distinct (chain_caps c) \<and> sorted_wrt (\<lambda>a b. rank b < rank a) (chain_caps c) \<and> length (ch_links c) \<le> 5"
proof (cases "check_chain c")
  case (Inr u)
  then have "list_all2 established (take (length (ch_links c)) (SYMPTOM # chain_caps c)) (ch_links c)" "dag_path SYMPTOM (chain_caps c)"
    using check_links_iff [of "ch_chain_id c" 0 SYMPTOM "ch_links c"] by (auto simp: check_chain_def chain_caps_def)
  then have "sorted_wrt (\<lambda>a b. rank b < rank a) (chain_caps c) \<and> length (ch_links c) \<le> 5"
    using chain_path by (simp add: chain_caps_def)
  then show ?thesis using Inr descending_distinct by auto
qed simp

text \<open>The tables agree: every discriminator is registered under its own id, once, and the step of every discriminator
  that does not start at the symptom is an edge of the capability graph, whose every capability is declared.\<close>

lemma registry_consistent:
  "distinct (map fst DISCRIMINATORS) \<and> list_all (\<lambda>(i, d). di_id d = i \<and> (di_source d = SYMPTOM \<or> depends (di_source d) (di_target d))) DISCRIMINATORS
   \<and> list_all (\<lambda>(a, b). map_of DEPENDS_ON a \<noteq> None \<and> map_of DEPENDS_ON b \<noteq> None) edges"
  by code_simp

end
