(* ===== verification/ReplStatus.thy ===== *)
theory ReplStatus
  imports Textsafe
begin

text \<open>
  The status of a replication agreement, \<open>replication/status.py\<close>: an ordered table of phrases,
    LDAP result codes, and
  the two forms of the status (text and JSON). What \<open>json.loads\<close> makes of the JSON text is an argument of the model.
\<close>

section \<open>Definitions\<close>

datatype status_class = ST_OK | NO_SESSIONS | TRANSPORT | TLS | GSSAPI_SERVER_NOT_FOUND | GSSAPI_CLOCK_SKEW | GSSAPI_NO_KDC | GSSAPI_CREDENTIALS | GSSAPI_OTHER | INVALID_CREDENTIALS | INSUFFICIENT_ACCESS | BUSY | BACKOFF | CHANGELOG_PURGED | GENERATION_MISMATCH | REPLICA_ID_CONFLICT | ADMIN_ACTION | UNCLASSIFIED

fun class_name :: "status_class \<Rightarrow> string" where
  "class_name ST_OK = ''OK''"
| "class_name NO_SESSIONS = ''NO_SESSIONS''"
| "class_name TRANSPORT = ''TRANSPORT''"
| "class_name TLS = ''TLS''"
| "class_name GSSAPI_SERVER_NOT_FOUND = ''GSSAPI_SERVER_NOT_FOUND''"
| "class_name GSSAPI_CLOCK_SKEW = ''GSSAPI_CLOCK_SKEW''"
| "class_name GSSAPI_NO_KDC = ''GSSAPI_NO_KDC''"
| "class_name GSSAPI_CREDENTIALS = ''GSSAPI_CREDENTIALS''"
| "class_name GSSAPI_OTHER = ''GSSAPI_OTHER''"
| "class_name INVALID_CREDENTIALS = ''INVALID_CREDENTIALS''"
| "class_name INSUFFICIENT_ACCESS = ''INSUFFICIENT_ACCESS''"
| "class_name BUSY = ''BUSY''"
| "class_name BACKOFF = ''BACKOFF''"
| "class_name CHANGELOG_PURGED = ''CHANGELOG_PURGED''"
| "class_name GENERATION_MISMATCH = ''GENERATION_MISMATCH''"
| "class_name REPLICA_ID_CONFLICT = ''REPLICA_ID_CONFLICT''"
| "class_name ADMIN_ACTION = ''ADMIN_ACTION''"
| "class_name UNCLASSIFIED = ''UNCLASSIFIED''"

definition TRANSIENT :: "status_class list" where "TRANSIENT = [BUSY, BACKOFF, NO_SESSIONS]"
definition NEEDS_ADMIN :: "status_class list" where
  "NEEDS_ADMIN = [CHANGELOG_PURGED, GENERATION_MISMATCH, REPLICA_ID_CONFLICT, ADMIN_ACTION]"
definition GSSAPI :: "status_class list" where
  "GSSAPI = [GSSAPI_SERVER_NOT_FOUND, GSSAPI_CLOCK_SKEW, GSSAPI_NO_KDC, GSSAPI_CREDENTIALS, GSSAPI_OTHER]"

text \<open>The table as the file has it: the two patterns of TRANSPORT that hold U+0008 do so in the source.\<close>

definition PHRASES :: "(status_class \<times> rx) list" where
  "PHRASES =
    [(GSSAPI_SERVER_NOT_FOUND, ci (seqs [lit ''server '', opt (seqs [upto 1 300 (Cls (\<lambda>c. \<not> is_space c)),
      lit '' '']), lit ''not found in kerberos database''])),
     (GSSAPI_CLOCK_SKEW, ci (lit ''clock skew too great'')),
     (GSSAPI_NO_KDC, ci (alts [lit ''cannot contact any kdc'', lit ''cannot find kdc for realm'',
       lit ''unable to reach any kdc''])),
     (GSSAPI_CREDENTIALS, ci (alts [lit ''keytab contains no suitable keys'', lit ''no key table entry found'',
       lit ''key table entry not found'', lit ''preauthentication failed'', lit ''password incorrect'',
        seqs [lit ''client '', opt (seqs [upto 1 300 (Cls (\<lambda>c. \<not> is_space c)), lit '' '']),
        lit ''not found in kerberos database''], lit ''no kerberos credentials available'',
        lit ''no credentials cache found'', seqs [lit ''credentials cache file '',
        upto 0 200 (Cls (\<lambda>c. c \<noteq> CHR 0x0A)), lit '' not found''], lit ''ticket expired'',
        seqs [lit ''client'', opt (lit [CHR 0x27]), opt (lit ''s''), lit '' credentials have been revoked''],
        lit ''key version number for principal in key table is incorrect'', lit ''decrypt integrity check failed''])),
     (GSSAPI_OTHER, ci (alts [seqs [lit ''gssapi '', alts [lit ''error'', lit ''failure'']],
       lit ''unspecified gss failure'', lit ''sasl(-1): generic failure''])),
     (CHANGELOG_PURGED, ci (alts [lit ''purged from the changelog'', seqs [lit ''changelog '', opt (lit ''has been ''),
       lit ''purged''], seqs [lit ''below '', opt (lit ''the ''), lit ''purge'', opt (lit '' ''), lit ''point''],
        lit ''csn below purge point''])),
     (GENERATION_MISMATCH, ci (alts [seqs [lit ''different '', opt (lit ''database ''), lit ''generation id''],
       lit ''generation id mismatch'', lit ''different data version''])),
     (REPLICA_ID_CONFLICT, ci (lit ''duplicate replica id'')),
     (ADMIN_ACTION, ci (alts [seqs [alts [lit ''must'', seqs [lit ''need'', opt (lit ''s''), lit '' to''],
       lit ''should''], lit '' be '', opt (seqs [lit ''re'', opt (lit ''-'')]), lit ''initiali'',
        Cls (\<lambda>c. c \<in> set ''sz''), lit ''ed''], seqs [lit ''require'', opt (lit ''s''), lit '' '',
        opt (lit ''a ''), opt (seqs [lit ''re'', opt (lit ''-'')]), lit ''initiali'',
        Cls (\<lambda>c. c \<in> set ''sz''), lit ''ation'']])),
     (BUSY, ci (alts [lit ''replica busy'', lit ''currently being updated by another supplier'',
       lit ''can't acquire busy replica''])),
     (BACKOFF, ci (alts [seqs [WordB, lit ''backing off'', WordB], seqs [WordB, lit ''backoff'', WordB],
       lit ''transient error''])),
     (INSUFFICIENT_ACCESS, ci (alts [lit ''insufficient access'', lit ''permission denied'',
       lit ''does not have permission''])),
     (INVALID_CREDENTIALS, ci (lit ''invalid credentials'')),
     (TLS, ci (alts [seqs [lit ''tls '', alts [lit ''negotiation'', lit ''handshake'', lit ''error'']],
       seqs [lit ''ssl '', alts [lit ''handshake'', lit ''error'']], lit ''certificate verify failed'',
        lit ''peer's certificate'', lit ''tls: hostname does not match'', lit ''unable to get local issuer''])),
     (TRANSPORT, ci (alts [seqs [lit ''can'', opt (lit [CHR 0x27]), lit ''t contact ldap server''],
       lit ''server is unavailable'', lit ([CHR 0x08] @ ''connect error'' @ [CHR 0x08]), lit ''connection refused'',
        lit ''timed out'', lit ([CHR 0x08] @ ''timeout'' @ [CHR 0x08]), lit ''server down'', lit ''no route to host'',
        lit ''network is unreachable'']))]"

definition LDAP_RC :: "(int \<times> status_class) list" where
  "LDAP_RC = [(-1, TRANSPORT), (81, TRANSPORT), (91, TRANSPORT), (-11, TRANSPORT), (-5, TRANSPORT), (85, TRANSPORT),
    (51, BUSY), (49, INVALID_CREDENTIALS), (50, INSUFFICIENT_ACCESS)]"

definition no_sessions_rx :: rx where "no_sessions_rx = ci (lit ''no replication sessions started'')"
definition success_rx :: rx where "success_rx = ci (alts [lit ''replica acquired successfully'',
  lit ''incremental update succeeded'', lit ''incremental update has succeeded'', lit ''total update succeeded'',
    lit ''replication session successful''])"
definition status_text_rx :: rx where "status_text_rx = seqs [Bos, star (Cls is_space), lit ''Error'',
  star (Cls is_space), lit ''('', Grp 1 (seqs [opt (lit ''-''), upto 1 6 (Cls is_digit09)]), lit '')'',
    star (Cls is_space), Grp 2 (star (Cls (\<lambda>_. True))), Eos]"

record agreement_status =
  as_cls :: status_class
  as_ldap_rc :: "int option"
  as_repl_rc :: "int option"
  as_state :: string
  as_message :: string
  as_source :: string

definition as_ok :: "agreement_status \<Rightarrow> bool" where "as_ok s = (as_cls s = ST_OK)"

fun first_phrase :: "(status_class \<times> rx) list \<Rightarrow> string \<Rightarrow> status_class" where
  "first_phrase [] t = UNCLASSIFIED"
| "first_phrase ((c, r) # ps) t = (if rx_found r t then c else first_phrase ps t)"

definition classify_text :: "string \<Rightarrow> status_class" where
  "classify_text s = first_phrase PHRASES (take 4096 s)"

definition int_text_rx :: rx where "int_text_rx = seqs [opt (lit ''-''), upto 1 6 (Cls is_digit09)]"

definition int_of :: "pyval \<Rightarrow> int option" where
  "int_of v = (case v of PInt i \<Rightarrow> Some i
     | PStr s \<Rightarrow> if rx_full int_text_rx (strip s) then read_int (strip s) else None
     | _ \<Rightarrow> None)"

text \<open>What either form of the status gives: codes, state, message and source.\<close>

type_synonym status_parts = "int option \<times> int option \<times> string \<times> string \<times> string"

definition doc_text :: "pydict \<Rightarrow> string \<Rightarrow> string" where
  "doc_text doc k = py_str (the_default (PStr []) (dict_get doc k))"

definition parts_of_json :: "pydict \<Rightarrow> status_parts" where
  "parts_of_json doc =
     (int_of (the_default PNone (dict_get doc ''ldap_rc'')), int_of (the_default PNone (dict_get doc ''repl_rc'')),
      str_lower (take 10 (doc_text doc ''state'')),
      join '' '' (map (doc_text doc) [''message'', ''ldap_rc_text'', ''repl_rc_text'']), ''json'')"

definition text_codes :: "string \<Rightarrow> int option \<times> int option" where
  "text_codes s =
     (case rx_match status_text_rx s of
        None \<Rightarrow> (None, None)
      | Some m \<Rightarrow>
          (let code = read_int (the_default [] (group m 1)); body = str_lower (the_default [] (group m 2))
           in if contains body ''problem connecting to replica'' then (code, None)
              else if contains body ''replication error acquiring replica'' then (None, code)
              else if code = Some 0 then (Some 0, Some 0) else (code, None)))"

definition parts_of_text :: "string \<Rightarrow> status_parts" where
  "parts_of_text s = (case text_codes (take 4096 s) of (l, r) \<Rightarrow> (l, r, [], take 4096 s, ''text''))"

definition no_text :: "string option \<Rightarrow> bool" where
  "no_text s = (case s of None \<Rightarrow> True | Some t \<Rightarrow> t = [])"

definition status_parts :: "(string \<Rightarrow> pyval option) \<Rightarrow> string option \<Rightarrow> string option \<Rightarrow> status_parts" where
  "status_parts loads txt json =
     (case (if no_text json then None else loads (take 8192 (the_default [] json))) of
        Some (PDict doc) \<Rightarrow> parts_of_json doc
      | _ \<Rightarrow> if no_text txt then (None, None, [], [], ''none'') else parts_of_text (the_default [] txt))"

definition zero_or_none :: "int option \<Rightarrow> bool" where
  "zero_or_none v = (v = Some 0 \<or> v = None)"

definition status_class_of :: "int option \<Rightarrow> int option \<Rightarrow> string \<Rightarrow> string \<Rightarrow> status_class" where
  "status_class_of ldap_rc repl_rc state message =
     (if rx_found no_sessions_rx message then NO_SESSIONS
      else let phrase = classify_text message
           in if zero_or_none ldap_rc \<and> zero_or_none repl_rc \<and> (phrase = UNCLASSIFIED \<or> phrase = ST_OK)
                 \<and> (rx_found success_rx message \<or> state = ''green'' \<and> ldap_rc = Some 0 \<and> repl_rc = Some 0)
              then ST_OK
              else if phrase \<noteq> UNCLASSIFIED then phrase
              else (case ldap_rc of
                      None \<Rightarrow> UNCLASSIFIED
                    | Some rc \<Rightarrow> (case map_of LDAP_RC rc of Some c \<Rightarrow> c | None \<Rightarrow> if rc = -2 then GSSAPI_OTHER else UNCLASSIFIED)))"

definition parse_status :: "(string \<Rightarrow> pyval option) \<Rightarrow> string option \<Rightarrow> string option \<Rightarrow> agreement_status" where
  "parse_status loads txt json =
     (case status_parts loads txt json of (l, r, state, message, source) \<Rightarrow>
        if source = ''none''
        then \<lparr>as_cls = UNCLASSIFIED, as_ldap_rc = None, as_repl_rc = None, as_state = [], as_message = [],
        as_source = ''none''\<rparr>
        else \<lparr>as_cls = status_class_of l r state message, as_ldap_rc = l, as_repl_rc = r, as_state = state,
              as_message = sanitize_text message 600, as_source = source\<rparr>)"

definition code_rx :: rx where "code_rx = seqs [lit ''('', Grp 1 (seqs [opt (lit ''-''), upto 1 4 (Cls is_digit09)]),
  lit '')'']"

definition classify_bind_error :: "string \<Rightarrow> int option \<Rightarrow> status_class" where
  "classify_bind_error stderr rc =
     (let phrase = classify_text stderr
      in if phrase \<noteq> UNCLASSIFIED then phrase
         else let code = (case rx_search code_rx stderr of None \<Rightarrow> None | Some m \<Rightarrow> read_int (the_default [] (group m 1)))
              in case (case code of None \<Rightarrow> None | Some n \<Rightarrow> map_of LDAP_RC n) of
                   Some c \<Rightarrow> c
                 | None \<Rightarrow> if code = Some (-2) then GSSAPI_OTHER else if rc = Some 255 then TRANSPORT else UNCLASSIFIED)"

fun meaning :: "status_class \<Rightarrow> string" where
  "meaning ST_OK = ''the last session succeeded''"
| "meaning NO_SESSIONS = ''no replication session has run since the Directory Server started (not proof of health)''"
| "meaning TRANSPORT = ''the supplier could not connect to the consumer's Directory Server''"
| "meaning TLS = ''the TLS layer of the connection to the consumer failed''"
| "meaning GSSAPI_SERVER_NOT_FOUND = ''the KDC has no service principal for the consumer's LDAP server''"
| "meaning GSSAPI_CLOCK_SKEW = ''Kerberos refused the exchange because the clocks are too far apart''"
| "meaning GSSAPI_NO_KDC = ''the supplier's Kerberos library could not reach a KDC''"
| "meaning GSSAPI_CREDENTIALS = ''the supplier has no usable Kerberos credentials for its LDAP service principal''"
| "meaning GSSAPI_OTHER = ''the GSSAPI (Kerberos) bind failed; the status text alone does not say why''"
| "meaning INVALID_CREDENTIALS = ''the consumer rejected the supplier's credentials (LDAP 49)''"
| "meaning INSUFFICIENT_ACCESS = ''the consumer does not let the supplier's identity send updates (LDAP 50 / permission denied)''"
| "meaning BUSY = ''the consumer was busy with another supplier (transient)''"
| "meaning BACKOFF = ''a transient error; the supplier backs off and retries by itself''"
| "meaning CHANGELOG_PURGED = ''the changes the consumer needs are no longer in the supplier's changelog''"
| "meaning GENERATION_MISMATCH = ''the consumer holds a different database generation than the supplier''"
| "meaning REPLICA_ID_CONFLICT = ''two servers use the same replica ID''"
| "meaning ADMIN_ACTION = ''389-DS reports the consumer needs administrator action (for example re-initialization)''"
| "meaning UNCLASSIFIED = ''an error ipa-diagnose does not recognize''"

section \<open>Lemmas\<close>

lemma first_phrase_in: "first_phrase ps t \<in> insert UNCLASSIFIED (set (map fst ps))"
  by (induction ps t rule: first_phrase.induct) auto

lemma classify_text_range: "classify_text s \<noteq> ST_OK \<and> classify_text s \<noteq> NO_SESSIONS"
proof -
  have "list_all (\<lambda>c. c \<noteq> ST_OK \<and> c \<noteq> NO_SESSIONS) (UNCLASSIFIED # map fst PHRASES)" by (simp add: PHRASES_def)
  then show ?thesis using first_phrase_in [of PHRASES "take 4096 s"] unfolding classify_text_def by (auto simp: list_all_iff)
qed

lemma ldap_rc_range: "map_of LDAP_RC rc = Some c \<Longrightarrow> c \<in> {TRANSPORT, BUSY, INVALID_CREDENTIALS,
  INSUFFICIENT_ACCESS}"
  by (auto simp: LDAP_RC_def split: if_splits)

lemma status_class_ok_iff:
  "status_class_of l r state message = ST_OK \<longleftrightarrow>
     \<not> rx_found no_sessions_rx message \<and> classify_text message = UNCLASSIFIED \<and> zero_or_none l \<and> zero_or_none r
     \<and> (rx_found success_rx message \<or> state = ''green'' \<and> l = Some 0 \<and> r = Some 0)"
proof -
  have c: "classify_text message \<noteq> ST_OK" using classify_text_range by simp
  have "(case l of None \<Rightarrow> UNCLASSIFIED
      | Some rc \<Rightarrow> (case map_of LDAP_RC rc of Some c \<Rightarrow> c | None \<Rightarrow> if rc = -2 then GSSAPI_OTHER else UNCLASSIFIED)) \<noteq> ST_OK"
    using ldap_rc_range by (cases l) (auto split: option.splits)
  then show ?thesis
    using c by (cases "rx_found no_sessions_rx message"; cases "classify_text message = UNCLASSIFIED") (auto simp: status_class_of_def Let_def)
qed

text \<open>The last pattern of the table, and the table with the two alternatives that need a backspace taken out of it.\<close>

definition transport_rx :: rx where
  "transport_rx = ci (alts [seqs [lit ''can'', opt (lit [CHR 0x27]), lit ''t contact ldap server''],
       lit ''server is unavailable'', lit ([CHR 0x08] @ ''connect error'' @ [CHR 0x08]), lit ''connection refused'',
        lit ''timed out'', lit ([CHR 0x08] @ ''timeout'' @ [CHR 0x08]), lit ''server down'', lit ''no route to host'',
        lit ''network is unreachable''])"

definition live_transport_rx :: rx where
  "live_transport_rx = ci (alts [seqs [lit ''can'', opt (lit [CHR 0x27]), lit ''t contact ldap server''],
       lit ''server is unavailable'', lit ''connection refused'',
        lit ''timed out'', lit ''server down'', lit ''no route to host'',
        lit ''network is unreachable''])"

definition LIVE_PHRASES :: "(status_class \<times> rx) list" where
  "LIVE_PHRASES = butlast PHRASES @ [(TRANSPORT, live_transport_rx)]"

lemma first_phrase_append:
  "first_phrase (ps @ [(c, r)]) t = (if list_ex (\<lambda>(c, r). rx_found r t) ps then first_phrase ps t
     else if rx_found r t then c else UNCLASSIFIED)"
  by (induction ps t rule: first_phrase.induct) auto

lemma search_from_cong:
  "(\<And>d r. set r \<subseteq> set s \<Longrightarrow> rx_m a (d, r, []) = rx_m b (d, r, [])) \<Longrightarrow> search_from a d s = search_from b d s"
proof (induction s arbitrary: d)
  case (Cons c s)
  then have "search_from a (c # d) s = search_from b (c # d) s" by (simp add: subset_insertI2)
  then show ?case using Cons.prems [of "c # s" d] by (simp split: list.splits)
qed simp

lemma backspace_case: "lower_char c = CHR 0x08 \<longleftrightarrow> c = CHR 0x08" "upper_char c = CHR 0x08 \<longleftrightarrow> c = CHR 0x08"
  using mem_code [of "lower_char c" "[CHR 0x08]"] mem_code [of "upper_char c" "[CHR 0x08]"] mem_code [of c "[CHR 0x08]"]
  by (auto simp: code_lower_char code_upper_char is_upper_def is_lower_def rng_def)

lemma dead_alternative: "CHR 0x08 \<notin> set r \<Longrightarrow> rx_m (ci (lit (CHR 0x08 # w @ [CHR 0x08]))) (d, r, g) = []"
  by (cases r) (auto simp: lit_def backspace_case)

lemma transport_live: "CHR 0x08 \<notin> set s \<Longrightarrow> rx_found transport_rx s = rx_found live_transport_rx s"
proof -
  assume s: "CHR 0x08 \<notin> set s"
  have "rx_m transport_rx (d, r, []) = rx_m live_transport_rx (d, r, [])" if "set r \<subseteq> set s" for d r
  proof -
    have "CHR 0x08 \<notin> set r" using s that by blast
    then show ?thesis
      using dead_alternative [of r "''connect error''" d "[]"] dead_alternative [of r "''timeout''" d "[]"]
      by (simp add: transport_rx_def live_transport_rx_def)
  qed
  then show ?thesis using search_from_cong [of s transport_rx live_transport_rx "[]"] by (simp add: rx_found_def rx_search_def)
qed

section \<open>Properties\<close>

text \<open>An agreement is called OK only on evidence of success. The class is OK exactly when a status was given,
  it is
  not the one of a supplier that never ran, no error phrase is in it, no code in it is other than 0, and it reports a
  success or is green with both codes 0 in the JSON form.\<close>

theorem status_ok_iff:
  "as_ok (parse_status loads txt json) \<longleftrightarrow>
     (case status_parts loads txt json of (l, r, state, message, source) \<Rightarrow>
        source \<noteq> ''none'' \<and> \<not> rx_found no_sessions_rx message \<and> classify_text message = UNCLASSIFIED
        \<and> zero_or_none l \<and> zero_or_none r
        \<and> (rx_found success_rx message \<or> state = ''green'' \<and> l = Some 0 \<and> r = Some 0))"
  by (cases "status_parts loads txt json") (simp add: parse_status_def as_ok_def status_class_ok_iff)

text \<open>The phrases \<open>connect error\<close> and \<open>timeout\<close> are dead. The pattern of the TRANSPORT class has a backspace
  character (U+0008) on both sides of each of them, where a word boundary was meant: on every text without a backspace
  the class is the one that the table gives without these two alternatives.\<close>

theorem connect_error_not_recognised:
  assumes "CHR 0x08 \<notin> set s"
  shows "classify_text s = first_phrase LIVE_PHRASES (take 4096 s)"
proof -
  have "CHR 0x08 \<notin> set (take 4096 s)" using assms by (auto dest: in_set_takeD)
  then have t: "rx_found transport_rx (take 4096 s) = rx_found live_transport_rx (take 4096 s)" by (rule transport_live)
  have p: "PHRASES = butlast PHRASES @ [(TRANSPORT, transport_rx)]" by (simp only: PHRASES_def transport_rx_def butlast.simps append.simps list.simps if_True if_False simp_thms)
  show ?thesis
    unfolding classify_text_def LIVE_PHRASES_def by (subst p) (simp add: first_phrase_append t)
qed

theorem connect_error_not_recognised_witness:
  "CHR 0x08 \<notin> set ''Connect error'' \<and> classify_text ''Connect error'' = first_phrase LIVE_PHRASES ''Connect error''"
proof -
  have s: "CHR 0x08 \<notin> set ''Connect error''" by simp
  show ?thesis using s connect_error_not_recognised [OF s] by simp
qed

end
