(* ===== verification/Relations.thy ===== *)
theory Relations
  imports Prelude
begin

text \<open>
  The relationship index of one access question, \<open>access/relations.py\<close>: nodes and edges within bounds, the breadth-first
  search for a chain of direct memberships, HBAC rules, and the explanation of one side of a rule.
  A Python set is a list without duplicates; the model iterates over it in the order of the list.
\<close>

section \<open>Nodes and edges\<close>

definition MAX_NODES :: nat where "MAX_NODES = 2000"
definition MAX_EDGES :: nat where "MAX_EDGES = 5000"
definition MAX_CHAIN_DEPTH :: nat where "MAX_CHAIN_DEPTH = 50"
definition MAX_SIDE_EXPLANATIONS :: nat where "MAX_SIDE_EXPLANATIONS = 20"

datatype node_kind = USER | GROUP | HOST | HOSTGROUP | HBAC_RULE | HBAC_SERVICE | HBAC_SERVICE_GROUP | TRUSTED_DOMAIN

datatype edge_kind = MEMBER_OF | MEMBER_OF_INDIRECT | RULE_APPLIES_TO

record node =
  nd_kind :: node_kind
  nd_name :: string

type_synonym node_key = "node_kind \<times> string"

definition key_of :: "node \<Rightarrow> node_key" where
  "key_of n = (nd_kind n, str_lower (nd_name n))"

record edge =
  eg_src :: node
  eg_dst :: node
  eg_kind :: edge_kind
  eg_source :: string
  eg_side :: "string option"

type_synonym edge_key = "node_key \<times> node_key \<times> edge_kind \<times> string option"

record rel_index =
  ix_max_nodes :: nat
  ix_max_edges :: nat
  ix_nodes :: "(node_key \<times> node) list"
  ix_edges :: "(edge_key \<times> edge) list"
  ix_out :: "(node_key \<times> edge list) list"
  ix_truncated :: bool

definition empty_index :: rel_index where
  "empty_index = \<lparr>ix_max_nodes = MAX_NODES, ix_max_edges = MAX_EDGES, ix_nodes = [], ix_edges = [], ix_out = [],
     ix_truncated = False\<rparr>"

definition get_node :: "node_kind \<Rightarrow> string \<Rightarrow> rel_index \<Rightarrow> node option \<times> rel_index" where
  "get_node kind name ix =
     (let n = \<lparr>nd_kind = kind, nd_name = name\<rparr>
      in case dict_get (ix_nodes ix) (key_of n) of
           Some existing \<Rightarrow> (Some existing, ix)
         | None \<Rightarrow>
             if length (ix_nodes ix) \<ge> ix_max_nodes ix then (None, ix\<lparr>ix_truncated := True\<rparr>)
             else (Some n, ix\<lparr>ix_nodes := dict_set (key_of n) n (ix_nodes ix)\<rparr>))"

definition out_edges :: "rel_index \<Rightarrow> node_key \<Rightarrow> edge list" where
  "out_edges ix k = the_default [] (dict_get (ix_out ix) k)"

definition add_edge :: "node option \<Rightarrow> node option \<Rightarrow> edge_kind \<Rightarrow> string \<Rightarrow> string option \<Rightarrow> rel_index \<Rightarrow> rel_index" where
  "add_edge src dst kind source side ix =
     (case (src, dst) of
        (Some s, Some d) \<Rightarrow>
          (let k = (key_of s, key_of d, kind, side);
               e = \<lparr>eg_src = s, eg_dst = d, eg_kind = kind, eg_source = source, eg_side = side\<rparr>
           in if dict_get (ix_edges ix) k \<noteq> None then ix
              else if length (ix_edges ix) \<ge> ix_max_edges ix then ix\<lparr>ix_truncated := True\<rparr>
              else ix\<lparr>ix_edges := dict_set k e (ix_edges ix),
                      ix_out := dict_set (key_of s) (out_edges ix (key_of s) @ [e]) (ix_out ix)\<rparr>)
      | _ \<Rightarrow> ix)"

definition add_membership :: "node option \<Rightarrow> node_kind \<Rightarrow> edge_kind \<Rightarrow> string \<Rightarrow> string \<Rightarrow> rel_index \<Rightarrow> rel_index" where
  "add_membership child parent_kind kind source name ix =
     (case get_node parent_kind name ix of (p, ix') \<Rightarrow> add_edge child p kind source None ix')"

definition add_memberships :: "node option \<Rightarrow> node_kind \<Rightarrow> string list \<Rightarrow> string list \<Rightarrow> string \<Rightarrow> rel_index \<Rightarrow> rel_index" where
  "add_memberships child parent_kind direct indirect source ix =
     fold (add_membership child parent_kind MEMBER_OF_INDIRECT source) indirect
       (fold (add_membership child parent_kind MEMBER_OF source) direct ix)"

definition all_edges :: "rel_index \<Rightarrow> edge list" where "all_edges ix = map snd (ix_edges ix)"
definition all_nodes :: "rel_index \<Rightarrow> node list" where "all_nodes ix = map snd (ix_nodes ix)"

definition parents :: "rel_index \<Rightarrow> node_key \<Rightarrow> bool \<Rightarrow> edge list" where
  "parents ix k direct_only =
     filter (\<lambda>e. eg_kind e = MEMBER_OF \<or> \<not> direct_only \<and> eg_kind e = MEMBER_OF_INDIRECT) (out_edges ix k)"

section \<open>Breadth-first search\<close>

definition dst_key :: "edge \<Rightarrow> node_key" where "dst_key e = key_of (eg_dst e)"

text \<open>The loop over the edges of one node: the path to the target, or the keys seen and the queue.\<close>

type_synonym bfs_queue = "(node_key \<times> edge list) list"

fun expand_node :: "node_key \<Rightarrow> edge list \<Rightarrow> edge list \<Rightarrow> node_key list \<Rightarrow> bfs_queue \<Rightarrow> edge list + node_key list \<times> bfs_queue" where
  "expand_node target path [] seen q = Inr (seen, q)"
| "expand_node target path (e # es) seen q =
     (if dst_key e \<in> set seen then expand_node target path es seen q
      else if dst_key e = target then Inl (path @ [e])
      else expand_node target path es (dst_key e # seen) (q @ [(dst_key e, path @ [e])]))"

definition bfs_universe :: "rel_index \<Rightarrow> node_key set" where
  "bfs_universe ix = (\<Union>(k, es) \<in> set (ix_out ix). dst_key ` set es)"

lemma finite_bfs_universe [simp]: "finite (bfs_universe ix)"
  by (auto simp: bfs_universe_def)

lemma parents_universe: "e \<in> set (parents ix k b) \<Longrightarrow> dst_key e \<in> bfs_universe ix"
proof -
  assume "e \<in> set (parents ix k b)"
  then obtain es where "dict_get (ix_out ix) k = Some es" "e \<in> set es"
    by (cases "dict_get (ix_out ix) k") (auto simp: parents_def out_edges_def the_default_def)
  then show ?thesis using dict_get_member [of "ix_out ix" k es] by (auto simp: bfs_universe_def)
qed

lemma expand_node_measure:
  "expand_node target path es seen q = Inr (seen', q') \<Longrightarrow> dst_key ` set es \<subseteq> U \<Longrightarrow> finite U \<Longrightarrow>
     2 * card (U - set seen') + length q' \<le> 2 * card (U - set seen) + length q"
proof (induction target path es seen q rule: expand_node.induct)
  case (2 target path e es seen q)
  show ?case
  proof (cases "dst_key e \<in> set seen \<or> dst_key e = target")
    case True
    then show ?thesis using 2 by (auto split: if_splits)
  next
    case False
    have "card (U - insert (dst_key e) (set seen)) < card (U - set seen)"
      using 2(4,5) False by (intro psubset_card_mono) auto
    then show ?thesis using 2 False by (auto simp: algebra_simps)
  qed
qed simp

function bfs :: "rel_index \<Rightarrow> node_key \<Rightarrow> nat \<Rightarrow> node_key list \<Rightarrow> bfs_queue \<Rightarrow> edge list option" where
  "bfs ix target max_depth seen [] = None"
| "bfs ix target max_depth seen ((cur, path) # q) =
     (if length path \<ge> max_depth then bfs ix target max_depth seen q
      else case expand_node target path (parents ix cur True) seen q of
             Inl found \<Rightarrow> Some found
           | Inr (seen', q') \<Rightarrow> bfs ix target max_depth seen' q')"
  by pat_completeness auto

termination
proof (relation "measure (\<lambda>(ix, target, max_depth, seen, q). 2 * card (bfs_universe ix - set seen) + length q)", goal_cases)
  case (3 ix target max_depth seen cur path q r seen' q')
  have "dst_key ` set (parents ix cur True) \<subseteq> bfs_universe ix" using parents_universe [of _ ix cur True] by blast
  then have "2 * card (bfs_universe ix - set seen') + length q' \<le> 2 * card (bfs_universe ix - set seen) + length q"
    using 3 by (intro expand_node_measure) auto
  then show ?case by simp
qed auto

definition membership_path :: "rel_index \<Rightarrow> node \<Rightarrow> node \<Rightarrow> nat \<Rightarrow> edge list option" where
  "membership_path ix start target max_depth =
     (if key_of start = key_of target then Some []
      else bfs ix (key_of target) max_depth [key_of start] [(key_of start, [])])"

section \<open>The search finds shortest chains\<close>

text \<open>A walk: consecutive direct memberships of the index.\<close>

fun walk :: "rel_index \<Rightarrow> node_key \<Rightarrow> edge list \<Rightarrow> node_key \<Rightarrow> bool" where
  "walk ix a [] b = (a = b)"
| "walk ix a (e # es) b = (e \<in> set (parents ix a True) \<and> walk ix (dst_key e) es b)"

lemma walk_snoc: "walk ix a (es @ [e]) b \<longleftrightarrow> (\<exists>c. walk ix a es c \<and> e \<in> set (parents ix c True) \<and> dst_key e = b)"
  by (induction es arbitrary: a) auto

text \<open>The invariant of the search, with the number of steps in which each seen key was found. The queue is ordered and
  spans two levels; every other seen key within the depth bound has all its parents seen, one step later at most.\<close>

definition queued :: "rel_index \<Rightarrow> node_key \<Rightarrow> (node_key \<Rightarrow> nat) \<Rightarrow> nat \<Rightarrow> node_key set \<Rightarrow> node_key \<times> edge list \<Rightarrow> bool" where
  "queued ix start d h seen y \<longleftrightarrow>
     fst y \<in> seen \<and> walk ix start (snd y) (fst y) \<and> d (fst y) = length (snd y) \<and> h \<le> length (snd y)"

definition closed :: "rel_index \<Rightarrow> (node_key \<Rightarrow> nat) \<Rightarrow> node_key set \<Rightarrow> node_key \<Rightarrow> bool" where
  "closed ix d seen k \<longleftrightarrow> (\<forall>e \<in> set (parents ix k True). dst_key e \<in> seen \<and> d (dst_key e) \<le> Suc (d k))"

definition bfs_inv ::
  "rel_index \<Rightarrow> node_key \<Rightarrow> node_key \<Rightarrow> nat \<Rightarrow> (node_key \<Rightarrow> nat) \<Rightarrow> nat \<Rightarrow> node_key list \<Rightarrow> bfs_queue \<Rightarrow> bool" where
  "bfs_inv ix start target bound d h seen q \<longleftrightarrow>
     start \<in> set seen \<and> d start = 0 \<and> target \<notin> set seen \<and> (\<forall>k \<in> set seen. d k \<le> Suc h)
     \<and> (\<forall>y \<in> set q. queued ix start d h (set seen) y)
     \<and> sorted (map (length \<circ> snd) q)
     \<and> (\<forall>k \<in> set seen. k \<in> fst ` set q \<or> bound \<le> d k \<or> closed ix d (set seen) k)"

text \<open>A walk that leaves the seen keys within the bound passes the queue.\<close>

lemma walk_passes_queue:
  assumes inv: "bfs_inv ix start target bound d h seen q"
  shows "walk ix k w x \<Longrightarrow> k \<in> set seen \<Longrightarrow> x \<notin> set seen \<Longrightarrow> d k + length w \<le> bound \<Longrightarrow>
     \<exists>y \<in> set q. length (snd y) < d k + length w"
proof (induction w arbitrary: k)
  case (Cons e w)
  show ?case
  proof (cases "k \<in> fst ` set q")
    case True
    then obtain p where p: "(k, p) \<in> set q" by auto
    then have "queued ix start d h (set seen) (k, p)" using inv unfolding bfs_inv_def by blast
    then have "length p = d k" by (simp add: queued_def)
    then show ?thesis using p by (intro bexI [of _ "(k, p)"]) auto
  next
    case False
    moreover have "d k < bound" using Cons.prems(4) by simp
    ultimately have "closed ix d (set seen) k" using inv Cons.prems(2) unfolding bfs_inv_def by fastforce
    then have next_seen: "dst_key e \<in> set seen" "d (dst_key e) \<le> Suc (d k)"
      using Cons.prems(1) by (simp_all add: closed_def)
    then obtain y where "y \<in> set q" "length (snd y) < d (dst_key e) + length w"
      using Cons.IH [of "dst_key e"] Cons.prems by auto
    then show ?thesis using next_seen(2) by (intro bexI [of _ y]) auto
  qed
qed simp

lemma bfs_inv_found:
  assumes inv: "bfs_inv ix start target bound d h seen ((cur, path) # q)" and len: "length path < bound"
    and e: "e \<in> set (parents ix cur True)" "dst_key e = target"
  shows "walk ix start (path @ [e]) target \<and> length (path @ [e]) \<le> bound
     \<and> (\<forall>w. walk ix start w target \<longrightarrow> length (path @ [e]) \<le> length w)"
proof (intro conjI allI impI)
  have "walk ix start path cur" using inv by (simp add: bfs_inv_def queued_def)
  then show "walk ix start (path @ [e]) target" using e unfolding walk_snoc by blast
  show "length (path @ [e]) \<le> bound" using len by simp
  fix w assume w: "walk ix start w target"
  show "length (path @ [e]) \<le> length w"
  proof (cases "length w \<le> bound")
    case True
    have "start \<in> set seen" "target \<notin> set seen" "d start = 0" using inv by (simp_all add: bfs_inv_def)
    then obtain y where y: "y \<in> set ((cur, path) # q)" "length (snd y) < length w"
      using walk_passes_queue [OF inv w] True by fastforce
    moreover have "length path \<le> length (snd y)" using y(1) inv by (auto simp: bfs_inv_def)
    ultimately show ?thesis by simp
  next
    case False
    then show ?thesis using len by simp
  qed
qed

text \<open>Expanding a node keeps the invariant once all its parents are seen.\<close>

definition expand_inv ::
  "rel_index \<Rightarrow> node_key \<Rightarrow> edge list \<Rightarrow> edge list \<Rightarrow> node_key list \<Rightarrow> bfs_queue \<Rightarrow> node_key list \<Rightarrow> bfs_queue \<Rightarrow> bool" where
  "expand_inv ix target path es seen q seen' q' \<longleftrightarrow>
     (\<exists>new. q' = q @ new \<and> set seen' = fst ` set new \<union> set seen \<and> fst ` set new \<inter> set seen = {}
        \<and> distinct (map fst new) \<and> dst_key ` set es \<subseteq> set seen' \<and> target \<notin> fst ` set new
        \<and> (\<forall>(n, p) \<in> set new. \<exists>e \<in> set es. n = dst_key e \<and> p = path @ [e]))"

lemma expand_node_inv:
  "expand_node target path es seen q = Inr (seen', q') \<Longrightarrow> expand_inv ix target path es seen q seen' q'"
proof (induction target path es seen q rule: expand_node.induct)
  case (1 target path seen q)
  then show ?case by (auto simp: expand_inv_def)
next
  case (2 target path e es seen q)
  show ?case
  proof (cases "dst_key e \<in> set seen")
    case True
    then have "expand_inv ix target path es seen q seen' q'" using 2 by simp
    then show ?thesis using True unfolding expand_inv_def by (elim exE) (intro exI, auto)
  next
    case False
    then have t: "dst_key e \<noteq> target" using 2(3) by auto
    have "expand_inv ix target path es (dst_key e # seen) (q @ [(dst_key e, path @ [e])]) seen' q'" using 2 False t by simp
    then obtain new where new: "q' = (q @ [(dst_key e, path @ [e])]) @ new" "set seen' = fst ` set new \<union> set (dst_key e # seen)"
        "fst ` set new \<inter> set (dst_key e # seen) = {}" "distinct (map fst new)" "dst_key ` set es \<subseteq> set seen'"
        "target \<notin> fst ` set new" "\<forall>(n, p) \<in> set new. \<exists>e \<in> set es. n = dst_key e \<and> p = path @ [e]"
      unfolding expand_inv_def by (elim exE conjE) (rule that)
    show ?thesis
      unfolding expand_inv_def
    proof (intro exI [of _ "(dst_key e, path @ [e]) # new"] conjI)
      show "\<forall>(n, p) \<in> set ((dst_key e, path @ [e]) # new). \<exists>x \<in> set (e # es). n = dst_key x \<and> p = path @ [x]"
        using new(7) by fastforce
    qed (use new False t in auto)
  qed
qed

lemma expand_node_found: "expand_node target path es seen q = Inl p \<Longrightarrow> \<exists>e \<in> set es. p = path @ [e] \<and> dst_key e = target"
  by (induction target path es seen q rule: expand_node.induct) (auto split: if_splits)

lemma queued_raise: "queued ix start d h seen y \<Longrightarrow> h' \<le> length (snd y) \<Longrightarrow> queued ix start d h' seen y"
  by (simp add: queued_def)

lemma bfs_inv_head:
  assumes "bfs_inv ix start target bound d h seen ((cur, path) # q)"
  shows "walk ix start path cur" "d cur = length path" "h \<le> length path" "cur \<in> set seen"
    "\<forall>y \<in> set q. queued ix start d (length path) (set seen) y" "\<forall>k \<in> set seen. d k \<le> Suc (length path)"
proof -
  show c: "walk ix start path cur" "d cur = length path" "h \<le> length path" "cur \<in> set seen"
    using assms by (simp_all add: bfs_inv_def queued_def)
  show "\<forall>y \<in> set q. queued ix start d (length path) (set seen) y"
    using assms queued_raise [of ix start d h "set seen" _ "length path"] by (auto simp: bfs_inv_def)
  show "\<forall>k \<in> set seen. d k \<le> Suc (length path)"
    using assms c(3) le_trans unfolding bfs_inv_def by (metis Suc_le_mono)
qed

lemma bfs_inv_skip:
  assumes inv: "bfs_inv ix start target bound d h seen ((cur, path) # q)" and len: "bound \<le> length path"
  shows "bfs_inv ix start target bound d (length path) seen q"
proof -
  have "k \<in> fst ` set q \<or> bound \<le> d k \<or> closed ix d (set seen) k" if "k \<in> set seen" for k
    using inv that bfs_inv_head(2) [OF inv] len by (auto simp: bfs_inv_def)
  then show ?thesis using inv bfs_inv_head [OF inv] by (simp add: bfs_inv_def)
qed

lemma bfs_inv_expand:
  assumes inv: "bfs_inv ix start target bound d h seen ((cur, path) # q)"
    and ex: "expand_inv ix target path (parents ix cur True) seen q seen' q'"
  shows "\<exists>d'. bfs_inv ix start target bound d' (length path) seen' q'"
proof -
  obtain new where new: "q' = q @ new" "set seen' = fst ` set new \<union> set seen" "fst ` set new \<inter> set seen = {}"
      "distinct (map fst new)" "dst_key ` set (parents ix cur True) \<subseteq> set seen'" "target \<notin> fst ` set new"
      "\<forall>(n, p) \<in> set new. \<exists>e \<in> set (parents ix cur True). n = dst_key e \<and> p = path @ [e]"
    using ex unfolding expand_inv_def by (elim exE conjE) (rule that)
  define d' where "d' = (\<lambda>k. if k \<in> fst ` set new then Suc (length path) else d k)"
  note head = bfs_inv_head [OF inv]
  have old: "d' k = d k" if "k \<in> set seen" for k using that new(3) by (auto simp: d'_def)
  have bound_d: "\<forall>k \<in> set seen'. d' k \<le> Suc (length path)" using head(6) new(2) by (auto simp: d'_def)
  have queue_old: "queued ix start d' (length path) (set seen') y" if "y \<in> set q" for y
  proof -
    have "queued ix start d (length path) (set seen) y" using head(5) that by blast
    then show ?thesis using old new(2) by (simp add: queued_def)
  qed
  have queue_new: "queued ix start d' (length path) (set seen') y \<and> length (snd y) = Suc (length path)" if "y \<in> set new" for y
  proof -
    obtain n p where y: "y = (n, p)" by (cases y)
    then obtain e where e: "e \<in> set (parents ix cur True)" "n = dst_key e" "p = path @ [e]" using new(7) \<open>y \<in> set new\<close> by auto
    have n: "n \<in> fst ` set new" using that y by force
    then have "d' n = Suc (length path)" by (simp add: d'_def)
    moreover have "walk ix start p n" unfolding e(3) walk_snoc using head(1) e by blast
    ultimately show ?thesis using n new(2) e(3) by (simp add: queued_def y)
  qed
  have queue_len: "length (snd y) \<le> Suc (length path)" if "y \<in> set q" for y
    using head(5,6) that by (fastforce simp: queued_def)
  have "sorted (map (length \<circ> snd) q)" using inv by (simp add: bfs_inv_def)
  moreover have "map (length \<circ> snd) new = replicate (length new) (Suc (length path))"
    using queue_new by (intro replicate_eqI) auto
  ultimately have sorted: "sorted (map (length \<circ> snd) q')"
    using queue_len by (auto simp: new(1) sorted_append)
  have closed_all: "k \<in> fst ` set q' \<or> bound \<le> d' k \<or> closed ix d' (set seen') k" if k: "k \<in> set seen'" for k
  proof -
    consider "k \<in> fst ` set new" | "k = cur" "k \<in> set seen" | "k \<in> set seen" "k \<noteq> cur"
      using k new(2) by blast
    then show ?thesis
    proof cases
      case 1
      then show ?thesis by (auto simp: new(1))
    next
      case 2
      then have "closed ix d' (set seen') k"
        using new(5) bound_d old head(2) unfolding closed_def by auto
      then show ?thesis by simp
    next
      case 3
      then have "k \<in> fst ` set q \<or> bound \<le> d k \<or> closed ix d (set seen) k" using inv by (auto simp: bfs_inv_def)
      moreover have "closed ix d' (set seen') k" if "closed ix d (set seen) k"
        using that old 3(1) new(2) by (simp add: closed_def)
      ultimately show ?thesis using old [OF 3(1)] by (auto simp: new(1))
    qed
  qed
  have "start \<in> set seen" "d start = 0" "target \<notin> set seen" using inv by (simp_all add: bfs_inv_def)
  then have "start \<in> set seen'" "d' start = 0" "target \<notin> set seen'" using new(2,6) old by auto
  then have "bfs_inv ix start target bound d' (length path) seen' q'"
    using bound_d queue_old queue_new sorted closed_all unfolding bfs_inv_def by (auto simp: new(1))
  then show ?thesis by blast
qed

text \<open>What the search returns: a shortest walk within the bound, or nothing when there is none.\<close>

definition search_result :: "rel_index \<Rightarrow> node_key \<Rightarrow> node_key \<Rightarrow> nat \<Rightarrow> edge list option \<Rightarrow> bool" where
  "search_result ix start target bound r =
     (case r of
        None \<Rightarrow> (\<forall>w. walk ix start w target \<longrightarrow> bound < length w)
      | Some p \<Rightarrow> walk ix start p target \<and> length p \<le> bound \<and> (\<forall>w. walk ix start w target \<longrightarrow> length p \<le> length w))"

lemma bfs_correct:
  "bfs_inv ix start target bound d h seen q \<Longrightarrow> search_result ix start target bound (bfs ix target bound seen q)"
proof (induction ix target bound seen q arbitrary: d h rule: bfs.induct)
  case (1 ix target bound seen)
  have "bound < length w" if w: "walk ix start w target" for w
  proof (rule ccontr)
    assume "\<not> bound < length w"
    then show False using walk_passes_queue [OF 1 w] 1 by (simp add: bfs_inv_def)
  qed
  then show ?case by (simp add: search_result_def)
next
  case (2 ix target bound seen cur path q)
  show ?case
  proof (cases "bound \<le> length path")
    case True
    then show ?thesis using 2 bfs_inv_skip [OF 2(3) True] by simp
  next
    case False
    show ?thesis
    proof (cases "expand_node target path (parents ix cur True) seen q")
      case (Inl p)
      then obtain e where e: "e \<in> set (parents ix cur True)" "p = path @ [e]" "dst_key e = target"
        using expand_node_found by blast
      then show ?thesis
        using bfs_inv_found [OF 2(3) _ e(1,3)] False Inl by (simp add: search_result_def)
    next
      case (Inr r)
      obtain seen' q' where r: "r = (seen', q')" by (cases r)
      obtain d' where "bfs_inv ix start target bound d' (length path) seen' q'"
        using bfs_inv_expand [OF 2(3) expand_node_inv [OF Inr [unfolded r]]] by blast
      then show ?thesis using 2(2) [OF False Inr r [symmetric]] False Inr r by simp
    qed
  qed
qed

lemma membership_path_correct:
  "search_result ix (key_of start) (key_of target) bound (membership_path ix start target bound)"
proof (cases "key_of start = key_of target")
  case True
  then show ?thesis by (simp add: membership_path_def search_result_def)
next
  case False
  then have "bfs_inv ix (key_of start) (key_of target) bound (\<lambda>_. 0) 0 [key_of start] [(key_of start, [])]"
    by (simp add: bfs_inv_def queued_def)
  from bfs_correct [OF this] show ?thesis using False unfolding membership_path_def by simp
qed

section \<open>HBAC rules\<close>

definition first_value :: "pyval \<Rightarrow> pyval" where
  "first_value v = (case v of PList [] \<Rightarrow> PNone | PList (x # xs) \<Rightarrow> x | _ \<Rightarrow> v)"

definition strings_in :: "pyval list \<Rightarrow> string list" where
  "strings_in xs = concat (map (\<lambda>x. case x of PStr s \<Rightarrow> [s] | _ \<Rightarrow> []) xs)"

definition names_of :: "pyval \<Rightarrow> string list" where
  "names_of v = (case v of PStr s \<Rightarrow> [s] | PList xs \<Rightarrow> strings_in xs | _ \<Rightarrow> [])"

definition flag_of :: "pyval \<Rightarrow> bool option" where
  "flag_of v =
     (case first_value v of
        PBool b \<Rightarrow> Some b
      | PStr s \<Rightarrow> if str_upper s \<in> {''TRUE'', ''FALSE''} then Some (str_upper s = ''TRUE'') else None
      | _ \<Rightarrow> None)"

record rule_side =
  rs_category_all :: bool
  rs_names :: "string list"
  rs_groups :: "string list"

record hbac_rule =
  hr_name :: string
  hr_enabled :: "bool option"
  hr_user :: rule_side
  hr_host :: rule_side
  hr_service :: rule_side
  hr_source :: string

definition field :: "pydict \<Rightarrow> string \<Rightarrow> pyval" where
  "field d k = the_default PNone (dict_get d k)"

definition side_of_api :: "pydict \<Rightarrow> string \<Rightarrow> string \<Rightarrow> string \<Rightarrow> string \<Rightarrow> rule_side" where
  "side_of_api result prefix member obj grp =
     \<lparr>rs_category_all = (case first_value (field result (prefix @ ''category'')) of PStr s \<Rightarrow> str_lower s = ''all'' | _ \<Rightarrow> False),
      rs_names = names_of (field result (member @ ''_'' @ obj)), rs_groups = names_of (field result (member @ ''_'' @ grp))\<rparr>"

definition rule_of_api :: "pyval \<Rightarrow> string \<Rightarrow> hbac_rule option" where
  "rule_of_api result source =
     (case result of
        PDict d \<Rightarrow>
          (case first_value (field d ''cn'') of
             PStr name \<Rightarrow>
               if name = [] then None
               else Some \<lparr>hr_name = name, hr_enabled = flag_of (field d ''ipaenabledflag''),
                          hr_user = side_of_api d ''user'' ''memberuser'' ''user'' ''group'',
                          hr_host = side_of_api d ''host'' ''memberhost'' ''host'' ''hostgroup'',
                          hr_service = side_of_api d ''service'' ''memberservice'' ''hbacsvc'' ''hbacsvcgroup'',
                          hr_source = source\<rparr>
           | _ \<Rightarrow> None)
      | _ \<Rightarrow> None)"

section \<open>Explaining one side of a rule\<close>

record side_explanation =
  se_side :: string
  se_how :: string
  se_via :: "string option"
  se_chain :: "string list"
  se_chain_complete :: bool
  se_count :: nat

definition explained :: "string \<Rightarrow> string \<Rightarrow> side_explanation" where
  "explained side how = \<lparr>se_side = side, se_how = how, se_via = None, se_chain = [], se_chain_complete = True, se_count = 0\<rparr>"

record membership =
  mb_node :: node
  mb_direct :: "string list"
  mb_indirect :: "string list"

definition lower_set :: "string list \<Rightarrow> string set" where "lower_set xs = str_lower ` set xs"

definition all_groups :: "membership \<Rightarrow> string set" where "all_groups m = lower_set (mb_direct m @ mb_indirect m)"

definition explain_group ::
  "string \<Rightarrow> membership \<Rightarrow> node_kind \<Rightarrow> string \<Rightarrow> side_explanation list \<times> rel_index \<Rightarrow> side_explanation list \<times> rel_index" where
  "explain_group side m group_kind g = (\<lambda>(out, ix).
     let me = nd_name (mb_node m); via = (explained side ''nested_group'')\<lparr>se_via := Some g\<rparr>
     in if str_lower g \<in> lower_set (mb_direct m)
        then (out @ [(explained side ''group'')\<lparr>se_via := Some g, se_chain := [me, g]\<rparr>], ix)
        else case get_node group_kind g ix of (target, ix') \<Rightarrow>
          (case (case target of None \<Rightarrow> None | Some t \<Rightarrow> membership_path ix' (mb_node m) t MAX_CHAIN_DEPTH) of
             Some (e # es) \<Rightarrow> (out @ [via\<lparr>se_chain := me # map (\<lambda>e. nd_name (eg_dst e)) (e # es)\<rparr>], ix')
           | _ \<Rightarrow> (out @ [via\<lparr>se_chain := [me, ''...'', g], se_chain_complete := False\<rparr>], ix')))"

definition listed_groups :: "rule_side \<Rightarrow> membership \<Rightarrow> string list" where
  "listed_groups rs m = filter (\<lambda>g. str_lower g \<in> all_groups m) (sort_key str_lower (rs_groups rs))"

definition explain_groups ::
  "string \<Rightarrow> rule_side \<Rightarrow> membership \<Rightarrow> node_kind \<Rightarrow> side_explanation list \<times> rel_index \<Rightarrow> side_explanation list \<times> rel_index" where
  "explain_groups side rs m group_kind st =
     (let listed = listed_groups rs m; extra = length listed - MAX_SIDE_EXPLANATIONS
      in case fold (explain_group side m group_kind) (take MAX_SIDE_EXPLANATIONS listed) st of (out, ix) \<Rightarrow>
           (if 0 < extra then out @ [(explained side ''more'')\<lparr>se_count := extra\<rparr>] else out, ix))"

definition explain_side ::
  "string \<Rightarrow> rule_side \<Rightarrow> membership option \<Rightarrow> string \<Rightarrow> node_kind \<Rightarrow> bool \<Rightarrow> rel_index \<Rightarrow> side_explanation list \<times> rel_index" where
  "explain_side side rs member object_name group_kind groups_known ix =
     (if rs_category_all rs then ([explained side ''all''], ix)
      else let direct = (if str_lower object_name \<in> lower_set (rs_names rs) then [explained side ''direct''] else [])
           in case (case member of None \<Rightarrow> (direct, ix) | Some m \<Rightarrow> explain_groups side rs m group_kind (direct, ix)) of
                (out, ix') \<Rightarrow>
                  (if out = [] \<and> member = None \<and> \<not> groups_known \<and> rs_groups rs \<noteq> [] then [explained side ''unknown'']
                   else if out \<noteq> [] then out else [explained side ''none''], ix'))"

definition covering :: "side_explanation \<Rightarrow> bool" where
  "covering s = (se_how s \<noteq> ''none'' \<and> se_how s \<noteq> ''unknown'')"

text \<open>The rule of FreeIPA and SSSD for one side: the category, the object by name, or one of its groups.\<close>

definition side_matches :: "rule_side \<Rightarrow> membership option \<Rightarrow> string \<Rightarrow> bool" where
  "side_matches rs member object_name \<longleftrightarrow>
     rs_category_all rs \<or> str_lower object_name \<in> lower_set (rs_names rs)
     \<or> (case member of None \<Rightarrow> False | Some m \<Rightarrow> lower_set (rs_groups rs) \<inter> all_groups m \<noteq> {})"

section \<open>The index keeps its bounds and its shape\<close>

definition index_ok :: "rel_index \<Rightarrow> bool" where
  "index_ok ix \<longleftrightarrow>
     length (ix_nodes ix) \<le> ix_max_nodes ix \<and> length (ix_edges ix) \<le> ix_max_edges ix
     \<and> distinct (dict_keys (ix_nodes ix)) \<and> distinct (dict_keys (ix_edges ix))
     \<and> list_all (\<lambda>(k, n). key_of n = k) (ix_nodes ix)
     \<and> list_all (\<lambda>(k, e). k = (key_of (eg_src e), key_of (eg_dst e), eg_kind e, eg_side e)) (ix_edges ix)
     \<and> list_all (\<lambda>(k, es). list_all (\<lambda>e. key_of (eg_src e) = k \<and> e \<in> set (all_edges ix)) es) (ix_out ix)"

lemma dict_set_new_length: "dict_get d k = None \<Longrightarrow> length (dict_set k v d) = Suc (length d)"
  by (induction k v d rule: dict_set.induct) (auto simp: dict_get_def split: if_splits)

lemma dict_set_list_all: "list_all P d \<Longrightarrow> P (k, v) \<Longrightarrow> list_all P (dict_set k v d)"
  using dict_set_subset [of k v d] by (auto simp: list_all_iff)

lemma dict_set_new_values: "dict_get d k = None \<Longrightarrow> set (map snd (dict_set k v d)) = insert v (set (map snd d))"
  by (induction k v d rule: dict_set.induct) (auto simp: dict_get_def split: if_splits)

lemma empty_index_ok: "index_ok empty_index"
  by (simp add: index_ok_def empty_index_def dict_keys_def)

lemma get_node_ok:
  assumes "index_ok ix" "get_node kind name ix = (r, ix')"
  shows "index_ok ix' \<and> pred_option (\<lambda>n. key_of n = (kind, str_lower name)) r"
proof (cases "dict_get (ix_nodes ix) (kind, str_lower name)")
  case None
  then show ?thesis
    using assms by (auto simp: get_node_def Let_def key_of_def index_ok_def dict_set_new_length dict.keys_set dict_set_list_all all_edges_def
        split: if_splits)
next
  case (Some n)
  then have "key_of n = (kind, str_lower name)"
    using assms(1) dict_get_member [OF Some] by (auto simp: index_ok_def list_all_iff)
  moreover have "r = Some n \<and> ix' = ix" using assms(2) Some by (simp add: get_node_def Let_def key_of_def)
  ultimately show ?thesis using assms(1) by simp
qed

lemma add_edge_ok:
  assumes "index_ok ix"
  shows "index_ok (add_edge src dst kind source side ix)"
proof (cases "\<exists>s d. src = Some s \<and> dst = Some d \<and> dict_get (ix_edges ix) (key_of s, key_of d, kind, side) = None
      \<and> length (ix_edges ix) < ix_max_edges ix")
  case True
  then obtain s d where sd: "src = Some s" "dst = Some d" "dict_get (ix_edges ix) (key_of s, key_of d, kind, side) = None"
    "length (ix_edges ix) < ix_max_edges ix" by blast
  let ?e = "\<lparr>eg_src = s, eg_dst = d, eg_kind = kind, eg_source = source, eg_side = side\<rparr>"
  let ?k = "(key_of s, key_of d, kind, side)"
  define ix2 where "ix2 = ix\<lparr>ix_edges := dict_set ?k ?e (ix_edges ix),
     ix_out := dict_set (key_of s) (out_edges ix (key_of s) @ [?e]) (ix_out ix)\<rparr>"
  have add: "add_edge src dst kind source side ix = ix2" using sd by (simp add: add_edge_def Let_def ix2_def)
  have edges: "set (all_edges ix2) = insert ?e (set (all_edges ix))"
    using dict_set_new_values [OF sd(3)] by (simp add: ix2_def all_edges_def)
  have out: "list_all (\<lambda>e. key_of (eg_src e) = key_of s \<and> e \<in> set (all_edges ix)) (out_edges ix (key_of s))"
    using assms dict_get_member [of "ix_out ix" "key_of s"]
    by (cases "dict_get (ix_out ix) (key_of s)") (auto simp: index_ok_def out_edges_def the_default_def list_all_iff)
  have "list_all (\<lambda>(k, es). list_all (\<lambda>e. key_of (eg_src e) = k \<and> e \<in> set (all_edges ix2)) es) (ix_out ix)"
    using assms edges by (auto simp: index_ok_def list_all_iff)
  moreover have "ix_out ix2 = dict_set (key_of s) (out_edges ix (key_of s) @ [?e]) (ix_out ix)" by (simp add: ix2_def)
  ultimately have "list_all (\<lambda>(k, es). list_all (\<lambda>e. key_of (eg_src e) = k \<and> e \<in> set (all_edges ix2)) es) (ix_out ix2)"
    using out edges by (simp only:) (rule dict_set_list_all, auto simp: list_all_iff)
  moreover have "ix_edges ix2 = dict_set ?k ?e (ix_edges ix)" "ix_nodes ix2 = ix_nodes ix"
      "ix_max_nodes ix2 = ix_max_nodes ix" "ix_max_edges ix2 = ix_max_edges ix" by (simp_all add: ix2_def)
  ultimately show ?thesis
    using assms sd unfolding add index_ok_def by (simp add: dict_set_new_length dict.keys_set dict_set_list_all dict.get_None_iff)
next
  case False
  then show ?thesis using assms by (auto simp: add_edge_def Let_def index_ok_def all_edges_def split: option.splits)
qed

lemma add_membership_ok: "index_ok ix \<Longrightarrow> index_ok (add_membership child parent_kind kind source name ix)"
  by (cases "get_node parent_kind name ix") (auto simp: add_membership_def dest: get_node_ok intro: add_edge_ok)

lemma fold_invariant: "(\<And>x s. x \<in> set xs \<Longrightarrow> P s \<Longrightarrow> P (f x s)) \<Longrightarrow> P s \<Longrightarrow> P (fold f xs s)"
  by (induction xs arbitrary: s) auto

lemma add_memberships_ok: "index_ok ix \<Longrightarrow> index_ok (add_memberships child parent_kind direct indirect source ix)"
proof -
  have f: "index_ok s \<Longrightarrow> index_ok (fold (add_membership child parent_kind kind source) xs s)" for xs kind s
    by (rule fold_invariant [where P = index_ok]) (simp_all add: add_membership_ok)
  assume "index_ok ix"
  then show ?thesis unfolding add_memberships_def by (intro f)
qed

section \<open>Explanations match the rule\<close>

lemma explain_group_out:
  "\<exists>s. fst (explain_group side m group_kind g (out, ix)) = out @ [s] \<and> covering s"
  by (auto simp: explain_group_def covering_def explained_def Let_def split: prod.splits option.splits list.splits)

lemma fold_explain_group:
  "\<exists>ss. fst (fold (explain_group side m group_kind) gs (out, ix)) = out @ ss \<and> length ss = length gs \<and> list_all covering ss"
proof (induction gs arbitrary: out ix)
  case (Cons g gs)
  obtain s where s: "fst (explain_group side m group_kind g (out, ix)) = out @ [s]" "covering s"
    using explain_group_out by blast
  obtain ix' where e: "explain_group side m group_kind g (out, ix) = (out @ [s], ix')"
    using s(1) by (metis prod.collapse)
  obtain ss where "fst (fold (explain_group side m group_kind) gs (out @ [s], ix')) = (out @ [s]) @ ss"
      "length ss = length gs" "list_all covering ss" using Cons.IH by blast
  then show ?case using s(2) e by (intro exI [of _ "s # ss"]) simp
qed simp

lemma explain_groups_out:
  "\<exists>ss. fst (explain_groups side rs m group_kind (out, ix)) = out @ ss \<and> list_all covering ss \<and> (ss = [] \<longleftrightarrow> listed_groups rs m = [])
     \<and> length ss \<le> Suc MAX_SIDE_EXPLANATIONS"
proof -
  let ?l = "listed_groups rs m"
  obtain ss where ss: "fst (fold (explain_group side m group_kind) (take MAX_SIDE_EXPLANATIONS ?l) (out, ix)) = out @ ss"
      "length ss = length (take MAX_SIDE_EXPLANATIONS ?l)" "list_all covering ss" using fold_explain_group by blast
  have "covering ((explained side ''more'')\<lparr>se_count := n\<rparr>)" for n by (simp add: covering_def explained_def)
  then show ?thesis
    using ss by (cases "MAX_SIDE_EXPLANATIONS < length ?l")
      (auto simp: explain_groups_def Let_def MAX_SIDE_EXPLANATIONS_def split: prod.splits)
qed

lemma listed_groups_iff: "listed_groups rs m = [] \<longleftrightarrow> lower_set (rs_groups rs) \<inter> all_groups m = {}"
  by (auto simp: listed_groups_def filter_empty_conv lower_set_def)

section \<open>Properties\<close>

text \<open>C30: The search for a chain of memberships is right and finds the shortest. It returns a chain of direct
  memberships of the index from the one node to the other that is within the depth bound and no longer than any other,
  and returns none only if every chain there is is longer than the bound.\<close>

theorem membership_path_shortest:
  "case membership_path ix start target bound of
     None \<Rightarrow> \<not> (\<exists>w. walk ix (key_of start) w (key_of target) \<and> length w \<le> bound)
   | Some p \<Rightarrow> walk ix (key_of start) p (key_of target) \<and> length p \<le> bound
       \<and> \<not> (\<exists>w. walk ix (key_of start) w (key_of target) \<and> length w < length p)"
  using membership_path_correct [of ix start target bound] by (auto simp: search_result_def not_le not_less split: option.splits)

text \<open>The index stays within its bounds and consistent whatever is put into it: no more nodes and edges than its
  limits, every node and edge under its own key and only once, and every edge of an adjacency list an edge of the index
  that starts there. Adding a node, an edge, or the memberships FreeIPA reports keeps this.\<close>

theorem index_operations_ok:
  assumes "index_ok ix"
  shows "index_ok (snd (get_node kind name ix)) \<and> index_ok (add_edge src dst ekind source side ix)
     \<and> index_ok (add_memberships child parent_kind direct indirect source ix)"
  using get_node_ok [OF assms, of kind name] add_edge_ok [OF assms] add_memberships_ok [OF assms]
  by (cases "get_node kind name ix") auto

theorem index_operations_ok_witness:
  "index_ok empty_index \<and> index_ok (add_memberships (Some \<lparr>nd_kind = USER, nd_name = ''jo''\<rparr>) GROUP [''admins''] [] ''user_show jo'' empty_index)"
  using index_operations_ok [OF empty_index_ok] empty_index_ok by blast

text \<open>The explanation of a side agrees with the rule FreeIPA and SSSD apply: some reason is found exactly when the
  category is all, the object is listed by name, or one of its groups (direct or nested) is listed, names compared
  without regard to case; and the answer is never empty and bounded.\<close>

theorem explain_side_iff:
  "case explain_side side rs member object_name group_kind known ix of (out, ix') \<Rightarrow>
     (list_ex covering out \<longleftrightarrow> side_matches rs member object_name) \<and> out \<noteq> [] \<and> length out \<le> MAX_SIDE_EXPLANATIONS + 2"
proof (cases "rs_category_all rs")
  case True
  then show ?thesis by (simp add: explain_side_def side_matches_def covering_def explained_def)
next
  case False
  let ?direct = "if str_lower object_name \<in> lower_set (rs_names rs) then [explained side ''direct''] else []"
  have direct: "list_all covering ?direct" by (simp add: covering_def explained_def)
  have none: "\<not> covering (explained side ''none'')" "\<not> covering (explained side ''unknown'')" by (simp_all add: covering_def explained_def)
  show ?thesis
  proof (cases member)
    case None
    then show ?thesis
      using False direct none by (auto simp: explain_side_def side_matches_def Let_def)
  next
    case (Some m)
    obtain ss where ss: "fst (explain_groups side rs m group_kind (?direct, ix)) = ?direct @ ss" "list_all covering ss"
        "ss = [] \<longleftrightarrow> listed_groups rs m = []" "length ss \<le> Suc MAX_SIDE_EXPLANATIONS" using explain_groups_out by blast
    obtain ix' where e: "explain_groups side rs m group_kind (?direct, ix) = (?direct @ ss, ix')"
      using ss(1) by (metis prod.collapse)
    have cov: "ss \<noteq> [] \<Longrightarrow> list_ex covering ss" using ss(2) by (cases ss) auto
    have "explain_side side rs member object_name group_kind known ix =
        (if ?direct @ ss \<noteq> [] then ?direct @ ss else [explained side ''none''], ix')"
      unfolding explain_side_def Let_def Some option.case e using False by simp
    then show ?thesis
      using False Some direct none ss cov listed_groups_iff [of rs m] by (auto simp: side_matches_def)
  qed
qed

end
