(* ===== verification/AccessTargets.thy ===== *)
theory AccessTargets
  imports Textsafe
begin

text \<open>
  The three targets of an access question, \<open>access/targets.py\<close>: USER, HOST and SERVICE are checked before they reach the
  FreeIPA API. \<open>TargetError\<close> is a ValueError.
\<close>

section \<open>Definitions\<close>

definition target_label_rx :: rx where
  "target_label_rx = seqs [Cls is_alnum_ascii, opt (seqs [upto 0 61 (Cls (alnum_or ''-'')), Cls is_alnum_ascii])]"

definition target_user_rx :: rx where
  "target_user_rx = seqs [Bos, Cls (alnum_or ''_.''), star (Cls (alnum_or ''_.-'')), opt (Cls (alnum_or ''_.$-'')), Eos]"

definition target_host_rx :: rx where
  "target_host_rx = seqs [Bos, target_label_rx, star (seqs [lit ''.'', target_label_rx]), Eos]"

definition target_domain_rx :: rx where
  "target_domain_rx = seqs [Bos, target_label_rx, plus (seqs [lit ''.'', target_label_rx]), Eos]"

definition netbios_rx :: rx where
  "netbios_rx = seqs [Bos, Cls is_alnum_ascii, upto 0 14 (Cls (alnum_or ''_.-'')), Eos]"

definition target_service_rx :: rx where
  "target_service_rx = seqs [Bos, Cls is_alnum_ascii, upto 0 63 (Cls (alnum_or ''_.+-'')), Eos]"

definition sid_rx :: rx where
  "sid_rx = ci (seqs [Bos, lit ''S-1-5-21-'', upto 1 10 (Cls is_digit09), lit ''-'', upto 1 10 (Cls is_digit09), lit ''-'',
     upto 1 10 (Cls is_digit09), lit ''-'', upto 1 10 (Cls is_digit09), Eos])"

lemmas target_rx_defs [rx_defs] = target_label_rx_def target_user_rx_def target_host_rx_def target_domain_rx_def netbios_rx_def
  target_service_rx_def sid_rx_def

definition MAX_USER :: nat where "MAX_USER = 255"
definition SID_DOMAIN :: string where "SID_DOMAIN = ''(SID)''"

record targets =
  tg_user :: string
  tg_host :: string
  tg_service :: string
  tg_user_domain :: "string option"
  tg_host_completed :: bool
  tg_trusted_form :: "string option"

definition nonempty :: "string option \<Rightarrow> string option" where
  "nonempty v = (case v of Some [] \<Rightarrow> None | _ \<Rightarrow> v)"

definition display_user :: "targets \<Rightarrow> string" where
  "display_user t =
     (case nonempty (tg_trusted_form t) of
        Some f \<Rightarrow> f
      | None \<Rightarrow> (case tg_user_domain t of None \<Rightarrow> tg_user t
                 | Some d \<Rightarrow> if d = SID_DOMAIN then tg_user t else tg_user t @ ''@'' @ d))"

definition show_target :: "string \<Rightarrow> string" where
  "show_target s = repr_str (sanitize_text s 80)"

definition backslash :: char where "backslash = CHR 0x5C"

text \<open>The name and the domain as typed: \<open>DOMAIN\name\<close>, \<open>name@domain\<close>, or a plain name.\<close>

definition split_user :: "string \<Rightarrow> exn + string \<times> string option" where
  "split_user raw =
     (if backslash \<in> set raw
      then (case partition_char backslash raw of (domain, found, name) \<Rightarrow>
              if rx_full netbios_rx domain then Inr (name, Some domain)
              else Inl (ValueError (''USER '' @ show_target raw @ '' is not a valid DOMAIN'' @ [backslash] @ ''name identity'')))
      else if count_char (CHR ''@'') raw = 1
      then (case partition_char (CHR ''@'') raw of (name, found, domain) \<Rightarrow>
              if rx_full target_domain_rx domain then Inr (name, Some domain)
              else Inl (ValueError (''USER '' @ show_target raw @ '' is not a valid name@domain identity'')))
      else Inr (raw, None))"

definition own_domain :: "string option \<Rightarrow> string option \<Rightarrow> string \<Rightarrow> bool" where
  "own_domain ipa_domain ipa_realm domain =
     (Some (str_lower domain) \<in> {map_option str_lower (nonempty ipa_domain), map_option str_lower (nonempty ipa_realm)})"

definition parse_user :: "string \<Rightarrow> string option \<Rightarrow> string option \<Rightarrow> exn + string \<times> string option" where
  "parse_user raw ipa_domain ipa_realm =
     (if raw = [] \<or> length raw > MAX_USER then Inl (ValueError ''USER must be an IPA user name (1-255 characters)'')
      else if rx_full sid_rx raw then Inr (str_upper raw, Some SID_DOMAIN)
      else bind_exn (split_user raw) (\<lambda>(name, domain).
             if name = [] \<or> \<not> rx_full target_user_rx name \<or> str_lower name = ''all''
             then Inl (ValueError (''USER '' @ show_target raw @ '' is not a valid IPA user name''))
             else Inr (name, case domain of None \<Rightarrow> None
                              | Some d \<Rightarrow> if own_domain ipa_domain ipa_realm d then None else Some d)))"

definition parse_host :: "string \<Rightarrow> string option \<Rightarrow> exn + string \<times> bool" where
  "parse_host raw ipa_domain =
     (if raw = [] then Inl (ValueError ''HOST must be a host name'')
      else let host = (if ends_with raw ''.'' then butlast raw else raw)
           in if length host > 253 \<or> \<not> rx_full target_host_rx host \<or> str_lower host = ''all''
              then Inl (ValueError (''HOST '' @ show_target raw @ '' is not a valid host name''))
              else if CHR ''.'' \<in> set host then Inr (str_lower host, False)
              else (case nonempty ipa_domain of
                      None \<Rightarrow> Inl (ValueError (''HOST '' @ show_target raw @
                                '' is a short name and the IPA domain is not known; use the full name''))
                    | Some d \<Rightarrow> Inr (str_lower (host @ ''.'' @ d), True)))"

definition parse_service :: "string \<Rightarrow> exn + string" where
  "parse_service raw =
     (if raw = [] then Inl (ValueError ''SERVICE must be a PAM/HBAC service name such as sshd'')
      else if CHR ''/'' \<in> set raw \<or> CHR ''@'' \<in> set raw
      then Inl (ValueError (''SERVICE '' @ show_target raw @ '' looks like a Kerberos principal; give the PAM/HBAC service name '' @
             ''(for example sshd, login or sudo)''))
      else if \<not> rx_full target_service_rx raw \<or> str_lower raw = ''all''
      then Inl (ValueError (''SERVICE '' @ show_target raw @ '' is not a valid PAM/HBAC service name''))
      else Inr raw)"

definition parse_targets :: "string \<Rightarrow> string \<Rightarrow> string \<Rightarrow> string option \<Rightarrow> string option \<Rightarrow> exn + targets" where
  "parse_targets user host service ipa_domain ipa_realm =
     bind_exn (parse_user user ipa_domain ipa_realm) (\<lambda>(name, domain).
     bind_exn (parse_host host ipa_domain) (\<lambda>(h, completed).
     bind_exn (parse_service service) (\<lambda>svc.
       Inr \<lparr>tg_user = name, tg_host = h, tg_service = svc, tg_user_domain = domain, tg_host_completed = completed,
            tg_trusted_form = (case nonempty domain of None \<Rightarrow> None
                               | Some d \<Rightarrow> Some (if d = SID_DOMAIN then name else user))\<rparr>)))"

section \<open>Lemmas\<close>

lemma user_chars: "rx_full target_user_rx s \<Longrightarrow> list_all (alnum_or ''_.$-'') s \<and> s \<noteq> [] \<and> hd s \<noteq> CHR ''-''"
proof -
  assume s: "rx_full target_user_rx s"
  have "rx_all (alnum_or ''_.$-'') target_user_rx" by (auto simp: target_user_rx_def rx_shape alnum_or_def)
  moreover have "rx_first (alnum_or ''_.'') target_user_rx" "\<not> nullable target_user_rx" by (simp_all add: target_user_rx_def rx_shape)
  ultimately have "list_all (alnum_or ''_.$-'') s" "s \<noteq> []" "alnum_or ''_.'' (hd s)"
    using rx_full_chars [OF s] rx_full_first [OF s] by blast+
  moreover have "\<not> alnum_or ''_.'' (CHR ''-'')" by code_simp
  ultimately show ?thesis by metis
qed

lemma host_chars: "rx_full target_host_rx s \<Longrightarrow> list_all (alnum_or ''.-'') s \<and> s \<noteq> [] \<and> is_alnum_ascii (hd s)"
proof -
  assume s: "rx_full target_host_rx s"
  have "rx_all (alnum_or ''.-'') target_host_rx" by (auto simp: target_host_rx_def target_label_rx_def rx_shape alnum_or_def)
  moreover have "rx_first is_alnum_ascii target_host_rx" "\<not> nullable target_host_rx"
    by (simp_all add: target_host_rx_def target_label_rx_def rx_shape)
  ultimately show ?thesis using rx_full_chars [OF s] rx_full_first [OF s] by blast
qed

lemma service_chars:
  "rx_full target_service_rx s \<Longrightarrow> list_all (alnum_or ''_.+-'') s \<and> s \<noteq> [] \<and> is_alnum_ascii (hd s) \<and> length s \<le> 64"
proof -
  assume s: "rx_full target_service_rx s"
  have "rx_all (alnum_or ''_.+-'') target_service_rx" by (auto simp: target_service_rx_def rx_shape alnum_or_def)
  moreover have "rx_first is_alnum_ascii target_service_rx" "\<not> nullable target_service_rx" "rx_max target_service_rx = Some 64"
    by (simp_all add: target_service_rx_def rx_shape)
  ultimately show ?thesis using rx_full_chars [OF s] rx_full_first [OF s] rx_full_length [OF s] by blast
qed

lemma lower_alnum: "is_alnum_ascii c \<Longrightarrow> is_alnum_ascii (lower_char c)"
  by (auto simp: is_alnum_ascii_def is_lower_def is_upper_def is_digit09_def rng_def code_lower_char)

lemma lower_host_char: "alnum_or ''.-'' c \<Longrightarrow> alnum_or ''.-'' (lower_char c)"
proof (cases "is_alnum_ascii c")
  case False
  moreover assume "alnum_or ''.-'' c"
  moreover have "lower_char (CHR ''.'') = CHR ''.''" "lower_char (CHR ''-'') = CHR ''-''" by code_simp+
  ultimately show ?thesis by (auto simp: alnum_or_def)
qed (simp add: alnum_or_def lower_alnum)

lemma parse_user_ok:
  "parse_user raw d r = Inr (name, domain) \<Longrightarrow>
     (rx_full sid_rx raw \<and> name = str_upper raw \<and> domain = Some SID_DOMAIN)
     \<or> (list_all (alnum_or ''_.$-'') name \<and> name \<noteq> [] \<and> hd name \<noteq> CHR ''-'' \<and> str_lower name \<noteq> ''all'')"
  using user_chars [of name]
  by (auto simp: parse_user_def bind_exn_Inr split: if_splits)

lemma parse_service_ok:
  "parse_service raw = Inr svc \<Longrightarrow>
     list_all (alnum_or ''_.+-'') svc \<and> svc \<noteq> [] \<and> is_alnum_ascii (hd svc) \<and> length svc \<le> 64 \<and> str_lower svc \<noteq> ''all''"
  using service_chars [of raw] by (auto simp: parse_service_def split: if_splits)

definition host_shape :: "string option \<Rightarrow> string \<Rightarrow> bool \<Rightarrow> bool" where
  "host_shape ipa_domain h completed \<longleftrightarrow>
     h \<noteq> ''all'' \<and>
     (if completed then \<exists>short. h = str_lower (short @ ''.'' @ the (nonempty ipa_domain)) \<and> rx_full target_host_rx short
      else list_all (alnum_or ''.-'') h \<and> h \<noteq> [] \<and> is_alnum_ascii (hd h))"

lemma parse_host_ok:
  assumes "parse_host raw ipa_domain = Inr (h, completed)"
  shows "host_shape ipa_domain h completed"
proof -
  define host where "host = (if ends_with raw ''.'' then butlast raw else raw)"
  have ok: "rx_full target_host_rx host" "str_lower host \<noteq> ''all''"
    using assms by (auto simp: parse_host_def Let_def host_def split: if_splits)
  note c = host_chars [OF ok(1)]
  show ?thesis
  proof (cases "CHR ''.'' \<in> set host")
    case True
    then have "h = str_lower host" "completed = False"
      using assms by (auto simp: parse_host_def Let_def host_def split: if_splits)
    moreover have "list_all (alnum_or ''.-'') (str_lower host)"
      using c lower_host_char by (auto simp: list_all_iff str_lower_def)
    moreover have "is_alnum_ascii (hd (str_lower host))" "str_lower host \<noteq> []"
      using c lower_alnum by (auto simp: str_lower_def hd_map)
    ultimately show ?thesis using ok(2) by (simp add: host_shape_def)
  next
    case False
    then obtain d where d: "nonempty ipa_domain = Some d" "h = str_lower (host @ ''.'' @ d)" "completed = True"
      using assms by (auto simp: parse_host_def Let_def host_def split: if_splits option.splits)
    have "CHR ''.'' \<in> set h"
    proof -
      have "lower_char (CHR ''.'') = CHR ''.''" by code_simp
      then show ?thesis using d(2) by (force simp: str_lower_def)
    qed
    then have "h \<noteq> ''all''" by auto
    then show ?thesis using d ok(1) by (auto simp: host_shape_def)
  qed
qed

section \<open>Properties\<close>

text \<open>What reaches the FreeIPA API is a plain name. Of targets that parse, the user is a security identifier or a user
  name, and it, the host (as typed, or completed with the IPA domain) and the service are made of letters, digits and
  \<open>._+$-\<close> only; no user name begins with a dash; and none is the word \<open>all\<close>, which hbactest reads as \<open>skip this side\<close>.\<close>

theorem targets_plain:
  "case parse_targets user host service ipa_domain ipa_realm of
     Inl e \<Rightarrow> True
   | Inr t \<Rightarrow>
       (rx_full sid_rx user \<and> tg_user t = str_upper user \<and> tg_user_domain t = Some SID_DOMAIN
        \<or> list_all (alnum_or ''_.$-'') (tg_user t) \<and> tg_user t \<noteq> [] \<and> hd (tg_user t) \<noteq> CHR ''-'' \<and> str_lower (tg_user t) \<noteq> ''all'')
       \<and> host_shape ipa_domain (tg_host t) (tg_host_completed t)
       \<and> list_all (alnum_or ''_.+-'') (tg_service t) \<and> tg_service t \<noteq> [] \<and> is_alnum_ascii (hd (tg_service t))
       \<and> length (tg_service t) \<le> 64 \<and> str_lower (tg_service t) \<noteq> ''all''"
proof (cases "parse_targets user host service ipa_domain ipa_realm")
  case (Inr t)
  then obtain name domain h completed svc where "parse_user user ipa_domain ipa_realm = Inr (name, domain)"
      "parse_host host ipa_domain = Inr (h, completed)" "parse_service service = Inr svc"
      "tg_user t = name" "tg_user_domain t = domain" "tg_host t = h" "tg_host_completed t = completed" "tg_service t = svc"
    by (auto simp: parse_targets_def bind_exn_Inr)
  then show ?thesis using Inr parse_user_ok parse_host_ok parse_service_ok by simp
qed simp

end
