(* ===== verification/PyValues.thy ===== *)
theory PyValues
  imports PyFloat PyRegex
begin

text \<open>
  What the components share beyond text: comparing values the way Python does, \<open>json.dumps\<close>, and the pieces of a
  text between the matches of a pattern.
\<close>

section \<open>Sizes\<close>

lemma size_member [termination_simp]: "x \<in> set xs \<Longrightarrow> size x < size (PList xs)"
  by (simp add: less_Suc_eq_le size_list_estimation')

lemma dict_get_size: "dict_get d k = Some v \<Longrightarrow> size v < size (PDict d)"
proof -
  assume "dict_get d k = Some v"
  then have "(k, v) \<in> set d" by (rule dict_get_member)
  then have "size_prod (\<lambda>_. 0) size (k, v) \<le> size_list (size_prod (\<lambda>_. 0) size) d" by (intro size_list_estimation') auto
  then show ?thesis by simp
qed

section \<open>Numbers\<close>

text \<open>The number a finite float stands for, from its \<open>repr\<close>: the shortest decimal that rounds to it.\<close>

definition pow10 :: "int \<Rightarrow> rat" where
  "pow10 e = (if 0 \<le> e then 10 ^ nat e else 1 / 10 ^ nat (- e))"

definition decimal_of :: "string \<Rightarrow> rat option" where
  "decimal_of s =
     (case partition_char (CHR ''e'') s of (m, has_exp, ex) \<Rightarrow> case partition_char (CHR ''.'') m of (a, _, b) \<Rightarrow>
        (case (read_nat (a @ b), if has_exp then read_int (if starts_with ex ''+'' then tl ex else ex) else Some 0) of
           (Some n, Some e) \<Rightarrow> Some (of_nat n * pow10 (e - int (length b))) | _ \<Rightarrow> None))"

definition float_of :: "string \<Rightarrow> rat option" where
  "float_of s =
     (case s of CHR ''-'' # t \<Rightarrow> map_option (\<lambda>x. - fl64 x) (decimal_of t) | _ \<Rightarrow> map_option fl64 (decimal_of s))"

fun num_of :: "pyval \<Rightarrow> rat option" where
  "num_of (PBool b) = Some (if b then 1 else 0)"
| "num_of (PInt i) = Some (of_int i)"
| "num_of (PFloat s) = float_of s"
| "num_of _ = None"

text \<open>The order of numbers, infinities included; not a number has no place in it.\<close>

definition num_key :: "pyval \<Rightarrow> (int \<times> rat) option" where
  "num_key v =
     (if v = PFloat ''inf'' then Some (1, 0) else if v = PFloat ''-inf'' then Some (-1, 0) else map_option (Pair 0) (num_of v))"

definition num_below :: "bool \<Rightarrow> int \<times> rat \<Rightarrow> int \<times> rat \<Rightarrow> bool" where
  "num_below strict p q =
     (fst p < fst q \<or> fst p = fst q \<and> (snd p < snd q \<or> \<not> strict \<and> snd p = snd q))"

definition is_number :: "pyval \<Rightarrow> bool" where
  "is_number v = (v = PFloat ''nan'' \<or> num_key v \<noteq> None)"

fun not_finite :: "pyval \<Rightarrow> bool" where
  "not_finite (PFloat s) = (s \<in> {''nan'', ''inf'', ''-inf''})"
| "not_finite _ = False"

section \<open>Equality and order\<close>

text \<open>\<open>a == b\<close>: numbers of all types by value (\<open>True == 1 == 1.0\<close>), everything else only within its type.\<close>

function py_eq :: "pyval \<Rightarrow> pyval \<Rightarrow> bool" where
  "py_eq a b =
     (case (a, b) of
        (PNone, PNone) \<Rightarrow> True
      | (PStr s, PStr t) \<Rightarrow> s = t
      | (PList xs, PList ys) \<Rightarrow> length xs = length ys \<and> list_all (\<lambda>(x, y). py_eq x y) (zip xs ys)
      | (PDict d, PDict e) \<Rightarrow>
          length d = length e \<and> list_all (\<lambda>(k, v). case dict_get e k of None \<Rightarrow> False | Some w \<Rightarrow> py_eq v w) d
      | _ \<Rightarrow> (case (num_key a, num_key b) of (Some p, Some q) \<Rightarrow> p = q | _ \<Rightarrow> False))"
  by pat_completeness auto
termination
  by (relation "measure (\<lambda>(a, b). size a)")
    (auto simp: less_Suc_eq_le dest!: set_zip_leftD intro!: trans_le_add1 size_list_estimation' trans_le_add2)

declare py_eq.simps [simp del]

text \<open>\<open>a < b\<close> (strict) and \<open>a <= b\<close>. Values without an order raise TypeError.\<close>

fun py_ord :: "bool \<Rightarrow> pyval \<Rightarrow> pyval \<Rightarrow> exn + bool" where
  "py_ord strict (PStr s) (PStr t) = Inr (if strict then s < t else s \<le> t)"
| "py_ord strict (PList []) (PList ys) = Inr (if strict then ys \<noteq> [] else True)"
| "py_ord strict (PList (x # xs)) (PList []) = Inr False"
| "py_ord strict (PList (x # xs)) (PList (y # ys)) =
     (if py_eq x y then py_ord strict (PList xs) (PList ys) else py_ord strict x y)"
| "py_ord strict a b =
     (if is_number a \<and> is_number b
      then Inr (case (num_key a, num_key b) of (Some p, Some q) \<Rightarrow> num_below strict p q | _ \<Rightarrow> False)
      else Inl TypeError)"

text \<open>\<open>a in b\<close>\<close>

definition py_in :: "pyval \<Rightarrow> pyval \<Rightarrow> exn + bool" where
  "py_in a b =
     (case b of
        PStr t \<Rightarrow> (case a of PStr s \<Rightarrow> Inr (contains t s) | _ \<Rightarrow> Inl TypeError)
      | PList ys \<Rightarrow> Inr (list_ex (py_eq a) ys)
      | PDict d \<Rightarrow> (case a of PStr s \<Rightarrow> Inr (s \<in> set (dict_keys d)) | PList xs \<Rightarrow> Inl TypeError | PDict e \<Rightarrow> Inl TypeError
                    | _ \<Rightarrow> Inr False)
      | _ \<Rightarrow> Inl TypeError)"

section \<open>JSON\<close>

definition hex4 :: "nat \<Rightarrow> string" where
  "hex4 n = [hex_digit (n div 4096 mod 16), hex_digit (n div 256 mod 16), hex_digit (n div 16 mod 16), hex_digit (n mod 16)]"

definition json_char :: "char \<Rightarrow> string" where
  "json_char c =
     (if c = CHR 0x22 then [CHR 0x5C, CHR 0x22] else if c = CHR 0x5C then [CHR 0x5C, CHR 0x5C]
      else if c = CHR 0x0A then CHR 0x5C # ''n'' else if c = CHR 0x0D then CHR 0x5C # ''r''
      else if c = CHR 0x09 then CHR 0x5C # ''t'' else if c = CHR 0x08 then CHR 0x5C # ''b''
      else if c = CHR 0x0C then CHR 0x5C # ''f''
      else if code c < 32 \<or> 126 < code c then CHR 0x5C # ''u'' @ hex4 (code c) else [c])"

definition json_str :: "string \<Rightarrow> string" where
  "json_str s = [CHR 0x22] @ concat (map json_char s) @ [CHR 0x22]"

text \<open>\<open>json.dumps(v, sort_keys=True)\<close>\<close>

fun json_dumps :: "pyval \<Rightarrow> string" where
  "json_dumps PNone = ''null''"
| "json_dumps (PBool b) = (if b then ''true'' else ''false'')"
| "json_dumps (PInt i) = show_int i"
| "json_dumps (PFloat s) = (if s = ''nan'' then ''NaN'' else if s = ''inf'' then ''Infinity'' else if s = ''-inf'' then ''-Infinity'' else s)"
| "json_dumps (PStr s) = json_str s"
| "json_dumps (PList xs) = ''['' @ join '', '' (map json_dumps xs) @ '']''"
| "json_dumps (PDict d) =
     [CHR ''{''] @ join '', '' (map snd (sort_key fst (map (\<lambda>(k, v). (k, json_str k @ '': '' @ json_dumps v)) d))) @ [CHR ''}'']"

section \<open>JSON strings are read back in one way\<close>

lemma hex_digit_inj: "a < 16 \<Longrightarrow> b < 16 \<Longrightarrow> hex_digit a = hex_digit b \<longleftrightarrow> a = b"
proof -
  assume ab: "a < 16" "b < 16"
  have "code (hex_digit n) = (if n < 10 then 48 + n else 87 + n)" if "n < 16" for n using that by (auto simp: hex_digit_def)
  then have "hex_digit a = hex_digit b \<Longrightarrow> (if a < 10 then 48 + a else 87 + a) = (if b < 10 then 48 + b else 87 + b)"
    using ab by metis
  then show ?thesis using ab by (auto split: if_splits)
qed

lemma div_16: "(n :: nat) < 256 \<Longrightarrow> n div 16 < 16"
  by simp

lemma hex4_inj:
  assumes "hex4 (code c) = hex4 (code d)"
  shows "c = d"
proof -
  have small: "code c < 256" "code d < 256" by simp_all
  have "code c div 16 mod 16 = code d div 16 mod 16" "code c mod 16 = code d mod 16"
    using assms by (simp_all add: hex4_def hex_digit_inj)
  moreover have "code c div 16 < 16" "code d div 16 < 16" by (rule div_16 [OF small(1)], rule div_16 [OF small(2)])
  ultimately have "code c div 16 = code d div 16" by simp
  then have "code c = code d" using \<open>code c mod 16 = code d mod 16\<close> by (metis div_mult_mod_eq)
  then show ?thesis by simp
qed

lemma hex4_prefix: "hex4 (code c) @ r = hex4 (code d) @ r' \<Longrightarrow> c = d \<and> r = r'"
proof -
  assume h: "hex4 (code c) @ r = hex4 (code d) @ r'"
  have "length (hex4 (code c)) = length (hex4 (code d))" by (simp add: hex4_def)
  then show ?thesis using h hex4_inj by simp
qed

lemma json_char_prefix: "json_char c @ r = json_char d @ r' \<Longrightarrow> c = d \<and> r = r'"
  using hex4_prefix [of c r d r'] by (auto simp: json_char_def split: if_splits)

lemma json_char_hd: "\<exists>h t. json_char c = h # t \<and> h \<noteq> CHR 0x22"
  by (auto simp: json_char_def)

lemma json_body_prefix:
  "concat (map json_char s) @ CHR 0x22 # x = concat (map json_char t) @ CHR 0x22 # y \<Longrightarrow> s = t \<and> x = y"
proof (induction s arbitrary: t)
  case Nil
  show ?case
  proof (cases t)
    case (Cons d t')
    then show ?thesis using Nil json_char_hd [of d] by auto
  qed (use Nil in simp)
next
  case (Cons c s)
  show ?case
  proof (cases t)
    case Nil
    then show ?thesis using Cons.prems json_char_hd [of c] by auto
  next
    case (Cons d t')
    then have "c = d \<and> concat (map json_char s) @ CHR 0x22 # x = concat (map json_char t') @ CHR 0x22 # y"
      using Cons.prems by (intro json_char_prefix) simp
    then show ?thesis using Cons.IH Cons by blast
  qed
qed

lemma json_str_prefix: "json_str s @ x = json_str t @ y \<Longrightarrow> s = t \<and> x = y"
  unfolding json_str_def using json_body_prefix [of s x t y] by simp

lemma json_str_inj: "json_str s = json_str t \<longleftrightarrow> s = t"
  using json_str_prefix [of s "[]" t "[]"] by auto

lemma json_str_hd: "\<exists>u. json_str s @ x = CHR 0x22 # u"
  by (simp add: json_str_def)

lemma json_list_prefix:
  "join '', '' (map json_str ss) @ CHR '']'' # x = join '', '' (map json_str ts) @ CHR '']'' # y \<Longrightarrow> ss = ts \<and> x = y"
proof (induction ss arbitrary: ts rule: induct_list012)
  case 1
  show ?case
  proof (cases ts)
    case (Cons t ts')
    then show ?thesis using 1 by (cases ts') (simp_all add: json_str_def)
  qed (use 1 in simp)
next
  case (2 s)
  then obtain t ts' where ts: "ts = t # ts'" by (cases ts) (simp_all add: json_str_def)
  show ?case
  proof (cases ts')
    case Nil
    then have "json_str s @ (CHR '']'' # x) = json_str t @ (CHR '']'' # y)" using 2 ts by simp
    from json_str_prefix [OF this] show ?thesis using ts Nil by simp
  next
    case (Cons t2 ts2)
    then have "json_str s @ (CHR '']'' # x) = json_str t @ ('', '' @ join '', '' (map json_str (t2 # ts2)) @ CHR '']'' # y)"
      using 2 ts by simp
    from json_str_prefix [OF this] show ?thesis by simp
  qed
next
  case (3 s s2 ss)
  then obtain t ts' where ts: "ts = t # ts'" by (cases ts) (simp_all add: json_str_def)
  show ?case
  proof (cases ts')
    case Nil
    then have "json_str s @ ('', '' @ join '', '' (map json_str (s2 # ss)) @ CHR '']'' # x) = json_str t @ (CHR '']'' # y)"
      using 3(3) ts by simp
    from json_str_prefix [OF this] show ?thesis by simp
  next
    case (Cons t2 ts2)
    then have "json_str s @ ('', '' @ join '', '' (map json_str (s2 # ss)) @ CHR '']'' # x)
        = json_str t @ ('', '' @ join '', '' (map json_str (t2 # ts2)) @ CHR '']'' # y)" using 3(3) ts by simp
    from json_str_prefix [OF this] have "s = t" "join '', '' (map json_str (s2 # ss)) @ CHR '']'' # x
        = join '', '' (map json_str (t2 # ts2)) @ CHR '']'' # y" by simp_all
    from 3(2) [OF this(2)] show ?thesis using \<open>s = t\<close> ts Cons by simp
  qed
qed

section \<open>The pieces of a text\<close>

text \<open>A text as the characters no match covers and the matches (their text and groups), in order: \<open>sub\<close> replaces the
  matches, \<open>findall\<close> keeps only them.\<close>

datatype piece = Plain char | Match string "(nat \<times> string) list"

function pieces_from :: "rx \<Rightarrow> string \<Rightarrow> string \<Rightarrow> piece list" where
  "pieces_from r d s =
     (case filter (\<lambda>t. length (rest t) < length s) (take 1 (rx_m r (d, s, []))) of
        (d', s', g) # _ \<Rightarrow>
          (if length s' < length s
           then Match (rev (take (length d' - length d) d')) g # pieces_from r d' s' else map Plain s)
      | [] \<Rightarrow> (case s of [] \<Rightarrow> [] | c # s' \<Rightarrow> Plain c # pieces_from r (c # d) s'))"
  by pat_completeness auto
termination by (relation "measure (\<lambda>(r, d, s). length s)") auto

declare pieces_from.simps [simp del]

definition pieces :: "rx \<Rightarrow> string \<Rightarrow> piece list" where "pieces r s = pieces_from r [] s"

fun fill_piece :: "(string \<Rightarrow> (nat \<times> string) list \<Rightarrow> string) \<Rightarrow> piece \<Rightarrow> string" where
  "fill_piece f (Plain c) = [c]"
| "fill_piece f (Match t g) = f t g"

lemma sub_from_pieces: "sub_from r f d s = concat (map (fill_piece f) (pieces_from r d s))"
proof (induction r d s rule: pieces_from.induct)
  case (1 r d s)
  show ?case
  proof (cases "filter (\<lambda>t. length (rest t) < length s) (take 1 (rx_m r (d, s, [])))")
    case Nil
    then show ?thesis using 1 by (cases s) (simp_all add: sub_from.simps [of r f d] pieces_from.simps [of r d])
  next
    case (Cons t ts)
    obtain d' s' g where t: "t = (d', s', g)" by (cases t)
    have "t \<in> set (filter (\<lambda>t. length (rest t) < length s) (take 1 (rx_m r (d, s, []))))"
      unfolding Cons by simp
    then have "length s' < length s" by (simp add: t)
    then show ?thesis
      using 1(2) [OF Cons t [symmetric] refl \<open>length s' < length s\<close>] Cons by (simp add: sub_from.simps [of r f d s] pieces_from.simps [of r d s] t)
  qed
qed

lemma rx_sub_pieces: "rx_sub r f s = concat (map (fill_piece f) (pieces r s))"
  by (simp add: rx_sub_def pieces_def sub_from_pieces)

end
