(* ===== verification/AccessApi.thy ===== *)
theory AccessApi
  imports Relations AccessTargets PyValues
begin

text \<open>
  Read-only access to the FreeIPA API, \<open>access/api.py\<close>: the closed list of methods, the budget of calls and time, what is
  made of an answer, and the two ways to get one (the server through curl, or a recording). What the curl process and
  \<open>json.loads\<close> give is an argument of the model.
\<close>

section \<open>Data\<close>

definition ALLOWED_METHODS :: "string list" where
  "ALLOWED_METHODS = [''user_show'', ''host_show'', ''hbacsvc_show'', ''hbacrule_show'', ''group_show'', ''hostgroup_show'',
     ''hbactest'', ''ping'']"

definition MAX_RESPONSE_BYTES :: nat where "MAX_RESPONSE_BYTES = 16 * 1024 * 1024"

record api_error =
  ae_kind :: string
  ae_message :: string
  ae_name :: "string option"
  ae_code :: "int option"

record api_response =
  ar_method :: string
  ar_args :: "string list"
  ar_result :: pyval
  ar_error :: "api_error option"
  ar_messages :: "pydict list"
  ar_seconds :: rat

definition ar_ok :: "api_response \<Rightarrow> bool" where "ar_ok r = (ar_error r = None)"

definition ar_entry :: "api_response \<Rightarrow> pydict" where
  "ar_entry r = as_dict (field (as_dict (ar_result r)) ''result'')"

record api_context =
  ac_mode :: string
  ac_server :: "string option"
  ac_domain :: "string option"
  ac_realm :: "string option"
  ac_principal :: "string option"
  ac_api_version :: "string option"
  ac_unavailable :: "string option"

definition mk_error :: "string \<Rightarrow> string \<Rightarrow> api_error" where
  "mk_error kind message = \<lparr>ae_kind = kind, ae_message = message, ae_name = None, ae_code = None\<rparr>"

definition failed :: "string \<Rightarrow> string list \<Rightarrow> rat \<Rightarrow> api_error \<Rightarrow> api_response" where
  "failed method args seconds e =
     \<lparr>ar_method = method, ar_args = args, ar_result = PNone, ar_error = Some e, ar_messages = [], ar_seconds = seconds\<rparr>"

section \<open>Answers\<close>

definition error_kind :: "string option \<Rightarrow> int option \<Rightarrow> string" where
  "error_kind name ecode =
     (if name = Some ''NotFound'' \<or> ecode = Some 4001 then ''not_found''
      else if name \<in> {Some ''ACIError'', Some ''AuthorizationError''} \<or> ecode \<in> {Some 2100, Some 2101} then ''denied''
      else ''api'')"

definition string_field :: "pydict \<Rightarrow> string \<Rightarrow> string option" where
  "string_field d k = (case dict_get d k of Some (PStr s) \<Rightarrow> Some s | _ \<Rightarrow> None)"

definition int_field :: "pydict \<Rightarrow> string \<Rightarrow> int option" where
  "int_field d k = (case dict_get d k of Some (PInt i) \<Rightarrow> Some i | _ \<Rightarrow> None)"

definition list_field :: "pydict \<Rightarrow> string \<Rightarrow> pyval list" where
  "list_field d k = (case dict_get d k of Some (PList xs) \<Rightarrow> xs | _ \<Rightarrow> [])"

definition dicts_in :: "pyval list \<Rightarrow> pydict list" where
  "dicts_in xs = concat (map (\<lambda>x. case x of PDict d \<Rightarrow> [d] | _ \<Rightarrow> []) xs)"

definition from_jsonrpc :: "string \<Rightarrow> string list \<Rightarrow> pyval \<Rightarrow> rat \<Rightarrow> api_response" where
  "from_jsonrpc method args doc seconds =
     (case doc of
        PDict d \<Rightarrow>
          if truthy (field d ''error'')
          then (case field d ''error'' of
                  PDict err \<Rightarrow>
                    (let name = string_field err ''name''; ecode = int_field err ''code''
                     in failed method args seconds
                          \<lparr>ae_kind = error_kind name ecode,
                           ae_message = sanitize_text (py_str (the_default (PStr ''error'') (dict_get err ''message''))) 300,
                           ae_name = nonempty (Some (sanitize_text (the_default [] name) 60)), ae_code = ecode\<rparr>)
                | _ \<Rightarrow> failed method args seconds (mk_error ''malformed'' ''the API error is not a JSON object''))
          else (case field d ''result'' of
                  PDict result \<Rightarrow>
                    \<lparr>ar_method = method, ar_args = args, ar_result = PDict result, ar_error = None,
                     ar_messages = dicts_in (list_field result ''messages''), ar_seconds = seconds\<rparr>
                | _ \<Rightarrow> failed method args seconds (mk_error ''malformed'' ''the API answer has no result object''))
      | _ \<Rightarrow> failed method args seconds (mk_error ''malformed'' ''the API answer is not a JSON object''))"

section \<open>Calls and their budget\<close>

text \<open>What answers a call may read the clock and change the context (the identity the server saw) and the world.\<close>

type_synonym 'w backend = "string \<Rightarrow> string list \<Rightarrow> pydict \<Rightarrow> api_context \<times> 'w \<Rightarrow> api_response \<times> api_context \<times> 'w"

record 'w api =
  ap_context :: api_context
  ap_max_calls :: nat
  ap_calls_made :: nat
  ap_deadline_seconds :: rat
  ap_deadline :: "rat option"
  ap_log :: "api_response list"
  ap_world :: 'w

definition new_api :: "api_context \<Rightarrow> nat \<Rightarrow> rat \<Rightarrow> 'w \<Rightarrow> 'w api" where
  "new_api c max_calls deadline_seconds w =
     \<lparr>ap_context = c, ap_max_calls = max_calls, ap_calls_made = 0, ap_deadline_seconds = deadline_seconds, ap_deadline = None,
      ap_log = [], ap_world = w\<rparr>"

text \<open>The time budget: the clock is read only when a deadline is set.\<close>

definition past_deadline :: "('w \<Rightarrow> rat \<times> 'w) \<Rightarrow> 'w api \<Rightarrow> bool \<times> 'w api" where
  "past_deadline clock a =
     (case ap_deadline a of
        None \<Rightarrow> (False, a)
      | Some d \<Rightarrow> (case clock (ap_world a) of (now, w) \<Rightarrow> (d < now, a\<lparr>ap_world := w\<rparr>)))"

definition over_budget :: "('w \<Rightarrow> rat \<times> 'w) \<Rightarrow> 'w api \<Rightarrow> bool \<times> 'w api" where
  "over_budget clock a = (if ap_calls_made a \<ge> ap_max_calls a then (True, a) else past_deadline clock a)"

definition start_deadline :: "('w \<Rightarrow> rat \<times> 'w) \<Rightarrow> 'w api \<Rightarrow> 'w api" where
  "start_deadline clock a =
     (if ap_deadline a = None
      then (case clock (ap_world a) of (now, w) \<Rightarrow> a\<lparr>ap_deadline := Some (fadd now (ap_deadline_seconds a)), ap_world := w\<rparr>)
      else a)"

definition answered :: "'w backend \<Rightarrow> string \<Rightarrow> string list \<Rightarrow> pydict \<Rightarrow> 'w api \<Rightarrow> api_response \<times> 'w api" where
  "answered backend method args options a =
     (let a1 = a\<lparr>ap_calls_made := Suc (ap_calls_made a)\<rparr>
      in case backend method args options (ap_context a1, ap_world a1) of
           (r, c, w) \<Rightarrow> (r, a1\<lparr>ap_context := c, ap_world := w\<rparr>))"

definition logged :: "api_response \<times> 'w api \<Rightarrow> api_response \<times> 'w api" where
  "logged ra = (case ra of (r, a) \<Rightarrow> (r, a\<lparr>ap_log := ap_log a @ [r]\<rparr>))"

definition api_send ::
  "('w \<Rightarrow> rat \<times> 'w) \<Rightarrow> 'w backend \<Rightarrow> string \<Rightarrow> string list \<Rightarrow> pydict \<Rightarrow> 'w api \<Rightarrow> api_response \<times> 'w api" where
  "api_send clock backend method args options a =
     logged
       (case nonempty (ac_unavailable (ap_context a)) of
          Some why \<Rightarrow> (failed method args 0 (mk_error ''unavailable'' why), a)
        | None \<Rightarrow>
            (case over_budget clock a of
               (over, a1) \<Rightarrow>
                 if over then (failed method args 0 (mk_error ''budget'' ''the API call or time budget was used up''), a1)
                 else answered backend method args options (start_deadline clock a1)))"

definition api_call ::
  "('w \<Rightarrow> rat \<times> 'w) \<Rightarrow> 'w backend \<Rightarrow> string \<Rightarrow> string list \<Rightarrow> pydict \<Rightarrow> 'w api \<Rightarrow> exn + api_response \<times> 'w api" where
  "api_call clock backend method args options a =
     (if method \<notin> set ALLOWED_METHODS then Inl (ValueError (''refusing a non-allowlisted API method: '' @ method))
      else Inr (api_send clock backend method args options a))"

section \<open>The server\<close>

text \<open>What running curl gives: no answer in time, a failure to start, or an exit with its output (as text, and the number
  of its bytes), each with the seconds it took.\<close>

datatype curl_outcome = Curl_timeout rat | Curl_oserror rat string | Curl_exit rat int string string nat

definition curl_timeout :: nat where "curl_timeout = 20"

definition no_answer :: "string \<Rightarrow> string list \<Rightarrow> rat \<Rightarrow> api_response" where
  "no_answer method args seconds =
     failed method args seconds (mk_error ''timeout'' (''no answer within '' @ show_nat curl_timeout @ '' s''))"

definition ticket_refused :: string where
  "ticket_refused = ''the IPA server did not accept the Kerberos ticket (expired, or for another realm): run kinit''"

text \<open>The identity and the version of the API, taken from the first answer that has them.\<close>

definition learn :: "pyval \<Rightarrow> api_context \<Rightarrow> api_context" where
  "learn doc c =
     (case doc of
        PDict d \<Rightarrow>
          c\<lparr>ac_principal := (case (ac_principal c, string_field d ''principal'') of
                              (None, Some p) \<Rightarrow> Some (sanitize_text p 200) | _ \<Rightarrow> ac_principal c),
            ac_api_version := (case (ac_api_version c, string_field d ''version'') of
                              (None, Some v) \<Rightarrow> Some (sanitize_text v 40) | _ \<Rightarrow> ac_api_version c)\<rparr>
      | _ \<Rightarrow> c)"

definition live_answer ::
  "(string \<Rightarrow> pyval option) \<Rightarrow> string \<Rightarrow> string list \<Rightarrow> curl_outcome \<Rightarrow> api_context \<Rightarrow> api_response \<times> api_context" where
  "live_answer loads method args outc c =
     (case outc of
        Curl_timeout seconds \<Rightarrow> (no_answer method args seconds, c)
      | Curl_oserror seconds msg \<Rightarrow> (failed method args seconds (mk_error ''unavailable'' (sanitize_text msg 300)), c)
      | Curl_exit seconds rc out err bytes \<Rightarrow>
          if rc = 28 then (no_answer method args seconds, c)
          else if rc \<noteq> 0
          then (failed method args seconds (mk_error ''unavailable'' (''curl exit '' @ show_int rc @ '': '' @ sanitize_text err 200)), c)
          else if bytes > MAX_RESPONSE_BYTES then (failed method args seconds (mk_error ''malformed'' ''the API answer is too large''), c)
          else (case rpartition_char (CHR 0x0A) out of (body, found, status) \<Rightarrow>
                  if strip status = ''401'' then (failed method args seconds (mk_error ''auth'' ticket_refused), c)
                  else if strip status \<noteq> ''200''
                  then (failed method args seconds (mk_error ''unavailable'' (''the IPA server answered HTTP '' @ sanitize_text status 10)), c)
                  else (case loads body of
                          None \<Rightarrow> (failed method args seconds (mk_error ''malformed'' ''the API answer is not JSON''), c)
                        | Some doc \<Rightarrow> (from_jsonrpc method args doc seconds, learn doc c))))"

definition live_backend ::
  "(string \<Rightarrow> pyval option) \<Rightarrow> (string \<Rightarrow> string list \<Rightarrow> pydict \<Rightarrow> 'w \<Rightarrow> curl_outcome \<times> 'w) \<Rightarrow> 'w backend" where
  "live_backend loads curl method args options =
     (\<lambda>(c, w). case curl method args options w of (outc, w') \<Rightarrow>
        (case live_answer loads method args outc c of (r, c') \<Rightarrow> (r, c', w')))"

section \<open>The recording\<close>

text \<open>\<open>json.dumps\<close> of the key: a list of the method, the arguments in lower case and, for hbactest, what was asked.\<close>

definition KEYED_OPTIONS :: "string \<Rightarrow> string list" where
  "KEYED_OPTIONS method = (if method = ''hbactest'' then [''user'', ''targethost'', ''service''] else [])"

definition keyed_option :: "pydict \<Rightarrow> string \<Rightarrow> string" where
  "keyed_option options k = py_str (the_default (PStr []) (dict_get options k))"

definition call_key :: "string \<Rightarrow> string list \<Rightarrow> pydict \<Rightarrow> string" where
  "call_key method args options =
     ''['' @ json_str method @ '', ['' @ join '', '' (map (json_str \<circ> str_lower) args) @ ''], '' @ [CHR ''{''] @
     join '', '' (map (\<lambda>k. json_str k @ '': '' @ json_str (keyed_option options k)) (sort (KEYED_OPTIONS method))) @
     [CHR ''}''] @ '']''"

type_synonym recording = "(string \<times> pydict) list"

definition all_strings :: "pyval list \<Rightarrow> bool" where
  "all_strings xs = list_all (\<lambda>x. case x of PStr s \<Rightarrow> True | _ \<Rightarrow> False) xs"

definition record_call :: "pyval \<Rightarrow> recording \<Rightarrow> recording" where
  "record_call c rec =
     (case c of
        PDict d \<Rightarrow>
          (case string_field d ''method'' of
             None \<Rightarrow> rec
           | Some m \<Rightarrow>
               (let args = list_field d ''args''
                in if all_strings args then dict_set (call_key m (strings_in args) (as_dict (field d ''options''))) d rec else rec))
      | _ \<Rightarrow> rec)"

definition meta_field :: "pydict \<Rightarrow> string \<Rightarrow> nat \<Rightarrow> string option" where
  "meta_field meta k limit = map_option (\<lambda>v. sanitize_text v limit) (nonempty (string_field meta k))"

text \<open>The recording of a fixture: the document that was read, or why there is none.\<close>

definition replay_api :: "string + pydict \<Rightarrow> api_context \<times> recording" where
  "replay_api source =
     (let doc = (case source of Inl why \<Rightarrow> [] | Inr d \<Rightarrow> d); meta = as_dict (field doc ''meta'');
          why = (case source of Inl w \<Rightarrow> Some w | Inr d \<Rightarrow> None)
      in (\<lparr>ac_mode = ''REPLAY'', ac_server = meta_field meta ''server'' 200,
          ac_domain = nonempty (map_option str_lower (meta_field meta ''domain'' 200)), ac_realm = meta_field meta ''realm'' 200,
          ac_principal = meta_field meta ''principal'' 200, ac_api_version = meta_field meta ''api_version'' 40,
          ac_unavailable = (if why \<noteq> None then why else nonempty (meta_field meta ''unavailable'' 200))\<rparr>,
          fold record_call (list_field doc ''calls'') []))"

definition replay_answer :: "recording \<Rightarrow> string \<Rightarrow> string list \<Rightarrow> pydict \<Rightarrow> api_response" where
  "replay_answer rec method args options =
     (case dict_get rec (call_key method args options) of
        None \<Rightarrow> failed method args 0 (mk_error ''not_recorded'' ''this call was not recorded in the replay'')
      | Some c \<Rightarrow>
          (case field c ''transport_error'' of
             PDict te \<Rightarrow>
               (let given = string_field te ''kind'';
                    kind = (if given \<in> {Some ''auth'', Some ''unavailable'', Some ''timeout'', Some ''malformed''}
                            then the_default [] given else ''unavailable'')
                in failed method args 0 (mk_error kind (sanitize_text (py_str (the_default (PStr kind) (dict_get te ''message''))) 300)))
           | _ \<Rightarrow> from_jsonrpc method args (field c ''response'') 0))"

definition replay_backend :: "recording \<Rightarrow> 'w backend" where
  "replay_backend rec method args options = (\<lambda>(c, w). (replay_answer rec method args options, c, w))"

section \<open>The contract of the API\<close>

text \<open>What the evaluation of an access question relies on: a call counts at most one against the budget, which it never
  exceeds, and only the one who calls decides that the API is unavailable.\<close>

locale ipa_api =
  fixes backend :: "'w backend"
  assumes keeps_availability: "backend method args options (c, w) = (r, c', w') \<Longrightarrow> ac_unavailable c' = ac_unavailable c"
begin

lemma send_counts:
  assumes "api_send clock backend method args options a = (r, a')"
  shows "ap_calls_made a \<le> ap_calls_made a'" "ap_calls_made a' \<le> Suc (ap_calls_made a)" "ap_max_calls a' = ap_max_calls a"
    "ap_calls_made a \<le> ap_max_calls a \<Longrightarrow> ap_calls_made a' \<le> ap_max_calls a'"
    "ac_unavailable (ap_context a') = ac_unavailable (ap_context a)" "ap_log a' = ap_log a @ [r]"
  using assms keeps_availability
  by (auto simp: api_send_def logged_def over_budget_def past_deadline_def start_deadline_def answered_def Let_def
      split: option.splits prod.splits if_splits)

end

lemma learn_keeps: "ac_unavailable (learn doc c) = ac_unavailable c"
  by (simp add: learn_def split: pyval.splits)

lemma live_answer_keeps: "live_answer loads method args outc c = (r, c') \<Longrightarrow> ac_unavailable c' = ac_unavailable c"
  by (auto simp: live_answer_def learn_keeps split: curl_outcome.splits if_splits option.splits prod.splits)

interpretation live_ipa: ipa_api "live_backend loads curl" for loads curl
  by unfold_locales (auto simp: live_backend_def split: prod.splits dest: live_answer_keeps)

interpretation replay_ipa: ipa_api "replay_backend rec" for rec
  by unfold_locales (auto simp: replay_backend_def)

section \<open>Properties\<close>

text \<open>C39: A recording answers only the request that was recorded. Two calls have the same key exactly when they have the
  same method, the same arguments up to case, and for hbactest ask about the same user, host and service.\<close>

theorem call_key_determines:
  "call_key m args options = call_key m' args' options' \<longleftrightarrow>
     m = m' \<and> map str_lower args = map str_lower args'
     \<and> map (keyed_option options) (KEYED_OPTIONS m) = map (keyed_option options') (KEYED_OPTIONS m)"
proof -
  define tail where "tail = (\<lambda>m opts. join '', '' (map (\<lambda>k. json_str k @ '': '' @ json_str (keyed_option opts k)) (sort (KEYED_OPTIONS m)))
      @ [CHR ''}''] @ '']'')"
  have key: "call_key m args opts = ''['' @ json_str m @ ('', ['' @ join '', '' (map json_str (map str_lower args))
      @ CHR '']'' # ('', '' @ [CHR ''{''] @ tail m opts))" for m args opts
    by (simp add: call_key_def tail_def)
  have opts: "tail m o1 = tail m o2 \<longleftrightarrow> map (keyed_option o1) (KEYED_OPTIONS m) = map (keyed_option o2) (KEYED_OPTIONS m)" for o1 o2
  proof (cases "m = ''hbactest''")
    case True
    have s: "sort (KEYED_OPTIONS m) = [''service'', ''targethost'', ''user'']" using True by (simp add: KEYED_OPTIONS_def)
    show ?thesis
    proof
      assume "tail m o1 = tail m o2"
      then show "map (keyed_option o1) (KEYED_OPTIONS m) = map (keyed_option o2) (KEYED_OPTIONS m)"
        using True by (auto simp: tail_def s KEYED_OPTIONS_def json_str_inj dest!: json_str_prefix)
    qed (use True in \<open>simp add: tail_def s KEYED_OPTIONS_def\<close>)
  qed (simp add: tail_def KEYED_OPTIONS_def)
  show ?thesis
  proof
    assume "call_key m args options = call_key m' args' options'"
    then have "json_str m @ ('', ['' @ join '', '' (map json_str (map str_lower args)) @ CHR '']'' # ('', '' @ [CHR ''{''] @ tail m options))
        = json_str m' @ ('', ['' @ join '', '' (map json_str (map str_lower args')) @ CHR '']'' # ('', '' @ [CHR ''{''] @ tail m' options'))"
      unfolding key by simp
    note pre = json_str_prefix [OF this]
    have m: "m = m'" using pre by blast
    have r: "join '', '' (map json_str (map str_lower args)) @ CHR '']'' # ('', '' @ [CHR ''{''] @ tail m options)
        = join '', '' (map json_str (map str_lower args')) @ CHR '']'' # ('', '' @ [CHR ''{''] @ tail m' options')"
      using conjunct2 [OF pre] by (simp del: map_map)
    from json_list_prefix [OF r] m show "m = m' \<and> map str_lower args = map str_lower args'
     \<and> map (keyed_option options) (KEYED_OPTIONS m) = map (keyed_option options') (KEYED_OPTIONS m)" using opts by simp
  next
    assume same: "m = m' \<and> map str_lower args = map str_lower args'
     \<and> map (keyed_option options) (KEYED_OPTIONS m) = map (keyed_option options') (KEYED_OPTIONS m)"
    then have t: "tail m' options = tail m' options'" using opts [of options options'] by simp
    have m: "m = m'" and a: "map str_lower args = map str_lower args'" using same by simp_all
    show "call_key m args options = call_key m' args' options'" by (simp only: key m a t)
  qed
qed

end
