(* ===== verification/Access.thy ===== *)
theory Access
  imports AccessApi
begin

text \<open>
  One access question, \<open>access/evaluate.py\<close>: a fixed, bounded sequence of read-only API calls, FreeIPA's own HBAC
  evaluation as the decision, an explanation that never changes it, and the three verdicts.
  A Python set of names is a list without duplicates, iterated in the order of the list.
\<close>

section \<open>Data\<close>

definition MAX_RULES :: nat where "MAX_RULES = 10"
definition MAX_GROUP_FETCHES :: nat where "MAX_GROUP_FETCHES = 40"

datatype access_state = AS_PASS | AS_FAIL | AS_UNKNOWN | AS_NOT_VERIFIED

record verdict =
  vd_state :: access_state
  vd_summary :: string
  vd_reasons :: "string list"

definition verdict_of :: "access_state \<Rightarrow> string \<Rightarrow> string list \<Rightarrow> verdict" where
  "verdict_of s m rs = \<lparr>vd_state = s, vd_summary = m, vd_reasons = rs\<rparr>"

record access_check =
  ck_name :: string
  ck_call :: string
  ck_outcome :: string
  ck_summary :: string
  ck_seconds :: rat

record access_finding =
  fi_code :: string
  fi_title :: string
  fi_detail :: string
  fi_blocking :: bool

record rule_explanation =
  re_rule :: string
  re_enabled :: "bool option"
  re_matched :: bool
  re_sides :: "(string \<times> side_explanation list) list"
  re_status :: string
  re_source :: string

record evaluation =
  ev_ran :: bool
  ev_granted :: "bool option"
  ev_matched :: "string list"
  ev_not_matched_count :: nat
  ev_error_rules :: "string list"
  ev_error_rules_own :: "string list"
  ev_truncated :: bool
  ev_error :: "string option"
  ev_request :: "(string \<times> string) list"
  ev_summary :: "string option"

definition no_evaluation :: evaluation where
  "no_evaluation = \<lparr>ev_ran = False, ev_granted = None, ev_matched = [], ev_not_matched_count = 0, ev_error_rules = [],
     ev_error_rules_own = [], ev_truncated = False, ev_error = None, ev_request = [], ev_summary = None\<rparr>"

record account_state =
  at_exists :: "bool option"
  at_canonical :: "string option"
  at_disabled :: "bool option"
  at_principal_expires :: "string option"
  at_principal_expired :: "bool option"
  at_password_expires :: "string option"
  at_password_expired :: "bool option"
  at_preserved :: "bool option"

definition no_account :: account_state where
  "no_account = \<lparr>at_exists = None, at_canonical = None, at_disabled = None, at_principal_expires = None,
     at_principal_expired = None, at_password_expires = None, at_password_expired = None, at_preserved = None\<rparr>"

record host_state =
  hs_exists :: "bool option"
  hs_canonical :: "string option"
  hs_has_keytab :: "bool option"

definition no_host :: host_state where
  "no_host = \<lparr>hs_exists = None, hs_canonical = None, hs_has_keytab = None\<rparr>"

record service_state =
  sv_exists :: "bool option"
  sv_canonical :: "string option"
  sv_groups :: "string list"

definition no_service :: service_state where
  "no_service = \<lparr>sv_exists = None, sv_canonical = None, sv_groups = []\<rparr>"

section \<open>Reading values\<close>

definition strs_of :: "pyval \<Rightarrow> string list" where
  "strs_of v = (case v of PStr s \<Rightarrow> [s] | PList xs \<Rightarrow> filter (\<lambda>s. s \<noteq> []) (strings_in xs) | _ \<Rightarrow> [])"

text \<open>A time of UTC: year, month, day, hour, minute, second and microsecond, compared in this order.\<close>

type_synonym utc_time = "nat list"

definition strptime_rx :: "string \<Rightarrow> string \<Rightarrow> string \<Rightarrow> rx" where
  "strptime_rx date_sep t_sep time_sep = ci (seqs
     [Grp 1 (upto 4 4 (Cls is_digit09)), lit date_sep,
      Grp 2 (alts [seqs [lit ''1'', Cls (rng 48 50)], seqs [lit ''0'', Cls (rng 49 57)], Cls (rng 49 57)]), lit date_sep,
      Grp 3 (alts [seqs [lit ''3'', Cls (rng 48 49)], seqs [Cls (rng 49 50), Cls is_digit09], seqs [lit ''0'', Cls (rng 49 57)],
                   Cls (rng 49 57), seqs [lit '' '', Cls (rng 49 57)]]), lit t_sep,
      Grp 4 (alts [seqs [lit ''2'', Cls (rng 48 51)], seqs [Cls (rng 48 49), Cls is_digit09], Cls is_digit09]), lit time_sep,
      Grp 5 (alts [seqs [Cls (rng 48 53), Cls is_digit09], Cls is_digit09]), lit time_sep,
      Grp 6 (alts [seqs [lit ''6'', Cls (rng 48 49)], seqs [Cls (rng 48 53), Cls is_digit09], Cls is_digit09]), lit ''Z''])"

definition group_nat :: "rx_state \<Rightarrow> nat \<Rightarrow> nat" where
  "group_nat m i = the_default 0 (read_nat (strip (the_default [] (group m i))))"

definition leap_year :: "nat \<Rightarrow> bool" where
  "leap_year y = (4 dvd y \<and> (\<not> 100 dvd y \<or> 400 dvd y))"

definition month_days :: "nat \<Rightarrow> nat \<Rightarrow> nat" where
  "month_days y m = (if m = 2 then (if leap_year y then 29 else 28) else if m \<in> {4, 6, 9, 11} then 30 else 31)"

definition strptime :: "rx \<Rightarrow> string \<Rightarrow> utc_time option" where
  "strptime fmt s =
     (case rx_match fmt s of
        None \<Rightarrow> None
      | Some m \<Rightarrow>
          (let y = group_nat m 1; mo = group_nat m 2; d = group_nat m 3; h = group_nat m 4; mi = group_nat m 5; sec = group_nat m 6
           in if rest m = [] \<and> 1 \<le> y \<and> d \<le> month_days y mo \<and> sec \<le> 59 then Some [y, mo, d, h, mi, sec, 0] else None))"

definition time_of :: "pyval \<Rightarrow> utc_time option" where
  "time_of v =
     (case (case first_value v of PDict d \<Rightarrow> field d ''__datetime__'' | x \<Rightarrow> x) of
        PStr s \<Rightarrow>
          (case strptime (strptime_rx [] [] []) s of
             Some t \<Rightarrow> Some t
           | None \<Rightarrow> strptime (strptime_rx ''-'' ''T'' '':'') s)
      | _ \<Rightarrow> None)"

definition pad2 :: "nat \<Rightarrow> string" where
  "pad2 n = (if n < 10 then ''0'' else []) @ show_nat n"

definition iso_of :: "utc_time \<Rightarrow> string" where
  "iso_of t = show_nat (t ! 0) @ ''-'' @ pad2 (t ! 1) @ ''-'' @ pad2 (t ! 2) @ ''T'' @ pad2 (t ! 3) @ '':'' @ pad2 (t ! 4) @ '':'' @
     pad2 (t ! 5) @ ''Z''"

definition describe_error :: "api_response \<Rightarrow> string" where
  "describe_error r =
     (case ar_error r of
        None \<Rightarrow> []
      | Some e \<Rightarrow>
          the_default (ae_message e) (map_of
            [(''not_found'', ''not found''), (''denied'', ''not permitted for this identity ('' @ ae_message e @ '')''),
             (''auth'', ae_message e), (''unavailable'', ''IPA API unavailable: '' @ ae_message e),
             (''timeout'', ''timed out: '' @ ae_message e), (''malformed'', ''unusable answer: '' @ ae_message e),
             (''budget'', ae_message e), (''not_recorded'', ae_message e)] (ae_kind e)))"

definition is_truncated :: "api_response \<Rightarrow> bool" where
  "is_truncated r = list_ex (\<lambda>m. contains (str_lower (the_default [] (string_field m ''name''))) ''truncat''
     \<or> dict_get m ''code'' \<in> {Some (PInt 13017), Some (PFloat ''13017.0'')}) (ar_messages r)"

section \<open>The state of a run\<close>

text \<open>The methods the sequence uses are a type; their names are on the list of allowed methods.\<close>

datatype api_method = User_show | Host_show | Hbacsvc_show | Hbacrule_show | Group_show | Hostgroup_show | Hbactest

fun method_name :: "api_method \<Rightarrow> string" where
  "method_name User_show = ''user_show''"
| "method_name Host_show = ''host_show''"
| "method_name Hbacsvc_show = ''hbacsvc_show''"
| "method_name Hbacrule_show = ''hbacrule_show''"
| "method_name Group_show = ''group_show''"
| "method_name Hostgroup_show = ''hostgroup_show''"
| "method_name Hbactest = ''hbactest''"

lemma method_allowed: "method_name m \<in> set ALLOWED_METHODS"
  by (cases m) (simp_all add: ALLOWED_METHODS_def)

record 'w access_run =
  ax_api :: "'w api"
  ax_checks :: "access_check list"
  ax_findings :: "access_finding list"
  ax_index :: rel_index
  ax_limit_notes :: "string list"
  ax_rules_unread :: "string list"
  ax_rules_cut :: bool
  ax_chain_reads :: nat
  ax_relevant_user :: "string list"
  ax_relevant_host :: "string list"
  ax_relevant_service :: "string list"
  ax_user_rules :: "string list"

definition new_run :: "'w api \<Rightarrow> targets \<Rightarrow> 'w access_run" where
  "new_run a t =
     \<lparr>ax_api = a, ax_checks = [], ax_findings = [], ax_index = empty_index, ax_limit_notes = [], ax_rules_unread = [],
      ax_rules_cut = False, ax_chain_reads = 0, ax_relevant_user = [], ax_relevant_host = [],
      ax_relevant_service = [str_lower (tg_service t)], ax_user_rules = []\<rparr>"

definition unavailable :: "'w access_run \<Rightarrow> string option" where
  "unavailable run = nonempty (ac_unavailable (ap_context (ax_api run)))"

definition set_unavailable :: "string option \<Rightarrow> 'w api \<Rightarrow> 'w api" where
  "set_unavailable v a = a\<lparr>ap_context := (ap_context a)\<lparr>ac_unavailable := v\<rparr>\<rparr>"

text \<open>What is fixed during a run: how calls are answered, the targets, the time.\<close>

record 'w access_env =
  an_clock :: "'w \<Rightarrow> rat \<times> 'w"
  an_backend :: "'w backend"
  an_targets :: targets
  an_now :: utc_time

text \<open>The last call: its name, the call, the answer.\<close>

type_synonym last_call = "string \<times> string \<times> api_response"

definition ax_call ::
  "'w access_env \<Rightarrow> string \<Rightarrow> api_method \<Rightarrow> string list \<Rightarrow> pydict \<Rightarrow> 'w access_run \<Rightarrow> last_call \<times> 'w access_run" where
  "ax_call env name m args options run =
     (case api_send (an_clock env) (an_backend env) (method_name m) args options (ax_api run) of
        (r, a) \<Rightarrow>
          (let a' = (case ar_error r of
                       Some e \<Rightarrow> if ae_kind e = ''auth'' \<and> nonempty (ac_unavailable (ap_context a)) = None
                                then set_unavailable (Some (ae_message e)) a else a
                     | None \<Rightarrow> a)
           in ((name, strip (method_name m @ '' '' @ join '' '' args), r), run\<lparr>ax_api := a'\<rparr>)))"

definition round3 :: "rat \<Rightarrow> rat" where "round3 x = fl64 (of_int (round_half_even (x * 1000)) / 1000)"

definition add_check :: "last_call \<Rightarrow> string \<Rightarrow> string \<Rightarrow> 'w access_run \<Rightarrow> 'w access_run" where
  "add_check l outc summary run =
     (case l of (name, call, r) \<Rightarrow>
        run\<lparr>ax_checks := ax_checks run @ [\<lparr>ck_name = name, ck_call = call, ck_outcome = outc, ck_summary = summary,
             ck_seconds = round3 (ar_seconds r)\<rparr>]\<rparr>)"

definition add_finding :: "string \<Rightarrow> string \<Rightarrow> string \<Rightarrow> bool \<Rightarrow> 'w access_run \<Rightarrow> 'w access_run" where
  "add_finding fcode title detail blocking run =
     (if fcode = ''OBJECT_UNREADABLE'' \<and> unavailable run \<noteq> None then run
      else run\<lparr>ax_findings := ax_findings run @ [\<lparr>fi_code = fcode, fi_title = title, fi_detail = detail, fi_blocking = blocking\<rparr>]\<rparr>)"

definition add_note :: "string \<Rightarrow> 'w access_run \<Rightarrow> 'w access_run" where
  "add_note s run = run\<lparr>ax_limit_notes := ax_limit_notes run @ [s]\<rparr>"

definition is_not_found :: "api_response \<Rightarrow> bool" where
  "is_not_found r = (case ar_error r of Some e \<Rightarrow> ae_kind e = ''not_found'' | None \<Rightarrow> False)"

definition name_in :: "pydict \<Rightarrow> string \<Rightarrow> string option" where
  "name_in entry k = (case first_value (field entry k) of PStr s \<Rightarrow> nonempty (Some s) | _ \<Rightarrow> None)"

definition set_of :: "pyval \<Rightarrow> string list" where "set_of v = dedup (strs_of v)"

definition lower_names :: "string list \<Rightarrow> string list" where "lower_names xs = dedup (map str_lower xs)"

section \<open>The user\<close>

definition unreadable_object :: "string \<Rightarrow> string \<Rightarrow> string \<Rightarrow> 'w access_run \<Rightarrow> 'w access_run" where
  "unreadable_object what name detail =
     add_finding ''OBJECT_UNREADABLE'' (''The '' @ what @ '' '' @ name @ '' could not be read'') detail True"

definition expired :: "utc_time option \<Rightarrow> utc_time \<Rightarrow> bool option" where
  "expired t now = map_option (\<lambda>x. x \<le> now) t"

definition account_of :: "string \<Rightarrow> pydict \<Rightarrow> utc_time \<Rightarrow> account_state" where
  "account_of uid e now =
     (let pe = time_of (field e ''krbprincipalexpiration''); pw = time_of (field e ''krbpasswordexpiration'')
      in \<lparr>at_exists = Some True, at_canonical = Some uid, at_disabled = flag_of (field e ''nsaccountlock''),
          at_principal_expires = map_option iso_of pe, at_principal_expired = expired pe now,
          at_password_expires = map_option iso_of pw, at_password_expired = expired pw now, at_preserved = None\<rparr>)"

definition only_if :: "bool \<Rightarrow> ('a \<Rightarrow> 'a) \<Rightarrow> 'a \<Rightarrow> 'a" where
  "only_if b f = (if b then f else id)"

definition user_findings :: "account_state \<Rightarrow> string \<Rightarrow> 'w access_run \<Rightarrow> 'w access_run" where
  "user_findings st uid =
     only_if (at_password_expired st = Some True)
       (add_finding ''USER_PASSWORD_EXPIRED'' (''The password of '' @ uid @ '' expired at '' @ the_default ''None'' (at_password_expires st))
          (''A password login must change the password first; logins that do not use the password '' @
           ''(for example SSH keys) are not affected by this.'') False)
     \<circ> only_if (at_principal_expired st = Some True)
       (add_finding ''USER_PRINCIPAL_EXPIRED''
          (''The Kerberos principal of '' @ uid @ '' expired at '' @ the_default ''None'' (at_principal_expires st))
          (''The KDC refuses an expired principal: password and Kerberos (GSSAPI) logins fail. Whether a '' @
           ''login that does not use the KDC (for example an SSH key) is refused depends on the host's '' @
           ''SSSD, which this command does not check.'') True)
     \<circ> only_if (at_disabled st = Some True)
       (add_finding ''USER_DISABLED'' (''The IPA account '' @ uid @ '' is disabled'')
          (''FreeIPA marks the account disabled (nsAccountLock): the KDC refuses it, and SSSD's IPA access '' @
           ''check refuses disabled accounts too (documented SSSD behaviour, so this also applies to SSH-key '' @
           ''logins), whatever HBAC allows. A host answering from SSSD's offline cache may lag behind.'') True)"

definition user_check :: "last_call \<Rightarrow> account_state \<Rightarrow> string \<Rightarrow> nat \<Rightarrow> nat \<Rightarrow> 'w access_run \<Rightarrow> 'w access_run" where
  "user_check l st uid direct indirect =
     (let problems = (if at_disabled st = Some True then [''disabled''] else [])
                     @ (if at_principal_expired st = Some True then [''principal expired''] else []);
          expiry = (if at_principal_expired st = Some False then ''principal not expired''
                    else ''no principal expiration set or readable'')
      in if at_disabled st = None
         then add_check l ''problem'' (''user '' @ uid @ '' exists; the disabled/enabled state is not readable by this identity'')
         else add_check l (if problems \<noteq> [] then ''problem'' else ''ok'')
                (''user '' @ uid @ '' exists, '' @ (if problems \<noteq> [] then join '', '' problems else ''enabled, '' @ expiry) @ ''; '' @
                 show_nat direct @ '' direct and '' @ show_nat indirect @ '' nested groups''))"

definition index_object ::
  "node_kind \<Rightarrow> string \<Rightarrow> node_kind \<Rightarrow> string list \<Rightarrow> string list \<Rightarrow> string \<Rightarrow> 'w access_run \<Rightarrow> node option \<times> 'w access_run" where
  "index_object kind name group_kind direct indirect source run =
     (case get_node kind name (ax_index run) of
        (n, ix) \<Rightarrow> (n, run\<lparr>ax_index := add_memberships n group_kind direct indirect source ix\<rparr>))"

definition member_of :: "node option \<Rightarrow> string list \<Rightarrow> string list \<Rightarrow> membership option" where
  "member_of n direct indirect = map_option (\<lambda>x. \<lparr>mb_node = x, mb_direct = direct, mb_indirect = indirect\<rparr>) n"

definition read_user :: "last_call \<Rightarrow> string \<Rightarrow> pydict \<Rightarrow> utc_time \<Rightarrow> 'w access_run \<Rightarrow> (account_state \<times> membership option) \<times> 'w access_run" where
  "read_user l uid e now run =
     (if flag_of (field e ''preserved'') = Some True
      then ((no_account\<lparr>at_exists := Some True, at_canonical := Some uid, at_preserved := Some True\<rparr>, None),
            add_finding ''USER_PRESERVED'' (uid @ '' is a preserved (deleted) user'')
              (''FreeIPA keeps the deleted entry for possible restore, but a preserved user cannot '' @
               ''authenticate or log in. Rules may still name it; they do not apply to it.'') True
              (add_check l ''problem'' (''user '' @ uid @ '' is a preserved (deleted) user'') run))
      else let st = account_of uid e now;
               direct = set_of (field e ''memberof_group''); indirect = set_of (field e ''memberofindirect_group'')
           in case index_object USER uid GROUP direct indirect (''user_show '' @ uid) run of
                (n, run1) \<Rightarrow>
                  (let run2 = run1\<lparr>ax_relevant_user := lower_names (uid # direct @ indirect),
                                   ax_user_rules := dedup (strs_of (field e ''memberof_hbacrule'') @ strs_of (field e ''memberofindirect_hbacrule''))\<rparr>
                   in ((st, member_of n direct indirect),
                       user_check l st uid (length direct) (length indirect) (user_findings st uid run2))))"

definition ask_user :: "'w access_env \<Rightarrow> 'w access_run \<Rightarrow> (account_state \<times> membership option) \<times> 'w access_run" where
  "ask_user env run =
     (let u = tg_user (an_targets env)
      in case ax_call env ''user'' User_show [u] [(''all'', PBool True)] run of
           (l, run1) \<Rightarrow>
             (let r = snd (snd l)
              in if \<not> ar_ok r
                 then if is_not_found r
                      then ((no_account\<lparr>at_exists := Some False\<rparr>, None),
                            add_finding ''USER_NOT_FOUND'' (''No IPA user named '' @ u)
                              (''FreeIPA has no user by this name (a staged user cannot log in either). Check the '' @
                               ''spelling; the account may also be deliberately absent. A trusted-domain (AD) user must be '' @
                               ''written as name@domain.'') True
                              (add_check l ''not_found'' (''no IPA user named '' @ u) run1))
                      else ((no_account, None),
                            unreadable_object ''user'' u (describe_error r) (add_check l ''error'' (describe_error r) run1))
                 else case name_in (ar_entry r) ''uid'' of
                        None \<Rightarrow> ((no_account, None),
                                 unreadable_object ''user'' u ''unusable answer'' (add_check l ''error'' ''the answer has no user name'' run1))
                      | Some uid \<Rightarrow> read_user l uid (ar_entry r) (an_now env) run1))"

section \<open>The host and the service\<close>

definition read_host :: "last_call \<Rightarrow> string \<Rightarrow> pydict \<Rightarrow> 'w access_run \<Rightarrow> (host_state \<times> membership option) \<times> 'w access_run" where
  "read_host l fqdn e run =
     (let st = \<lparr>hs_exists = Some True, hs_canonical = Some fqdn, hs_has_keytab = flag_of (field e ''has_keytab'')\<rparr>;
          direct = set_of (field e ''memberof_hostgroup''); indirect = set_of (field e ''memberofindirect_hostgroup'');
          no_key = (hs_has_keytab st = Some False)
      in case index_object HOST fqdn HOSTGROUP direct indirect (''host_show '' @ fqdn) run of
           (n, run1) \<Rightarrow>
             ((st, member_of n direct indirect),
              add_check l (if no_key then ''problem'' else ''ok'')
                (''host '' @ fqdn @ '' exists; '' @ show_nat (length direct) @ '' direct and '' @ show_nat (length indirect) @
                 '' nested hostgroups'' @ (if no_key then ''; no keytab in IPA'' else []))
                (only_if no_key
                   (add_finding ''HOST_NO_KEYTAB'' (''FreeIPA holds no Kerberos key for '' @ fqdn)
                      (''The host entry exists but has no keytab, which usually means it is not (or no longer) '' @
                       ''enrolled: SSSD on it cannot use FreeIPA, whatever the policy says. Runtime access is not '' @
                       ''checked by this command.'') False)
                   (run1\<lparr>ax_relevant_host := lower_names (fqdn # direct @ indirect)\<rparr>))))"

definition ask_host :: "'w access_env \<Rightarrow> 'w access_run \<Rightarrow> (host_state \<times> membership option) \<times> 'w access_run" where
  "ask_host env run =
     (let h = tg_host (an_targets env)
      in case ax_call env ''host'' Host_show [h] [] run of
           (l, run1) \<Rightarrow>
             (let r = snd (snd l)
              in if \<not> ar_ok r
                 then if is_not_found r
                      then ((no_host\<lparr>hs_exists := Some False\<rparr>, None),
                            add_finding ''HOST_NOT_FOUND'' (''No IPA host named '' @ h)
                              (''No host is enrolled in FreeIPA under this exact name, so FreeIPA has no HBAC decision about '' @
                               ''it. Check the name: SSSD on an enrolled host uses its own full host name, which may differ '' @
                               ''from an alias or CNAME.'') True
                              (add_check l ''not_found'' (''no IPA host named '' @ h) run1))
                      else ((no_host, None),
                            unreadable_object ''host'' h (describe_error r) (add_check l ''error'' (describe_error r) run1))
                 else case name_in (ar_entry r) ''fqdn'' of
                        None \<Rightarrow> ((no_host, None),
                                 unreadable_object ''host'' h ''unusable answer'' (add_check l ''error'' ''the answer has no host name'' run1))
                      | Some fqdn \<Rightarrow> read_host l fqdn (ar_entry r) run1))"

definition read_service :: "last_call \<Rightarrow> string \<Rightarrow> pydict \<Rightarrow> 'w access_run \<Rightarrow> service_state \<times> 'w access_run" where
  "read_service l cn e run =
     (let groups = sort (set_of (field e ''memberof_hbacsvcgroup''))
      in case index_object HBAC_SERVICE cn HBAC_SERVICE_GROUP groups [] (''hbacsvc_show '' @ cn) run of
           (n, run1) \<Rightarrow>
             (\<lparr>sv_exists = Some True, sv_canonical = Some cn, sv_groups = groups\<rparr>,
              add_check l ''ok'' (''HBAC service '' @ cn @ '' is defined; in '' @ show_nat (length groups) @ '' service group(s)'')
                (run1\<lparr>ax_relevant_service := lower_names (cn # groups)\<rparr>)))"

definition ask_service :: "'w access_env \<Rightarrow> 'w access_run \<Rightarrow> service_state \<times> 'w access_run" where
  "ask_service env run =
     (let s = tg_service (an_targets env)
      in case ax_call env ''service'' Hbacsvc_show [s] [] run of
           (l, run1) \<Rightarrow>
             (let r = snd (snd l)
              in if \<not> ar_ok r
                 then if is_not_found r
                      then (no_service\<lparr>sv_exists := Some False\<rparr>,
                            add_finding ''SERVICE_NOT_DEFINED'' (''No HBAC service named '' @ s @ '' is defined in FreeIPA'')
                              (''A PAM service without an HBAC service entry can only be allowed by rules that apply to '' @
                               ''all services; FreeIPA's evaluation below already takes this into account. Check the '' @
                               ''spelling if this is unexpected.'') False
                              (add_check l ''not_found'' (''no HBAC service named '' @ s) run1))
                      else (no_service, add_check l ''error'' (describe_error r) run1)
                 else case name_in (ar_entry r) ''cn'' of
                        None \<Rightarrow> (no_service, add_check l ''error'' ''the answer has no service name'' run1)
                      | Some cn \<Rightarrow> read_service l cn (ar_entry r) run1))"

section \<open>FreeIPA's decision\<close>

definition eval_error :: "last_call \<Rightarrow> evaluation \<Rightarrow> string \<Rightarrow> 'w access_run \<Rightarrow> evaluation \<times> 'w access_run" where
  "eval_error l ev why run = (ev\<lparr>ev_error := Some why\<rparr>, add_check l ''error'' why run)"

definition eval_answer :: "last_call \<Rightarrow> evaluation \<Rightarrow> bool \<Rightarrow> 'w access_run \<Rightarrow> 'w access_run" where
  "eval_answer l ev granted =
     (let total = length (ev_matched ev) + ev_not_matched_count ev + length (ev_error_rules ev);
          verdict = (if granted then ''granted'' else ''denied'')
      in if ev_error_rules ev \<noteq> [] \<or> ev_truncated ev
         then add_check l ''problem''
                (''hbactest returned '' @ verdict @ '', but '' @
                 (if ev_error_rules ev \<noteq> [] then show_nat (length (ev_error_rules ev)) @ '' rule(s) could not be evaluated''
                  else ''the rule list was truncated by a size limit'') @ '', so the result is not trusted'')
         else add_check l (if granted then ''ok'' else ''problem'')
                (''FreeIPA evaluated '' @ show_nat total @ '' enabled HBAC rule(s): access '' @ verdict @
                 (if ev_matched ev \<noteq> [] then ''; matched: '' @ join '', '' (take MAX_RULES (ev_matched ev)) else [])))"

definition ask_hbactest :: "'w access_env \<Rightarrow> string \<Rightarrow> string \<Rightarrow> string \<Rightarrow> 'w access_run \<Rightarrow> evaluation \<times> 'w access_run" where
  "ask_hbactest env u h s run =
     (let ev = no_evaluation\<lparr>ev_ran := True, ev_request := [(''user'', u), (''targethost'', h), (''service'', s)]\<rparr>
      in case ax_call env ''HBAC evaluation'' Hbactest []
                [(''user'', PStr u), (''targethost'', PStr h), (''service'', PStr s), (''nodetail'', PBool False)] run of
           (l, run1) \<Rightarrow>
             (let r = snd (snd l); d = as_dict (ar_result r)
              in if \<not> ar_ok r then eval_error l ev (describe_error r) run1
                 else case field d ''value'' of
                        PBool granted \<Rightarrow>
                          (let errors = strs_of (field d ''error''); own = map str_lower (ax_user_rules run1);
                               ev1 = ev\<lparr>ev_matched := strs_of (field d ''matched''),
                                        ev_not_matched_count := length (strs_of (field d ''notmatched'')),
                                        ev_error_rules := errors,
                                        ev_error_rules_own := filter (\<lambda>x. str_lower x \<in> set own) errors,
                                        ev_truncated := is_truncated r,
                                        ev_summary := (case first_value (field d ''summary'') of PStr x \<Rightarrow> Some x | _ \<Rightarrow> None)\<rparr>
                           in if granted \<and> ev_matched ev1 = []
                              then eval_error l ev1 ''the evaluation says granted but names no matched rule'' run1
                              else if \<not> granted \<and> ev_matched ev1 \<noteq> []
                              then eval_error l ev1 ''the evaluation says denied but names matched rules'' run1
                              else (ev1\<lparr>ev_granted := Some granted\<rparr>, eval_answer l ev1 granted run1))
                      | _ \<Rightarrow> eval_error l ev ''the evaluation answer has no boolean verdict'' run1))"

section \<open>Rules\<close>

text \<open>Only names among the objects asked about and their own groups become edges.\<close>

definition add_rule_edges ::
  "node option \<Rightarrow> string \<Rightarrow> string list \<Rightarrow> node_kind \<Rightarrow> string \<Rightarrow> string list \<Rightarrow> rel_index \<Rightarrow> rel_index" where
  "add_rule_edges rule_node side relevant kind source names ix =
     fold (\<lambda>n ix. if str_lower n \<in> set relevant
                   then (case get_node kind n ix of (x, ix') \<Rightarrow> add_edge rule_node x RULE_APPLIES_TO source (Some side) ix')
                   else ix) names ix"

definition index_rule :: "hbac_rule \<Rightarrow> 'w access_run \<Rightarrow> 'w access_run" where
  "index_rule rule run =
     (case get_node HBAC_RULE (hr_name rule) (ax_index run) of
        (rn, ix) \<Rightarrow>
          (let src = hr_source rule;
               side = (\<lambda>name rs kind grp relevant.
                 add_rule_edges rn name relevant grp src (rs_groups rs) \<circ> add_rule_edges rn name relevant kind src (rs_names rs))
           in run\<lparr>ax_index :=
                (side ''service'' (hr_service rule) HBAC_SERVICE HBAC_SERVICE_GROUP (ax_relevant_service run)
                 \<circ> side ''host'' (hr_host rule) HOST HOSTGROUP (ax_relevant_host run)
                 \<circ> side ''user'' (hr_user rule) USER GROUP (ax_relevant_user run)) ix\<rparr>))"

definition enabled_text :: "bool option \<Rightarrow> string" where
  "enabled_text e = (case e of Some True \<Rightarrow> ''enabled'' | Some False \<Rightarrow> ''disabled'' | None \<Rightarrow> ''enabled state unknown'')"

definition unread_rule :: "last_call \<Rightarrow> string \<Rightarrow> string \<Rightarrow> 'w access_run \<Rightarrow> hbac_rule option \<times> 'w access_run" where
  "unread_rule l name why run =
     (None, (add_check l ''error'' why run)\<lparr>ax_rules_unread := ax_rules_unread run @ [name]\<rparr>)"

definition ask_rule :: "'w access_env \<Rightarrow> string \<Rightarrow> 'w access_run \<Rightarrow> hbac_rule option \<times> 'w access_run" where
  "ask_rule env name run =
     (case ax_call env (''rule '' @ name) Hbacrule_show [name] [] run of
        (l, run1) \<Rightarrow>
          (let r = snd (snd l)
           in if \<not> ar_ok r then unread_rule l name (describe_error r) run1
              else case rule_of_api (PDict (ar_entry r)) (''hbacrule_show '' @ name) of
                     None \<Rightarrow> unread_rule l name ''the answer is not an HBAC rule'' run1
                   | Some rule \<Rightarrow>
                       (Some rule, add_check l ''ok'' (''rule '' @ hr_name rule @ '': '' @ enabled_text (hr_enabled rule))
                                     (index_rule rule run1))))"

fun ask_rules :: "'w access_env \<Rightarrow> string list \<Rightarrow> 'w access_run \<Rightarrow> hbac_rule list \<times> 'w access_run" where
  "ask_rules env [] run = ([], run)"
| "ask_rules env (n # ns) run =
     (case ask_rule env n run of
        (r, run1) \<Rightarrow> (case ask_rules env ns run1 of
           (rs, run2) \<Rightarrow> (case r of None \<Rightarrow> rs | Some x \<Rightarrow> x # rs, run2)))"

section \<open>Nested chains\<close>

text \<open>What is fixed for one side: the member, the method and attribute that list a group's groups, their kind.\<close>

record chain_side =
  sd_member :: membership
  sd_method :: api_method
  sd_attr :: string
  sd_kind :: node_kind

fun kind_text :: "node_kind \<Rightarrow> string" where
  "kind_text USER = ''user''"
| "kind_text GROUP = ''group''"
| "kind_text HOST = ''host''"
| "kind_text HOSTGROUP = ''hostgroup''"
| "kind_text HBAC_RULE = ''hbac_rule''"
| "kind_text HBAC_SERVICE = ''hbac_service''"
| "kind_text HBAC_SERVICE_GROUP = ''hbac_service_group''"
| "kind_text TRUSTED_DOMAIN = ''trusted_domain''"

record 'w chain_state =
  cn_run :: "'w access_run"
  cn_visited :: "string list"
  cn_children :: "(string \<times> string list) list"
  cn_next :: "string list"
  cn_complete :: bool

definition chain_known :: "chain_side \<Rightarrow> string \<Rightarrow> 'w access_run \<Rightarrow> bool \<times> 'w access_run" where
  "chain_known sd w run =
     (case get_node (sd_kind sd) w (ax_index run) of
        (None, ix) \<Rightarrow> (False, run\<lparr>ax_index := ix\<rparr>)
      | (Some t, ix) \<Rightarrow> (membership_path ix (mb_node (sd_member sd)) t MAX_CHAIN_DEPTH \<noteq> None, run\<lparr>ax_index := ix\<rparr>))"

definition add_child_edge :: "chain_side \<Rightarrow> node option \<Rightarrow> string \<Rightarrow> string \<Rightarrow> rel_index \<Rightarrow> rel_index" where
  "add_child_edge sd parent source c ix =
     (case get_node (sd_kind sd) c ix of (n, ix') \<Rightarrow> add_edge n parent MEMBER_OF source None ix')"

definition budget_note :: "chain_side \<Rightarrow> string" where
  "budget_note sd = ''nested group and hostgroup chains share a budget of '' @ show_nat MAX_GROUP_FETCHES @
     '' reads, which was used up before the '' @ kind_text (sd_kind sd) @ '' chain was complete''"

text \<open>One group is read: its child groups among the groups of the member. None when the budget is used up.\<close>

definition read_group :: "'w access_env \<Rightarrow> chain_side \<Rightarrow> string \<Rightarrow> 'w chain_state \<Rightarrow> bool \<times> 'w chain_state" where
  "read_group env sd g st =
     (let kind = sd_kind sd; m = method_name (sd_method sd);
          run0 = (cn_run st)\<lparr>ax_chain_reads := Suc (ax_chain_reads (cn_run st))\<rparr>
      in case ax_call env (kind_text kind @ '' '' @ g) (sd_method sd) [g] [] run0 of
           (l, run) \<Rightarrow>
             (let r = snd (snd l)
              in if \<not> ar_ok r
                 then (False, st\<lparr>cn_run := add_check l ''error'' (describe_error r) run,
                                cn_children := dict_set (str_lower g) [] (cn_children st), cn_complete := False\<rparr>)
                 else let children = filter (\<lambda>c. str_lower c \<in> all_groups (sd_member sd)) (strs_of (field (ar_entry r) (sd_attr sd)))
                      in case get_node kind g (ax_index run) of
                           (parent, ix) \<Rightarrow>
                             (True, st\<lparr>cn_children := dict_set (str_lower g) children (cn_children st),
                                       cn_run := add_check l ''ok''
                                         (kind_text kind @ '' '' @ g @ '' contains '' @
                                          (if children \<noteq> [] then join '', '' (take 5 (sort_key str_lower children))
                                           else ''none of the other groups'') @
                                          '' of this object's groups (read to explain the nesting)'')
                                         (run\<lparr>ax_index := fold (add_child_edge sd parent (m @ '' '' @ g)) children ix\<rparr>)\<rparr>)))"

datatype chain_signal = Level_done | Give_up

text \<open>The children to follow. Every stored list holds only groups of the member, so the test that they are is no
  restriction; it makes the termination of the search evident.\<close>

definition follow_children :: "chain_side \<Rightarrow> string \<Rightarrow> 'w chain_state \<Rightarrow> 'w chain_state" where
  "follow_children sd g st =
     st\<lparr>cn_next := cn_next st @ filter (\<lambda>c. str_lower c \<notin> set (cn_visited st) \<and> str_lower c \<in> all_groups (sd_member sd))
          (the_default [] (dict_get (cn_children st) (str_lower g)))\<rparr>"

fun chain_level :: "'w access_env \<Rightarrow> chain_side \<Rightarrow> string \<Rightarrow> string list \<Rightarrow> 'w chain_state \<Rightarrow> chain_signal \<times> 'w chain_state" where
  "chain_level env sd w [] st = (Level_done, st)"
| "chain_level env sd w (g # gs) st =
     (if str_lower g \<in> set (cn_visited st) then chain_level env sd w gs st
      else let st1 = st\<lparr>cn_visited := str_lower g # cn_visited st\<rparr>
           in if dict_get (cn_children st1) (str_lower g) = None \<and> ax_chain_reads (cn_run st1) \<ge> MAX_GROUP_FETCHES
              then (Give_up, st1\<lparr>cn_run := add_note (budget_note sd) (cn_run st1)\<rparr>)
              else case (if dict_get (cn_children st1) (str_lower g) = None then read_group env sd g st1 else (True, st1)) of
                     (ok, st2) \<Rightarrow>
                       if \<not> ok then chain_level env sd w gs st2
                       else let st3 = follow_children sd g st2
                            in case chain_known sd w (cn_run st3) of
                                 (known, run) \<Rightarrow>
                                   if known then (Level_done, st3\<lparr>cn_run := run\<rparr>)
                                   else chain_level env sd w gs (st3\<lparr>cn_run := run\<rparr>))"

definition next_frontier :: "'w chain_state \<Rightarrow> string list" where
  "next_frontier st = sort_key str_lower (dedup (cn_next st))"

text \<open>The names a search can still visit.\<close>

definition chain_universe :: "chain_side \<Rightarrow> string list \<Rightarrow> string set" where
  "chain_universe sd frontier = all_groups (sd_member sd) \<union> lower_set frontier"

lemma read_group_visited: "read_group env sd g st = (ok, st') \<Longrightarrow> cn_visited st' = cn_visited st \<and> cn_next st' = cn_next st"
  by (auto simp: read_group_def Let_def split: prod.splits if_splits)

lemma follow_children_visited:
  "cn_visited (follow_children sd g st) = cn_visited st \<and> lower_set (cn_next (follow_children sd g st)) \<subseteq> lower_set (cn_next st) \<union> all_groups (sd_member sd)"
  by (auto simp: follow_children_def lower_set_def)

lemma chain_level_step:
  assumes "str_lower g \<notin> set (cn_visited st)"
    and "\<not> (dict_get (cn_children (st\<lparr>cn_visited := str_lower g # cn_visited st\<rparr>)) (str_lower g) = None
            \<and> ax_chain_reads (cn_run (st\<lparr>cn_visited := str_lower g # cn_visited st\<rparr>)) \<ge> MAX_GROUP_FETCHES)"
    and "(if dict_get (cn_children (st\<lparr>cn_visited := str_lower g # cn_visited st\<rparr>)) (str_lower g) = None
          then read_group env sd g (st\<lparr>cn_visited := str_lower g # cn_visited st\<rparr>)
          else (True, st\<lparr>cn_visited := str_lower g # cn_visited st\<rparr>)) = (ok, st2)"
    and "chain_known sd w (cn_run (follow_children sd g st2)) = (known, run)"
  shows "chain_level env sd w (g # gs) st =
    (if \<not> ok then chain_level env sd w gs st2
     else if known then (Level_done, follow_children sd g st2\<lparr>cn_run := run\<rparr>)
     else chain_level env sd w gs (follow_children sd g st2\<lparr>cn_run := run\<rparr>))"
  by (simp only: chain_level.simps(2) Let_def if_not_P [OF assms(1)] if_not_P [OF assms(2)] assms(3,4) prod.case)

lemma chain_level_visited:
  "chain_level env sd w gs st = (sig, st') \<Longrightarrow> lower_set (cn_next st) \<subseteq> all_groups (sd_member sd) \<Longrightarrow>
     set (cn_visited st) \<subseteq> set (cn_visited st') \<and> set (cn_visited st') \<subseteq> set (cn_visited st) \<union> lower_set gs
     \<and> lower_set (cn_next st') \<subseteq> all_groups (sd_member sd)
     \<and> (cn_next st' = cn_next st \<or> set (cn_visited st) \<subset> set (cn_visited st'))"
proof (induction env sd w gs st rule: chain_level.induct)
  case (2 env sd w g gs st)
  show ?case
  proof (cases "str_lower g \<in> set (cn_visited st)")
    case True
    then show ?thesis using 2 by (auto simp: lower_set_def)
  next
    case False
    let ?st1 = "st\<lparr>cn_visited := str_lower g # cn_visited st\<rparr>"
    show ?thesis
    proof (cases "dict_get (cn_children ?st1) (str_lower g) = None \<and> ax_chain_reads (cn_run ?st1) \<ge> MAX_GROUP_FETCHES")
      case True
      then have "st' = ?st1\<lparr>cn_run := add_note (budget_note sd) (cn_run ?st1)\<rparr>" using 2(4) False by (simp add: Let_def)
      then show ?thesis using False 2(5) by (auto simp: lower_set_def)
    next
      case budget: False
      obtain ok st2 where r: "(if dict_get (cn_children ?st1) (str_lower g) = None then read_group env sd g ?st1 else (True, ?st1)) = (ok, st2)"
        by fastforce
      then have st2: "cn_visited st2 = str_lower g # cn_visited st" "cn_next st2 = cn_next st"
        using read_group_visited [of env sd g ?st1] by (auto split: if_splits)
      have grow: "set (cn_visited st) \<subset> set (cn_visited st2)" using False st2 by auto
      let ?st3 = "follow_children sd g st2"
      obtain known run where k: "chain_known sd w (cn_run ?st3) = (known, run)" by (cases "chain_known sd w (cn_run ?st3)")
      have st3: "cn_visited ?st3 = cn_visited st2" "lower_set (cn_next ?st3) \<subseteq> all_groups (sd_member sd)"
        using follow_children_visited [of sd g st2] 2(5) st2 by auto
      note step = chain_level_step [OF False budget r k]
      show ?thesis
      proof (cases ok)
        case False
        then have "chain_level env sd w gs st2 = (sig, st')" using 2(4) step by simp
        then show ?thesis
          using 2(2) [OF \<open>str_lower g \<notin> set (cn_visited st)\<close> refl budget r [symmetric]] False 2(5) st2 grow
          by (auto simp: lower_set_def)
      next
        case ok: True
        show ?thesis
        proof (cases known)
          case True
          then have "st' = ?st3\<lparr>cn_run := run\<rparr>" using 2(4) step ok by simp
          then show ?thesis using st3 st2 grow by (auto simp: lower_set_def)
        next
          case False
          then have "chain_level env sd w gs (?st3\<lparr>cn_run := run\<rparr>) = (sig, st')" using 2(4) step ok by simp
          then show ?thesis
            using 2(3) [OF \<open>str_lower g \<notin> set (cn_visited st)\<close> refl budget r [symmetric] _ refl k [symmetric]] False ok st3 st2 grow
            by (auto simp: lower_set_def)
        qed
      qed
    qed
  qed
qed auto

lemma chain_loop_decreases:
  assumes "frontier \<noteq> []" "chain_level env sd w frontier (st\<lparr>cn_run := run, cn_next := []\<rparr>) = (sig, st1)"
  shows "card (chain_universe sd (next_frontier st1) - set (cn_visited st1)) + (if next_frontier st1 = [] then 0 else 1)
       < card (chain_universe sd frontier - set (cn_visited st)) + 1"
proof -
  note v = chain_level_visited [OF assms(2)]
  have sub: "set (cn_visited st) \<subseteq> set (cn_visited st1)" "set (cn_visited st1) \<subseteq> set (cn_visited st) \<union> lower_set frontier"
    "lower_set (cn_next st1) \<subseteq> all_groups (sd_member sd)" "cn_next st1 = [] \<or> set (cn_visited st) \<subset> set (cn_visited st1)"
    using v by (auto simp: lower_set_def)
  have next_set: "lower_set (next_frontier st1) = lower_set (cn_next st1)" by (simp add: next_frontier_def lower_set_def)
  have fin: "finite (chain_universe sd frontier)" by (simp add: chain_universe_def all_groups_def lower_set_def)
  have smaller: "chain_universe sd (next_frontier st1) - set (cn_visited st1) \<subseteq> chain_universe sd frontier - set (cn_visited st)"
    using sub(1,3) next_set by (auto simp: chain_universe_def)
  show ?thesis
  proof (cases "cn_next st1 = []")
    case True
    then show ?thesis using card_mono [OF _ smaller] fin by (simp add: next_frontier_def less_Suc_eq_le)
  next
    case False
    then obtain x where x: "x \<in> set (cn_visited st1)" "x \<notin> set (cn_visited st)" using sub(4) by auto
    then have "x \<in> chain_universe sd frontier - set (cn_visited st)" using sub(2) by (auto simp: chain_universe_def)
    then have "chain_universe sd (next_frontier st1) - set (cn_visited st1) \<subset> chain_universe sd frontier - set (cn_visited st)"
      using smaller x by blast
    from psubset_card_mono [OF finite_Diff [OF fin] this]
    show ?thesis by (cases "next_frontier st1 = []") (simp_all only: if_True if_False, simp_all)
  qed
qed

text \<open>The search for one wanted group; False when the budget of reads was used up.\<close>

function chain_loop :: "'w access_env \<Rightarrow> chain_side \<Rightarrow> string \<Rightarrow> string list \<Rightarrow> 'w chain_state \<Rightarrow> bool \<times> 'w chain_state" where
  "chain_loop env sd w frontier st =
     (if frontier = [] then (True, st)
      else case chain_known sd w (cn_run st) of
             (known, run) \<Rightarrow>
               if known then (True, st\<lparr>cn_run := run\<rparr>)
               else case chain_level env sd w frontier (st\<lparr>cn_run := run, cn_next := []\<rparr>) of
                      (sig, st1) \<Rightarrow> if sig = Give_up then (False, st1) else chain_loop env sd w (next_frontier st1) st1)"
  by pat_completeness auto
termination
proof (relation "measure (\<lambda>(env, sd, w, frontier, st).
    card (chain_universe sd frontier - set (cn_visited st)) + (if frontier = [] then 0 else 1))", goal_cases)
  case 1
  show ?case by simp
next
  case 2
  show ?case using chain_loop_decreases [OF 2(1) 2(4) [symmetric]] 2(1) by simp
qed

declare chain_loop.simps [simp del]

fun chain_wanted :: "'w access_env \<Rightarrow> chain_side \<Rightarrow> string list \<Rightarrow> 'w chain_state \<Rightarrow> bool \<times> 'w chain_state" where
  "chain_wanted env sd [] st = (True, st)"
| "chain_wanted env sd (w # ws) st =
     (case chain_loop env sd w [w] (st\<lparr>cn_visited := []\<rparr>) of
        (ok, st1) \<Rightarrow> if ok then chain_wanted env sd ws st1 else (False, st1))"

fun all_known :: "chain_side \<Rightarrow> string list \<Rightarrow> 'w access_run \<Rightarrow> bool \<times> 'w access_run" where
  "all_known sd [] run = (True, run)"
| "all_known sd (w # ws) run =
     (case chain_known sd w run of (k, run1) \<Rightarrow> if k then all_known sd ws run1 else (False, run1))"

definition expand_chain ::
  "'w access_env \<Rightarrow> membership option \<Rightarrow> string list \<Rightarrow> api_method \<Rightarrow> string \<Rightarrow> node_kind \<Rightarrow> 'w access_run \<Rightarrow> bool \<times> 'w access_run" where
  "expand_chain env member wanted method attr kind run =
     (case member of
        None \<Rightarrow> (True, run)
      | Some m \<Rightarrow>
          if wanted = [] then (True, run)
          else let sd = \<lparr>sd_member = m, sd_method = method, sd_attr = attr, sd_kind = kind\<rparr>
               in case chain_wanted env sd (sort_key str_lower wanted)
                         \<lparr>cn_run = run, cn_visited = [], cn_children = [], cn_next = [], cn_complete = True\<rparr> of
                    (ok, st) \<Rightarrow>
                      if \<not> ok then (False, cn_run st)
                      else if \<not> cn_complete st then (False, cn_run st)
                      else all_known sd wanted (cn_run st))"

section \<open>The explanation of a rule\<close>

definition service_member :: "service_state \<Rightarrow> 'w access_run \<Rightarrow> membership option \<times> 'w access_run" where
  "service_member sv run =
     (case (sv_exists sv, nonempty (sv_canonical sv)) of
        (Some True, Some cn) \<Rightarrow>
          (case get_node HBAC_SERVICE cn (ax_index run) of
             (n, ix) \<Rightarrow> (member_of n (dedup (sv_groups sv)) [], run\<lparr>ax_index := ix\<rparr>))
      | _ \<Rightarrow> (None, run))"

definition explanation_status :: "bool \<Rightarrow> bool option \<Rightarrow> bool \<Rightarrow> bool \<Rightarrow> bool \<Rightarrow> string" where
  "explanation_status matched enabled covered chains_known data_complete =
     (if matched
      then if covered \<and> enabled = Some True then if chains_known then ''COMPLETE'' else ''INCOMPLETE''
           else if \<not> data_complete \<or> enabled = None then ''INCOMPLETE''
           else ''CONTRADICTING''
      else if covered \<and> enabled = Some True then ''CONTRADICTING''
      else if data_complete then ''COMPLETE'' else ''INCOMPLETE'')"

record asked =
  as_user :: string
  as_host :: string
  as_service :: string
  as_user_m :: "membership option"
  as_host_m :: "membership option"
  as_svc :: service_state

definition explain_rule :: "asked \<Rightarrow> hbac_rule \<Rightarrow> bool \<Rightarrow> 'w access_run \<Rightarrow> rule_explanation \<times> 'w access_run" where
  "explain_rule q rule matched run =
     (case service_member (as_svc q) run of
        (svc_m, run1) \<Rightarrow>
          (case explain_side ''user'' (hr_user rule) (as_user_m q) (as_user q) GROUP True (ax_index run1) of
             (u, ix1) \<Rightarrow> (case explain_side ''host'' (hr_host rule) (as_host_m q) (as_host q) HOSTGROUP True ix1 of
             (h, ix2) \<Rightarrow> (case explain_side ''service'' (hr_service rule) svc_m (as_service q) HBAC_SERVICE_GROUP
                                  (sv_exists (as_svc q) \<noteq> None) ix2 of
             (s, ix3) \<Rightarrow>
               (\<lparr>re_rule = hr_name rule, re_enabled = hr_enabled rule, re_matched = matched,
                 re_sides = [(''user'', u), (''host'', h), (''service'', s)],
                 re_status = explanation_status matched (hr_enabled rule)
                   (list_all (list_ex covering) [u, h, s]) (list_all (list_all se_chain_complete) [u, h, s])
                   (as_user_m q \<noteq> None \<and> as_host_m q \<noteq> None \<and> sv_exists (as_svc q) \<noteq> None),
                 re_source = hr_source rule\<rparr>, run1\<lparr>ax_index := ix3\<rparr>)))))"

fun explain_rules :: "asked \<Rightarrow> string list \<Rightarrow> hbac_rule list \<Rightarrow> 'w access_run \<Rightarrow> rule_explanation list \<times> 'w access_run" where
  "explain_rules q matched [] run = ([], run)"
| "explain_rules q matched (r # rs) run =
     (case explain_rule q r (str_lower (hr_name r) \<in> lower_set matched) run of
        (x, run1) \<Rightarrow> (case explain_rules q matched rs run1 of (xs, run2) \<Rightarrow> (x # xs, run2)))"

text \<open>The rules to explain: the matched ones, or, when access is denied, only the rules that name this user.\<close>

definition rules_to_explain :: "evaluation \<Rightarrow> 'w access_run \<Rightarrow> string list \<times> 'w access_run" where
  "rules_to_explain ev run =
     (if ev_granted ev = Some True then (take MAX_RULES (ev_matched ev), run)
      else let related = sort_key str_lower (ax_user_rules run)
           in (take MAX_RULES related,
               if length related > MAX_RULES
               then add_note (''only '' @ show_nat MAX_RULES @ '' of the '' @ show_nat (length related) @
                              '' rules naming this user are explained'') (run\<lparr>ax_rules_cut := True\<rparr>)
               else run))"

definition wanted_groups :: "(hbac_rule \<Rightarrow> rule_side) \<Rightarrow> membership option \<Rightarrow> hbac_rule list \<Rightarrow> string list" where
  "wanted_groups side member rules =
     (case member of
        None \<Rightarrow> []
      | Some m \<Rightarrow> dedup (concat (map (\<lambda>r. if rs_category_all (side r) then []
                                         else filter (\<lambda>g. str_lower g \<in> lower_set (mb_indirect m)) (rs_groups (side r))) rules)))"

definition closing_notes :: "evaluation \<Rightarrow> 'w access_run \<Rightarrow> 'w access_run" where
  "closing_notes ev run =
     (let run1 = (if length (ev_matched ev) > MAX_RULES
                  then add_note (''only the first '' @ show_nat MAX_RULES @ '' of '' @ show_nat (length (ev_matched ev)) @
                                 '' matched rules are explained'') (run\<lparr>ax_rules_cut := True\<rparr>)
                  else run)
      in if ax_rules_unread run1 \<noteq> []
         then add_note (''rule(s) that could not be read, so their part of the explanation is missing: '' @
                        join '', '' (ax_rules_unread run1)) run1
         else run1)"

definition explain_decision :: "'w access_env \<Rightarrow> asked \<Rightarrow> evaluation \<Rightarrow> 'w access_run \<Rightarrow> rule_explanation list \<times> 'w access_run" where
  "explain_decision env q ev run =
     (case rules_to_explain ev run of
        (names, run1) \<Rightarrow> (case ask_rules env names run1 of
        (rules, run2) \<Rightarrow>
          (case expand_chain env (as_user_m q) (wanted_groups hr_user (as_user_m q) rules) Group_show ''member_group'' GROUP run2 of
           (_, run3) \<Rightarrow>
          (case expand_chain env (as_host_m q) (wanted_groups hr_host (as_host_m q) rules) Hostgroup_show ''member_hostgroup''
                  HOSTGROUP run3 of
           (_, run4) \<Rightarrow>
          (case explain_rules q (ev_matched ev) rules run4 of (xs, run5) \<Rightarrow> (xs, closing_notes ev run5))))))"

section \<open>What is read before the explanation\<close>

record gathered =
  ga_account :: account_state
  ga_host :: host_state
  ga_asked :: asked
  ga_evaluation :: evaluation
  ga_decided :: bool

definition asked_of :: "targets \<Rightarrow> account_state \<Rightarrow> membership option \<Rightarrow> host_state \<Rightarrow> membership option \<Rightarrow> service_state \<Rightarrow> asked" where
  "asked_of t ac um hs hm sv =
     \<lparr>as_user = the_default [] (at_canonical ac), as_host = the_default [] (hs_canonical hs),
      as_service = the_default (tg_service t) (nonempty (sv_canonical sv)), as_user_m = um, as_host_m = hm, as_svc = sv\<rparr>"

definition not_evaluated :: "string \<Rightarrow> evaluation" where
  "not_evaluated why = no_evaluation\<lparr>ev_error := Some why\<rparr>"

definition evaluate_policy ::
  "'w access_env \<Rightarrow> account_state \<Rightarrow> host_state \<Rightarrow> asked \<Rightarrow> 'w access_run \<Rightarrow> evaluation \<times> bool \<times> 'w access_run" where
  "evaluate_policy env ac hs q run =
     (if at_exists ac = Some True \<and> at_preserved ac \<noteq> Some True \<and> hs_exists hs = Some True
      then case ask_hbactest env (as_user q) (as_host q) (as_service q) run of
             (ev, run1) \<Rightarrow> (ev, ev_error ev = None \<and> ev_granted ev \<noteq> None \<and> unavailable run1 = None, run1)
      else (not_evaluated
              (if at_preserved ac = Some True then ''not evaluated: the user is a preserved (deleted) user''
               else if at_exists ac = Some False \<or> hs_exists hs = Some False
               then ''not evaluated: the user or the host does not exist in FreeIPA''
               else ''not evaluated: the user or the host could not be read''), False, run))"

definition not_queried :: "string \<Rightarrow> 'w access_run \<Rightarrow> 'w access_run" where
  "not_queried why = add_finding ''EVALUATOR_UNAVAILABLE'' ''ipa-diagnose could not query FreeIPA'' why True"

definition gather_facts :: "'w access_env \<Rightarrow> 'w access_run \<Rightarrow> gathered \<times> 'w access_run" where
  "gather_facts env run =
     (let t = an_targets env;
          facts = (\<lambda>ac um hs hm sv ev decided.
            \<lparr>ga_account = ac, ga_host = hs, ga_asked = asked_of t ac um hs hm sv, ga_evaluation = ev, ga_decided = decided\<rparr>)
      in case unavailable run of
           Some why \<Rightarrow> (facts no_account None no_host None no_service no_evaluation False, not_queried why run)
         | None \<Rightarrow>
             if nonempty (tg_user_domain t) \<noteq> None
             then let run1 = add_finding ''TRUSTED_IDENTITY_UNSUPPORTED'' (display_user t @ '' is a trusted-domain identity'')
                               (''Access diagnosis of trusted-domain (for example Active Directory) users is not supported in this '' @
                                ''version: their groups come from the trusted domain and ID views, which it does not evaluate. '' @
                                ''Nothing about its access is concluded here.'') True run
                  in case ask_host env run1 of
                       ((hs, hm), run2) \<Rightarrow> (case ask_service env run2 of
                         (sv, run3) \<Rightarrow> (facts no_account None hs hm sv no_evaluation False, run3))
             else case ask_user env run of
                    ((ac, um), run1) \<Rightarrow> (case ask_host env run1 of
                    ((hs, hm), run2) \<Rightarrow> (case ask_service env run2 of
                    (sv, run3) \<Rightarrow> (case evaluate_policy env ac hs (asked_of t ac um hs hm sv) run3 of
                    (ev, decided, run4) \<Rightarrow> (facts ac um hs hm sv ev decided, run4)))))"

section \<open>Verdicts\<close>

definition authentication_verdict :: "string option \<Rightarrow> targets \<Rightarrow> account_state \<Rightarrow> verdict" where
  "authentication_verdict unav t ac =
     (let reasons = (if at_disabled ac = Some True then [''the account is disabled''] else [])
                    @ (if at_principal_expired ac = Some True
                       then [''the Kerberos principal expired at '' @ the_default ''None'' (at_principal_expires ac)] else [])
      in case (unav, at_exists ac) of
           (Some why, None) \<Rightarrow>
             verdict_of AS_UNKNOWN (tg_user t @ '''s account was not read: ipa-diagnose could not query FreeIPA'') [why]
         | _ \<Rightarrow>
           if nonempty (tg_user_domain t) \<noteq> None
           then verdict_of AS_UNKNOWN ''trusted-domain identity: not evaluated by this version'' []
           else if at_exists ac = Some False then verdict_of AS_FAIL (''no IPA user named '' @ tg_user t) []
           else if at_preserved ac = Some True
           then verdict_of AS_FAIL (the_default ''None'' (at_canonical ac) @ '' is a preserved (deleted) user'') []
           else if at_exists ac = None then verdict_of AS_UNKNOWN ''the user could not be read'' []
           else if reasons \<noteq> [] then verdict_of AS_FAIL (join ''; '' reasons) reasons
           else if at_disabled ac = None
           then verdict_of AS_UNKNOWN ''the account's enabled/disabled state is not readable by this identity'' []
           else verdict_of AS_NOT_VERIFIED ''the IPA account exists and is enabled; no credential was tested''
                  (if at_password_expired ac = Some True
                   then [''the password expired at '' @ the_default ''None'' (at_password_expires ac) @
                         '': a password login must change it first''] else []))"

definition no_decision :: "string \<Rightarrow> string list \<Rightarrow> verdict \<times> string" where
  "no_decision why reasons = (verdict_of AS_UNKNOWN why reasons, ''NONE'')"

definition explained_status :: "evaluation \<Rightarrow> rule_explanation list \<Rightarrow> 'w access_run \<Rightarrow> string \<times> 'w access_run" where
  "explained_status ev xs run =
     (let contradicting = filter (\<lambda>x. re_status x = ''CONTRADICTING'') xs;
          incomplete = filter (\<lambda>x. re_status x = ''INCOMPLETE'') xs
      in if contradicting \<noteq> []
         then (''CONTRADICTING'',
               add_finding ''EXPLANATION_CONTRADICTS'' ''The explanation disagrees with FreeIPA's decision''
                 (''The group and rule data read by ipa-diagnose does not reproduce FreeIPA's decision for: '' @
                  join '', '' (map re_rule contradicting) @
                  ''. FreeIPA's decision stands; the data may have changed between calls, or this is a gap in '' @
                  ''ipa-diagnose's model (please report it).'') False run)
         else if incomplete \<noteq> [] \<or> (ev_granted ev = Some True \<and> xs = []) \<or> ax_rules_unread run \<noteq> [] \<or> ax_rules_cut run
         then (''INCOMPLETE'',
               add_finding ''RELATIONSHIP_INCOMPLETE'' ''The explanation is incomplete''
                 (''Some memberships or rules could not be read, or more rules applied than are explained, so part of '' @
                  ''the 'why' is missing. FreeIPA's decision is not affected.'') False run)
         else (''COMPLETE'', run))"

definition authorization_verdict ::
  "targets \<Rightarrow> account_state \<Rightarrow> host_state \<Rightarrow> evaluation \<Rightarrow> rule_explanation list \<Rightarrow> 'w access_run \<Rightarrow> (verdict \<times> string) \<times> 'w access_run" where
  "authorization_verdict t ac hs ev xs run =
     (case unavailable run of
        Some why \<Rightarrow> (no_decision ''not evaluated: ipa-diagnose could not query FreeIPA'' [why], run)
      | None \<Rightarrow>
        if nonempty (tg_user_domain t) \<noteq> None
        then (no_decision ''trusted-domain identity: not evaluated by this version'' [], run)
        else if at_preserved ac = Some True
        then (no_decision ''not evaluated: a preserved (deleted) user has no policy decision'' [], run)
        else if at_exists ac = Some False \<or> hs_exists hs = Some False
        then (no_decision (''not evaluated: the '' @ (if at_exists ac = Some False then ''user'' else ''host'') @
                           '' does not exist in FreeIPA, so there is no policy decision about it'') [], run)
        else if \<not> ev_ran ev then (no_decision (the_default ''not evaluated'' (nonempty (ev_error ev))) [], run)
        else case nonempty (ev_error ev) of
               Some e \<Rightarrow> (no_decision ''FreeIPA's HBAC evaluation gave no usable answer'' [e],
                          add_finding ''EVALUATOR_FAILED'' ''FreeIPA's HBAC evaluation gave no usable answer'' e True run)
             | None \<Rightarrow>
               if ev_truncated ev
               then (no_decision ''FreeIPA evaluated only part of the HBAC rules (size limit)'' [],
                     add_finding ''EVALUATOR_TRUNCATED'' ''FreeIPA evaluated a truncated rule list''
                       (''The HBAC rule search hit a size limit, so some rules were not evaluated. SSSD evaluates all of '' @
                        ''them; this answer cannot be trusted.'') True run)
               else if ev_error_rules ev \<noteq> []
               then (no_decision ''FreeIPA reported HBAC rules it could not evaluate'' [],
                     add_finding ''EVALUATOR_RULE_ERRORS'' ''Some HBAC rules could not be evaluated''
                       (''FreeIPA reported '' @ show_nat (length (ev_error_rules ev)) @
                        '' rule(s) it could not evaluate. SSSD stops at such a rule '' @
                        ''and refuses access, depending on rule order, so the outcome on the host is not certain.'') True run)
               else case explained_status ev xs run of
                      (status, run1) \<Rightarrow>
                        if ev_granted ev = Some True
                        then ((verdict_of AS_PASS (''FreeIPA HBAC policy allows this request (rule'' @
                                 (if length (ev_matched ev) > 1 then ''s'' else []) @ '': '' @
                                 join '', '' (take MAX_RULES (ev_matched ev)) @ '')'') [], status), run1)
                        else ((verdict_of AS_FAIL ''FreeIPA HBAC policy does not authorize this request'' [], status),
                              add_finding ''HBAC_DENIED'' ''FreeIPA HBAC policy does not authorize this request''
                                (''FreeIPA's HBAC evaluation found no enabled rule that matches this user, host and service together. '' @
                                 ''This is the policy as configured, not by itself a fault.'') True run1))"

definition runtime_verdict :: "verdict \<Rightarrow> verdict \<Rightarrow> host_state \<Rightarrow> verdict" where
  "runtime_verdict authn authz hs =
     verdict_of AS_NOT_VERIFIED
       (if vd_state authn = AS_FAIL \<or> vd_state authz = AS_FAIL
        then ''not tested; a login is expected to be refused where the host enforces FreeIPA through SSSD''
        else if hs_has_keytab hs = Some False then ''not tested; the host has no keytab in FreeIPA, so it may not be enrolled''
        else ''not tested: FreeIPA policy is only one part of a real login'')
       [''no login was attempted; the host's SSSD, PAM configuration, network path and keytab were not checked'']"

definition access_limitations :: "string option \<Rightarrow> string list" where
  "access_limitations who =
     [''Runtime access is not tested: no login is attempted, and the host's SSSD (including its offline cache), PAM '' @
      ''stack, access_provider setting, network path and keytab are not checked.'',
      ''No credential is tested; account lockout after failed logins (per-server counters) is not checked.'',
      ''Only HBAC is evaluated: sudo rules, SELinux user maps and local /etc/security/access.conf are not.'',
      ''The answer is FreeIPA's view for the identity that asked ('' @ the_default ''unknown'' (nonempty who) @
      ''); an identity with less read access may see less.'',
      ''Trusted-domain (for example Active Directory) users and ID views are not evaluated by this version.'']"

section \<open>The answer\<close>

record access_result =
  rt_targets :: targets
  rt_raw_query :: "(string \<times> string) list"
  rt_context :: api_context
  rt_generated_at :: string
  rt_authentication :: verdict
  rt_authorization :: verdict
  rt_runtime :: verdict
  rt_evaluation :: evaluation
  rt_account :: account_state
  rt_host :: host_state
  rt_service :: service_state
  rt_user_groups :: "membership option"
  rt_host_groups :: "membership option"
  rt_rules :: "rule_explanation list"
  rt_explanation_status :: string
  rt_findings :: "access_finding list"
  rt_checks :: "access_check list"
  rt_index :: rel_index
  rt_api_calls :: nat
  rt_api_call_budget :: nat
  rt_rules_unread :: "string list"
  rt_notes :: "string list"
  rt_limitations :: "string list"

definition explain_if_evaluated :: "'w access_env \<Rightarrow> gathered \<Rightarrow> 'w access_run \<Rightarrow> rule_explanation list \<times> 'w access_run" where
  "explain_if_evaluated env g run =
     (if ev_ran (ga_evaluation g) \<and> ev_error (ga_evaluation g) = None
      then explain_decision env (ga_asked g) (ga_evaluation g) run else ([], run))"

text \<open>A ticket refused only after the decision leaves the decision, and shortens the explanation.\<close>

definition settle_availability :: "bool \<Rightarrow> 'w access_run \<Rightarrow> 'w access_run" where
  "settle_availability decided run =
     (let run1 = (if decided \<and> unavailable run \<noteq> None
                  then add_note (''the IPA server refused the Kerberos ticket after its decision, so the explanation is incomplete'')
                         (run\<lparr>ax_api := set_unavailable None (ax_api run), ax_rules_cut := True\<rparr>)
                  else run)
      in case unavailable run1 of
           None \<Rightarrow> run1
         | Some why \<Rightarrow> if list_ex (\<lambda>x. fi_code x = ''EVALUATOR_UNAVAILABLE'') (ax_findings run1) then run1 else not_queried why run1)"

definition access_result_of ::
  "'w access_env \<Rightarrow> (string \<times> string) list \<Rightarrow> gathered \<Rightarrow> rule_explanation list \<Rightarrow> 'w access_run \<Rightarrow> access_result" where
  "access_result_of env raw_query g xs run =
     (let t = an_targets env; ac = ga_account g; hs = ga_host g; q = ga_asked g;
          authn = authentication_verdict (unavailable run) t ac
      in case authorization_verdict t ac hs (ga_evaluation g) xs run of
           ((authz, status), run1) \<Rightarrow>
             (let run2 = (if ix_truncated (ax_index run1) then add_note ''the relationship index reached its size bound'' run1 else run1)
              in \<lparr>rt_targets = t, rt_raw_query = raw_query, rt_context = ap_context (ax_api run2), rt_generated_at = iso_of (an_now env),
                  rt_authentication = authn, rt_authorization = authz, rt_runtime = runtime_verdict authn authz hs,
                  rt_evaluation = ga_evaluation g, rt_account = ac, rt_host = hs, rt_service = as_svc q,
                  rt_user_groups = as_user_m q, rt_host_groups = as_host_m q, rt_rules = xs, rt_explanation_status = status,
                  rt_findings = ax_findings run2, rt_checks = ax_checks run2, rt_index = ax_index run2,
                  rt_api_calls = ap_calls_made (ax_api run2), rt_api_call_budget = ap_max_calls (ax_api run2),
                  rt_rules_unread = ax_rules_unread run2, rt_notes = ax_limit_notes run2,
                  rt_limitations = access_limitations (ac_principal (ap_context (ax_api run2)))\<rparr>))"

definition access_diagnose :: "'w access_env \<Rightarrow> (string \<times> string) list \<Rightarrow> 'w api \<Rightarrow> access_result" where
  "access_diagnose env raw_query a =
     (case gather_facts env (new_run a (an_targets env)) of
        (g, run) \<Rightarrow> (case explain_if_evaluated env g run of
           (xs, run1) \<Rightarrow> access_result_of env raw_query g xs (settle_availability (ga_decided g) run1)))"

end
