(* ===== verification/AccessBudget.thy ===== *)
theory AccessBudget
  imports Access
begin

text \<open>
  What the steps of an access question may do: the budget of calls, the index, the availability of FreeIPA. The facts hold
  for every way of answering calls that keeps the contract of \<open>ipa_api\<close>.
\<close>

section \<open>What a part of a run may change\<close>

text \<open>At most k calls besides the reads of chains, which are counted and bounded; the budget, and with it the number of
  calls within it, is kept; FreeIPA does not become available again; the index keeps its invariant.\<close>

definition progress :: "nat \<Rightarrow> 'w access_run \<Rightarrow> 'w access_run \<Rightarrow> bool" where
  "progress k a b \<longleftrightarrow>
     ap_calls_made (ax_api b) + ax_chain_reads a \<le> ap_calls_made (ax_api a) + k + ax_chain_reads b
     \<and> (ax_chain_reads a \<le> MAX_GROUP_FETCHES \<longrightarrow> ax_chain_reads b \<le> MAX_GROUP_FETCHES)
     \<and> ap_max_calls (ax_api b) = ap_max_calls (ax_api a)
     \<and> (ap_calls_made (ax_api a) \<le> ap_max_calls (ax_api a) \<longrightarrow> ap_calls_made (ax_api b) \<le> ap_max_calls (ax_api b))
     \<and> (unavailable a \<noteq> None \<longrightarrow> unavailable b \<noteq> None)
     \<and> (index_ok (ax_index a) \<longrightarrow> index_ok (ax_index b))"

named_theorems progress_intros

lemma local_fields [simp]:
  "ax_api (add_note s run) = ax_api run" "ax_api (add_finding c t d b run) = ax_api run" "ax_api (add_check l outc s run) = ax_api run"
  "ax_index (add_note s run) = ax_index run" "ax_index (add_finding c t d b run) = ax_index run" "ax_index (add_check l outc s run) = ax_index run"
  by (simp_all add: add_note_def add_finding_def add_check_def split: prod.splits)

lemma progress_refl [simp, intro]: "progress k a a"
  by (simp add: progress_def)

lemma progress_trans: "progress k a b \<Longrightarrow> progress l b c \<Longrightarrow> progress (k + l) a c"
  by (auto simp: progress_def)

lemma progress_mono: "progress k a b \<Longrightarrow> k \<le> l \<Longrightarrow> progress l a b"
  by (auto simp: progress_def)

lemma progress_same_api:
  assumes "progress k a b" "ax_api c = ax_api b" "ax_chain_reads c = ax_chain_reads b" "index_ok (ax_index b) \<Longrightarrow> index_ok (ax_index c)"
  shows "progress k a c"
  using assms by (auto simp: progress_def unavailable_def)

lemma progress_local [progress_intros]:
  assumes "progress k a b"
  shows "progress k a (add_check l outc s b)" "progress k a (add_finding c t d f b)" "progress k a (add_note s b)"
    "progress k a (b\<lparr>ax_relevant_user := ru\<rparr>)" "progress k a (b\<lparr>ax_relevant_host := rh\<rparr>)"
    "progress k a (b\<lparr>ax_relevant_service := rs\<rparr>)" "progress k a (b\<lparr>ax_user_rules := us\<rparr>)"
    "progress k a (b\<lparr>ax_rules_unread := un\<rparr>)" "progress k a (b\<lparr>ax_rules_cut := rc\<rparr>)"
  by (rule progress_same_api [OF assms]; simp add: add_check_def add_finding_def add_note_def split: prod.splits)+

lemma progress_index [progress_intros]:
  "progress k a b \<Longrightarrow> (index_ok (ax_index b) \<Longrightarrow> index_ok ix) \<Longrightarrow> progress k a (b\<lparr>ax_index := ix\<rparr>)"
  by (erule progress_same_api) simp_all

lemma progress_only_if [progress_intros]:
  "progress k a b \<Longrightarrow> progress k a (only_if c (add_finding fc ft fd fb) b)"
  by (simp add: only_if_def progress_local)

lemma user_findings_progress [progress_intros]: "progress k a b \<Longrightarrow> progress k a (user_findings st uid b)"
  unfolding user_findings_def comp_def by (intro progress_only_if)

lemma user_check_progress [progress_intros]: "progress k a b \<Longrightarrow> progress k a (user_check l st uid d i b)"
  by (simp add: user_check_def Let_def progress_local)

lemma get_node_index: "get_node kind name ix = (n, ix') \<Longrightarrow> index_ok ix \<Longrightarrow> index_ok ix'"
  using get_node_ok [of ix kind name] by simp

lemma index_object_progress:
  assumes "index_object kind name gk direct indirect source run = (n, run')"
  shows "progress 0 run run'"
proof -
  obtain m ix where g: "get_node kind name (ax_index run) = (m, ix)" by fastforce
  have run': "run' = run\<lparr>ax_index := add_memberships m gk direct indirect source ix\<rparr>"
    using assms by (auto simp: index_object_def g)
  show ?thesis unfolding run' by (rule progress_index [OF progress_refl]) (rule add_memberships_ok [OF get_node_index [OF g]])
qed

lemma add_rule_edges_ok: "index_ok ix \<Longrightarrow> index_ok (add_rule_edges rn side relevant kind source names ix)"
proof (induction names arbitrary: ix)
  case (Cons n ns)
  obtain x ix' where g: "get_node kind n ix = (x, ix')" by (cases "get_node kind n ix")
  show ?case
    using Cons.IH [OF Cons.prems] Cons.IH [OF add_edge_ok [OF get_node_index [OF g Cons.prems]]]
    by (simp add: add_rule_edges_def g)
qed (simp add: add_rule_edges_def)

lemma index_rule_progress [progress_intros]: "progress k a b \<Longrightarrow> progress k a (index_rule rule b)"
proof -
  assume p: "progress k a b"
  obtain rn ix where g: "get_node HBAC_RULE (hr_name rule) (ax_index b) = (rn, ix)"
    by (cases "get_node HBAC_RULE (hr_name rule) (ax_index b)")
  show ?thesis
    unfolding index_rule_def g prod.case Let_def comp_def
    by (rule progress_index [OF p]) (intro add_rule_edges_ok get_node_index [OF g])
qed

lemma chain_known_progress: "chain_known sd w run = (k, run') \<Longrightarrow> progress 0 run run'"
  using get_node_index [of "sd_kind sd" w "ax_index run"]
  by (auto simp: chain_known_def intro!: progress_index split: prod.splits option.splits)

lemma all_known_progress: "all_known sd ws run = (k, run') \<Longrightarrow> progress 0 run run'"
proof (induction ws arbitrary: run)
  case (Cons w ws)
  obtain b run1 where c: "chain_known sd w run = (b, run1)" by (cases "chain_known sd w run")
  show ?case
    using Cons c chain_known_progress [OF c] progress_trans [of 0 run run1 0 run'] by (auto split: if_splits)
qed simp

lemma add_child_edge_ok: "index_ok ix \<Longrightarrow> index_ok (add_child_edge sd parent source c ix)"
  by (auto simp: add_child_edge_def intro: add_edge_ok get_node_index split: prod.splits)

lemma explain_group_ok: "index_ok (snd st) \<Longrightarrow> index_ok (snd (explain_group side m gk g st))"
  by (auto simp: explain_group_def Let_def intro: get_node_index split: prod.splits option.splits list.splits)

lemma explain_side_ok:
  assumes "explain_side side rs member object_name gk known ix = (out, ix')" "index_ok ix"
  shows "index_ok ix'"
proof -
  have "index_ok (snd (explain_groups side rs m gk (o1, ix)))" for m o1
    using fold_invariant [of _ "\<lambda>s. index_ok (snd s)" "explain_group side m gk", OF explain_group_ok] assms(2)
    by (auto simp: explain_groups_def Let_def split: prod.splits) (metis snd_conv)+
  then show ?thesis
    using assms by (auto simp: explain_side_def Let_def split: if_splits option.splits prod.splits) (metis snd_conv)+
qed

section \<open>Calls\<close>

text \<open>Every call is one of the allowed methods: the check of the client never refuses one.\<close>

lemma ax_call_allowed:
  "api_call clock backend (method_name m) args options a = Inr (api_send clock backend (method_name m) args options a)"
  by (simp add: api_call_def method_allowed)

context ipa_api
begin

lemma call_progress:
  assumes "ax_call env name m args options run = (l, run')" "an_backend env = backend"
  shows "progress 1 run run'"
proof -
  obtain r a where s: "api_send (an_clock env) backend (method_name m) args options (ax_api run) = (r, a)" by fastforce
  note c = send_counts [OF s]
  have "ap_calls_made (ax_api run') = ap_calls_made a" "ap_max_calls (ax_api run') = ap_max_calls a"
    "ax_index run' = ax_index run" "ax_chain_reads run' = ax_chain_reads run"
    "unavailable run \<noteq> None \<Longrightarrow> unavailable run' \<noteq> None"
    using assms s c(5) by (auto simp: ax_call_def Let_def set_unavailable_def unavailable_def split: option.splits if_splits)
  then show ?thesis using c by (auto simp: progress_def)
qed

lemma ask_progress:
  assumes "an_backend env = backend"
  shows "ask_user env run = (u, run1) \<Longrightarrow> progress 1 run run1"
    and "ask_host env run = (h, run2) \<Longrightarrow> progress 1 run run2"
    and "ask_service env run = (s, run3) \<Longrightarrow> progress 1 run run3"
    and "ask_hbactest env un hn sn run = (ev, run4) \<Longrightarrow> progress 1 run run4"
    and "ask_rule env name run = (rule, run5) \<Longrightarrow> progress 1 run run5"
proof -
  have index: "progress 1 run a \<Longrightarrow> index_object k n gk d i src a = (x, b) \<Longrightarrow> progress 1 run b" for a b k n gk d i src x
    using progress_trans [of 1 run a 0 b] index_object_progress [of k n gk d i src a x b] by simp
  note call = call_progress [OF _ assms]
  show "ask_user env run = (u, run1) \<Longrightarrow> progress 1 run run1"
    by (auto simp: ask_user_def read_user_def unreadable_object_def Let_def simp del: append.simps One_nat_def
        dest!: call intro!: progress_intros intro: index split: prod.splits if_splits option.splits)
  show "ask_host env run = (h, run2) \<Longrightarrow> progress 1 run run2"
    by (auto simp: ask_host_def read_host_def unreadable_object_def Let_def simp del: append.simps One_nat_def
        dest!: call intro!: progress_intros intro: index split: prod.splits if_splits option.splits)
  show "ask_service env run = (s, run3) \<Longrightarrow> progress 1 run run3"
    by (auto simp: ask_service_def read_service_def Let_def simp del: append.simps One_nat_def
        dest!: call intro!: progress_intros intro: index split: prod.splits if_splits option.splits)
  show "ask_hbactest env un hn sn run = (ev, run4) \<Longrightarrow> progress 1 run run4"
    by (auto simp: ask_hbactest_def eval_error_def eval_answer_def Let_def simp del: append.simps One_nat_def
        dest!: call intro!: progress_intros split: prod.splits if_splits pyval.splits)
  show "ask_rule env name run = (rule, run5) \<Longrightarrow> progress 1 run run5"
    by (auto simp: ask_rule_def unread_rule_def Let_def simp del: append.simps One_nat_def
        dest!: call intro!: progress_intros split: prod.splits if_splits option.splits)
qed

lemma ask_rules_progress:
  assumes "an_backend env = backend"
  shows "ask_rules env names run = (rs, run') \<Longrightarrow> progress (length names) run run'"
proof (induction names arbitrary: run rs run')
  case (Cons n ns)
  obtain r run1 where r: "ask_rule env n run = (r, run1)" by fastforce
  obtain xs run2 where x: "ask_rules env ns run1 = (xs, run2)" by fastforce
  have "run' = run2" using Cons.prems r x by simp
  then show ?case using progress_trans [OF ask_progress(5) [OF assms r] Cons.IH [OF x]] by simp
qed simp

lemma read_group_progress:
  assumes "an_backend env = backend" "read_group env sd g st = (ok, st')" "ax_chain_reads (cn_run st) < MAX_GROUP_FETCHES"
  shows "progress 0 (cn_run st) (cn_run st')"
proof -
  let ?run0 = "(cn_run st)\<lparr>ax_chain_reads := Suc (ax_chain_reads (cn_run st))\<rparr>"
  have counted: "progress 0 (cn_run st) b" if "progress 1 ?run0 b" for b
    using that assms(3) by (auto simp: progress_def unavailable_def)
  have children: "index_ok (fold (add_child_edge sd x src) cs ix')"
    if "get_node k n ix = (x, ix')" "index_ok ix" for x src cs k n ix ix'
    by (rule fold_invariant) (auto intro: add_child_edge_ok get_node_index [OF that])
  show ?thesis
    using assms(2)
    by (auto simp: read_group_def Let_def dest!: call_progress [OF _ assms(1)] intro!: counted progress_intros intro: children get_node_index
        simp del: append.simps One_nat_def split: prod.splits if_splits)
qed

lemma follow_children_run [simp]: "cn_run (follow_children sd g st) = cn_run st"
  by (simp add: follow_children_def)

lemma chain_level_progress:
  assumes "an_backend env = backend"
  shows "chain_level env sd w gs st = (sig, st') \<Longrightarrow> progress 0 (cn_run st) (cn_run st')"
proof (induction gs arbitrary: st)
  case (Cons g gs)
  let ?st1 = "st\<lparr>cn_visited := str_lower g # cn_visited st\<rparr>"
  show ?case
  proof (cases "str_lower g \<in> set (cn_visited st)")
    case True
    then show ?thesis using Cons by simp
  next
    case new: False
    show ?thesis
    proof (cases "dict_get (cn_children ?st1) (str_lower g) = None \<and> ax_chain_reads (cn_run ?st1) \<ge> MAX_GROUP_FETCHES")
      case True
      then have "st' = ?st1\<lparr>cn_run := add_note (budget_note sd) (cn_run ?st1)\<rparr>" using Cons.prems new by (simp add: Let_def)
      then show ?thesis by (simp add: progress_local)
    next
      case budget: False
      obtain ok st2 where r: "(if dict_get (cn_children ?st1) (str_lower g) = None then read_group env sd g ?st1 else (True, ?st1)) = (ok, st2)"
        by fastforce
      have p2: "progress 0 (cn_run st) (cn_run st2)"
        using r budget read_group_progress [OF assms, of sd g ?st1 ok st2] by (auto split: if_splits)
      obtain known run where k: "chain_known sd w (cn_run (follow_children sd g st2)) = (known, run)" by fastforce
      have p3: "progress 0 (cn_run st) run" using progress_trans [OF p2 chain_known_progress [OF k [unfolded follow_children_run]]] by simp
      note step = chain_level_step [OF new budget r k]
      show ?thesis
        using Cons.prems Cons.IH [of st2] Cons.IH [of "follow_children sd g st2\<lparr>cn_run := run\<rparr>"] p2 p3
          progress_trans [OF p2, of 0] progress_trans [OF p3, of 0]
        unfolding step by (auto split: if_splits)
    qed
  qed
qed simp

lemma chain_loop_progress:
  "an_backend env = backend \<Longrightarrow> chain_loop env sd w frontier st = (ok, st') \<Longrightarrow> progress 0 (cn_run st) (cn_run st')"
proof (induction env sd w frontier st rule: chain_loop.induct)
  case (1 env sd w frontier st)
  show ?case
  proof (cases "frontier = []")
    case True
    then show ?thesis using 1(3) by (simp add: chain_loop.simps)
  next
    case False
    obtain known run where k: "chain_known sd w (cn_run st) = (known, run)" by fastforce
    note pk = chain_known_progress [OF k]
    obtain sig st1 where l: "chain_level env sd w frontier (st\<lparr>cn_run := run, cn_next := []\<rparr>) = (sig, st1)" by fastforce
    have p1: "progress 0 (cn_run st) (cn_run st1)" using progress_trans [OF pk, of 0] chain_level_progress [OF 1(2) l] by simp
    have loop: "chain_loop env sd w frontier st =
        (if known then (True, st\<lparr>cn_run := run\<rparr>) else if sig = Give_up then (False, st1) else chain_loop env sd w (next_frontier st1) st1)"
      using False k l by (simp add: chain_loop.simps [of env sd w frontier st])
    show ?thesis
    proof (cases "known \<or> sig = Give_up")
      case True
      then show ?thesis using 1(3) loop pk p1 by (auto split: if_splits)
    next
      case go: False
      then have "chain_loop env sd w (next_frontier st1) st1 = (ok, st')" using 1(3) loop by simp
      then show ?thesis
        using progress_trans [OF p1 1(1) [OF False k [symmetric] _ l [symmetric] _ 1(2)]] go by simp
    qed
  qed
qed

lemma chain_wanted_progress:
  assumes "an_backend env = backend"
  shows "chain_wanted env sd ws st = (ok, st') \<Longrightarrow> progress 0 (cn_run st) (cn_run st')"
proof (induction ws arbitrary: st)
  case (Cons w ws)
  obtain b st1 where l: "chain_loop env sd w [w] (st\<lparr>cn_visited := []\<rparr>) = (b, st1)" by fastforce
  have p: "progress 0 (cn_run st) (cn_run st1)" using chain_loop_progress [OF assms l] by simp
  show ?case using Cons l p progress_trans [OF p, of 0] by (auto split: if_splits)
qed simp

lemma expand_chain_progress:
  assumes "an_backend env = backend" "expand_chain env member wanted method attr kind run = (ok, run')"
  shows "progress 0 run run'"
proof (cases "member = None \<or> wanted = []")
  case True
  then show ?thesis using assms(2) by (auto simp: expand_chain_def split: option.splits)
next
  case False
  then obtain m where m: "member = Some m" by auto
  let ?sd = "\<lparr>sd_member = m, sd_method = method, sd_attr = attr, sd_kind = kind\<rparr>"
  let ?st = "\<lparr>cn_run = run, cn_visited = [], cn_children = [], cn_next = [], cn_complete = True\<rparr>"
  obtain b st where w: "chain_wanted env ?sd (sort_key str_lower wanted) ?st = (b, st)" by fastforce
  have p: "progress 0 run (cn_run st)" using chain_wanted_progress [OF assms(1) w] by simp
  show ?thesis
    using assms(2) False p progress_trans [OF p all_known_progress [of ?sd wanted "cn_run st" ok run']]
    by (auto simp: expand_chain_def m w split: if_splits)
qed

lemma service_member_progress: "service_member sv run = (m, run') \<Longrightarrow> progress 0 run run'"
  by (auto simp: service_member_def intro!: progress_index intro: get_node_index split: option.splits bool.splits prod.splits)

lemma explain_rule_progress:
  assumes "explain_rule q rule matched run = (x, run')"
  shows "progress 0 run run'"
proof -
  obtain svc_m run1 where m: "service_member (as_svc q) run = (svc_m, run1)" by fastforce
  obtain u ix1 where u: "explain_side ''user'' (hr_user rule) (as_user_m q) (as_user q) GROUP True (ax_index run1) = (u, ix1)" by fastforce
  obtain h ix2 where h: "explain_side ''host'' (hr_host rule) (as_host_m q) (as_host q) HOSTGROUP True ix1 = (h, ix2)" by fastforce
  obtain s ix3 where s: "explain_side ''service'' (hr_service rule) svc_m (as_service q) HBAC_SERVICE_GROUP
      (sv_exists (as_svc q) \<noteq> None) ix2 = (s, ix3)" by fastforce
  have run': "run' = run1\<lparr>ax_index := ix3\<rparr>" using assms unfolding explain_rule_def m u h s prod.case by simp
  show ?thesis
    unfolding run' using explain_side_ok [OF s] explain_side_ok [OF h] explain_side_ok [OF u]
    by (intro progress_index [OF service_member_progress [OF m]]) auto
qed

lemma explain_rules_progress: "explain_rules q matched rs run = (xs, run') \<Longrightarrow> progress 0 run run'"
proof (induction rs arbitrary: run xs)
  case (Cons r rs)
  obtain x run1 where x: "explain_rule q r (str_lower (hr_name r) \<in> lower_set matched) run = (x, run1)" by fastforce
  obtain ys run2 where y: "explain_rules q matched rs run1 = (ys, run2)" by fastforce
  have "run2 = run'" using Cons.prems x y by simp
  then show ?case using progress_trans [OF explain_rule_progress [OF x] Cons.IH] y by simp
qed simp

lemma rules_to_explain_progress: "rules_to_explain ev run = (names, run') \<Longrightarrow> progress 0 run run' \<and> length names \<le> MAX_RULES"
  by (auto simp: rules_to_explain_def Let_def simp del: append.simps intro!: progress_intros split: if_splits)

lemma closing_notes_progress: "progress k a b \<Longrightarrow> progress k a (closing_notes ev b)"
  by (simp add: closing_notes_def Let_def progress_local del: append.simps)

lemma explain_decision_progress:
  assumes "an_backend env = backend" "explain_decision env q ev run = (xs, run')"
  shows "progress MAX_RULES run run'"
proof -
  obtain names run1 where n: "rules_to_explain ev run = (names, run1)" by fastforce
  obtain rules run2 where r: "ask_rules env names run1 = (rules, run2)" by fastforce
  obtain k3 run3 where c: "expand_chain env (as_user_m q) (wanted_groups hr_user (as_user_m q) rules) Group_show ''member_group'' GROUP run2
      = (k3, run3)" by fastforce
  obtain k4 run4 where d: "expand_chain env (as_host_m q) (wanted_groups hr_host (as_host_m q) rules) Hostgroup_show ''member_hostgroup''
      HOSTGROUP run3 = (k4, run4)" by fastforce
  obtain ys run5 where e: "explain_rules q (ev_matched ev) rules run4 = (ys, run5)" by fastforce
  have run': "run' = closing_notes ev run5" using assms(2) by (simp add: explain_decision_def n r c d e)
  have "progress (length names) run run5"
    using progress_trans [OF progress_trans [OF progress_trans [OF progress_trans [OF
      conjunct1 [OF rules_to_explain_progress [OF n]] ask_rules_progress [OF assms(1) r]]
      expand_chain_progress [OF assms(1) c]] expand_chain_progress [OF assms(1) d]] explain_rules_progress [OF e]] by simp
  then show ?thesis
    unfolding run' by (intro closing_notes_progress) (erule progress_mono, rule conjunct2 [OF rules_to_explain_progress [OF n]])
qed

lemma evaluate_policy_progress:
  assumes "an_backend env = backend" "evaluate_policy env ac hs q run = (ev, decided, run')"
  shows "progress 1 run run'"
  using assms(2) ask_progress(4) [OF assms(1)] by (auto simp: evaluate_policy_def split: if_splits prod.splits)

lemma gather_facts_progress:
  assumes "an_backend env = backend" "gather_facts env run = (g, run')"
  shows "progress 4 run run'"
proof (cases "unavailable run = None \<and> nonempty (tg_user_domain (an_targets env)) = None")
  case True
  obtain ac um run1 where u: "ask_user env run = ((ac, um), run1)" by (metis prod.exhaust)
  obtain hs hm run2 where h: "ask_host env run1 = ((hs, hm), run2)" by (metis prod.exhaust)
  obtain sv run3 where s: "ask_service env run2 = (sv, run3)" by fastforce
  obtain ev decided run4 where e: "evaluate_policy env ac hs (asked_of (an_targets env) ac um hs hm sv) run3 = (ev, decided, run4)"
    by (metis prod.exhaust)
  have "run' = run4" using True assms(2) by (simp add: gather_facts_def Let_def u h s e)
  then show ?thesis
    using progress_trans [OF progress_trans [OF progress_trans [OF ask_progress(1) [OF assms(1) u] ask_progress(2) [OF assms(1) h]]
      ask_progress(3) [OF assms(1) s]] evaluate_policy_progress [OF assms(1) e]] by (auto intro: progress_mono)
next
  case False
  have two: "progress 4 run run3" if "progress 0 run r" "ask_host env r = (h, run2)" "ask_service env run2 = (sv, run3)" for r h run2 sv run3
    using progress_trans [OF progress_trans [OF that(1) ask_progress(2) [OF assms(1) that(2)]] ask_progress(3) [OF assms(1) that(3)]]
    by (rule progress_mono) simp
  show ?thesis
    using assms(2) False
    by (auto simp: gather_facts_def Let_def not_queried_def simp del: append.simps intro!: progress_intros intro: two
        split: option.splits prod.splits if_splits)
qed

lemma explain_if_evaluated_progress:
  assumes "an_backend env = backend" "explain_if_evaluated env g run = (xs, run')"
  shows "progress MAX_RULES run run'"
  using assms explain_decision_progress by (auto simp: explain_if_evaluated_def split: if_splits)

end

end
