(* ===== verification/AccessProps.thy ===== *)
theory AccessProps
  imports AccessBudget
begin

text \<open>
  What the answer to an access question means: the three verdicts, the decision that is FreeIPA's own, the bound on calls,
  and what the rules of other people may contribute. Where the answers of the API matter, the facts are proved for every
  backend that keeps the contract of \<open>ipa_api\<close> and stated for the live server and for a recording.
\<close>

section \<open>The decision\<close>

text \<open>What the answer about authorization should be, from what was read before any rule or group was looked at.\<close>

definition policy_decision :: "gathered \<Rightarrow> 'w access_run \<Rightarrow> access_state" where
  "policy_decision g run =
     (let ev = ga_evaluation g
      in if \<not> ev_ran ev \<or> ev_error ev \<noteq> None \<or> unavailable run \<noteq> None \<or> ev_truncated ev \<or> ev_error_rules ev \<noteq> [] then AS_UNKNOWN
         else if ev_granted ev = Some True then AS_PASS else AS_FAIL)"

lemma ask_hbactest_facts:
  assumes "ask_hbactest env u h s run = (ev, run')"
  shows "ev_ran ev \<and> (ev_error ev \<noteq> None \<or> (\<exists>b. ev_granted ev = Some b \<and> (b \<longleftrightarrow> ev_matched ev \<noteq> [])))
    \<and> (ev_granted ev = None \<or> ev_error ev = None)"
proof -
  obtain l run1 where c: "ax_call env ''HBAC evaluation'' Hbactest []
      [(''user'', PStr u), (''targethost'', PStr h), (''service'', PStr s), (''nodetail'', PBool False)] run = (l, run1)" by fastforce
  show ?thesis
    using assms unfolding ask_hbactest_def Let_def c prod.case
    by (cases "ar_ok (snd (snd l))"; cases "field (as_dict (ar_result (snd (snd l)))) ''value''")
      (auto simp: eval_error_def no_evaluation_def simp del: append.simps split: if_splits)
qed

lemma not_evaluated_ran [simp]: "\<not> ev_ran (not_evaluated why)" "\<not> ev_ran no_evaluation"
  by (simp_all add: not_evaluated_def no_evaluation_def)

text \<open>Facts of an evaluation: it was asked about an existing user and host, and it ended in an error or with a verdict that
  agrees with the matched rules.\<close>

definition sound_evaluation :: "account_state \<Rightarrow> host_state \<Rightarrow> evaluation \<Rightarrow> bool" where
  "sound_evaluation ac hs ev \<longleftrightarrow>
     at_exists ac = Some True \<and> at_preserved ac \<noteq> Some True \<and> hs_exists hs = Some True
     \<and> (ev_error ev \<noteq> None \<or> (\<exists>b. ev_granted ev = Some b \<and> (b \<longleftrightarrow> ev_matched ev \<noteq> [])))
     \<and> (ev_granted ev = None \<or> ev_error ev = None)"

lemma evaluate_policy_facts:
  assumes "evaluate_policy env ac hs q run = (ev, decided, run')"
  shows "(ev_ran ev \<longrightarrow> sound_evaluation ac hs ev) \<and> (decided \<longleftrightarrow> ev_ran ev \<and> ev_error ev = None \<and> unavailable run' = None)"
proof (cases "at_exists ac = Some True \<and> at_preserved ac \<noteq> Some True \<and> hs_exists hs = Some True")
  case True
  obtain ev1 run1 where h: "ask_hbactest env (as_user q) (as_host q) (as_service q) run = (ev1, run1)" by fastforce
  have "ev = ev1" "run' = run1" "decided = (ev_error ev1 = None \<and> ev_granted ev1 \<noteq> None \<and> unavailable run1 = None)"
    using assms unfolding evaluate_policy_def if_P [OF True] h by auto
  then show ?thesis using ask_hbactest_facts [OF h] True by (auto simp: sound_evaluation_def)
next
  case False
  then have "\<not> ev_ran ev" "\<not> decided" using assms unfolding evaluate_policy_def if_not_P [OF False] by auto
  then show ?thesis by simp
qed

lemma gather_facts_decided:
  assumes "gather_facts env run = (g, run')"
  shows "(ev_ran (ga_evaluation g) \<longrightarrow> sound_evaluation (ga_account g) (ga_host g) (ga_evaluation g))
    \<and> (ga_decided g \<longleftrightarrow> ev_ran (ga_evaluation g) \<and> ev_error (ga_evaluation g) = None \<and> unavailable run' = None)
    \<and> (ev_ran (ga_evaluation g) \<longrightarrow> nonempty (tg_user_domain (an_targets env)) = None)"
proof (cases "unavailable run = None \<and> nonempty (tg_user_domain (an_targets env)) = None")
  case True
  obtain ac um run1 where u: "ask_user env run = ((ac, um), run1)" by (metis prod.exhaust)
  obtain hs hm run2 where h: "ask_host env run1 = ((hs, hm), run2)" by (metis prod.exhaust)
  obtain sv run3 where s: "ask_service env run2 = (sv, run3)" by fastforce
  let ?q = "asked_of (an_targets env) ac um hs hm sv"
  obtain ev decided run4 where e: "evaluate_policy env ac hs ?q run3 = (ev, decided, run4)"
    by (metis prod.exhaust)
  have "run' = run4 \<and> ga_account g = ac \<and> ga_host g = hs \<and> ga_evaluation g = ev \<and> ga_decided g = decided"
    using True assms by (auto simp: gather_facts_def Let_def u h s e)
  then show ?thesis using True evaluate_policy_facts [OF e] by simp
next
  case False
  have "\<not> ga_decided g \<and> \<not> ev_ran (ga_evaluation g)"
  proof (cases "unavailable run")
    case None
    then have "nonempty (tg_user_domain (an_targets env)) \<noteq> None" using False by simp
    from assms show ?thesis
      unfolding gather_facts_def Let_def None option.case if_P [OF \<open>nonempty _ \<noteq> None\<close>] by (auto split: prod.splits)
  next
    case (Some why)
    then show ?thesis using assms by (auto simp: gather_facts_def Let_def)
  qed
  then show ?thesis by simp
qed

lemma authorization_state:
  "vd_state (fst (fst (authorization_verdict t ac hs ev xs run))) =
     (if unavailable run \<noteq> None \<or> nonempty (tg_user_domain t) \<noteq> None \<or> at_preserved ac = Some True \<or> at_exists ac = Some False
         \<or> hs_exists hs = Some False \<or> \<not> ev_ran ev \<or> nonempty (ev_error ev) \<noteq> None \<or> ev_truncated ev \<or> ev_error_rules ev \<noteq> []
      then AS_UNKNOWN else if ev_granted ev = Some True then AS_PASS else AS_FAIL)"
  by (cases "unavailable run"; cases "nonempty (ev_error ev)"; cases "explained_status ev xs run")
    (simp_all add: authorization_verdict_def no_decision_def verdict_of_def del: append.simps)

lemma unavailable_local [simp]:
  "unavailable (add_note s run) = unavailable run" "unavailable (add_finding c t d b run) = unavailable run"
  "unavailable (not_queried why run) = unavailable run"
  "unavailable (run\<lparr>ax_api := set_unavailable None (ax_api run), ax_rules_cut := rc\<rparr>) = None"
  by (simp_all add: unavailable_def not_queried_def set_unavailable_def nonempty_def)

lemma settle_unavailable: "unavailable (settle_availability decided run) = (if decided then None else unavailable run)"
  by (cases "unavailable run") (simp_all add: settle_availability_def Let_def del: append.simps)

lemma access_diagnose_parts:
  assumes "gather_facts env (new_run a (an_targets env)) = (g, run)" "explain_if_evaluated env g run = (xs, run1)"
  shows "rt_authorization (access_diagnose env raw a) =
      fst (fst (authorization_verdict (an_targets env) (ga_account g) (ga_host g) (ga_evaluation g) xs (settle_availability (ga_decided g) run1)))"
    "rt_evaluation (access_diagnose env raw a) = ga_evaluation g" "rt_account (access_diagnose env raw a) = ga_account g"
    "rt_host (access_diagnose env raw a) = ga_host g"
  by (auto simp: access_diagnose_def assms access_result_of_def Let_def simp del: append.simps split: prod.splits)

lemma settle_fields:
  "ap_calls_made (ax_api (settle_availability d b)) = ap_calls_made (ax_api b) \<and> ax_index (settle_availability d b) = ax_index b"
  by (auto simp: settle_availability_def not_queried_def set_unavailable_def Let_def simp del: append.simps split: option.splits)

lemma explained_status_fields:
  "explained_status ev xs b = (s, b') \<Longrightarrow> ax_api b' = ax_api b \<and> ax_index b' = ax_index b"
  by (auto simp: explained_status_def Let_def simp del: append.simps split: if_splits)

lemma authorization_verdict_fields:
  assumes "authorization_verdict t ac hs ev xs b = (v, b')"
  shows "ax_api b' = ax_api b \<and> ax_index b' = ax_index b"
proof -
  obtain s b1 where s: "explained_status ev xs b = (s, b1)" by fastforce
  show ?thesis
    using assms explained_status_fields [OF s]
    by (cases "unavailable b"; cases "nonempty (ev_error ev)") (auto simp: authorization_verdict_def s simp del: append.simps split: if_splits)
qed

context ipa_api
begin

lemma decision_before_explanation:
  assumes "an_backend env = backend" "gather_facts env (new_run a (an_targets env)) = (g, run)" "ev_error (ga_evaluation g) \<noteq> Some []"
  shows "vd_state (rt_authorization (access_diagnose env raw a)) = policy_decision g run"
proof -
  obtain xs run1 where x: "explain_if_evaluated env g run = (xs, run1)" by fastforce
  have still: "unavailable run \<noteq> None \<Longrightarrow> unavailable run1 \<noteq> None"
    using explain_if_evaluated_progress [OF assms(1) x] by (simp add: progress_def)
  have err: "nonempty (ev_error (ga_evaluation g)) = ev_error (ga_evaluation g)"
    using assms(3) by (auto simp: nonempty_def split: option.splits list.splits)
  show ?thesis
    unfolding access_diagnose_parts [OF assms(2) x] authorization_state settle_unavailable err policy_decision_def Let_def
    using gather_facts_decided [OF assms(2)] still by (auto simp: sound_evaluation_def split: if_splits)
qed

lemma question_bounded:
  assumes "an_backend env = backend"
  shows "let r = access_diagnose env raw (new_api c max_calls seconds w)
         in rt_api_calls r \<le> min 54 max_calls \<and> index_ok (rt_index r)"
proof -
  let ?run0 = "new_run (new_api c max_calls seconds w) (an_targets env)"
  obtain g run where g: "gather_facts env ?run0 = (g, run)" by fastforce
  obtain xs run1 where x: "explain_if_evaluated env g run = (xs, run1)" by fastforce
  have p: "progress (4 + MAX_RULES) ?run0 run1"
    by (rule progress_trans [OF gather_facts_progress [OF assms g] explain_if_evaluated_progress [OF assms x]])
  obtain v run2 where v: "authorization_verdict (an_targets env) (ga_account g) (ga_host g) (ga_evaluation g) xs
      (settle_availability (ga_decided g) run1) = (v, run2)" by fastforce
  have "rt_api_calls (access_diagnose env raw (new_api c max_calls seconds w)) = ap_calls_made (ax_api run1)"
    "rt_index (access_diagnose env raw (new_api c max_calls seconds w)) = ax_index run1"
    using authorization_verdict_fields [OF v] settle_fields [of "ga_decided g" run1]
    by (auto simp: access_diagnose_def g x access_result_of_def v Let_def add_note_def simp del: append.simps split: prod.splits)
  then show ?thesis
    using p by (auto simp: Let_def progress_def new_run_def new_api_def empty_index_ok MAX_RULES_def MAX_GROUP_FETCHES_def)
qed

end

section \<open>An error without a message\<close>

text \<open>\<open>if ev.error\<close> takes an error with an empty message for no error: whatever was asked, a failed evaluation then becomes
  a denial.\<close>

lemma empty_error_message_denies:
  assumes "ask_hbactest env u h s run = (ev, run')" "ev_error ev = Some []" "unavailable run' = None"
    "nonempty (tg_user_domain t) = None" "at_exists ac = Some True" "at_preserved ac \<noteq> Some True" "hs_exists hs = Some True"
    "\<not> ev_truncated ev" "ev_error_rules ev = []"
  shows "vd_state (fst (fst (authorization_verdict t ac hs ev xs run'))) = AS_FAIL"
proof -
  have "ev_ran ev" "ev_granted ev = None" using ask_hbactest_facts [OF assms(1)] assms(2) by auto
  then show ?thesis unfolding authorization_state using assms by (simp add: nonempty_def)
qed

lemma empty_error_message_example:
  "let v = failed ''hbactest'' [] 0 (mk_error ''api'' []);
       env = \<lparr>an_clock = \<lambda>w. (0, w), an_backend = \<lambda>m args opts cw. (v, cw), an_targets = t, an_now = []\<rparr>;
       a = new_api c 60 90 ()
   in unavailable (new_run a t) \<noteq> None \<or> ev_error (fst (ask_hbactest env u h s (new_run a t))) = Some []"
  by (auto simp: ask_hbactest_def ax_call_def api_send_def over_budget_def past_deadline_def start_deadline_def answered_def logged_def
      failed_def mk_error_def new_run_def new_api_def unavailable_def ar_ok_def eval_error_def no_evaluation_def describe_error_def
      Let_def the_default_def split: option.splits prod.splits)

section \<open>Properties\<close>

text \<open>C27: The answer about authorization is FreeIPA's own decision. It is determined by what was read before any rule or
  group was looked at: granted or denied as FreeIPA evaluated it, unknown when there was no evaluation, it ended in an error, the
  API had become unavailable, the rule list was truncated or a rule could not be evaluated. Nothing the later calls return can
  change it, not even a ticket refused after the decision. It holds for the live server and for a recording, provided the
  evaluation did not end in an error whose message is empty: such an error the code takes for a denial.\<close>

theorem authorization_is_freeipas_decision:
  assumes "an_backend env = live_backend loads curl \<or> an_backend env = replay_backend recorded"
    and "gather_facts env (new_run a (an_targets env)) = (g, run)"
    and "ev_error (ga_evaluation g) \<noteq> Some []"
  shows "vd_state (rt_authorization (access_diagnose env raw a)) = policy_decision g run"
  using assms(1) live_ipa.decision_before_explanation [OF _ assms(2,3)] replay_ipa.decision_before_explanation [OF _ assms(2,3)]
  by blast

text \<open>A recording in which FreeIPA grants an access by the rule \<open>ops\<close>.\<close>

definition granted_recording :: recording where
  "granted_recording =
     [(call_key ''user_show'' [''ann''] [], [(''response'', PDict [(''result'', PDict [(''result'', PDict [(''uid'', PList [PStr ''ann'']), (''nsaccountlock'', PBool False)])])])]),
      (call_key ''host_show'' [''web''] [], [(''response'', PDict [(''result'', PDict [(''result'', PDict [(''fqdn'', PList [PStr ''web''])])])])]),
      (call_key ''hbactest'' [] [(''user'', PStr ''ann''), (''targethost'', PStr ''web''), (''service'', PStr ''sshd'')],
        [(''response'', PDict [(''result'', PDict [(''value'', PBool True), (''matched'', PList [PStr ''ops''])])])])]"

definition granted_env :: "unit access_env" where
  "granted_env =
     \<lparr>an_clock = \<lambda>w. (0, w), an_backend = replay_backend granted_recording,
      an_targets = \<lparr>tg_user = ''ann'', tg_host = ''web'', tg_service = ''sshd'', tg_user_domain = None, tg_host_completed = False,
        tg_trusted_form = None\<rparr>, an_now = [2026, 1, 1, 0, 0, 0]\<rparr>"

definition granted_api :: "unit api" where
  "granted_api = new_api \<lparr>ac_mode = ''REPLAY'', ac_server = None, ac_domain = None, ac_realm = None, ac_principal = None,
     ac_api_version = None, ac_unavailable = None\<rparr> 60 90 ()"

lemma granted_facts:
  "(case gather_facts granted_env (new_run granted_api (an_targets granted_env)) of (g, run) \<Rightarrow>
      (ev_ran (ga_evaluation g), ev_granted (ga_evaluation g), ev_error (ga_evaluation g), ev_truncated (ga_evaluation g),
       ev_error_rules (ga_evaluation g), unavailable run)) = (True, Some True, None, False, [], None)"
  by code_simp

theorem authorization_is_freeipas_decision_witness:
  "vd_state (rt_authorization (access_diagnose granted_env [] granted_api)) = AS_PASS"
proof -
  obtain g run where g: "gather_facts granted_env (new_run granted_api (an_targets granted_env)) = (g, run)" by fastforce
  have b: "an_backend granted_env = live_backend loads curl \<or> an_backend granted_env = replay_backend granted_recording" for loads curl
    by (simp add: granted_env_def)
  show ?thesis
    using authorization_is_freeipas_decision [OF b g] granted_facts by (simp add: g policy_decision_def Let_def)
qed

text \<open>C28: What the verdict about authorization means. It passes only when FreeIPA evaluated the full rule list for a user and a
  host it has, named a matching rule and reported no error and no rule it could not evaluate. It fails only when FreeIPA
  evaluated the full rule list for a user and a host it has, without a rule it could not evaluate, and named no matching rule;
  or (a fault of the code) when that evaluation ended in an error whose message is empty, with no verdict of FreeIPA's.\<close>

theorem authorization_verdict_sound:
  "let r = access_diagnose env raw a; ev = rt_evaluation r;
       asked = (at_exists (rt_account r) = Some True \<and> at_preserved (rt_account r) \<noteq> Some True \<and> hs_exists (rt_host r) = Some True
                \<and> ev_ran ev \<and> \<not> ev_truncated ev \<and> ev_error_rules ev = [])
   in case vd_state (rt_authorization r) of
        AS_PASS \<Rightarrow> asked \<and> ev_error ev = None \<and> ev_granted ev = Some True \<and> ev_matched ev \<noteq> []
      | AS_FAIL \<Rightarrow> asked \<and>
          (if ev_error ev = Some [] then ev_granted ev = None
           else ev_error ev = None \<and> ev_granted ev = Some False \<and> ev_matched ev = [])
      | AS_UNKNOWN \<Rightarrow> True
      | AS_NOT_VERIFIED \<Rightarrow> False"
proof -
  obtain g run where g: "gather_facts env (new_run a (an_targets env)) = (g, run)" by fastforce
  obtain xs run1 where x: "explain_if_evaluated env g run = (xs, run1)" by fastforce
  show ?thesis
    unfolding Let_def access_diagnose_parts [OF g x] authorization_state settle_unavailable
    using gather_facts_decided [OF g] by (auto simp: sound_evaluation_def nonempty_def split: if_splits option.splits list.splits)
qed

text \<open>What the verdict about authentication means. It never passes; it fails only for an account FreeIPA says does not
  exist, is preserved, disabled, or has an expired principal; and it says that nothing blocks the account only when the
  account was read and is enabled. Runtime access is never claimed to be verified.\<close>

theorem authentication_verdict_sound:
  "let r = access_diagnose env raw a; ac = rt_account r
   in (case vd_state (rt_authentication r) of
         AS_PASS \<Rightarrow> False
       | AS_FAIL \<Rightarrow> at_exists ac = Some False \<or> at_preserved ac = Some True \<or> at_disabled ac = Some True \<or> at_principal_expired ac = Some True
       | AS_NOT_VERIFIED \<Rightarrow> at_exists ac = Some True \<and> at_preserved ac \<noteq> Some True \<and> at_disabled ac = Some False
            \<and> at_principal_expired ac \<noteq> Some True
       | AS_UNKNOWN \<Rightarrow> True)
      \<and> vd_state (rt_runtime r) = AS_NOT_VERIFIED"
proof -
  obtain g run where g: "gather_facts env (new_run a (an_targets env)) = (g, run)" by fastforce
  obtain xs run1 where x: "explain_if_evaluated env g run = (xs, run1)" by fastforce
  have r: "\<exists>u. rt_authentication (access_diagnose env raw a) = authentication_verdict u (an_targets env) (ga_account g)"
    "vd_state (rt_runtime (access_diagnose env raw a)) = AS_NOT_VERIFIED"
    by (auto simp: access_diagnose_def g x access_result_of_def runtime_verdict_def verdict_of_def Let_def
        simp del: append.simps split: prod.splits)
  obtain u where u: "rt_authentication (access_diagnose env raw a) = authentication_verdict u (an_targets env) (ga_account g)"
    using r(1) by blast
  have "case vd_state (authentication_verdict u t ac) of
         AS_PASS \<Rightarrow> False
       | AS_FAIL \<Rightarrow> at_exists ac = Some False \<or> at_preserved ac = Some True \<or> at_disabled ac = Some True \<or> at_principal_expired ac = Some True
       | AS_NOT_VERIFIED \<Rightarrow> at_exists ac = Some True \<and> at_preserved ac \<noteq> Some True \<and> at_disabled ac = Some False
            \<and> at_principal_expired ac \<noteq> Some True
       | AS_UNKNOWN \<Rightarrow> True" for t ac
    by (cases u; cases "at_exists ac"; cases "at_disabled ac")
      (auto simp: authentication_verdict_def verdict_of_def Let_def simp del: append.simps)
  then show ?thesis unfolding Let_def access_diagnose_parts [OF g x] u using r(2) by blast
qed

text \<open>C29: One question costs at most 54 calls: four to decide, ten rules, and forty groups for nested chains. The calls stay
  within the budget of the client too, the relationship index keeps its invariant, and the chains are always found or given
  up. It holds for the live server and for a recording.\<close>

theorem access_question_bounded:
  "(let r = access_diagnose (env\<lparr>an_backend := live_backend loads curl\<rparr>) raw (new_api c max_calls seconds w)
    in rt_api_calls r \<le> min 54 max_calls \<and> index_ok (rt_index r))
   \<and> (let r = access_diagnose (env\<lparr>an_backend := replay_backend recorded\<rparr>) raw (new_api c max_calls seconds w)
    in rt_api_calls r \<le> min 54 max_calls \<and> index_ok (rt_index r))"
  using live_ipa.question_bounded [of "env\<lparr>an_backend := live_backend loads curl\<rparr>"]
    replay_ipa.question_bounded [of "env\<lparr>an_backend := replay_backend recorded\<rparr>"] by simp

end
