(* ===== verification/Knowledge.thy ===== *)
theory Knowledge
  imports Checks PyValues
begin

text \<open>
  The strict validation of the procedure catalogue, \<open>resolution/knowledge.py\<close>. The catalogue is untrusted JSON, so the
  model works on the values as they are read: an object that is not one, a missing field or a value that cannot be a
  dictionary key raises what Python raises. \<open>KnowledgeError\<close> is a ValueError. The registry of checks is an argument
  (the parameter names of each check).
\<close>

section \<open>Reading untrusted values\<close>

definition get_item :: "pyval \<Rightarrow> string \<Rightarrow> exn + pyval" where
  "get_item v k = (case v of PDict d \<Rightarrow> (case dict_get d k of None \<Rightarrow> Inl KeyError | Some x \<Rightarrow> Inr x) | _ \<Rightarrow> Inl TypeError)"

text \<open>\<open>v.get(k, default)\<close>\<close>

definition get_or :: "pyval \<Rightarrow> string \<Rightarrow> pyval \<Rightarrow> exn + pyval" where
  "get_or v k dflt = (case v of PDict d \<Rightarrow> Inr (the_default dflt (dict_get d k)) | _ \<Rightarrow> Inl AttributeError)"

definition iter :: "pyval \<Rightarrow> exn + pyval list" where
  "iter v = (case v of PList xs \<Rightarrow> Inr xs | PStr s \<Rightarrow> Inr (map (\<lambda>c. PStr [c]) s) | PDict d \<Rightarrow> Inr (map PStr (dict_keys d))
             | _ \<Rightarrow> Inl TypeError)"

definition items_of :: "pyval \<Rightarrow> exn + pydict" where
  "items_of v = (case v of PDict d \<Rightarrow> Inr d | _ \<Rightarrow> Inl AttributeError)"

text \<open>A value as a key of a dictionary: lists and dictionaries are not hashable, and only a text can be there.\<close>

definition lookup_key :: "pyval \<Rightarrow> (string \<times> 'a) list \<Rightarrow> exn + 'a option" where
  "lookup_key v d =
     (case v of PStr s \<Rightarrow> Inr (dict_get d s) | PList xs \<Rightarrow> Inl TypeError | PDict e \<Rightarrow> Inl TypeError | _ \<Rightarrow> Inr None)"

text \<open>The ids of checks are keys as they stand in the data, so the dictionaries over them are keyed by values.\<close>

definition hashable :: "pyval \<Rightarrow> bool" where
  "hashable v = (case v of PList xs \<Rightarrow> False | PDict d \<Rightarrow> False | _ \<Rightarrow> True)"

definition val_get :: "pyval \<Rightarrow> (pyval \<times> 'a) list \<Rightarrow> exn + 'a option" where
  "val_get v d = (if hashable v then Inr (map_option snd (find (\<lambda>(k, x). py_eq k v) d)) else Inl TypeError)"

fun val_put :: "pyval \<Rightarrow> 'a \<Rightarrow> (pyval \<times> 'a) list \<Rightarrow> (pyval \<times> 'a) list" where
  "val_put v x [] = [(v, x)]"
| "val_put v x ((k, y) # d) = (if py_eq k v then (k, x) # d else (k, y) # val_put v x d)"

definition val_set :: "pyval \<Rightarrow> 'a \<Rightarrow> (pyval \<times> 'a) list \<Rightarrow> exn + (pyval \<times> 'a) list" where
  "val_set v x d = (if hashable v then Inr (val_put v x d) else Inl TypeError)"

definition has :: "string \<Rightarrow> pyval \<Rightarrow> bool" where
  "has k v = (k \<in> set (dict_keys (as_dict v)))"

definition is_str :: "string \<Rightarrow> pyval \<Rightarrow> bool" where
  "is_str s v = (v = PStr s)"

definition str_in :: "pyval \<Rightarrow> string list \<Rightarrow> bool" where
  "str_in v xs = (case v of PStr s \<Rightarrow> s \<in> set xs | _ \<Rightarrow> False)"

definition matches :: "rx \<Rightarrow> pyval \<Rightarrow> bool" where
  "matches r v = (case v of PStr s \<Rightarrow> rx_full r s | _ \<Rightarrow> False)"

section \<open>Checks that fail\<close>

definition fail :: "string \<Rightarrow> string \<Rightarrow> exn + 'a" where
  "fail pid msg = Inl (ValueError (pid @ '': '' @ msg))"

definition ensure :: "string \<Rightarrow> bool \<Rightarrow> string \<Rightarrow> exn + unit" where
  "ensure pid ok msg = (if ok then Inr () else fail pid msg)"

text \<open>A sequence of checks raises what the first failing one raises.\<close>

fun in_order :: "(exn + unit) list \<Rightarrow> exn + unit" where
  "in_order [] = Inr ()"
| "in_order (Inl e # cs) = Inl e"
| "in_order (Inr u # cs) = in_order cs"

definition each :: "('a \<Rightarrow> exn + unit) \<Rightarrow> 'a list \<Rightarrow> exn + unit" where
  "each f xs = in_order (map f xs)"

definition with_item :: "pyval \<Rightarrow> string \<Rightarrow> (pyval \<Rightarrow> exn + 'a) \<Rightarrow> exn + 'a" where
  "with_item v k f = bind_exn (get_item v k) f"

text \<open>A loop over \<open>enumerate(v)\<close>.\<close>

definition each_of :: "pyval \<Rightarrow> (nat \<Rightarrow> pyval \<Rightarrow> exn + unit) \<Rightarrow> exn + unit" where
  "each_of v f = bind_exn (iter v) (\<lambda>xs. each (\<lambda>(i, x). f i x) (enumerate 0 xs))"

lemma in_order_iff [simp]: "in_order cs = Inr () \<longleftrightarrow> (\<forall>c \<in> set cs. c = Inr ())"
  by (induction cs rule: in_order.induct) auto

lemma each_iff [simp]: "each f xs = Inr () \<longleftrightarrow> (\<forall>x \<in> set xs. f x = Inr ())"
  by (simp add: each_def)

lemma ensure_iff [simp]: "ensure pid ok msg = Inr () \<longleftrightarrow> ok"
  by (simp add: ensure_def fail_def)

lemma each_cong [fundef_cong]: "xs = ys \<Longrightarrow> (\<And>x. x \<in> set ys \<Longrightarrow> f x = g x) \<Longrightarrow> each f xs = each g ys"
  by (auto simp: each_def intro: arg_cong [of _ _ in_order])

lemma enumerate_member: "(i, x) \<in> set (enumerate n xs) \<Longrightarrow> x \<in> set xs"
  by (auto simp: in_set_enumerate_eq)

lemma all_enumerate: "(\<forall>p \<in> set (enumerate 0 xs). P p) \<longleftrightarrow> (\<forall>i < length xs. P (i, xs ! i))"
  by (auto simp: in_set_enumerate_eq)

lemma each_of_iff: "each_of v f = Inr () \<longleftrightarrow> (\<exists>xs. iter v = Inr xs \<and> (\<forall>i < length xs. f i (xs ! i) = Inr ()))"
  by (auto simp: each_of_def bind_exn_Inr all_enumerate)

section \<open>Tables\<close>

definition RISKS :: "string list" where "RISKS = [''READ_ONLY'', ''LOW'', ''MEDIUM'', ''HIGH'']"

definition RISK_RANK :: "(string \<times> nat) list" where "RISK_RANK = zip RISKS [0 ..< length RISKS]"

definition CHANGES_MIN_RISK :: "(string \<times> string) list" where
  "CHANGES_MIN_RISK =
     [(''file-permission'', ''LOW''), (''certmonger-request'', ''LOW''), (''service-start'', ''MEDIUM''),
      (''service-restart'', ''MEDIUM''), (''time-resync'', ''MEDIUM''), (''cache-expire'', ''LOW''), (''cache-remove'', ''HIGH'')]"

definition TIERS :: "string list" where "TIERS = [''BUILT_IN_VERIFIED'', ''LIVE_VERIFIED'', ''FIXTURE_ONLY'']"
definition AUTHORITATIVE_SOURCES :: "string list" where
  "AUTHORITATIVE_SOURCES = [''upstream-code'', ''upstream-docs'', ''vendor-docs'']"
definition RUN_ON :: "string list" where "RUN_ON = [''local'']"
definition OPS :: "string list" where
  "OPS = [''eq'', ''ne'', ''in'', ''not_in'', ''lt'', ''le'', ''gt'', ''ge'', ''abs_lt'', ''abs_ge'', ''is_true'', ''is_false'', ''is_empty'']"
definition CONFIDENCE :: "string list" where "CONFIDENCE = [''HIGH'', ''MEDIUM'']"

definition CONFIRM_PROGRAMS :: "(string \<times> string list option) list" where
  "CONFIRM_PROGRAMS = [(''stat'', None), (''readlink'', Some [''-f''])]"
definition FIX_PROGRAMS :: "string list" where
  "FIX_PROGRAMS = [''systemctl'', ''chmod'', ''chown'', ''chgrp'', ''chronyc'', ''getcert'', ''sss_cache'', ''sssctl'']"
definition SSSCTL_FIX_COMMANDS :: "string list" where "SSSCTL_FIX_COMMANDS = [''cache-remove'']"
definition ROLES :: "pyval list" where "ROLES = [PList [PStr ''ipa-server''], PList [PStr ''ipa-client'']]"

definition arg_literal_rx :: rx where "arg_literal_rx = seqs [Bos, upto 1 128 (Cls (alnum_or ''@._/=:+%-'')), Eos]"
definition id_rx :: rx where
  "id_rx = seqs [Bos, Cls is_lower, upto 2 80 (Cls (\<lambda>c. is_lower c \<or> is_digit09 c \<or> c \<in> set ''_.-'')), Eos]"
definition template_rx :: rx where
  "template_rx = seqs [lit ''{'', Grp 1 (alts [lit ''bind'', lit ''item'', lit ''ref'']), lit ''.'', Grp 2 (plus (Cls (alnum_or ''_''))),
     opt (seqs [lit ''.'', Grp 3 (plus (Cls (alnum_or ''_'')))]), lit ''}'']"
definition program_rx :: rx where
  "program_rx = seqs [Cls is_lower, upto 0 30 (Cls (\<lambda>c. is_lower c \<or> is_digit09 c \<or> c \<in> set ''_-''))]"
definition url_rx :: rx where
  "url_rx = seqs [lit ''https://'', plus (Cls (alnum_or ''.-'')), lit ''/'', upto 1 400 (Cls (\<lambda>c. \<not> (is_space c)))]"
definition evidence_rx :: rx where
  "evidence_rx = seqs [lit ''https://github.com/'', plus (Cls (alnum_or ''_.-'')), lit ''/'', plus (Cls (alnum_or ''_.-'')),
     lit ''/actions/runs/'', Rep 5 None True (Cls is_digit09), opt (Grp 1 (seqs [lit ''/job/'', plus (Cls is_digit09)]))]"
definition version_rx :: rx where
  "version_rx = seqs [upto 1 3 (Cls is_digit09), upto 1 3 (Grp 1 (seqs [lit ''.'', upto 1 4 (Cls is_digit09)]))]"
definition os_name_rx :: rx where
  "os_name_rx = seqs [Cls (\<lambda>c. is_upper c \<or> is_lower c), upto 1 60 (Cls (alnum_or '' ._-''))]"
definition date_rx :: rx where
  "date_rx = seqs [lit ''20'', upto 2 2 (Cls is_digit09), lit ''-'', Cls (\<lambda>c. c \<in> set ''01''), Cls is_digit09, lit ''-'', Cls (rng 48 51),
     Cls is_digit09]"
definition test_rx :: rx where
  "test_rx = seqs [lit ''tests/'', plus (Cls (alnum_or ''_/'')), lit ''.py'']"

lemmas knowledge_rx_defs [rx_defs] = arg_literal_rx_def id_rx_def template_rx_def program_rx_def url_rx_def evidence_rx_def
  version_rx_def os_name_rx_def date_rx_def test_rx_def

section \<open>Objects and references\<close>

definition repr_names :: "string list \<Rightarrow> string" where
  "repr_names xs = py_repr (PList (map PStr (sort xs)))"

definition only :: "string \<Rightarrow> pyval \<Rightarrow> string \<Rightarrow> string list \<Rightarrow> string list \<Rightarrow> exn + unit" where
  "only pid obj place allowed required =
     (let ks = dict_keys (as_dict obj);
          extra = filter (\<lambda>k. k \<notin> set allowed) ks; missing = filter (\<lambda>k. k \<notin> set ks) required
      in in_order [ensure pid (is_dict obj) (place @ '' must be an object''),
                   ensure pid (extra = []) (place @ '': unknown field(s) '' @ repr_names extra),
                   ensure pid (missing = []) (place @ '': missing field(s) '' @ repr_names missing)])"

text \<open>What a reference may name: the bindings, the checks before it, and the list binding of the current \<open>for_each\<close>.\<close>

record kctx =
  kc_bindings :: pydict
  kc_checks :: "(pyval \<times> pyval) list"
  kc_item :: pyval

definition check_bind :: "string \<Rightarrow> kctx \<Rightarrow> pyval \<Rightarrow> string \<Rightarrow> exn + unit" where
  "check_bind pid c name place =
     bind_exn (lookup_key name (kc_bindings c)) (\<lambda>b.
     bind_exn (case b of None \<Rightarrow> Inr False
               | Some spec \<Rightarrow> bind_exn (get_or spec ''type'' PNone) (\<lambda>t. Inr (t \<noteq> PStr ''list''))) (\<lambda>scalar.
     ensure pid scalar (place @ '': unknown scalar binding '' @ py_repr name)))"

definition check_item :: "string \<Rightarrow> kctx \<Rightarrow> pyval \<Rightarrow> string \<Rightarrow> exn + unit" where
  "check_item pid c name place =
     (if kc_item c = PNone then fail pid (place @ '': item reference outside for_each'')
      else bind_exn (lookup_key (kc_item c) (kc_bindings c)) (\<lambda>b.
           case b of None \<Rightarrow> Inl KeyError
           | Some spec \<Rightarrow>
               bind_exn (get_or spec ''item'' (PDict [])) (\<lambda>flds.
               bind_exn (py_in name flds) (\<lambda>known.
               ensure pid known (place @ '': unknown item field '' @ py_repr name)))))"

definition check_ref :: "string \<Rightarrow> kctx \<Rightarrow> pyval \<Rightarrow> string \<Rightarrow> exn + unit" where
  "check_ref pid c r place =
     (if length (filter (\<lambda>k. has k r) [''bind'', ''item'', ''ref'']) \<noteq> 1
      then fail pid (place @ '': a value reference needs exactly one of bind/item/ref'')
      else if has ''bind'' r then with_item r ''bind'' (\<lambda>name. check_bind pid c name place)
      else if has ''item'' r then with_item r ''item'' (\<lambda>name. check_item pid c name place)
      else with_item r ''ref'' (\<lambda>name.
             bind_exn (val_get name (kc_checks c)) (\<lambda>k.
             in_order [ensure pid (k \<noteq> None) (place @ '': unknown check reference '' @ py_repr name),
                       ensure pid (truthy (the_default PNone (dict_get (as_dict r) ''field''))) (place @ '': a check reference needs a field'')])))"

section \<open>Texts, values and predicates\<close>

definition reference :: "string \<Rightarrow> string \<Rightarrow> string option \<Rightarrow> pyval" where
  "reference kind name fld =
     PDict ((kind, PStr name) # (case fld of Some f \<Rightarrow> if f \<noteq> [] then [(''field'', PStr f)] else [] | None \<Rightarrow> []))"

definition match_ref :: "(nat \<times> string) list \<Rightarrow> pyval" where
  "match_ref g = reference (the_default [] (dict_get g 1)) (the_default [] (dict_get g 2)) (dict_get g 3)"

definition text_refs :: "string \<Rightarrow> pyval list" where
  "text_refs t = concat (map (\<lambda>p. case p of Plain c \<Rightarrow> [] | Match m g \<Rightarrow> [match_ref g]) (pieces template_rx t))"

definition check_text :: "string \<Rightarrow> pyval \<Rightarrow> string \<Rightarrow> kctx \<Rightarrow> exn + unit" where
  "check_text pid t place c =
     (case t of
        PStr s \<Rightarrow>
          (let stripped = rx_sub template_rx (\<lambda>m g. []) s
           in in_order
                [ensure pid (strip s \<noteq> []) (place @ '' must be non-empty text''),
                 each (\<lambda>r. check_ref pid c r place) (text_refs s),
                 ensure pid (CHR ''{'' \<notin> set stripped \<and> CHR ''}'' \<notin> set stripped)
                   (place @ '': only {bind.x}, {item.x} and {ref.id.field} placeholders are allowed'')])
      | _ \<Rightarrow> fail pid (place @ '' must be non-empty text''))"

definition EXPRESSION_MARKS :: "string list" where
  "EXPRESSION_MARKS = ['' and '', '' or '', ''=='', ''!='', ''>='', ''<='', ''now+'', ''('']"

definition check_value :: "string \<Rightarrow> pyval \<Rightarrow> string \<Rightarrow> kctx \<Rightarrow> exn + unit" where
  "check_value pid v place c =
     (case v of
        PDict d \<Rightarrow>
          (let extra = filter (\<lambda>k. k \<notin> set [''bind'', ''item'', ''ref'', ''field'', ''type'']) (dict_keys d)
           in in_order [ensure pid (extra = []) (place @ '': unknown value fields '' @ repr_names extra), check_ref pid c v place])
      | PStr s \<Rightarrow> ensure pid (\<not> list_ex (contains s) EXPRESSION_MARKS) (place @ '': expressions are not allowed in knowledge ('' @ py_repr v @ '')'')
      | _ \<Rightarrow> Inr ())"

function check_pred :: "string \<Rightarrow> pyval \<Rightarrow> string \<Rightarrow> kctx \<Rightarrow> exn + unit" where
  "check_pred pid p place c =
     (case p of
        PDict d \<Rightarrow>
          if has ''all'' p \<or> has ''any'' p
          then let key = (if has ''all'' p then ''all'' else ''any'')
               in bind_exn (only pid p place [key] []) (\<lambda>_.
                  case dict_get d key of
                    Some (PList (x # xs)) \<Rightarrow>
                      each (\<lambda>(i, q). check_pred pid q (place @ ''.'' @ key @ ''['' @ show_nat i @ '']'') c) (enumerate 0 (x # xs))
                  | _ \<Rightarrow> fail pid (place @ ''.'' @ key @ '' must be a non-empty list''))
          else if has ''not'' p
          then bind_exn (only pid p place [''not''] []) (\<lambda>_.
               case dict_get d ''not'' of Some q \<Rightarrow> check_pred pid q (place @ ''.not'') c | None \<Rightarrow> Inl KeyError)
          else bind_exn (only pid p place [''left'', ''op'', ''right''] [''left'', ''op'']) (\<lambda>_.
               with_item p ''op'' (\<lambda>op. with_item p ''left'' (\<lambda>l.
               in_order
                 [ensure pid (str_in op OPS) (place @ '': unknown operator '' @ py_repr op),
                  check_value pid l (place @ ''.left'') c,
                  if str_in op [''is_true'', ''is_false'', ''is_empty''] then Inr ()
                  else in_order [ensure pid (has ''right'' p) (place @ '': operator '' @ py_str op @ '' needs '' @ repr_str ''right''),
                                 with_item p ''right'' (\<lambda>r. check_value pid r (place @ ''.right'') c)]])))
      | PStr s \<Rightarrow> fail pid (place @ '': predicates must be structured, not strings'')
      | _ \<Rightarrow> fail pid (place @ '': predicate must be an object''))"
  by pat_completeness auto
termination
  by (relation "measure (\<lambda>(pid, p, place, c). size p)") (auto dest!: dict_get_size enumerate_member size_member)

declare check_pred.simps [simp del]

text \<open>\<open>t in T.VALIDATORS\<close>\<close>

definition known_type :: "pyval \<Rightarrow> exn + unit option" where
  "known_type t = lookup_key t (map (\<lambda>(n, fn). (n, ())) VALIDATORS)"

definition check_arg :: "string \<Rightarrow> string \<Rightarrow> kctx \<Rightarrow> nat \<Rightarrow> pyval \<Rightarrow> exn + unit" where
  "check_arg pid place c i a =
     (let here = place @ ''['' @ show_nat i @ '']''
      in case a of
           PStr s \<Rightarrow> ensure pid (rx_full arg_literal_rx s) (here @ '': literal argument contains characters that are not allowed: '' @ repr_str s)
         | PDict d \<Rightarrow>
             bind_exn (case dict_get d ''type'' of None \<Rightarrow> Inr None | Some t \<Rightarrow> known_type t) (\<lambda>t.
             in_order [ensure pid (t \<noteq> None) (here @ '': a placeholder argument must declare a known type''), check_value pid a here c])
         | _ \<Rightarrow> fail pid (here @ '': unsupported argument''))"

definition check_argv :: "string \<Rightarrow> pyval \<Rightarrow> string \<Rightarrow> kctx \<Rightarrow> exn + unit" where
  "check_argv pid argv place c =
     (case argv of
        PList (a # as) \<Rightarrow>
          in_order [ensure pid (matches program_rx a) (place @ '': argv[0] must be a literal program name''),
                    each (\<lambda>(i, x). check_arg pid place c i x) (enumerate 0 (a # as))]
      | _ \<Rightarrow> fail pid (place @ '': command must be a non-empty argv list''))"

section \<open>Provenance\<close>

definition list_or_empty :: "pyval \<Rightarrow> string \<Rightarrow> exn + pyval list" where
  "list_or_empty v k = bind_exn (get_or v k PNone) (\<lambda>x. if truthy x then iter x else Inr [])"

definition is_live :: "pyval \<Rightarrow> bool" where
  "is_live v = (is_dict v \<and> dict_get (as_dict v) ''tier'' = Some (PStr ''LIVE'') \<and> truthy (the_default PNone (dict_get (as_dict v) ''evidence'')))"

definition check_source :: "string \<Rightarrow> pyval \<Rightarrow> exn + unit" where
  "check_source pid s =
     bind_exn (only pid s ''provenance.sources[]'' [''kind'', ''ref'', ''title''] [''kind'', ''ref'']) (\<lambda>_.
     with_item s ''ref'' (\<lambda>r. ensure pid (matches url_rx r) ''provenance.sources[].ref must be an https URL''))"

definition check_live_record :: "string \<Rightarrow> pyval \<Rightarrow> exn + unit" where
  "check_live_record pid v =
     bind_exn (only pid v ''provenance.verified_on[]'' [''freeipa'', ''os'', ''tier'', ''evidence'', ''date'']
                 [''freeipa'', ''os'', ''tier'', ''evidence'']) (\<lambda>_.
     let f = (\<lambda>k. the_default PNone (dict_get (as_dict v) k))
     in in_order
          [ensure pid (matches version_rx (f ''freeipa'')) ''provenance.verified_on[].freeipa must be a FreeIPA version'',
           ensure pid (matches os_name_rx (f ''os'')) ''provenance.verified_on[].os must name the OS'',
           ensure pid (\<not> is_str ''LIVE'' (f ''tier'') \<or> matches evidence_rx (f ''evidence''))
             ''a LIVE verification record needs evidence: the URL of the CI run that applied and verified it'',
           ensure pid (\<not> has ''date'' v \<or> matches date_rx (f ''date'')) ''provenance.verified_on[].date must be YYYY-MM-DD''])"

definition non_blank :: "pyval \<Rightarrow> bool" where
  "non_blank v = (case v of PStr s \<Rightarrow> strip s \<noteq> [] | _ \<Rightarrow> False)"

definition is_bool :: "pyval \<Rightarrow> bool" where
  "is_bool v = (case v of PBool b \<Rightarrow> True | _ \<Rightarrow> False)"

definition check_review :: "string \<Rightarrow> pyval \<Rightarrow> exn + unit" where
  "check_review pid r =
     bind_exn (only pid r ''provenance.reviews[]'' [''by'', ''date'', ''scope'', ''independent''] [''by'', ''date'', ''scope'', ''independent'']) (\<lambda>_.
     let f = (\<lambda>k. the_default PNone (dict_get (as_dict r) k))
     in ensure pid (non_blank (f ''by'') \<and> non_blank (f ''scope'') \<and> matches date_rx (f ''date'') \<and> is_bool (f ''independent''))
          ''provenance.reviews[] needs who (by), what (scope), a YYYY-MM-DD date and independent: true/false'')"

definition independent_review :: "pyval \<Rightarrow> bool" where
  "independent_review r = (dict_get (as_dict r) ''independent'' = Some (PBool True))"

definition authoritative :: "pyval \<Rightarrow> bool" where
  "authoritative s = (case dict_get (as_dict s) ''kind'' of Some k \<Rightarrow> str_in k AUTHORITATIVE_SOURCES | None \<Rightarrow> False)"

text \<open>Decision O-10: what a procedure must show before it may call itself verified.\<close>

definition check_tier :: "string \<Rightarrow> pyval \<Rightarrow> pyval \<Rightarrow> pyval list \<Rightarrow> pyval list \<Rightarrow> pyval list \<Rightarrow> exn + unit" where
  "check_tier pid proc tier sources verified reviews =
     in_order
       [ensure pid (\<not> str_in tier [''BUILT_IN_VERIFIED'', ''LIVE_VERIFIED''] \<or> filter is_live verified \<noteq> [])
          (py_str tier @ '' requires a live-lab verification record (verified_on with tier LIVE and evidence)''),
        if \<not> is_str ''BUILT_IN_VERIFIED'' tier then Inr ()
        else in_order
          [ensure pid (list_ex authoritative sources) ''BUILT_IN_VERIFIED requires an authoritative source (upstream code/docs or vendor docs)'',
           bind_exn (get_or proc ''applies_to'' (PDict [])) (\<lambda>a. bind_exn (get_or a ''freeipa_min'' PNone) (\<lambda>v.
             ensure pid (truthy v) ''BUILT_IN_VERIFIED requires a version constraint (applies_to.freeipa_min)'')),
           ensure pid (list_ex independent_review reviews) ''BUILT_IN_VERIFIED requires an independent review record'']]"

definition validate_provenance :: "string \<Rightarrow> pyval \<Rightarrow> exn + unit" where
  "validate_provenance pid proc =
     with_item proc ''provenance'' (\<lambda>prov.
     bind_exn (only pid prov ''provenance'' [''tier'', ''sources'', ''verified_on'', ''reviews'', ''tests''] [''tier'', ''sources'', ''tests'']) (\<lambda>_.
     with_item prov ''tier'' (\<lambda>tier.
     bind_exn (ensure pid (str_in tier TIERS) (''unknown tier '' @ py_repr tier)) (\<lambda>_.
     bind_exn (list_or_empty prov ''sources'') (\<lambda>sources.
     bind_exn (each (check_source pid) sources) (\<lambda>_.
     bind_exn (list_or_empty prov ''verified_on'') (\<lambda>verified.
     bind_exn (each (check_live_record pid) verified) (\<lambda>_.
     bind_exn (list_or_empty prov ''reviews'') (\<lambda>reviews.
     bind_exn (each (check_review pid) reviews) (\<lambda>_.
     bind_exn (list_or_empty prov ''tests'') (\<lambda>tests.
     bind_exn (ensure pid (tests \<noteq> [] \<and> list_all (matches test_rx) tests)
       ''provenance.tests must list the regression test files (tests/...py)'') (\<lambda>_.
     check_tier pid proc tier sources verified reviews))))))))))))"

section \<open>A procedure\<close>

text \<open>The registry of checks: the parameter names of each.\<close>

type_synonym check_params_table = "(string \<times> string list) list"

definition check_resolves :: "string \<Rightarrow> pyval \<Rightarrow> exn + unit" where
  "check_resolves pid proc = with_item proc ''resolves'' (\<lambda>r. only pid r ''resolves'' [''diagnosis'', ''variant''] [''diagnosis''])"

definition validate_no_procedure :: "string \<Rightarrow> pyval \<Rightarrow> exn + unit" where
  "validate_no_procedure pid proc =
     in_order
       [only pid proc ''no_procedure'' [''kind'', ''id'', ''resolves'', ''reason'', ''reference'', ''provenance'']
          [''kind'', ''id'', ''resolves'', ''reason''],
        check_resolves pid proc,
        with_item proc ''reason'' (\<lambda>r. ensure pid (non_blank r) ''reason must be text'')]"

definition check_binding :: "string \<Rightarrow> string \<times> pyval \<Rightarrow> exn + unit" where
  "check_binding pid b =
     (case b of (name, spec) \<Rightarrow>
        let here = ''bindings.'' @ name
        in bind_exn (only pid spec here [''type'', ''item''] [''type'']) (\<lambda>_.
           with_item spec ''type'' (\<lambda>t.
           if is_str ''list'' t
           then (case dict_get (as_dict spec) ''item'' of
                   Some (PDict (f # fs)) \<Rightarrow>
                     each (\<lambda>(f, ft). bind_exn (known_type ft) (\<lambda>known.
                             ensure pid (known \<noteq> None \<or> is_str ''any_text'' ft) (here @ ''.item.'' @ f @ '': unknown type '' @ py_repr ft))) (f # fs)
                 | _ \<Rightarrow> fail pid (here @ '': list bindings need item field types''))
           else bind_exn (known_type t) (\<lambda>known. ensure pid (known \<noteq> None) (here @ '': unknown type '' @ py_repr t)))))"

definition major_version :: "string \<Rightarrow> nat" where
  "major_version v = the_default 0 (read_nat (fst (partition_char (CHR ''.'') v)))"

definition check_bound :: "string \<Rightarrow> pyval \<Rightarrow> string \<Rightarrow> exn + unit" where
  "check_bound pid a k =
     bind_exn (get_or a k PNone) (\<lambda>v.
     ensure pid (v = PNone \<or> (case v of PStr s \<Rightarrow> rx_full version_rx s \<and> 4 \<le> major_version s | _ \<Rightarrow> False))
       (''applies_to.'' @ k @ '' must be a FreeIPA version (4.x or later)''))"

definition check_applies :: "string \<Rightarrow> pyval \<Rightarrow> exn + unit" where
  "check_applies pid proc =
     with_item proc ''applies_to'' (\<lambda>a.
     in_order [only pid a ''applies_to'' [''freeipa_min'', ''freeipa_below'', ''roles''] [''roles''],
               check_bound pid a ''freeipa_min'', check_bound pid a ''freeipa_below'',
               with_item a ''roles'' (\<lambda>r. ensure pid (list_ex (py_eq r) ROLES) ''applies_to.roles: exactly one of ipa-server or ipa-client'')])"

definition loop_of :: "pyval \<Rightarrow> exn + pyval" where
  "loop_of entry = get_or entry ''for_each'' PNone"

definition same_params :: "pyval \<Rightarrow> string list \<Rightarrow> exn + bool" where
  "same_params v names =
     bind_exn (iter v) (\<lambda>ks. if list_ex (\<lambda>k. \<not> hashable k) ks then Inl TypeError
       else Inr (set ks = PStr ` set names))"

definition investigate_one :: "check_params_table \<Rightarrow> string \<Rightarrow> kctx \<Rightarrow> pyval \<Rightarrow> exn + kctx" where
  "investigate_one reg pid c iv =
     bind_exn (only pid iv ''investigate[]'' [''id'', ''check'', ''params'', ''label'', ''for_each''] [''id'', ''check'', ''params'', ''label'']) (\<lambda>_.
     with_item iv ''id'' (\<lambda>iid. with_item iv ''check'' (\<lambda>chk. with_item iv ''params'' (\<lambda>params.
     let here = ''investigate '' @ py_str iid
     in bind_exn (lookup_key chk reg) (\<lambda>spec.
        case spec of None \<Rightarrow> fail pid (here @ '': unknown check '' @ py_repr chk)
        | Some names \<Rightarrow>
            bind_exn (same_params params names) (\<lambda>same.
            bind_exn (ensure pid same (here @ '': parameters must be exactly '' @ repr_names names)) (\<lambda>_.
            bind_exn (loop_of iv) (\<lambda>loop.
            bind_exn (if loop = PNone then Inr True
                      else bind_exn (lookup_key loop (kc_bindings c)) (\<lambda>b. bind_exn (get_or (the_default (PDict []) b) ''type'' PNone) (\<lambda>t.
                           Inr (is_str ''list'' t)))) (\<lambda>ok.
            bind_exn (ensure pid ok (here @ '': for_each must name a list binding'')) (\<lambda>_.
            bind_exn (items_of params) (\<lambda>ps.
            bind_exn (each (\<lambda>(n, v). check_value pid v (here @ ''.'' @ n) (c\<lparr>kc_item := loop\<rparr>)) ps) (\<lambda>_.
            bind_exn (val_set iid iv (kc_checks c)) (\<lambda>ks. Inr (c\<lparr>kc_checks := ks\<rparr>))))))))))))))"

fun investigate_all :: "check_params_table \<Rightarrow> string \<Rightarrow> kctx \<Rightarrow> pyval list \<Rightarrow> exn + kctx" where
  "investigate_all reg pid c [] = Inr c"
| "investigate_all reg pid c (iv # ivs) = bind_exn (investigate_one reg pid c iv) (\<lambda>c'. investigate_all reg pid c' ivs)"

definition check_withhold :: "string \<Rightarrow> kctx \<Rightarrow> nat \<Rightarrow> pyval \<Rightarrow> exn + unit" where
  "check_withhold pid c i w =
     bind_exn (only pid w ''withhold_if[]'' [''when'', ''reason'', ''for_each''] [''when'', ''reason'']) (\<lambda>_.
     bind_exn (loop_of w) (\<lambda>loop.
     let c' = c\<lparr>kc_item := loop\<rparr>; here = ''withhold_if['' @ show_nat i @ '']''
     in in_order [with_item w ''when'' (\<lambda>p. check_pred pid p here c'), with_item w ''reason'' (\<lambda>t. check_text pid t (here @ ''.reason'') c')]))"

definition check_prerequisite :: "string \<Rightarrow> kctx \<Rightarrow> nat \<Rightarrow> pyval \<Rightarrow> exn + unit" where
  "check_prerequisite pid c i pr =
     bind_exn (only pid pr ''prerequisites[]'' [''id'', ''text'', ''when'', ''kind''] [''id'', ''text'']) (\<lambda>_.
     bind_exn (get_or pr ''kind'' (PStr ''check'')) (\<lambda>kind.
     let here = ''prerequisites['' @ show_nat i @ '']''
     in in_order
          [ensure pid (str_in kind [''check'', ''confirm_by_admin'']) ''prerequisite kind must be check or confirm_by_admin'',
           if \<not> is_str ''check'' kind then Inr ()
           else in_order [with_item pr ''id'' (\<lambda>k. ensure pid (has ''when'' pr) (''prerequisite '' @ py_str k @ '' needs '' @ repr_str ''when'')),
                          with_item pr ''when'' (\<lambda>p. check_pred pid p here c)],
           with_item pr ''text'' (\<lambda>t. check_text pid t (here @ ''.text'') c)]))"

definition argv_flags :: "pyval \<Rightarrow> string list" where
  "argv_flags argv = (case argv of PList (a # as) \<Rightarrow> filter (\<lambda>s. starts_with s ''-'') (concat (map (\<lambda>x. case x of PStr s \<Rightarrow> [s] | _ \<Rightarrow> []) as)) | _ \<Rightarrow> [])"

definition program_of :: "pyval \<Rightarrow> string" where
  "program_of argv = (case argv of PList (PStr s # as) \<Rightarrow> s | _ \<Rightarrow> [])"

definition check_confirm :: "string \<Rightarrow> kctx \<Rightarrow> nat \<Rightarrow> pyval \<Rightarrow> exn + unit" where
  "check_confirm pid c j e =
     bind_exn (only pid e ''confirm_first[]'' [''text'', ''command'', ''expect'', ''for_each''] [''text'', ''command'', ''expect'']) (\<lambda>_.
     bind_exn (loop_of e) (\<lambda>loop.
     let c' = c\<lparr>kc_item := loop\<rparr>; here = ''confirm_first['' @ show_nat j @ '']''
     in with_item e ''command'' (\<lambda>argv.
        let prog = program_of argv
        in in_order
             [check_argv pid argv (here @ ''.command'') c',
              ensure pid (dict_get CONFIRM_PROGRAMS prog \<noteq> None) (here @ '': '' @ repr_str prog @ '' is not a read-only inspection program''),
              ensure pid (case dict_get CONFIRM_PROGRAMS prog of Some (Some flags) \<Rightarrow> set (argv_flags argv) \<subseteq> set flags | _ \<Rightarrow> True)
                (here @ '': option not allowed for '' @ prog),
              with_item e ''text'' (\<lambda>t. check_text pid t (here @ ''.text'') c'),
              with_item e ''expect'' (\<lambda>t. check_text pid t (here @ ''.expect'') c')])))"

definition risk_rank :: "pyval \<Rightarrow> nat" where
  "risk_rank r = (case r of PStr s \<Rightarrow> the_default 0 (dict_get RISK_RANK s) | _ \<Rightarrow> 0)"

definition check_change :: "string \<Rightarrow> string \<Rightarrow> pyval \<Rightarrow> pyval \<Rightarrow> exn + unit" where
  "check_change pid here risk ch =
     bind_exn (lookup_key ch CHANGES_MIN_RISK) (\<lambda>least.
     case least of None \<Rightarrow> fail pid (here @ '': unknown change '' @ py_repr ch)
     | Some m \<Rightarrow> ensure pid (risk_rank (PStr m) \<le> risk_rank risk) (here @ '': risk '' @ py_str risk @ '' is lower than required for '' @ py_repr ch))"

definition check_sssctl :: "string \<Rightarrow> string \<Rightarrow> pyval \<Rightarrow> exn + unit" where
  "check_sssctl pid here argv =
     ensure pid (program_of argv \<noteq> ''sssctl''
                 \<or> (case argv of PList (a # PStr s # as) \<Rightarrow> s \<in> set SSSCTL_FIX_COMMANDS | _ \<Rightarrow> False))
       (here @ '': only these sssctl commands may be a fix step: '' @ repr_names SSSCTL_FIX_COMMANDS)"

definition check_step :: "string \<Rightarrow> kctx \<Rightarrow> pyval \<Rightarrow> exn + unit" where
  "check_step pid c s =
     bind_exn (only pid s ''steps[]'' [''id'', ''text'', ''run_on'', ''command'', ''risk'', ''changes'', ''expected'', ''for_each'', ''only_if'']
                 [''id'', ''text'', ''run_on'', ''command'', ''risk'', ''changes'', ''expected'']) (\<lambda>_.
     with_item s ''id'' (\<lambda>sid. with_item s ''run_on'' (\<lambda>on. with_item s ''risk'' (\<lambda>risk. with_item s ''changes'' (\<lambda>changes.
     with_item s ''command'' (\<lambda>argv.
     bind_exn (loop_of s) (\<lambda>loop.
     let here = ''step '' @ py_str sid; c' = c\<lparr>kc_item := loop\<rparr>
     in in_order
          [ensure pid (str_in on RUN_ON) (here @ '': run_on must be one of (''  @ repr_str ''local'' @ '',)''),
           ensure pid (str_in risk RISKS \<and> \<not> is_str ''READ_ONLY'' risk) (here @ '': a fix step must be LOW, MEDIUM or HIGH''),
           ensure pid (truthy changes) (here @ '': changes must be declared''),
           bind_exn (iter changes) (each (check_change pid here risk)),
           check_argv pid argv (here @ ''.command'') c',
           ensure pid (program_of argv \<in> set FIX_PROGRAMS) (here @ '': '' @ repr_str (program_of argv) @ '' is not an allowed fix program''),
           check_sssctl pid here argv,
           if has ''only_if'' s then with_item s ''only_if'' (\<lambda>p. check_pred pid p (here @ ''.only_if'') c') else Inr (),
           with_item s ''text'' (\<lambda>t. check_text pid t (here @ ''.text'') c'),
           with_item s ''expected'' (\<lambda>t. check_text pid t (here @ ''.expected'') c')])))))))"

definition check_entry :: "string \<Rightarrow> string \<Rightarrow> kctx \<Rightarrow> nat \<Rightarrow> pyval \<Rightarrow> exn + unit" where
  "check_entry pid key c j e =
     bind_exn (only pid e (key @ ''[]'') [''text'', ''command'', ''for_each'', ''only_if''] [''text'']) (\<lambda>_.
     bind_exn (loop_of e) (\<lambda>loop.
     let here = key @ ''['' @ show_nat j @ '']''; c' = c\<lparr>kc_item := loop\<rparr>
     in in_order
          [with_item e ''text'' (\<lambda>t. check_text pid t (here @ ''.text'') c'),
           if has ''command'' e
           then with_item e ''command'' (\<lambda>argv.
                  in_order [check_argv pid argv (here @ ''.command'') c',
                            ensure pid (program_of argv \<in> set FIX_PROGRAMS) (here @ '': '' @ repr_str (program_of argv) @ '' is not an allowed fix program'')])
           else Inr (),
           if has ''only_if'' e then with_item e ''only_if'' (\<lambda>p. check_pred pid p (here @ ''.only_if'') c') else Inr ()]))"

definition check_verify :: "check_params_table \<Rightarrow> string \<Rightarrow> kctx \<Rightarrow> nat \<Rightarrow> pyval \<Rightarrow> exn + unit" where
  "check_verify reg pid c j v =
     bind_exn (only pid v ''verify[]'' [''text'', ''check'', ''params'', ''when'', ''for_each''] [''text'', ''check'', ''params'', ''when'']) (\<lambda>_.
     with_item v ''check'' (\<lambda>chk. with_item v ''params'' (\<lambda>params.
     let here = ''verify['' @ show_nat j @ '']''
     in bind_exn (lookup_key chk reg) (\<lambda>spec.
        bind_exn (case spec of None \<Rightarrow> Inr False | Some names \<Rightarrow> same_params params names) (\<lambda>ok.
        bind_exn (ensure pid ok (here @ '': unknown check or wrong parameters'')) (\<lambda>_.
        bind_exn (loop_of v) (\<lambda>loop.
        bind_exn (items_of params) (\<lambda>ps.
        let c' = c\<lparr>kc_item := loop, kc_checks := val_put (PStr ''this'') v (kc_checks c)\<rparr>
        in in_order
             [each (\<lambda>(n, x). check_value pid x (here @ ''.'' @ n) c') ps,
              with_item v ''when'' (\<lambda>p. check_pred pid p (here @ ''.when'') c'),
              with_item v ''text'' (\<lambda>t. check_text pid t (here @ ''.text'') c')]))))))))"

definition each_in :: "pyval \<Rightarrow> string \<Rightarrow> (nat \<Rightarrow> pyval \<Rightarrow> exn + unit) \<Rightarrow> exn + unit" where
  "each_in proc k f = with_item proc k (\<lambda>v. each_of v f)"

text \<open>\<open>for x in proc.get(k, [])\<close>\<close>

definition each_opt :: "pyval \<Rightarrow> string \<Rightarrow> (nat \<Rightarrow> pyval \<Rightarrow> exn + unit) \<Rightarrow> exn + unit" where
  "each_opt proc k f = bind_exn (get_or proc k (PList [])) (\<lambda>v. each_of v f)"

definition validate_parts :: "check_params_table \<Rightarrow> string \<Rightarrow> pyval \<Rightarrow> kctx \<Rightarrow> exn + unit" where
  "validate_parts reg pid proc c =
     in_order
       [each_opt proc ''withhold_if'' (check_withhold pid c),
        each_opt proc ''prerequisites'' (check_prerequisite pid c),
        each_opt proc ''confirm_first'' (check_confirm pid c),
        with_item proc ''steps'' (\<lambda>v. ensure pid (truthy v) ''a procedure needs at least one step''),
        each_in proc ''steps'' (\<lambda>i s. check_step pid c s),
        each_in proc ''what_changes'' (check_entry pid ''what_changes'' c),
        each_in proc ''rollback'' (check_entry pid ''rollback'' c),
        with_item proc ''verify'' (\<lambda>v. ensure pid (truthy v) ''verify criteria are required''),
        each_in proc ''verify'' (check_verify reg pid c)]"

definition PROCEDURE_FIELDS :: "string list" where
  "PROCEDURE_FIELDS =
     [''kind'', ''id'', ''title'', ''resolves'', ''min_confidence'', ''bindings'', ''applies_to'', ''provenance'', ''investigate'',
      ''withhold_if'', ''prerequisites'', ''confirm_first'', ''steps'', ''what_changes'', ''rollback'', ''verify'', ''impact_note'',
      ''limitations'']"

definition REQUIRED_FIELDS :: "string list" where
  "REQUIRED_FIELDS =
     [''kind'', ''id'', ''title'', ''resolves'', ''min_confidence'', ''bindings'', ''applies_to'', ''provenance'', ''steps'',
      ''what_changes'', ''rollback'', ''verify'']"

definition validate_header :: "string \<Rightarrow> pyval \<Rightarrow> exn + unit" where
  "validate_header pid proc =
     in_order
       [only pid proc ''procedure'' PROCEDURE_FIELDS REQUIRED_FIELDS,
        with_item proc ''kind'' (\<lambda>k. ensure pid (is_str ''procedure'' k) ''kind must be procedure or no_procedure''),
        check_resolves pid proc,
        with_item proc ''min_confidence'' (\<lambda>m. ensure pid (str_in m CONFIDENCE) ''min_confidence must be HIGH or MEDIUM''),
        with_item proc ''bindings'' (\<lambda>b. in_order [ensure pid (is_dict b) ''bindings must be an object'', each (check_binding pid) (as_dict b)]),
        check_applies pid proc,
        validate_provenance pid proc]"

definition validate_procedure :: "check_params_table \<Rightarrow> pyval \<Rightarrow> exn + unit" where
  "validate_procedure reg proc =
     bind_exn (get_or proc ''id'' (PStr ''<no id>'')) (\<lambda>i.
     let pid = py_str i
     in if \<not> matches id_rx i then fail pid ''invalid id''
        else if dict_get (as_dict proc) ''kind'' = Some (PStr ''no_procedure'') then validate_no_procedure pid proc
        else bind_exn (validate_header pid proc) (\<lambda>_.
             with_item proc ''bindings'' (\<lambda>b.
             bind_exn (get_or proc ''investigate'' (PList [])) (\<lambda>v. bind_exn (iter v) (\<lambda>ivs.
             bind_exn (investigate_all reg pid \<lparr>kc_bindings = as_dict b, kc_checks = [], kc_item = PNone\<rparr> ivs) (\<lambda>c.
             validate_parts reg pid proc c))))))"

section \<open>The catalogue\<close>

text \<open>What a diagnosis selects a procedure by.\<close>

definition target_of :: "pyval \<Rightarrow> exn + pyval \<times> pyval" where
  "target_of proc =
     with_item proc ''resolves'' (\<lambda>r. with_item r ''diagnosis'' (\<lambda>d. bind_exn (get_or r ''variant'' PNone) (\<lambda>v.
       if hashable d \<and> hashable v then Inr (d, v) else Inl TypeError)))"

fun validate_entries :: "check_params_table \<Rightarrow> string list \<Rightarrow> (pyval \<times> pyval) list \<Rightarrow> pyval list \<Rightarrow> exn + unit" where
  "validate_entries reg seen targets [] = Inr ()"
| "validate_entries reg seen targets (proc # procs) =
     bind_exn (validate_procedure reg proc) (\<lambda>_.
     with_item proc ''id'' (\<lambda>i.
     let pid = py_str i
     in if pid \<in> set seen then Inl (ValueError (''duplicate id '' @ pid))
        else bind_exn (target_of proc) (\<lambda>t.
             if list_ex (\<lambda>u. py_eq (fst t) (fst u) \<and> py_eq (snd t) (snd u)) targets
             then Inl (ValueError (pid @ '': more than one entry for ('' @ py_repr (fst t) @ '', '' @ py_repr (snd t) @
                         '') (selection must be unambiguous)''))
             else validate_entries reg (pid # seen) (t # targets) procs)))"

definition validate_catalogue :: "check_params_table \<Rightarrow> pyval \<Rightarrow> exn + pyval list" where
  "validate_catalogue reg data =
     (case dict_get (as_dict data) ''procedures'' of
        Some (PList procs) \<Rightarrow>
          if py_eq (the_default PNone (dict_get (as_dict data) ''schema'')) (PInt 1)
          then bind_exn (validate_entries reg [] [] procs) (\<lambda>_. Inr procs)
          else Inl (ValueError ''catalogue: expected {schema: 1, procedures: [...]}'')
      | _ \<Rightarrow> Inl (ValueError ''catalogue: expected {schema: 1, procedures: [...]}''))"

text \<open>The hook that refuses an object with the same key twice.\<close>

fun no_duplicate_keys :: "pydict \<Rightarrow> pydict \<Rightarrow> exn + pydict" where
  "no_duplicate_keys out [] = Inr out"
| "no_duplicate_keys out ((k, v) # ps) =
     (if dict_get out k \<noteq> None then Inl (ValueError (''duplicate key '' @ repr_str k @ '' in procedures.json''))
      else no_duplicate_keys (dict_set k v out) ps)"

type_synonym catalogue = "pyval list \<times> string option"

text \<open>Reading and parsing the file is an argument (the value, or what was raised), and so is how an exception is shown. The
  answer is kept: the file is read once.\<close>

definition load_catalogue :: "check_params_table \<Rightarrow> (exn \<Rightarrow> string) \<Rightarrow> exn + pyval \<Rightarrow> catalogue option \<Rightarrow> catalogue" where
  "load_catalogue reg show_exn source cache =
     (case cache of Some c \<Rightarrow> c
      | None \<Rightarrow> (case bind_exn source (validate_catalogue reg) of
                  Inr procs \<Rightarrow> (procs, None) | Inl e \<Rightarrow> ([], Some (''procedure catalogue rejected: '' @ show_exn e))))"

end
