(* ===== verification/Resolve.thy ===== *)
theory Resolve
  imports Knowledge EvidenceModel
begin

text \<open>
  The resolution engine, \<open>resolution/engine.py\<close>: it selects the procedure for a diagnosis, checks every gate, fills the
  commands and either offers the fix or says why none is shown. The procedures are JSON values as in \<open>Knowledge\<close>. The
  runner of the read-only checks (its state and what a check answers) and the SHA-256 function are arguments. The ids of
  steps and checks are compared as JSON values.
\<close>

section \<open>Data\<close>

datatype stuck = Unknown string | Raised exn

definition lift_exn :: "exn + 'a \<Rightarrow> stuck + 'a" where
  "lift_exn r = (case r of Inl e \<Rightarrow> Inl (Raised e) | Inr x \<Rightarrow> Inr x)"

definition bind_sum :: "'e + 'a \<Rightarrow> ('a \<Rightarrow> 'e + 'b) \<Rightarrow> 'e + 'b" where
  "bind_sum r f = (case r of Inl e \<Rightarrow> Inl e | Inr x \<Rightarrow> f x)"

fun map_sum_list :: "('a \<Rightarrow> 'e + 'b) \<Rightarrow> 'a list \<Rightarrow> 'e + 'b list" where
  "map_sum_list f [] = Inr []"
| "map_sum_list f (x # xs) = bind_sum (f x) (\<lambda>y. bind_sum (map_sum_list f xs) (\<lambda>ys. Inr (y # ys)))"

type_synonym checks = "(pyval \<times> check_result) list"

record prerequisite =
  pq_text :: string
  pq_state :: string

record fix_step =
  fs_id :: pyval
  fs_text :: string
  fs_argv :: "string list"
  fs_risk :: pyval
  fs_changes :: "pyval list"
  fs_expected :: string
  fs_run_on :: pyval

record confirm_command =
  cf_text :: string
  cf_argv :: "string list"
  cf_expect :: string

record rollback_entry =
  rb_text :: string
  rb_argv :: "string list option"

record criterion =
  cr_text :: string
  cr_check :: pyval
  cr_args :: pydict
  cr_when :: pyval

record resolution =
  rz_diagnosis_id :: string
  rz_status :: string
  rz_procedure_id :: pyval
  rz_title :: pyval
  rz_reasons :: "string list"
  rz_checks :: "(string \<times> check_result) list"
  rz_prerequisites :: "prerequisite list"
  rz_steps :: "fix_step list"
  rz_what_changes :: "string list"
  rz_rollback :: "rollback_entry list"
  rz_risk :: pyval
  rz_verify :: "criterion list"
  rz_tier :: pyval
  rz_definitive :: bool
  rz_verification_label :: string
  rz_applies_to :: string
  rz_limitations :: pyval
  rz_reference :: pyval
  rz_impact_note :: pyval
  rz_replay :: bool
  rz_confirm_first :: "confirm_command list"
  rz_baseline :: "pydict option"

definition OFFERED :: string where "OFFERED = ''OFFERED''"
definition WITHHELD :: string where "WITHHELD = ''WITHHELD''"
definition NONE :: string where "NONE = ''NONE''"

definition new_resolution :: "string \<Rightarrow> string \<Rightarrow> resolution" where
  "new_resolution did status =
     \<lparr>rz_diagnosis_id = did, rz_status = status, rz_procedure_id = PNone, rz_title = PStr [], rz_reasons = [], rz_checks = [],
      rz_prerequisites = [], rz_steps = [], rz_what_changes = [], rz_rollback = [], rz_risk = PStr ''READ_ONLY'', rz_verify = [],
      rz_tier = PStr [], rz_definitive = False, rz_verification_label = [], rz_applies_to = [], rz_limitations = PStr [],
      rz_reference = PNone, rz_impact_note = PStr [], rz_replay = False, rz_confirm_first = [], rz_baseline = None\<rparr>"

definition version_text_rx :: rx where
  "version_text_rx = seqs [star (Cls is_space), Grp 1 (plus (Cls is_digit09)), lit ''.'', Grp 2 (plus (Cls is_digit09)),
     opt (seqs [lit ''.'', Grp 3 (plus (Cls is_digit09))]), opt (seqs [lit ''-'', plus (Cls (alnum_or ''._+~''))]), star (Cls is_space)]"

lemmas [rx_defs] = version_text_rx_def

definition full_match :: "rx \<Rightarrow> string \<Rightarrow> rx_state option" where
  "full_match r s = find (\<lambda>t. rest t = []) (rx_m r ([], s, []))"

text \<open>\<open>_version\<close>: the numbers of a version, None for a text that is not one.\<close>

definition version_of :: "pyval \<Rightarrow> nat list option" where
  "version_of v =
     (if \<not> truthy v then None
      else map_option (\<lambda>t. map (\<lambda>g. the_default 0 (read_nat g)) (List.map_filter (\<lambda>i. group t i) [1, 2, 3]))
             (full_match version_text_rx (py_str v)))"

definition opt_str :: "string option \<Rightarrow> pyval" where
  "opt_str s = (case s of None \<Rightarrow> PNone | Some x \<Rightarrow> PStr x)"

section \<open>Values and predicates\<close>

record scope =
  sc_bindings :: pydict
  sc_checks :: checks
  sc_item :: "pydict option"
  sc_item_checks :: checks

definition missing_result :: "pyval \<Rightarrow> check_result option \<Rightarrow> string" where
  "missing_result r c = (case c of Some x \<Rightarrow> if cr_display x \<noteq> [] then cr_display x else py_str r @ '' could not be checked''
                         | None \<Rightarrow> py_str r @ '' could not be checked'')"

definition result_field :: "scope \<Rightarrow> pydict \<Rightarrow> stuck + pyval" where
  "result_field sc d =
     bind_sum (lift_exn (get_item (PDict d) ''ref'')) (\<lambda>r.
     bind_sum (lift_exn (val_get r (sc_item_checks sc))) (\<lambda>mine.
     bind_sum (lift_exn (val_get r (sc_checks sc))) (\<lambda>shared.
     case (if mine \<noteq> None then mine else shared) of
       None \<Rightarrow> Inl (Unknown (missing_result r None))
     | Some x \<Rightarrow>
         if cr_status x \<noteq> OK then Inl (Unknown (missing_result r (Some x)))
         else bind_sum (lift_exn (get_item (PDict d) ''field'')) (\<lambda>f.
              bind_sum (lift_exn (lookup_key f (cr_fields x))) (\<lambda>v.
              case v of None \<Rightarrow> Inl (Unknown (py_str r @ '' did not report '' @ py_str f)) | Some y \<Rightarrow> Inr y)))))"

definition value_of :: "scope \<Rightarrow> pyval \<Rightarrow> stuck + pyval" where
  "value_of sc v =
     (case v of
        PDict d \<Rightarrow>
          if has ''bind'' v
          then bind_sum (lift_exn (get_item v ''bind'')) (\<lambda>b. bind_sum (lift_exn (lookup_key b (sc_bindings sc))) (\<lambda>x.
               case x of None \<Rightarrow> Inl (Raised KeyError) | Some y \<Rightarrow> Inr y))
          else if has ''item'' v
          then (case sc_item sc of
                  None \<Rightarrow> Inl (Unknown ''missing item value'')
                | Some it \<Rightarrow> bind_sum (lift_exn (get_item v ''item'')) (\<lambda>f. bind_sum (lift_exn (lookup_key f it)) (\<lambda>x.
                    case x of None \<Rightarrow> Inl (Unknown ''missing item value'') | Some y \<Rightarrow> Inr y)))
          else result_field sc d
      | _ \<Rightarrow> Inr v)"

definition not_comparable :: "exn + bool \<Rightarrow> stuck + bool" where
  "not_comparable r =
     (case r of Inr b \<Rightarrow> Inr b | Inl TypeError \<Rightarrow> Inl (Unknown ''values are not comparable'') | Inl e \<Rightarrow> Inl (Raised e))"

text \<open>\<open>abs(a) < b\<close>\<close>

definition abs_below :: "pyval \<Rightarrow> pyval \<Rightarrow> exn + bool" where
  "abs_below a b = (case (num_of a, num_of b) of (Some p, Some q) \<Rightarrow> Inr (\<bar>p\<bar> < q) | _ \<Rightarrow> Inl TypeError)"

definition compare :: "pyval \<Rightarrow> pyval \<Rightarrow> pyval \<Rightarrow> stuck + bool" where
  "compare op a b =
     (let o1 = py_str op; coll = (if truthy b then b else PList [])
      in if o1 = ''eq'' then Inr (py_eq a b)
         else if o1 = ''ne'' then Inr (\<not> py_eq a b)
         else if o1 = ''in'' then not_comparable (py_in a coll)
         else if o1 = ''not_in'' then not_comparable (map_sum id Not (py_in a coll))
         else if o1 = ''is_true'' then Inr (a = PBool True)
         else if o1 = ''is_false'' then Inr (a = PBool False)
         else if o1 = ''is_empty'' then Inr (list_ex (py_eq a) [PNone, PStr [], PList [], PDict []])
         else if a = PNone \<or> b = PNone then Inl (Unknown ''value missing'')
         else if not_finite a \<or> not_finite b then Inl (Unknown ''value is not a finite number'')
         else if o1 = ''lt'' then not_comparable (py_ord True a b)
         else if o1 = ''le'' then not_comparable (py_ord False a b)
         else if o1 = ''gt'' then not_comparable (py_ord True b a)
         else if o1 = ''ge'' then not_comparable (py_ord False b a)
         else if o1 = ''abs_lt'' then not_comparable (abs_below a b)
         else if o1 = ''abs_ge'' then not_comparable (map_sum id Not (abs_below a b))
         else Inl (Unknown (''unknown operator '' @ o1)))"

text \<open>\<open>all(...)\<close> and the loop of \<open>any\<close>, over the outcomes in order.\<close>

fun all_of :: "(stuck + bool) list \<Rightarrow> stuck + bool" where
  "all_of [] = Inr True"
| "all_of (Inr b # rs) = (if b then all_of rs else Inr False)"
| "all_of (Inl e # rs) = Inl e"

fun any_of :: "string option \<Rightarrow> (stuck + bool) list \<Rightarrow> stuck + bool" where
  "any_of unknown [] = (case unknown of Some why \<Rightarrow> Inl (Unknown why) | None \<Rightarrow> Inr False)"
| "any_of unknown (Inr b # rs) = (if b then Inr True else any_of unknown rs)"
| "any_of unknown (Inl (Unknown why) # rs) = any_of (Some why) rs"
| "any_of unknown (Inl (Raised e) # rs) = Inl (Raised e)"

text \<open>A predicate that is no object, or whose parts are no list, cannot be subscripted.\<close>

function pred :: "scope \<Rightarrow> pyval \<Rightarrow> stuck + bool" where
  "pred sc p =
     (case p of
        PDict d \<Rightarrow>
          if has ''all'' p
          then (case dict_get d ''all'' of
                  Some (PList qs) \<Rightarrow> all_of (map (pred sc) qs)
                | Some q \<Rightarrow> (case iter q of Inr [] \<Rightarrow> Inr True | _ \<Rightarrow> Inl (Raised TypeError))
                | None \<Rightarrow> Inl (Raised KeyError))
          else if has ''any'' p
          then (case dict_get d ''any'' of
                  Some (PList qs) \<Rightarrow> any_of None (map (pred sc) qs)
                | Some q \<Rightarrow> (case iter q of Inr [] \<Rightarrow> Inr False | _ \<Rightarrow> Inl (Raised TypeError))
                | None \<Rightarrow> Inl (Raised KeyError))
          else if has ''not'' p
          then (case dict_get d ''not'' of Some q \<Rightarrow> map_sum id Not (pred sc q) | None \<Rightarrow> Inl (Raised KeyError))
          else bind_sum (lift_exn (get_item p ''op'')) (\<lambda>op.
               bind_sum (bind_sum (lift_exn (get_item p ''left'')) (value_of sc)) (\<lambda>a.
               bind_sum (value_of sc (the_default PNone (dict_get d ''right''))) (\<lambda>b. compare op a b)))
      | _ \<Rightarrow> Inl (Raised TypeError))"
  by pat_completeness auto
termination
  by (relation "measure (\<lambda>(sc, p). size p)") (auto dest!: dict_get_size size_member)

declare pred.simps [simp del]

section \<open>Texts and commands\<close>

definition text_piece :: "scope \<Rightarrow> piece \<Rightarrow> stuck + string" where
  "text_piece sc p =
     (case p of Plain c \<Rightarrow> Inr [c]
      | Match m g \<Rightarrow> (case value_of sc (match_ref g) of
                       Inr v \<Rightarrow> Inr (sanitize_val v 160)
                     | Inl (Raised e) \<Rightarrow> if e = KeyError then Inr ''?'' else Inl (Raised e)
                     | Inl (Unknown w) \<Rightarrow> Inr ''?''))"

definition strict_piece :: "scope \<Rightarrow> piece \<Rightarrow> stuck + string" where
  "strict_piece sc p =
     (case p of Plain c \<Rightarrow> Inr [c]
      | Match m g \<Rightarrow> bind_sum (value_of sc (match_ref g)) (\<lambda>v.
                       let t = sanitize_val v 4096 in if t = [] then Inl (Unknown (''no value for '' @ m)) else Inr t))"

definition fill_text :: "(piece \<Rightarrow> stuck + string) \<Rightarrow> pyval \<Rightarrow> stuck + string" where
  "fill_text f t = (case t of PStr s \<Rightarrow> bind_sum (map_sum_list f (pieces template_rx s)) (\<lambda>xs. Inr (concat xs)) | _ \<Rightarrow> Inl (Raised TypeError))"

text \<open>\<open>_text\<close> writes a question mark for what is not known, so nothing unknown leaves it.\<close>

definition to_exn :: "stuck + 'a \<Rightarrow> exn + 'a" where
  "to_exn r = (case r of Inl (Raised e) \<Rightarrow> Inl e | Inl (Unknown w) \<Rightarrow> Inl (OtherError ''_Unknown'') | Inr x \<Rightarrow> Inr x)"

definition text_of :: "scope \<Rightarrow> pyval \<Rightarrow> exn + string" where "text_of sc t = to_exn (fill_text (text_piece sc) t)"
definition text_strict :: "scope \<Rightarrow> pyval \<Rightarrow> stuck + string" where "text_strict sc = fill_text (strict_piece sc)"

definition arg_of :: "scope \<Rightarrow> pyval \<Rightarrow> stuck + string" where
  "arg_of sc a =
     (case a of
        PStr s \<Rightarrow> Inr s
      | _ \<Rightarrow> bind_sum (value_of sc a) (\<lambda>raw. bind_sum (lift_exn (get_item a ''type'')) (\<lambda>t.
             bind_sum (lift_exn (bind_exn (known_type t) (\<lambda>k. case t of PStr ty \<Rightarrow> validate ty raw | _ \<Rightarrow> Inr None))) (\<lambda>v.
             case v of Some s \<Rightarrow> Inr s
             | None \<Rightarrow> Inl (Unknown (''a value needed for the command did not validate as '' @ py_str t))))))"

definition argv_of :: "scope \<Rightarrow> pyval \<Rightarrow> stuck + string list" where
  "argv_of sc argv = bind_sum (lift_exn (iter argv)) (map_sum_list (arg_of sc))"

definition concrete :: "scope \<Rightarrow> pyval \<Rightarrow> stuck + pyval" where
  "concrete sc v =
     (if is_dict v \<and> dict_get (as_dict v) ''ref'' = Some (PStr ''this'') then Inr v
      else if is_dict v \<and> (has ''bind'' v \<or> has ''item'' v \<or> has ''ref'' v) then value_of sc v
      else Inr v)"

function concrete_pred :: "scope \<Rightarrow> pyval \<Rightarrow> stuck + pyval" where
  "concrete_pred sc p =
     (case p of
        PDict d \<Rightarrow>
          if has ''all'' p \<or> has ''any'' p
          then let k = (if has ''all'' p then ''all'' else ''any'')
               in (case dict_get d k of
                     Some (PList qs) \<Rightarrow> bind_sum (map_sum_list (\<lambda>r. r) (map (concrete_pred sc) qs)) (\<lambda>rs. Inr (PDict [(k, PList rs)]))
                   | Some q \<Rightarrow> (case iter q of Inr [] \<Rightarrow> Inr (PDict [(k, PList [])]) | _ \<Rightarrow> Inl (Raised TypeError))
                   | None \<Rightarrow> Inl (Raised KeyError))
          else if has ''not'' p
          then (case dict_get d ''not'' of
                  Some q \<Rightarrow> bind_sum (concrete_pred sc q) (\<lambda>r. Inr (PDict [(''not'', r)])) | None \<Rightarrow> Inl (Raised KeyError))
          else bind_sum (bind_sum (lift_exn (get_item p ''left'')) (concrete sc)) (\<lambda>l.
               bind_sum (lift_exn (get_item p ''op'')) (\<lambda>op.
               bind_sum (case dict_get d ''right'' of None \<Rightarrow> Inr [] | Some r \<Rightarrow> bind_sum (concrete sc r) (\<lambda>x. Inr [(''right'', x)])) (\<lambda>r.
               Inr (PDict ([(''left'', l), (''op'', op)] @ r)))))
      | _ \<Rightarrow> Inl (Raised TypeError))"
  by pat_completeness auto
termination
  by (relation "measure (\<lambda>(sc, p). size p)") (auto dest!: dict_get_size size_member)

declare concrete_pred.simps [simp del]

section \<open>The values a diagnosis names\<close>

definition is_text :: "pyval \<Rightarrow> bool" where
  "is_text v = (case v of PStr s \<Rightarrow> True | _ \<Rightarrow> False)"

text \<open>\<open>T.validate(t, v)\<close>, where the type is a value of the catalogue.\<close>

definition validate_as :: "pyval \<Rightarrow> pyval \<Rightarrow> exn + string option" where
  "validate_as t v = bind_exn (known_type t) (\<lambda>_. case t of PStr ty \<Rightarrow> validate ty v | _ \<Rightarrow> Inr None)"

definition item_value :: "pyval \<Rightarrow> pyval \<Rightarrow> exn + string option" where
  "item_value t v = (if is_str ''any_text'' t \<and> is_text v then Inr (Some (sanitize_val v 64)) else validate_as t v)"

text \<open>The validated fields of an item, or the name of the first that has no usable value.\<close>

fun item_fields :: "pydict \<Rightarrow> pydict \<Rightarrow> pydict \<Rightarrow> exn + (string + pydict)" where
  "item_fields it good [] = Inr (Inr good)"
| "item_fields it good ((f, t) # spec) =
     bind_exn (item_value t (the_default PNone (dict_get it f))) (\<lambda>v.
     case v of Some (c # s) \<Rightarrow> item_fields it (dict_set f (PStr (c # s)) good) spec | _ \<Rightarrow> Inr (Inl f))"

definition skipped :: "pydict \<Rightarrow> pydict \<Rightarrow> string \<Rightarrow> string" where
  "skipped spec it bad =
     (let place = sanitize_val (the_default (PStr ''a reported item'') (dict_get it ''path'')) 120
      in case the_default PNone (dict_get it ''withhold_reason'') of
           PStr why \<Rightarrow> ''Skipped '' @ place @ '': '' @ sanitize_text why 200 @ ''.''
         | _ \<Rightarrow>
             (let label = (if bad = ''got'' then ''current'' else if bad = ''expected'' then ''expected''
                           else if bad = [] then ''reported'' else bad);
                  shown = (if bad = [] then sanitize_text [] 60 else sanitize_val (the_default (PStr []) (dict_get it bad)) 60);
                  why = (if dict_get spec bad = Some (PStr ''ipa_account'') then ''is not one of the IPA service accounts''
                         else ''is not a single value that can be used safely'')
              in ''Skipped '' @ place @ '': the '' @ label @ '' value'' @ (if shown \<noteq> [] then '' ('' @ shown @ '')'' else []) @
                 '' '' @ why @ ''.''))"

fun list_items :: "pydict \<Rightarrow> pyval list \<Rightarrow> exn + pydict list \<times> string list" where
  "list_items spec [] = Inr ([], [])"
| "list_items spec (PDict it # raws) =
     bind_exn (item_fields it [] spec) (\<lambda>r. bind_exn (list_items spec raws) (\<lambda>(items, why).
       case r of Inr good \<Rightarrow> Inr (good # items, why) | Inl bad \<Rightarrow> Inr (items, skipped spec it bad # why)))"
| "list_items spec (v # raws) = list_items spec raws"

definition list_values :: "pyval \<Rightarrow> pyval \<Rightarrow> exn + pydict list \<times> string list" where
  "list_values spec raw =
     (case raw of
        PList raws \<Rightarrow>
          if list_ex is_dict raws
          then bind_exn (get_item spec ''item'') (\<lambda>i. bind_exn (items_of i) (\<lambda>fs. list_items fs raws))
          else Inr ([], [])
      | _ \<Rightarrow> Inr ([], []))"

text \<open>The bindings one after another; a scalar value that does not validate ends it with None. The last component holds
  the reasons appended meanwhile.\<close>

fun bind_each :: "pydict \<Rightarrow> pydict \<Rightarrow> pydict \<Rightarrow> exn + pydict option \<times> string list" where
  "bind_each raws out [] = Inr (Some out, [])"
| "bind_each raws out ((name, spec) # specs) =
     (let raw = the_default PNone (dict_get raws name)
      in bind_exn (get_item spec ''type'') (\<lambda>t.
         if is_str ''list'' t
         then bind_exn (list_values spec raw) (\<lambda>(items, why).
              bind_exn (bind_each raws (dict_set name (PList (map PDict items)) out) specs) (\<lambda>(r, why'). Inr (r, why @ why')))
         else bind_exn (validate_as t raw) (\<lambda>v.
              case v of None \<Rightarrow> Inr (None, []) | Some s \<Rightarrow> bind_each raws (dict_set name (PStr s) out) specs)))"

definition list_names :: "pydict \<Rightarrow> string list" where
  "list_names specs = map fst (filter (\<lambda>(n, sp). dict_get (as_dict sp) ''type'' = Some (PStr ''list'')) specs)"

definition bindings_of :: "pyval \<Rightarrow> pydict \<Rightarrow> exn + pydict option \<times> string list" where
  "bindings_of proc raws =
     with_item proc ''bindings'' (\<lambda>b. bind_exn (items_of b) (\<lambda>specs.
     bind_exn (bind_each raws [] specs) (\<lambda>(r, why).
     case r of
       None \<Rightarrow> Inr (None, why)
     | Some out \<Rightarrow>
         let names = list_names specs
         in Inr (if names \<noteq> [] \<and> \<not> list_ex (\<lambda>n. truthy (the_default PNone (dict_get out n))) names then None else Some out, why))))"

section \<open>Runs of checks\<close>

text \<open>What the engine is given: the runner (a check by its id, parameters, the runner's state), whether its answers are
  recorded, and SHA-256 in hexadecimal.\<close>

record 'r engine =
  en_run :: "pyval \<Rightarrow> pydict \<Rightarrow> 'r \<Rightarrow> (exn + check_result) \<times> 'r"
  en_replay :: bool
  en_sha256 :: "string \<Rightarrow> string"

text \<open>A stage goes on, returns the resolution as it is, or raises.\<close>

datatype 'a flow = Go 'a | Done resolution | Boom exn

definition bind_flow :: "'a flow \<Rightarrow> ('a \<Rightarrow> 'b flow) \<Rightarrow> 'b flow" where
  "bind_flow m f = (case m of Go x \<Rightarrow> f x | Done r \<Rightarrow> Done r | Boom e \<Rightarrow> Boom e)"

definition try_exn :: "exn + 'a \<Rightarrow> ('a \<Rightarrow> 'b flow) \<Rightarrow> 'b flow" where
  "try_exn r f = (case r of Inl e \<Rightarrow> Boom e | Inr x \<Rightarrow> f x)"

text \<open>\<open>except _Unknown as e\<close>\<close>

definition on_unknown :: "stuck + 'a \<Rightarrow> (string \<Rightarrow> 'b flow) \<Rightarrow> ('a \<Rightarrow> 'b flow) \<Rightarrow> 'b flow" where
  "on_unknown r h f = (case r of Inl (Unknown why) \<Rightarrow> h why | Inl (Raised e) \<Rightarrow> Boom e | Inr x \<Rightarrow> f x)"

definition because :: "string \<Rightarrow> resolution \<Rightarrow> resolution" where
  "because why r = r\<lparr>rz_reasons := rz_reasons r @ [why]\<rparr>"

text \<open>The reported items of each list binding, with the results of the checks made for each.\<close>

type_synonym targets = "(string \<times> (pydict \<times> checks) list) list"

definition base_scope :: "pydict \<Rightarrow> checks \<Rightarrow> scope" where
  "base_scope bs globals = \<lparr>sc_bindings = bs, sc_checks = globals, sc_item = None, sc_item_checks = []\<rparr>"

definition item_scope :: "pydict \<Rightarrow> checks \<Rightarrow> pydict \<times> checks \<Rightarrow> scope" where
  "item_scope bs globals t = \<lparr>sc_bindings = bs, sc_checks = globals, sc_item = Some (fst t), sc_item_checks = snd t\<rparr>"

definition targets_of :: "pydict \<Rightarrow> pydict \<Rightarrow> targets" where
  "targets_of specs bs =
     map (\<lambda>n. (n, case dict_get bs n of Some (PList xs) \<Rightarrow> map (\<lambda>x. (as_dict x, [])) xs | _ \<Rightarrow> [])) (list_names specs)"

definition named_targets :: "targets \<Rightarrow> pyval \<Rightarrow> exn + (pydict \<times> checks) list" where
  "named_targets tg name = bind_exn (lookup_key name tg) (\<lambda>t. case t of None \<Rightarrow> Inl KeyError | Some xs \<Rightarrow> Inr xs)"

definition params_of :: "scope \<Rightarrow> pyval \<Rightarrow> stuck + pydict" where
  "params_of sc iv =
     bind_sum (lift_exn (with_item iv ''params'' items_of)) (map_sum_list (\<lambda>(k, v). bind_sum (value_of sc v) (\<lambda>x. Inr (k, x))))"

text \<open>One check for one scope: the results known there are extended, and what was checked is recorded.\<close>

definition inv_once :: "'r engine \<Rightarrow> pyval \<Rightarrow> scope \<Rightarrow> checks \<Rightarrow> resolution \<Rightarrow> 'r \<Rightarrow> (checks \<times> resolution) flow \<times> 'r" where
  "inv_once en iv sc own r rn =
     (case params_of sc iv of
        Inl (Raised e) \<Rightarrow> (Boom e, rn)
      | Inl (Unknown why) \<Rightarrow>
          (try_exn (bind_exn (get_item iv ''label'') (text_of sc))
             (\<lambda>t. Done (because (''Could not check '' @ t @ '': '' @ why) r)), rn)
      | Inr params \<Rightarrow>
          (case get_item iv ''check'' of
             Inl e \<Rightarrow> (Boom e, rn)
           | Inr chk \<Rightarrow>
               (case en_run en chk params rn of (out, rn') \<Rightarrow>
                  (try_exn out (\<lambda>x.
                   try_exn (bind_exn (get_item iv ''id'') (\<lambda>i. val_set i x own)) (\<lambda>own'.
                   let sc' = (if sc_item sc = None then sc\<lparr>sc_checks := own'\<rparr> else sc\<lparr>sc_item_checks := own'\<rparr>)
                   in try_exn (bind_exn (get_item iv ''label'') (text_of sc'))
                        (\<lambda>t. Go (own', r\<lparr>rz_checks := rz_checks r @ [(t, x)]\<rparr>)))), rn'))))"

fun inv_items ::
  "'r engine \<Rightarrow> pydict \<Rightarrow> checks \<Rightarrow> pyval \<Rightarrow> (pydict \<times> checks) list \<Rightarrow> resolution \<Rightarrow> 'r \<Rightarrow> ((pydict \<times> checks) list \<times> resolution) flow \<times> 'r" where
  "inv_items en bs globals iv [] r rn = (Go ([], r), rn)"
| "inv_items en bs globals iv ((it, own) # ts) r rn =
     (case inv_once en iv (item_scope bs globals (it, own)) own r rn of
        (Go (own', r'), rn') \<Rightarrow>
          (case inv_items en bs globals iv ts r' rn' of (fl, rn'') \<Rightarrow>
             (bind_flow fl (\<lambda>(ts', r''). Go ((it, own') # ts', r'')), rn''))
      | (Done r', rn') \<Rightarrow> (Done r', rn')
      | (Boom e, rn') \<Rightarrow> (Boom e, rn'))"

fun inv_all ::
  "'r engine \<Rightarrow> pydict \<Rightarrow> pyval list \<Rightarrow> checks \<Rightarrow> targets \<Rightarrow> resolution \<Rightarrow> 'r \<Rightarrow> (checks \<times> targets \<times> resolution) flow \<times> 'r" where
  "inv_all en bs [] globals tg r rn = (Go (globals, tg, r), rn)"
| "inv_all en bs (iv # ivs) globals tg r rn =
     (case loop_of iv of
        Inl e \<Rightarrow> (Boom e, rn)
      | Inr name \<Rightarrow>
          if truthy name
          then (case named_targets tg name of
                  Inl e \<Rightarrow> (Boom e, rn)
                | Inr ts \<Rightarrow>
                    (case inv_items en bs globals iv ts r rn of
                       (Go (ts', r'), rn') \<Rightarrow> inv_all en bs ivs globals (dict_set (the_default [] (as_str name)) ts' tg) r' rn'
                     | (Done r', rn') \<Rightarrow> (Done r', rn')
                     | (Boom e, rn') \<Rightarrow> (Boom e, rn')))
          else (case inv_once en iv (base_scope bs globals) globals r rn of
                  (Go (globals', r'), rn') \<Rightarrow> inv_all en bs ivs globals' tg r' rn'
                | (Done r', rn') \<Rightarrow> (Done r', rn')
                | (Boom e, rn') \<Rightarrow> (Boom e, rn')))"

section \<open>Targets that disagree\<close>

definition target_name :: "checks \<Rightarrow> pyval" where
  "target_name own =
     (case find (\<lambda>(i, c). cr_status c = OK \<and> truthy (the_default PNone (dict_get (cr_fields c) ''target''))) own of
        None \<Rightarrow> PNone | Some (i, c) \<Rightarrow> the_default PNone (dict_get (cr_fields c) ''target''))"

definition target_facts :: "pydict \<Rightarrow> string" where
  "target_facts it = json_dumps (PDict (filter (\<lambda>(k, v). k \<noteq> ''path'') it))"

fun by_target :: "(string \<times> string list) list \<Rightarrow> (pydict \<times> checks) list \<Rightarrow> (string \<times> string list) list" where
  "by_target seen [] = seen"
| "by_target seen ((it, own) # ts) =
     (let t = target_name own
      in by_target (if truthy t then dict_set (py_str t) (List.insert (target_facts it) (the_default [] (dict_get seen (py_str t)))) seen
                    else seen) ts)"

text \<open>The first target of a list that two items want different values for.\<close>

definition clash_of :: "(pydict \<times> checks) list \<Rightarrow> string option" where
  "clash_of ts = map_option fst (find (\<lambda>(t, vals). 1 < length vals) (by_target [] ts))"

definition clash_text :: "string \<Rightarrow> string" where
  "clash_text t =
     ''Two findings expect different values for the same file ('' @ sanitize_text t 160 @ ''), so ipa-diagnose cannot tell which one is right.''"

fun no_clash :: "targets \<Rightarrow> resolution \<Rightarrow> unit flow" where
  "no_clash [] r = Go ()"
| "no_clash ((n, ts) # tg) r = (case clash_of ts of Some t \<Rightarrow> Done (because (clash_text t) r) | None \<Rightarrow> no_clash tg r)"

section \<open>Reasons to withhold, and prerequisites\<close>

definition hit_item :: "pydict \<Rightarrow> checks \<Rightarrow> pyval \<Rightarrow> pydict \<times> checks \<Rightarrow> exn + string option" where
  "hit_item bs globals w t =
     (let sc = item_scope bs globals t
      in case bind_sum (lift_exn (get_item w ''when'')) (pred sc) of
           Inl (Raised e) \<Rightarrow> Inl e
         | Inl (Unknown why) \<Rightarrow>
             Inr (Some (''Could not establish the current state of '' @
                    sanitize_val (the_default (PStr ''a target'') (dict_get (fst t) ''path'')) 120 @ '': '' @ why))
         | Inr False \<Rightarrow> Inr None
         | Inr True \<Rightarrow> bind_exn (get_item w ''reason'') (\<lambda>x. bind_exn (text_of sc x) (\<lambda>s. Inr (Some s))))"

fun keep_items :: "pydict \<Rightarrow> checks \<Rightarrow> pyval \<Rightarrow> (pydict \<times> checks) list \<Rightarrow> exn + (pydict \<times> checks) list \<times> string list" where
  "keep_items bs globals w [] = Inr ([], [])"
| "keep_items bs globals w (t # ts) =
     bind_exn (hit_item bs globals w t) (\<lambda>h. bind_exn (keep_items bs globals w ts) (\<lambda>(kept, why).
       case h of None \<Rightarrow> Inr (t # kept, why) | Some x \<Rightarrow> Inr (kept, x # why)))"

fun withhold_all :: "pydict \<Rightarrow> checks \<Rightarrow> pyval list \<Rightarrow> targets \<Rightarrow> resolution \<Rightarrow> (targets \<times> resolution) flow" where
  "withhold_all bs globals [] tg r = Go (tg, r)"
| "withhold_all bs globals (w # ws) tg r =
     try_exn (loop_of w) (\<lambda>name.
     if truthy name
     then try_exn (named_targets tg name) (\<lambda>ts. try_exn (keep_items bs globals w ts) (\<lambda>(kept, why).
          withhold_all bs globals ws (dict_set (the_default [] (as_str name)) kept tg) (r\<lparr>rz_reasons := rz_reasons r @ why\<rparr>)))
     else on_unknown (bind_sum (lift_exn (get_item w ''when'')) (pred (base_scope bs globals)))
            (\<lambda>why. Done (because (''Could not establish the current state: '' @ why) r))
            (\<lambda>hit. if hit then try_exn (bind_exn (get_item w ''reason'') (text_of (base_scope bs globals))) (\<lambda>t. Done (because t r))
                   else withhold_all bs globals ws tg r))"

definition nothing_left :: "targets \<Rightarrow> bool" where
  "nothing_left tg = (tg \<noteq> [] \<and> list_all (\<lambda>(n, ts). ts = []) tg)"

definition set_lists :: "targets \<Rightarrow> pydict \<Rightarrow> pydict" where
  "set_lists tg bs = foldl (\<lambda>d (n, ts). dict_set n (PList (map (PDict \<circ> fst) ts)) d) bs tg"

fun prerequisites_of :: "scope \<Rightarrow> pyval list \<Rightarrow> exn + prerequisite list" where
  "prerequisites_of sc [] = Inr []"
| "prerequisites_of sc (pr # prs) =
     bind_exn (bind_exn (get_item pr ''text'') (text_of sc)) (\<lambda>t.
     bind_exn (get_or pr ''kind'' PNone) (\<lambda>kind.
     bind_exn
       (if is_str ''confirm_by_admin'' kind then Inr \<lparr>pq_text = t, pq_state = ''confirm''\<rparr>
        else case bind_sum (lift_exn (get_item pr ''when'')) (pred sc) of
               Inl (Raised e) \<Rightarrow> Inl e
             | Inl (Unknown why) \<Rightarrow> Inr \<lparr>pq_text = t @ '' (could not check: '' @ why @ '')'', pq_state = ''unknown''\<rparr>
             | Inr ok \<Rightarrow> Inr \<lparr>pq_text = t, pq_state = (if ok then ''met'' else ''unmet'')\<rparr>) (\<lambda>p.
     bind_exn (prerequisites_of sc prs) (\<lambda>ps. Inr (p # ps)))))"

definition all_met :: "prerequisite list \<Rightarrow> bool" where
  "all_met ps = list_all (\<lambda>p. pq_state p \<in> {''met'', ''confirm''}) ps"

section \<open>The steps of the fix\<close>

definition scopes_of :: "pydict \<Rightarrow> checks \<Rightarrow> targets \<Rightarrow> pyval \<Rightarrow> stuck + scope list" where
  "scopes_of bs globals tg entry =
     bind_sum (lift_exn (loop_of entry)) (\<lambda>name.
     if truthy name then bind_sum (lift_exn (named_targets tg name)) (\<lambda>ts. Inr (map (item_scope bs globals) ts))
     else Inr [base_scope bs globals])"

text \<open>One result for each entry and each of its scopes, in order; an entry gives none where its \<open>only_if\<close> is false.\<close>

definition applies_here :: "scope \<Rightarrow> pyval \<Rightarrow> stuck + bool" where
  "applies_here sc entry = (if has ''only_if'' entry then bind_sum (lift_exn (get_item entry ''only_if'')) (pred sc) else Inr True)"

definition when_applies :: "(scope \<Rightarrow> pyval \<Rightarrow> stuck + 'a) \<Rightarrow> scope \<Rightarrow> pyval \<Rightarrow> stuck + 'a list" where
  "when_applies f sc entry = bind_sum (applies_here sc entry) (\<lambda>ok. if ok then bind_sum (f sc entry) (\<lambda>x. Inr [x]) else Inr [])"

definition for_entry :: "(pyval \<Rightarrow> stuck + scope list) \<Rightarrow> (scope \<Rightarrow> pyval \<Rightarrow> stuck + 'a list) \<Rightarrow> pyval \<Rightarrow> stuck + 'a list" where
  "for_entry scopes f entry =
     bind_sum (scopes entry) (\<lambda>scs. bind_sum (map_sum_list (\<lambda>sc. f sc entry) scs) (\<lambda>xss. Inr (concat xss)))"

definition for_entries :: "(pyval \<Rightarrow> stuck + scope list) \<Rightarrow> (scope \<Rightarrow> pyval \<Rightarrow> stuck + 'a list) \<Rightarrow> exn + pyval \<Rightarrow> stuck + 'a list" where
  "for_entries scopes f v =
     bind_sum (lift_exn (bind_exn v iter)) (\<lambda>es. bind_sum (map_sum_list (for_entry scopes f) es) (\<lambda>xss. Inr (concat xss)))"

definition text_at :: "scope \<Rightarrow> pyval \<Rightarrow> string \<Rightarrow> stuck + string" where
  "text_at sc e k = lift_exn (bind_exn (get_item e k) (text_of sc))"

definition argv_at :: "scope \<Rightarrow> pyval \<Rightarrow> stuck + string list" where
  "argv_at sc e = bind_sum (lift_exn (get_item e ''command'')) (argv_of sc)"

definition confirm_of :: "scope \<Rightarrow> pyval \<Rightarrow> stuck + confirm_command" where
  "confirm_of sc c =
     bind_sum (text_at sc c ''text'') (\<lambda>t. bind_sum (argv_at sc c) (\<lambda>argv.
     bind_sum (bind_sum (lift_exn (get_item c ''expect'')) (text_strict sc)) (\<lambda>x.
     Inr \<lparr>cf_text = t, cf_argv = argv, cf_expect = x\<rparr>)))"

definition step_of :: "scope \<Rightarrow> pyval \<Rightarrow> stuck + fix_step" where
  "step_of sc s =
     bind_sum (lift_exn (get_item s ''id'')) (\<lambda>i. bind_sum (text_at sc s ''text'') (\<lambda>t. bind_sum (argv_at sc s) (\<lambda>argv.
     bind_sum (lift_exn (get_item s ''risk'')) (\<lambda>risk.
     bind_sum (lift_exn (bind_exn (get_item s ''changes'') iter)) (\<lambda>changes.
     bind_sum (text_at sc s ''expected'') (\<lambda>x. bind_sum (lift_exn (get_item s ''run_on'')) (\<lambda>on.
     Inr \<lparr>fs_id = i, fs_text = t, fs_argv = argv, fs_risk = risk, fs_changes = changes, fs_expected = x, fs_run_on = on\<rparr>)))))))"

definition rollback_of :: "scope \<Rightarrow> pyval \<Rightarrow> stuck + rollback_entry" where
  "rollback_of sc e =
     bind_sum (text_at sc e ''text'') (\<lambda>t.
     bind_sum (if has ''command'' e then bind_sum (argv_at sc e) (\<lambda>a. Inr (Some a)) else Inr None) (\<lambda>argv.
     Inr \<lparr>rb_text = t, rb_argv = argv\<rparr>))"

definition criterion_of :: "scope \<Rightarrow> pyval \<Rightarrow> stuck + criterion" where
  "criterion_of sc v =
     bind_sum (text_at sc v ''text'') (\<lambda>t. bind_sum (lift_exn (get_item v ''check'')) (\<lambda>chk.
     bind_sum (bind_sum (lift_exn (with_item v ''params'' items_of))
                 (map_sum_list (\<lambda>(k, x). bind_sum (concrete sc x) (\<lambda>y. Inr (k, y))))) (\<lambda>params.
     bind_sum (bind_sum (lift_exn (get_item v ''when'')) (concrete_pred sc)) (\<lambda>w.
     Inr \<lparr>cr_text = t, cr_check = chk, cr_args = params, cr_when = w\<rparr>))))"

text \<open>\<open>_dedupe\<close>\<close>

fun dedupe_by :: "('a \<Rightarrow> 'k) \<Rightarrow> ('k \<Rightarrow> 'k \<Rightarrow> bool) \<Rightarrow> 'k list \<Rightarrow> 'a list \<Rightarrow> 'a list" where
  "dedupe_by key same seen [] = []"
| "dedupe_by key same seen (x # xs) =
     (if list_ex (same (key x)) seen then dedupe_by key same seen xs else x # dedupe_by key same (key x # seen) xs)"

definition criterion_key :: "criterion \<Rightarrow> string" where
  "criterion_key c = json_dumps (PDict [(''check'', cr_check c), (''params'', PDict (cr_args c)), (''when'', cr_when c)])"

definition build_verify :: "pyval \<Rightarrow> (pyval \<Rightarrow> stuck + scope list) \<Rightarrow> stuck + criterion list" where
  "build_verify proc scopes =
     bind_sum (for_entries scopes (\<lambda>sc v. bind_sum (criterion_of sc v) (\<lambda>c. Inr [c])) (get_item proc ''verify''))
       (\<lambda>cs. Inr (dedupe_by criterion_key (=) [] cs))"

record fix_parts =
  fp_confirm :: "confirm_command list"
  fp_steps :: "fix_step list"
  fp_changes :: "string list"
  fp_rollback :: "rollback_entry list"
  fp_verify :: "criterion list"

definition parts_of :: "pyval \<Rightarrow> (pyval \<Rightarrow> stuck + scope list) \<Rightarrow> stuck + fix_parts" where
  "parts_of proc scopes =
     bind_sum (for_entries scopes (\<lambda>sc c. bind_sum (confirm_of sc c) (\<lambda>x. Inr [x])) (get_or proc ''confirm_first'' (PList []))) (\<lambda>confirm.
     bind_sum (for_entries scopes (when_applies step_of) (get_item proc ''steps'')) (\<lambda>steps.
     bind_sum (for_entries scopes (when_applies (\<lambda>sc e. text_at sc e ''text'')) (get_item proc ''what_changes'')) (\<lambda>changes.
     bind_sum (for_entries scopes (when_applies rollback_of) (get_item proc ''rollback'')) (\<lambda>rollback.
     bind_sum (build_verify proc scopes) (\<lambda>crits.
     Inr \<lparr>fp_confirm = dedupe_by cf_argv (=) [] confirm, fp_steps = steps, fp_changes = changes, fp_rollback = rollback,
          fp_verify = crits\<rparr>)))))"

text \<open>The same step on the same target (its last argument) with different arguments.\<close>

fun step_clash :: "((pyval \<times> string) \<times> string list) list \<Rightarrow> fix_step list \<Rightarrow> exn + string option" where
  "step_clash seen [] = Inr None"
| "step_clash seen (st # sts) =
     (if fs_argv st = [] then Inl IndexError
      else if \<not> hashable (fs_id st) then Inl TypeError
      else let t = last (fs_argv st)
           in case find (\<lambda>((i, u), a). py_eq i (fs_id st) \<and> u = t) seen of
                Some (k, a) \<Rightarrow> if a \<noteq> fs_argv st then Inr (Some t) else step_clash seen sts
              | None \<Rightarrow> step_clash (((fs_id st, t), fs_argv st) # seen) sts)"

definition same_step :: "pyval \<times> string list \<Rightarrow> pyval \<times> string list \<Rightarrow> bool" where
  "same_step a b = (py_eq (fst a) (fst b) \<and> snd a = snd b)"

definition rollback_key :: "rollback_entry \<Rightarrow> string + string list" where
  "rollback_key e = (case rb_argv e of Some (a # as) \<Rightarrow> Inr (a # as) | _ \<Rightarrow> Inl (rb_text e))"

text \<open>\<open>max(risks, key=RISK_RANK)\<close>\<close>

definition rank_of :: "pyval \<Rightarrow> exn + nat" where
  "rank_of v = bind_exn (lookup_key v RISK_RANK) (\<lambda>r. case r of None \<Rightarrow> Inl KeyError | Some n \<Rightarrow> Inr n)"

definition max_risk :: "fix_step list \<Rightarrow> exn + pyval" where
  "max_risk sts =
     bind_exn (sequence_exn (map (rank_of \<circ> fs_risk) sts)) (\<lambda>ns.
     case zip ns (map fs_risk sts) of [] \<Rightarrow> Inl (ValueError []) | x # xs \<Rightarrow> Inr (snd (max_by fst x xs)))"

section \<open>What the fix may be called\<close>

definition live_records :: "pyval \<Rightarrow> exn + pyval list" where
  "live_records prov =
     bind_exn (list_or_empty prov ''verified_on'') (\<lambda>vs.
     bind_exn (sequence_exn (map (\<lambda>v. get_or v ''tier'' PNone) vs)) (\<lambda>ts.
     Inr (map snd (filter (\<lambda>(t, v). is_str ''LIVE'' t) (zip ts vs)))))"

text \<open>The system the report is about, as the live record names one: its FreeIPA version and its OS release.\<close>

definition here_version :: "environment_info option \<Rightarrow> nat list option" where
  "here_version env = (case env of None \<Rightarrow> None | Some e \<Rightarrow> version_of (opt_str (env_freeipa_version e)))"

definition os_here :: "environment_info option \<Rightarrow> string" where
  "os_here env =
     (case env of None \<Rightarrow> []
      | Some e \<Rightarrow> str_lower (the_default [] (env_distro e)) @ ''-'' @ str_lower (the_default [] (env_distro_version e)))"

definition same_system :: "environment_info option \<Rightarrow> pyval \<Rightarrow> exn + bool" where
  "same_system env v =
     (case here_version env of None \<Rightarrow> Inr False
      | Some here \<Rightarrow>
          with_item v ''freeipa'' (\<lambda>f.
          if version_of f \<noteq> Some here then Inr False
          else with_item v ''os'' (\<lambda>os. Inr (str_lower (py_str os) = os_here env))))"

definition lab_names :: "pyval list \<Rightarrow> exn + string" where
  "lab_names live =
     bind_exn (sequence_exn (map (\<lambda>v. with_item v ''freeipa'' (\<lambda>f. with_item v ''os'' (\<lambda>os. Inr (''FreeIPA '' @ py_str f @ '' / '' @ py_str os)))) live))
       (\<lambda>ns. Inr (join '', '' ns))"

definition label_of :: "pyval \<Rightarrow> environment_info option \<Rightarrow> exn + bool \<times> string" where
  "label_of proc env =
     with_item proc ''provenance'' (\<lambda>prov.
     bind_exn (live_records prov) (\<lambda>live.
     bind_exn (sequence_exn (map (same_system env) live)) (\<lambda>same.
     bind_exn (lab_names live) (\<lambda>places.
     with_item prov ''tier'' (\<lambda>tier.
     let matched = list_ex (\<lambda>b. b) same
     in Inr (if is_str ''BUILT_IN_VERIFIED'' tier \<and> matched
             then (True, ''Verified in a live lab on '' @ places @ ''; independently reviewed.'')
             else if live \<noteq> [] \<and> \<not> matched
             then (False, ''Verified in a live lab on '' @ places @ '' only - not yet on this FreeIPA version/OS. Check each step before running it.'')
             else if live \<noteq> []
             then (False, ''Verified in a live lab on '' @ places @
                     '' (the maintainer has not promoted it to built-in verified). Check each step before running it.'')
             else (False, ''Not yet verified on a live FreeIPA server (tested against recorded evidence only). Check each step before running it.'')))))))"

definition procedure_digest :: "(string \<Rightarrow> string) \<Rightarrow> pyval \<Rightarrow> string" where
  "procedure_digest sha proc = sha (json_dumps proc)"

definition criterion_val :: "criterion \<Rightarrow> pyval" where
  "criterion_val c =
     PDict [(''text'', PStr (cr_text c)), (''check'', cr_check c), (''params'', PDict (cr_args c)), (''when'', cr_when c)]"

definition criteria_digest :: "(string \<Rightarrow> string) \<Rightarrow> criterion list \<Rightarrow> string \<Rightarrow> string" where
  "criteria_digest sha cs did = sha (json_dumps (PList [PStr did, PList (map criterion_val cs)]))"

section \<open>A diagnosis\<close>

fun least_by :: "pyval \<times> 'a \<Rightarrow> (pyval \<times> 'a) list \<Rightarrow> exn + 'a" where
  "least_by m [] = Inr (snd m)"
| "least_by m (x # xs) = bind_exn (py_ord True (fst x) (fst m)) (\<lambda>less. least_by (if less then x else m) xs)"

definition selects :: "diagnosis \<Rightarrow> string \<Rightarrow> pyval \<Rightarrow> exn + bool" where
  "selects d key p =
     with_item p ''resolves'' (\<lambda>rs. with_item rs ''diagnosis'' (\<lambda>x.
     if x \<noteq> PStr key then Inr False else bind_exn (get_or rs ''variant'' PNone) (\<lambda>v. Inr (v = opt_str (d_variant d)))))"

text \<open>The procedure for the diagnosis: of several, the one with the least id.\<close>

definition procedure_for :: "pyval list \<Rightarrow> diagnosis \<Rightarrow> string \<Rightarrow> exn + pyval option" where
  "procedure_for cat d key =
     bind_exn (sequence_exn (map (selects d key) cat)) (\<lambda>sel.
     let ms = map snd (filter fst (zip sel cat))
     in bind_exn (sequence_exn (map (\<lambda>p. get_item p ''id'') ms)) (\<lambda>ids.
        case zip ids ms of [] \<Rightarrow> Inr None | m # xs \<Rightarrow> bind_exn (least_by m xs) (\<lambda>p. Inr (Some p))))"

definition declined :: "diagnosis \<Rightarrow> pyval \<Rightarrow> exn + resolution" where
  "declined d proc =
     with_item proc ''id'' (\<lambda>i. with_item proc ''reason'' (\<lambda>why. bind_exn (get_or proc ''reference'' PNone) (\<lambda>refr.
     Inr ((new_resolution (d_diagnosis_id d) NONE)\<lparr>rz_procedure_id := i, rz_reasons := [py_str why], rz_reference := refr\<rparr>))))"

definition applies_text :: "bool \<Rightarrow> pyval \<Rightarrow> pyval \<Rightarrow> string" where
  "applies_text client_role fmin fbel =
     strip ((if client_role then ''IPA client '' else ''FreeIPA server '') @ (if truthy fmin then py_str fmin @ '' or later'' else []) @
            (if truthy fbel then '', below '' @ py_str fbel else []))"

definition client_role :: "pyval \<Rightarrow> bool" where
  "client_role a = (dict_get (as_dict a) ''roles'' = Some (PList [PStr ''ipa-client'']))"

definition started :: "bool \<Rightarrow> diagnosis \<Rightarrow> pyval \<Rightarrow> exn + resolution" where
  "started replay d proc =
     with_item proc ''id'' (\<lambda>i. with_item proc ''title'' (\<lambda>title. with_item proc ''provenance'' (\<lambda>prov. with_item prov ''tier'' (\<lambda>tier.
     bind_exn (get_or proc ''limitations'' (PStr [])) (\<lambda>limits. bind_exn (get_or proc ''impact_note'' (PStr [])) (\<lambda>impact.
     with_item proc ''applies_to'' (\<lambda>a. bind_exn (get_or a ''freeipa_min'' PNone) (\<lambda>fmin. bind_exn (get_or a ''freeipa_below'' PNone) (\<lambda>fbel.
     with_item a ''roles'' (\<lambda>roles.
     Inr ((new_resolution (d_diagnosis_id d) WITHHELD)
            \<lparr>rz_procedure_id := i, rz_title := title, rz_tier := tier, rz_limitations := limits, rz_impact_note := impact,
             rz_replay := replay, rz_applies_to := applies_text (client_role a) fmin fbel\<rparr>)))))))))))"

definition conf_rank :: "confidence_level \<Rightarrow> nat" where
  "conf_rank c = (case c of HIGH \<Rightarrow> 2 | MEDIUM \<Rightarrow> 1 | _ \<Rightarrow> 0)"

definition needed_rank :: "pyval \<Rightarrow> nat" where
  "needed_rank m = (if is_str ''HIGH'' m then 2 else 1)"

definition established :: "diagnosis \<Rightarrow> pyval \<Rightarrow> resolution \<Rightarrow> unit flow" where
  "established d proc r =
     (if d_priority d = RELATED_SYMPTOM
      then let causes = (if join ''; '' (d_related_to_titles d) = [] then ''another problem reported above'' else join ''; '' (d_related_to_titles d))
           in Done (because (''This is reported as a symptom of: '' @ sanitize_text causes 200 @ ''. Fix that first, then run ipa-diagnose again.'') r)
      else try_exn (get_item proc ''min_confidence'') (\<lambda>m.
           if d_status d \<noteq> DIAGNOSED \<or> conf_rank (c_level (d_confidence d)) < needed_rank m
           then (case m of
                   PStr s \<Rightarrow> Done (because (''The cause is not established with '' @ str_lower s @ '' confidence, so no fix is shown.'') r)
                 | _ \<Rightarrow> Boom AttributeError)
           else Go ()))"

definition bound_values :: "diagnosis \<Rightarrow> pyval \<Rightarrow> resolution \<Rightarrow> (pydict \<times> resolution) flow" where
  "bound_values d proc r =
     try_exn (bindings_of proc (d_bindings d)) (\<lambda>(bs, why).
     let r' = r\<lparr>rz_reasons := rz_reasons r @ why\<rparr>
     in case bs of
          Some out \<Rightarrow> Go (out, r')
        | None \<Rightarrow> Done (because (if rz_reasons r' \<noteq> [] then ''No reported item can be changed safely (see above).''
                            else ''The evidence does not name values that can be used safely in a command.'') r'))"

text \<open>\<open>here < _version(v)\<close>: comparing with a version that cannot be read is a TypeError.\<close>

definition version_less :: "nat list \<Rightarrow> pyval \<Rightarrow> exn + bool" where
  "version_less here v = (case version_of v of None \<Rightarrow> Inl TypeError | Some w \<Rightarrow> Inr (here < w))"

definition unread_version :: "bool \<Rightarrow> bool \<Rightarrow> string" where
  "unread_version replay client =
     (if replay
      then (if client then ''This recorded evidence does not include the IPA client version''
            else ''This recorded evidence does not include the FreeIPA version'')
           @ '' or the checks a fix needs, so no fix can be confirmed from it.''
      else if client
      then ''Could not read the IPA client version (rpm -q freeipa-client), so it is not established that this procedure applies here.''
      else ''Could not read the FreeIPA server version (rpm -q freeipa-server), so it is not established that this procedure applies here.'')"

definition applicable :: "environment_info option \<Rightarrow> pyval \<Rightarrow> resolution \<Rightarrow> unit flow" where
  "applicable env proc r =
     (let a = the_default PNone (dict_get (as_dict proc) ''applies_to''); f = (\<lambda>k. the_default PNone (dict_get (as_dict a) k));
          fmin = f ''freeipa_min''; fbel = f ''freeipa_below''; runs = (case env of None \<Rightarrow> [] | Some e \<Rightarrow> py_str (opt_str (env_freeipa_version e)))
      in case here_version env of
           None \<Rightarrow> Done (because (unread_version (rz_replay r) (client_role a)) r)
         | Some here \<Rightarrow>
             try_exn (if truthy fmin then version_less here fmin else Inr False) (\<lambda>old.
             if old then Done (because (''This procedure applies to FreeIPA '' @ py_str fmin @ '' or later; this server runs '' @ runs @ ''.'') r)
             else try_exn (if truthy fbel then version_less here fbel else Inr True) (\<lambda>below.
             if \<not> below
             then Done (because (''This procedure has not been established for FreeIPA '' @ py_str fbel @
                          '' or later (this server runs '' @ runs @ '').'') r)
             else Go ())))"

text \<open>Everything before the first check: what may be shown at all, and the values.\<close>

definition before_checks :: "bool \<Rightarrow> environment_info option \<Rightarrow> diagnosis \<Rightarrow> pyval \<Rightarrow> (pydict \<times> resolution) flow" where
  "before_checks replay env d proc =
     try_exn (started replay d proc) (\<lambda>r.
     bind_flow (established d proc r) (\<lambda>_.
     bind_flow (bound_values d proc r) (\<lambda>(bs, r').
     bind_flow (applicable env proc r') (\<lambda>_. Go (bs, r')))))"

definition offer ::
  "(string \<Rightarrow> string) \<Rightarrow> environment_info option \<Rightarrow> diagnosis \<Rightarrow> pyval \<Rightarrow> pydict \<Rightarrow> fix_parts \<Rightarrow> resolution \<Rightarrow> exn + resolution" where
  "offer sha env d proc bs p r =
     (let steps = dedupe_by (\<lambda>s. (fs_id s, fs_argv s)) same_step [] (fp_steps p)
      in bind_exn (max_risk steps) (\<lambda>risk.
         bind_exn (label_of proc env) (\<lambda>(definitive, label).
         with_item proc ''id'' (\<lambda>i.
         Inr (r\<lparr>rz_confirm_first := fp_confirm p, rz_steps := steps, rz_what_changes := dedupe_by (\<lambda>x. x) (=) [] (fp_changes p),
                rz_rollback := dedupe_by rollback_key (=) [] (fp_rollback p), rz_verify := fp_verify p, rz_risk := risk,
                rz_definitive := definitive \<and> \<not> rz_replay r,
                rz_verification_label :=
                  (if rz_replay r
                   then ''Recorded evidence (--replay): an example for the recorded system, not a fix for this host. '' @ label
                   else label),
                rz_baseline :=
                  Some [(''procedure_id'', i), (''procedure_digest'', PStr (procedure_digest sha proc)), (''bindings'', PDict bs),
                        (''criteria_digest'', PStr (criteria_digest sha (fp_verify p) (d_diagnosis_id d)))],
                rz_status := OFFERED\<rparr>)))))"

text \<open>The fix, once nothing contradicts it.\<close>

definition finish ::
  "(string \<Rightarrow> string) \<Rightarrow> environment_info option \<Rightarrow> diagnosis \<Rightarrow> pyval \<Rightarrow> pydict \<Rightarrow> checks \<Rightarrow> targets \<Rightarrow> resolution \<Rightarrow> resolution flow" where
  "finish sha env d proc bs globals tg r =
     on_unknown (parts_of proc (scopes_of bs globals tg))
       (\<lambda>why. Done (because (''A value needed for the fix could not be established safely: '' @ why) r))
       (\<lambda>p. if fp_steps p = []
            then Done (because ''No step applies to the current state.''
                   (r\<lparr>rz_confirm_first := fp_confirm p, rz_what_changes := fp_changes p, rz_rollback := fp_rollback p, rz_verify := fp_verify p\<rparr>))
            else try_exn (step_clash [] (fp_steps p)) (\<lambda>clash.
                 case clash of Some t \<Rightarrow> Done (because (clash_text t) r) | None \<Rightarrow> try_exn (offer sha env d proc bs p r) Go))"

definition after_checks ::
  "(string \<Rightarrow> string) \<Rightarrow> environment_info option \<Rightarrow> diagnosis \<Rightarrow> pyval \<Rightarrow> pydict \<Rightarrow> checks \<times> targets \<times> resolution \<Rightarrow> resolution flow" where
  "after_checks sha env d proc bs st =
     (case st of (globals, tg, r) \<Rightarrow>
        bind_flow (no_clash tg r) (\<lambda>_.
        bind_flow (try_exn (bind_exn (get_or proc ''withhold_if'' (PList [])) iter) (\<lambda>ws. withhold_all bs globals ws tg r)) (\<lambda>(tg', r').
        if nothing_left tg' then Done (because ''Nothing left to fix after checking the current state.'' r')
        else let bs' = set_lists tg' bs
             in try_exn (bind_exn (bind_exn (get_or proc ''prerequisites'' (PList [])) iter) (prerequisites_of (base_scope bs' globals))) (\<lambda>ps.
                let r'' = r'\<lparr>rz_prerequisites := ps\<rparr>
                in if \<not> all_met ps
                   then Done (because ''A prerequisite is not met or could not be checked, so the fix is not shown.'' r'')
                   else finish sha env d proc bs' globals tg' r''))))"

definition flow_result :: "resolution flow \<Rightarrow> exn + resolution option" where
  "flow_result m = (case m of Go r \<Rightarrow> Inr (Some r) | Done r \<Rightarrow> Inr (Some r) | Boom e \<Rightarrow> Inl e)"

definition spec_of :: "pyval \<Rightarrow> pydict" where
  "spec_of proc = as_dict (the_default PNone (dict_get (as_dict proc) ''bindings''))"

definition resolve_with ::
  "'r engine \<Rightarrow> environment_info option \<Rightarrow> diagnosis \<Rightarrow> pyval \<Rightarrow> 'r \<Rightarrow> resolution flow \<times> 'r" where
  "resolve_with en env d proc rn =
     (case before_checks (en_replay en) env d proc of
        Boom e \<Rightarrow> (Boom e, rn) | Done r \<Rightarrow> (Done r, rn)
      | Go (bs, r) \<Rightarrow>
          (case bind_exn (get_or proc ''investigate'' (PList [])) iter of
             Inl e \<Rightarrow> (Boom e, rn)
           | Inr ivs \<Rightarrow>
               (case inv_all en bs ivs [] (targets_of (spec_of proc) bs) r rn of (fl, rn') \<Rightarrow>
                  (bind_flow fl (after_checks (en_sha256 en) env d proc bs), rn'))))"

definition resolve_diagnosis ::
  "'r engine \<Rightarrow> pyval list \<Rightarrow> environment_info option \<Rightarrow> diagnosis \<Rightarrow> 'r \<Rightarrow> (exn + resolution option) \<times> 'r" where
  "resolve_diagnosis en cat env d rn =
     (case d_resolution_key d of
        None \<Rightarrow> (Inr None, rn)
      | Some key \<Rightarrow>
          if key = [] then (Inr None, rn)
          else (case procedure_for cat d key of
                  Inl e \<Rightarrow> (Inl e, rn)
                | Inr None \<Rightarrow> (Inr None, rn)
                | Inr (Some proc) \<Rightarrow>
                    if dict_get (as_dict proc) ''kind'' = Some (PStr ''no_procedure'')
                    then (map_sum id Some (declined d proc), rn)
                    else (case resolve_with en env d proc rn of (fl, rn') \<Rightarrow> (flow_result fl, rn'))))"

section \<open>A report\<close>

type_synonym resolutions = "(string \<times> resolution) list"

definition internal_error :: "diagnosis \<Rightarrow> exn \<Rightarrow> resolution" where
  "internal_error d e =
     because (''Internal error while preparing the fix ('' @ exn_name e @ ''); nothing is shown.'') (new_resolution (d_diagnosis_id d) WITHHELD)"

text \<open>\<open>except Exception\<close> does not catch an interrupt.\<close>

fun resolve_each ::
  "'r engine \<Rightarrow> pyval list \<Rightarrow> environment_info option \<Rightarrow> resolutions \<Rightarrow> diagnosis list \<Rightarrow> 'r \<Rightarrow> (exn + resolutions) \<times> 'r" where
  "resolve_each en cat env out [] rn = (Inr out, rn)"
| "resolve_each en cat env out (d # ds) rn =
     (case resolve_diagnosis en cat env d rn of (res1, rn') \<Rightarrow>
        (case res1 of
           Inl KeyboardInterrupt \<Rightarrow> (Inl KeyboardInterrupt, rn')
         | Inl e \<Rightarrow> resolve_each en cat env (dict_set (d_diagnosis_id d) (internal_error d e) out) ds rn'
         | Inr None \<Rightarrow> resolve_each en cat env out ds rn'
         | Inr (Some r) \<Rightarrow> resolve_each en cat env (dict_set (d_diagnosis_id d) r out) ds rn'))"

text \<open>What \<open>resolve_report\<close> returns and writes to \<open>report.resolutions\<close>, and the collection errors.\<close>

definition resolve_report ::
  "'r engine \<Rightarrow> catalogue \<Rightarrow> diagnosis_report \<Rightarrow> 'r \<Rightarrow> (exn + resolutions) \<times> string list \<times> 'r" where
  "resolve_report en cat rep rn =
     (let errors = (case snd cat of None \<Rightarrow> [] | Some e \<Rightarrow> if e = [] then [] else [sanitize_text e 300])
      in case resolve_each en (fst cat) (rep_environment rep) [] (rep_diagnoses rep) rn of
           (out, rn') \<Rightarrow> (out, rep_collection_errors rep @ errors, rn'))"

section \<open>Verification of a fix that was shown\<close>

definition REBUILD_UNKNOWN :: string where "REBUILD_UNKNOWN = ''UNKNOWN''"
definition REBUILD_CHANGED :: string where "REBUILD_CHANGED = ''CHANGED''"

text \<open>The checks of a procedure run again; here a value that is not known ends it.\<close>

definition again_once :: "'r engine \<Rightarrow> pyval \<Rightarrow> scope \<Rightarrow> checks \<Rightarrow> 'r \<Rightarrow> (stuck + checks) \<times> 'r" where
  "again_once en iv sc own rn =
     (case params_of sc iv of
        Inl e \<Rightarrow> (Inl e, rn)
      | Inr params \<Rightarrow>
          (case get_item iv ''check'' of
             Inl e \<Rightarrow> (Inl (Raised e), rn)
           | Inr chk \<Rightarrow>
               (case en_run en chk params rn of (out, rn') \<Rightarrow>
                  (bind_sum (lift_exn out) (\<lambda>x. bind_sum (lift_exn (get_item iv ''id'')) (\<lambda>i. lift_exn (val_set i x own))), rn'))))"

fun again_items ::
  "'r engine \<Rightarrow> pydict \<Rightarrow> checks \<Rightarrow> pyval \<Rightarrow> (pydict \<times> checks) list \<Rightarrow> 'r \<Rightarrow> (stuck + (pydict \<times> checks) list) \<times> 'r" where
  "again_items en bs globals iv [] rn = (Inr [], rn)"
| "again_items en bs globals iv ((it, own) # ts) rn =
     (case again_once en iv (item_scope bs globals (it, own)) own rn of
        (Inl e, rn') \<Rightarrow> (Inl e, rn')
      | (Inr own', rn') \<Rightarrow>
          (case again_items en bs globals iv ts rn' of (out, rn'') \<Rightarrow> (bind_sum out (\<lambda>ts'. Inr ((it, own') # ts')), rn'')))"

fun again_all :: "'r engine \<Rightarrow> pydict \<Rightarrow> pyval list \<Rightarrow> checks \<Rightarrow> targets \<Rightarrow> 'r \<Rightarrow> (stuck + checks \<times> targets) \<times> 'r" where
  "again_all en bs [] globals tg rn = (Inr (globals, tg), rn)"
| "again_all en bs (iv # ivs) globals tg rn =
     (case loop_of iv of
        Inl e \<Rightarrow> (Inl (Raised e), rn)
      | Inr name \<Rightarrow>
          if truthy name
          then (case named_targets tg name of
                  Inl e \<Rightarrow> (Inl (Raised e), rn)
                | Inr ts \<Rightarrow>
                    (case again_items en bs globals iv ts rn of
                       (Inl e, rn') \<Rightarrow> (Inl e, rn')
                     | (Inr ts', rn') \<Rightarrow> again_all en bs ivs globals (dict_set (the_default [] (as_str name)) ts' tg) rn'))
          else (case again_once en iv (base_scope bs globals) globals rn of
                  (Inl e, rn') \<Rightarrow> (Inl e, rn')
                | (Inr globals', rn') \<Rightarrow> again_all en bs ivs globals' tg rn'))"

definition py_len :: "pyval \<Rightarrow> exn + nat" where
  "py_len v = (case v of PStr s \<Rightarrow> Inr (length s) | PList xs \<Rightarrow> Inr (length xs) | PDict d \<Rightarrow> Inr (length d) | _ \<Rightarrow> Inl TypeError)"

text \<open>The procedure of a saved fix in the current catalogue.\<close>

fun saved_procedure :: "pyval list \<Rightarrow> pyval \<Rightarrow> exn + pyval option" where
  "saved_procedure [] pid = Inr None"
| "saved_procedure (p # ps) pid =
     bind_exn (get_or p ''id'' PNone) (\<lambda>i.
     if py_eq i pid \<and> dict_get (as_dict p) ''kind'' \<noteq> Some (PStr ''no_procedure'') then Inr (Some p) else saved_procedure ps pid)"

fun all_exn :: "(exn + bool) list \<Rightarrow> exn + bool" where
  "all_exn [] = Inr True"
| "all_exn (Inl e # rs) = Inl e"
| "all_exn (Inr b # rs) = (if b then all_exn rs else Inr False)"

text \<open>The saved values, read again under the procedure's types: all of them must still be valid.\<close>

definition reread :: "pyval \<Rightarrow> pyval \<Rightarrow> exn + pydict option" where
  "reread proc saved =
     bind_exn (bindings_of proc (as_dict saved)) (\<lambda>(bs, why).
     case bs of
       None \<Rightarrow> Inr None
     | Some out \<Rightarrow>
         if why \<noteq> [] then Inr None
         else let names = list_names (spec_of proc)
              in bind_exn (all_exn (map (\<lambda>n. bind_exn (get_or saved n PNone) (\<lambda>v. bind_exn (py_len (if truthy v then v else PList [])) (\<lambda>l.
                   Inr (length (the_default [] (as_list (the_default PNone (dict_get out n)))) = l)))) names)) (\<lambda>same.
                 Inr (if same then Some out else None)))"

type_synonym rebuilt = "criterion list option \<times> string \<times> string"

definition no_rebuild :: "string \<Rightarrow> rebuilt" where "no_rebuild why = (None, REBUILD_UNKNOWN, why)"

text \<open>What is not caught in \<open>rebuild_verify\<close>: an interrupt.\<close>

definition caught :: "stuck \<Rightarrow> exn + rebuilt" where
  "caught e =
     (case e of
        Unknown why \<Rightarrow> Inr (no_rebuild (''a fresh check needed to rebuild the fix's criteria failed: '' @ why))
      | Raised x \<Rightarrow> if x = KeyboardInterrupt then Inl x
                    else Inr (no_rebuild (''the saved fix record could not be used ('' @ exn_name x @ '')'')))"

definition compared :: "(string \<Rightarrow> string) \<Rightarrow> pyval \<Rightarrow> criterion list \<Rightarrow> rebuilt" where
  "compared sha fix1 cs =
     (let f = (\<lambda>k dflt. the_default dflt (dict_get (as_dict fix1) k))
      in if PStr (criteria_digest sha cs (py_str (f ''diagnosis_id'' (PStr [])))) \<noteq> f ''criteria_digest'' PNone
         then (Some cs, REBUILD_CHANGED,
               ''the fix's checks no longer match what was saved when the fix was shown: either its target changed '' @
               ''(for example another file location or instance) or the saved diagnosis was modified'')
         else (Some cs, [], []))"

definition rebuild_values :: "(string \<Rightarrow> string) \<Rightarrow> pyval list \<Rightarrow> pyval \<Rightarrow> exn + rebuilt + pyval \<times> pydict" where
  "rebuild_values sha cat fix1 =
     (let f = (\<lambda>k. the_default PNone (dict_get (as_dict fix1) k))
      in bind_exn (saved_procedure cat (f ''procedure_id'')) (\<lambda>p.
         case p of
           None \<Rightarrow> Inr (Inl (no_rebuild ''this version of ipa-diagnose has no such fix procedure''))
         | Some proc \<Rightarrow>
             if f ''procedure_digest'' \<noteq> PStr (procedure_digest sha proc)
             then Inr (Inl (no_rebuild (''the fix procedure is not the one that was shown (ipa-diagnose or its '' @
                              ''procedure catalogue changed since)'')))
             else bind_exn (reread proc (f ''bindings'')) (\<lambda>bs.
                  case bs of None \<Rightarrow> Inr (Inl (no_rebuild ''the values saved for the fix are not valid values of their type''))
                  | Some out \<Rightarrow> Inr (Inr (proc, out)))))"

definition rebuild_criteria :: "'r engine \<Rightarrow> pyval \<Rightarrow> pydict \<Rightarrow> 'r \<Rightarrow> (stuck + criterion list) \<times> 'r" where
  "rebuild_criteria en proc bs rn =
     (case bind_exn (get_or proc ''investigate'' (PList [])) iter of
        Inl e \<Rightarrow> (Inl (Raised e), rn)
      | Inr ivs \<Rightarrow>
          (case again_all en bs ivs [] (targets_of (spec_of proc) bs) rn of
             (out, rn') \<Rightarrow> (bind_sum out (\<lambda>(globals, tg). build_verify proc (scopes_of bs globals tg)), rn')))"

definition rebuild_verify :: "'r engine \<Rightarrow> pyval list \<Rightarrow> pyval \<Rightarrow> 'r \<Rightarrow> (exn + rebuilt) \<times> 'r" where
  "rebuild_verify en cat fix1 rn =
     (if \<not> is_dict fix1 then (Inr (no_rebuild ''the saved fix record is malformed''), rn)
      else case rebuild_values (en_sha256 en) cat fix1 of
             Inl e \<Rightarrow> (caught (Raised e), rn)
           | Inr (Inl out) \<Rightarrow> (Inr out, rn)
           | Inr (Inr (proc, bs)) \<Rightarrow>
               (case rebuild_criteria en proc bs rn of
                  (Inl e, rn') \<Rightarrow> (caught e, rn')
                | (Inr cs, rn') \<Rightarrow> (Inr (compared (en_sha256 en) fix1 cs), rn')))"

definition VERIFY_OPS :: "string list" where
  "VERIFY_OPS = [''eq'', ''ne'', ''in'', ''not_in'', ''lt'', ''le'', ''gt'', ''ge'', ''abs_lt'', ''abs_ge'', ''is_true'', ''is_false'']"

definition same_keys :: "pydict \<Rightarrow> string list \<Rightarrow> bool" where
  "same_keys d ks = (set (dict_keys d) = set ks)"

definition tests_field :: "pydict \<Rightarrow> bool" where
  "tests_field d =
     (case dict_get d ''left'' of
        Some (PDict l) \<Rightarrow> same_keys l [''ref'', ''field''] \<and> dict_get l ''ref'' = Some (PStr ''this'')
                          \<and> is_text (the_default PNone (dict_get l ''field'')) \<and> \<not> is_dict (the_default PNone (dict_get d ''right''))
      | _ \<Rightarrow> False)"

function refers_to_this :: "pyval \<Rightarrow> exn + bool" where
  "refers_to_this p =
     (case p of
        PDict d \<Rightarrow>
          if d = [] then Inr False
          else if same_keys d [''all''] \<or> same_keys d [''any'']
          then (case dict_get d (if has ''all'' p then ''all'' else ''any'') of
                  Some (PList (q # qs)) \<Rightarrow> all_exn (map refers_to_this (q # qs)) | _ \<Rightarrow> Inr False)
          else if same_keys d [''not'']
          then (case dict_get d ''not'' of Some q \<Rightarrow> refers_to_this q | None \<Rightarrow> Inr False)
          else if \<not> set (dict_keys d) \<subseteq> {''left'', ''op'', ''right''} then Inr False
          else bind_exn (lookup_key (the_default PNone (dict_get d ''op'')) (map (\<lambda>o1. (o1, ())) VERIFY_OPS)) (\<lambda>known.
               Inr (known \<noteq> None \<and> tests_field d))
      | _ \<Rightarrow> Inr False)"
  by pat_completeness auto
termination
  by (relation "measure size") (auto dest!: dict_get_size size_member)

declare refers_to_this.simps [simp del]

type_synonym verdict = "string \<times> bool option \<times> string"

text \<open>One criterion: what is known of it, or why nothing is.\<close>

definition criterion_wf :: "pyval \<Rightarrow> stuck + unit" where
  "criterion_wf c =
     (if \<not> is_dict c then Inl (Unknown ''malformed criterion'')
      else bind_sum (lift_exn (refers_to_this (the_default PNone (dict_get (as_dict c) ''when'')))) (\<lambda>ok.
           if \<not> ok \<or> \<not> is_dict (the_default (PDict []) (dict_get (as_dict c) ''params''))
           then Inl (Unknown ''criterion is malformed or does not test the fresh check result'') else Inr ()))"

definition judge :: "pyval \<Rightarrow> check_result \<Rightarrow> stuck + bool" where
  "judge c x =
     (if cr_status x \<noteq> OK then Inl (Unknown (if cr_display x \<noteq> [] then cr_display x else ''the check could not run''))
      else pred \<lparr>sc_bindings = [], sc_checks = [(PStr ''this'', x)], sc_item = None, sc_item_checks = []\<rparr>
             (the_default PNone (dict_get (as_dict c) ''when'')))"

definition criterion_text :: "pyval \<Rightarrow> string" where
  "criterion_text c = sanitize_val (the_default (PStr []) (dict_get (as_dict c) ''text'')) 200"

definition verdict_of :: "pyval \<Rightarrow> stuck + bool \<times> string \<Rightarrow> exn + verdict" where
  "verdict_of c r =
     (case r of
        Inr (b, display) \<Rightarrow> Inr (criterion_text c, Some b, display)
      | Inl (Unknown why) \<Rightarrow> Inr (criterion_text c, None, why)
      | Inl (Raised e) \<Rightarrow> if e = KeyboardInterrupt then Inl e else Inr (criterion_text c, None, ''malformed criterion''))"

definition evaluate_one :: "'r engine \<Rightarrow> pyval \<Rightarrow> 'r \<Rightarrow> (exn + verdict) \<times> 'r" where
  "evaluate_one en c rn =
     (case criterion_wf c of
        Inl e \<Rightarrow> (verdict_of c (Inl e), rn)
      | Inr u \<Rightarrow>
          (case en_run en (PStr (py_str (the_default PNone (dict_get (as_dict c) ''check''))))
                  (as_dict (the_default (PDict []) (dict_get (as_dict c) ''params''))) rn of
             (out, rn') \<Rightarrow>
               (verdict_of c (bind_sum (lift_exn out) (\<lambda>x. bind_sum (judge c x) (\<lambda>b. Inr (b, cr_display x)))), rn')))"

fun evaluate_verify :: "'r engine \<Rightarrow> pyval list \<Rightarrow> 'r \<Rightarrow> (exn + verdict list) \<times> 'r" where
  "evaluate_verify en [] rn = (Inr [], rn)"
| "evaluate_verify en (c # cs) rn =
     (case evaluate_one en c rn of
        (Inl e, rn') \<Rightarrow> (Inl e, rn')
      | (Inr v, rn') \<Rightarrow> (case evaluate_verify en cs rn' of (out, rn'') \<Rightarrow> (map_sum id ((#) v) out, rn'')))"

section \<open>A command as it is shown\<close>

text \<open>\<open>shlex.quote\<close> and \<open>shlex.join\<close> of the standard library.\<close>

definition shell_plain :: "char \<Rightarrow> bool" where
  "shell_plain = alnum_or ''_@%+=:,./-''"

definition quote_char :: "char \<Rightarrow> string" where
  "quote_char c = (if c = CHR 0x27 then [CHR 0x27, CHR 0x22, CHR 0x27, CHR 0x22, CHR 0x27] else [c])"

definition shlex_quote :: "string \<Rightarrow> string" where
  "shlex_quote s =
     (if s = [] then [CHR 0x27, CHR 0x27] else if list_all shell_plain s then s
      else [CHR 0x27] @ concat (map quote_char s) @ [CHR 0x27])"

definition step_command :: "fix_step \<Rightarrow> string" where
  "step_command st = join '' '' (map shlex_quote (fs_argv st))"

end
