(* ===== verification/KnowledgeProps.thy ===== *)
theory KnowledgeProps
  imports Resolve
begin

text \<open>
  What the validation of the catalogue establishes, as facts about the JSON value of a procedure: its commands, its risks
  and its provenance.
\<close>

section \<open>Inversion of the checks\<close>

lemma with_item_Inr: "with_item v k f = Inr y \<longleftrightarrow> (\<exists>d x. v = PDict d \<and> dict_get d k = Some x \<and> f x = Inr y)"
  by (auto simp: with_item_def get_item_def bind_exn_Inr split: pyval.splits option.splits)

lemma get_or_Inr: "get_or v k x = Inr y \<longleftrightarrow> (\<exists>d. v = PDict d \<and> y = the_default x (dict_get d k))"
  by (auto simp: get_or_def split: pyval.splits)

lemma get_item_Inr: "get_item v k = Inr y \<longleftrightarrow> (\<exists>d. v = PDict d \<and> dict_get d k = Some y)"
  by (auto simp: get_item_def split: pyval.splits option.splits)

lemma fail_Inr [simp]: "fail pid msg \<noteq> Inr x"
  by (simp add: fail_def)

lemma each_of_member: "each_of v f = Inr () \<Longrightarrow> iter v = Inr xs \<Longrightarrow> x \<in> set xs \<Longrightarrow> \<exists>i. f i x = Inr ()"
  by (auto simp: each_of_iff in_set_conv_nth)

lemma ensure_Inr: "ensure pid ok msg = Inr u \<longleftrightarrow> ok"
  by (cases u) simp

lemma in_order_Inr: "in_order cs = Inr u \<longleftrightarrow> (\<forall>c \<in> set cs. c = Inr ())"
  by (cases u) simp

lemma lookup_key_Inr: "lookup_key v d = Inr r \<longleftrightarrow>
    (\<exists>s. v = PStr s \<and> r = dict_get d s) \<or> hashable v \<and> (\<nexists>s. v = PStr s) \<and> r = None"
  by (cases v) (auto simp: lookup_key_def hashable_def)

lemmas inversions = with_item_Inr get_or_Inr bind_exn_Inr ensure_Inr in_order_Inr

section \<open>Commands\<close>

definition arg_allowed :: "pyval \<Rightarrow> bool" where
  "arg_allowed a =
     (case a of
        PStr s \<Rightarrow> rx_full arg_literal_rx s
      | PDict d \<Rightarrow> (\<exists>ty. dict_get d ''type'' = Some (PStr ty) \<and> ty \<in> fst ` set VALIDATORS)
      | _ \<Rightarrow> False)"

definition argv_allowed :: "string list \<Rightarrow> pyval \<Rightarrow> bool" where
  "argv_allowed programs argv =
     (\<exists>prog as. argv = PList (PStr prog # as) \<and> prog \<in> set programs \<and> (\<forall>a \<in> set (PStr prog # as). arg_allowed a))"

lemma known_type_Some: "known_type t = Inr (Some u) \<Longrightarrow> \<exists>ty. t = PStr ty \<and> ty \<in> fst ` set VALIDATORS"
proof -
  assume h: "known_type t = Inr (Some u)"
  then obtain ty where t: "t = PStr ty" "Some u = dict_get (map (\<lambda>(n, fn). (n, ())) VALIDATORS) ty"
    unfolding known_type_def lookup_key_Inr by auto
  then have "(ty, u) \<in> set (map (\<lambda>(n, fn). (n, ())) VALIDATORS)" by (intro dict_get_member) simp
  then show ?thesis using t(1) by force
qed

lemma check_arg_allowed: "check_arg pid place c i a = Inr () \<Longrightarrow> arg_allowed a"
  by (cases a) (auto simp: check_arg_def arg_allowed_def Let_def bind_exn_Inr dest!: known_type_Some split: option.splits)

lemma each_enumerate: "each (\<lambda>(i, x). f i x) (enumerate n xs) = Inr () \<Longrightarrow> x \<in> set xs \<Longrightarrow> \<exists>i. f i x = Inr ()"
proof -
  assume h: "each (\<lambda>(i, x). f i x) (enumerate n xs) = Inr ()" "x \<in> set xs"
  obtain j where "j < length xs" "x = xs ! j" using h(2) by (metis in_set_conv_nth)
  then have "(n + j, x) \<in> set (enumerate n xs)" by (simp add: in_set_enumerate_eq)
  then have "f (n + j) x = Inr ()" using h(1) by auto
  then show ?thesis by blast
qed

lemma check_argv_allowed:
  assumes "check_argv pid argv place c = Inr ()" "program_of argv \<in> set programs"
  shows "argv_allowed programs argv"
proof -
  obtain a as where argv: "argv = PList (a # as)" "matches program_rx a"
      and args: "each (\<lambda>(i, x). check_arg pid place c i x) (enumerate 0 (a # as)) = Inr ()"
    using assms(1) by (cases argv rule: pyval.exhaust) (auto simp: check_argv_def simp del: each_iff split: list.splits)
  obtain prog where prog: "a = PStr prog" using argv(2) by (auto simp: matches_def split: pyval.splits)
  have "arg_allowed x" if "x \<in> set (a # as)" for x
    using each_enumerate [OF args that] check_arg_allowed by blast
  then show ?thesis using argv(1) prog assms(2) by (auto simp: argv_allowed_def program_of_def)
qed

text \<open>The entries of a list of the procedure.\<close>

definition entries :: "pyval \<Rightarrow> string \<Rightarrow> pyval list" where
  "entries proc k =
     (case dict_get (as_dict proc) k of Some v \<Rightarrow> (case iter v of Inr xs \<Rightarrow> xs | Inl e \<Rightarrow> []) | None \<Rightarrow> [])"

definition fld :: "pyval \<Rightarrow> string \<Rightarrow> pyval" where
  "fld v k = the_default PNone (dict_get (as_dict v) k)"

definition step_allowed :: "pyval \<Rightarrow> bool" where
  "step_allowed s =
     (argv_allowed FIX_PROGRAMS (fld s ''command'') \<and> (\<exists>r. fld s ''risk'' = PStr r \<and> r \<in> set RISKS \<and> r \<noteq> ''READ_ONLY'')
      \<and> (\<exists>cs. iter (fld s ''changes'') = Inr cs \<and> cs \<noteq> [] \<and> (\<forall>c \<in> set cs. \<exists>n m. c = PStr n \<and> dict_get CHANGES_MIN_RISK n = Some m
                \<and> risk_rank (PStr m) \<le> risk_rank (fld s ''risk''))))"

lemma fld_dict [simp]: "dict_get d k = Some x \<Longrightarrow> fld (PDict d) k = x"
  by (simp add: fld_def the_default_def)

lemma check_change_allowed: "check_change pid place risk ch = Inr () \<Longrightarrow>
    \<exists>n m. ch = PStr n \<and> dict_get CHANGES_MIN_RISK n = Some m \<and> risk_rank (PStr m) \<le> risk_rank risk"
  by (auto simp: check_change_def bind_exn_Inr lookup_key_Inr split: option.splits) (metis)

lemma iter_truthy: "truthy v \<Longrightarrow> iter v = Inr xs \<Longrightarrow> xs \<noteq> []"
  by (cases v) (auto simp: iter_def dict_keys_def split: list.splits)

lemma check_step_allowed:
  assumes "check_step pid c s = Inr ()"
  shows "step_allowed s"
proof -
  obtain d sid risk changes argv cs place pl c' where d: "s = PDict d"
      and fields: "dict_get d ''id'' = Some sid" "dict_get d ''risk'' = Some risk"
        "dict_get d ''changes'' = Some changes" "dict_get d ''command'' = Some argv"
      and rk: "str_in risk RISKS" "\<not> is_str ''READ_ONLY'' risk" and ch: "truthy changes" "iter changes = Inr cs"
        "\<forall>x \<in> set cs. check_change pid place risk x = Inr ()"
      and cmd: "check_argv pid argv pl c' = Inr ()" "program_of argv \<in> set FIX_PROGRAMS"
    using assms unfolding check_step_def Let_def inversions by (elim exE conjE) (auto simp: bind_exn_Inr)
  have "argv_allowed FIX_PROGRAMS argv" by (rule check_argv_allowed [OF cmd])
  moreover have "\<exists>r. risk = PStr r \<and> r \<in> set RISKS \<and> r \<noteq> ''READ_ONLY''"
    using rk by (cases risk) (auto simp: str_in_def is_str_def)
  moreover have "cs \<noteq> []" by (rule iter_truthy [OF ch(1,2)])
  ultimately show ?thesis using fields ch(2,3) check_change_allowed unfolding step_allowed_def d by fastforce
qed

section \<open>Procedures\<close>

lemma each_of_entries:
  assumes "each_of v f = Inr u" "dict_get (as_dict proc) k = Some v" "e \<in> set (entries proc k)"
  shows "\<exists>i. f i e = Inr ()"
  using assms(2,3) each_of_member [OF assms(1) [unfolded unit_eq [of u]]] by (auto simp: entries_def dest: sym split: sum.splits)

lemma each_in_entries:
  assumes "each_in proc k f = Inr ()" "e \<in> set (entries proc k)"
  shows "\<exists>i. f i e = Inr ()"
  using assms each_of_entries [of _ f "()" proc k e] by (auto simp: each_in_def with_item_Inr)

lemma each_opt_entries:
  assumes "each_opt proc k f = Inr ()" "e \<in> set (entries proc k)"
  shows "\<exists>i. f i e = Inr ()"
proof -
  obtain d where d: "proc = PDict d" "each_of (the_default (PList []) (dict_get d k)) f = Inr ()"
    using assms(1) by (auto simp: each_opt_def get_or_Inr bind_exn_Inr)
  show ?thesis
  proof (cases "dict_get d k")
    case None
    then show ?thesis using assms(2) d(1) by (simp add: entries_def)
  next
    case (Some v)
    then show ?thesis using each_of_entries [of v f "()" proc k e] assms(2) d by (simp add: the_default_def)
  qed
qed

definition confirm_allowed :: "pyval \<Rightarrow> bool" where
  "confirm_allowed e =
     (argv_allowed (map fst CONFIRM_PROGRAMS) (fld e ''command'')
      \<and> (program_of (fld e ''command'') = ''readlink'' \<longrightarrow> set (argv_flags (fld e ''command'')) \<subseteq> {''-f''}))"

definition entry_allowed :: "pyval \<Rightarrow> bool" where
  "entry_allowed e = (has ''command'' e \<longrightarrow> argv_allowed FIX_PROGRAMS (fld e ''command''))"

definition procedure_allowed :: "pyval \<Rightarrow> bool" where
  "procedure_allowed proc =
     (entries proc ''steps'' \<noteq> [] \<and> (\<forall>s \<in> set (entries proc ''steps''). step_allowed s)
      \<and> (\<forall>e \<in> set (entries proc ''confirm_first''). confirm_allowed e)
      \<and> (\<forall>e \<in> set (entries proc ''rollback''). entry_allowed e))"

lemma check_confirm_allowed:
  assumes "check_confirm pid c j e = Inr ()"
  shows "confirm_allowed e"
proof -
  obtain d argv c' pl where d: "e = PDict d" "dict_get d ''command'' = Some argv"
      and cmd: "check_argv pid argv pl c' = Inr ()" "dict_get CONFIRM_PROGRAMS (program_of argv) \<noteq> None"
      and flags: "case dict_get CONFIRM_PROGRAMS (program_of argv) of Some (Some flags) \<Rightarrow> set (argv_flags argv) \<subseteq> set flags | _ \<Rightarrow> True"
    using assms unfolding check_confirm_def Let_def inversions by (elim exE conjE) (auto simp: bind_exn_Inr)
  have "program_of argv \<in> set (map fst CONFIRM_PROGRAMS)" using cmd(2) unfolding dict.get_keys dict_keys_def .
  then have "argv_allowed (map fst CONFIRM_PROGRAMS) argv" by (rule check_argv_allowed [OF cmd(1)])
  moreover have "program_of argv = ''readlink'' \<longrightarrow> set (argv_flags argv) \<subseteq> {''-f''}"
    using flags by (auto simp: CONFIRM_PROGRAMS_def dict_get_def)
  ultimately show ?thesis using d by (simp add: confirm_allowed_def)
qed

lemma check_entry_allowed:
  assumes "check_entry pid key c j e = Inr ()"
  shows "entry_allowed e"
proof (cases "has ''command'' e")
  case True
  then obtain d argv c' pl where d: "e = PDict d" "dict_get d ''command'' = Some argv"
      and cmd: "check_argv pid argv pl c' = Inr ()" "program_of argv \<in> set FIX_PROGRAMS"
    using assms unfolding check_entry_def Let_def inversions by (elim exE conjE) (auto simp: bind_exn_Inr with_item_Inr)
  then show ?thesis using check_argv_allowed by (simp add: entry_allowed_def)
qed (simp add: entry_allowed_def)

lemma validate_parts_allowed:
  assumes "validate_parts reg pid proc c = Inr ()"
  shows "procedure_allowed proc"
proof -
  have parts: "each_opt proc ''confirm_first'' (check_confirm pid c) = Inr ()"
      "with_item proc ''steps'' (\<lambda>v. ensure pid (truthy v) ''a procedure needs at least one step'') = Inr ()"
      "each_in proc ''steps'' (\<lambda>i s. check_step pid c s) = Inr ()"
      "each_in proc ''rollback'' (check_entry pid ''rollback'' c) = Inr ()"
    using assms by (simp_all add: validate_parts_def)
  obtain d v where v: "proc = PDict d" "dict_get d ''steps'' = Some v" "truthy v" using parts(2) by (auto simp: with_item_Inr)
  obtain xs where xs: "iter v = Inr xs" using parts(3) v by (auto simp: each_in_def with_item_Inr each_of_def bind_exn_Inr)
  have "entries proc ''steps'' \<noteq> []" using v xs iter_truthy [of v xs] by (simp add: entries_def)
  moreover have "step_allowed s" if "s \<in> set (entries proc ''steps'')" for s
    using each_in_entries [OF parts(3) that] check_step_allowed by blast
  moreover have "confirm_allowed e" if "e \<in> set (entries proc ''confirm_first'')" for e
    using each_opt_entries [OF parts(1) that] check_confirm_allowed by blast
  moreover have "entry_allowed e" if "e \<in> set (entries proc ''rollback'')" for e
    using each_in_entries [OF parts(4) that] check_entry_allowed by blast
  ultimately show ?thesis by (simp add: procedure_allowed_def)
qed

section \<open>Provenance\<close>

definition records_of :: "pyval \<Rightarrow> string \<Rightarrow> pyval list" where
  "records_of prov k = (case list_or_empty prov k of Inr xs \<Rightarrow> xs | Inl e \<Rightarrow> [])"

text \<open>What a procedure that calls itself verified can show.\<close>

definition verified_by :: "pyval \<Rightarrow> bool" where
  "verified_by proc =
     (let prov = fld proc ''provenance''
      in list_ex (\<lambda>v. is_live v \<and> matches evidence_rx (fld v ''evidence'')) (records_of prov ''verified_on'')
         \<and> list_ex authoritative (records_of prov ''sources'') \<and> list_ex independent_review (records_of prov ''reviews'')
         \<and> truthy (fld (fld proc ''applies_to'') ''freeipa_min''))"

lemma check_live_evidence: "check_live_record pid v = Inr () \<Longrightarrow> is_live v \<Longrightarrow> matches evidence_rx (fld v ''evidence'')"
  by (auto simp: check_live_record_def bind_exn_Inr Let_def is_live_def is_str_def fld_def the_default_def)

lemma validate_provenance_verified:
  assumes "validate_provenance pid proc = Inr ()" "fld (fld proc ''provenance'') ''tier'' = PStr ''BUILT_IN_VERIFIED''"
  shows "verified_by proc"
proof -
  obtain d prov tier sources verified reviews where d: "proc = PDict d" "dict_get d ''provenance'' = Some prov"
      and tier: "dict_get (as_dict prov) ''tier'' = Some tier"
      and lists: "list_or_empty prov ''sources'' = Inr sources" "list_or_empty prov ''verified_on'' = Inr verified"
        "list_or_empty prov ''reviews'' = Inr reviews"
      and live: "\<forall>v \<in> set verified. check_live_record pid v = Inr ()"
      and ok: "check_tier pid proc tier sources verified reviews = Inr ()"
    using assms(1) unfolding validate_provenance_def inversions by (elim exE conjE) (auto simp: bind_exn_Inr)
  have t: "tier = PStr ''BUILT_IN_VERIFIED''" using assms(2) d tier by (simp add: fld_def the_default_def)
  have "filter is_live verified \<noteq> []" "list_ex authoritative sources" "list_ex independent_review reviews"
      "truthy (fld (fld proc ''applies_to'') ''freeipa_min'')"
    using ok by (auto simp: check_tier_def t str_in_def is_str_def get_or_Inr bind_exn_Inr d fld_def the_default_def
        split: option.splits if_splits)
  then show ?thesis using live check_live_evidence
    by (auto simp: verified_by_def Let_def records_of_def lists d list_ex_iff filter_empty_conv)
qed

section \<open>The catalogue\<close>

lemma validate_entries_Inr:
  "validate_entries reg seen tg procs = Inr () \<Longrightarrow>
     (\<forall>p \<in> set procs. validate_procedure reg p = Inr ()) \<and> distinct (map (\<lambda>p. py_str (fld p ''id'')) procs)
     \<and> set (map (\<lambda>p. py_str (fld p ''id'')) procs) \<inter> set seen = {}"
proof (induction reg seen tg procs rule: validate_entries.induct)
  case (2 reg seen tg proc procs)
  obtain d i t where d: "proc = PDict d" "dict_get d ''id'' = Some i" and v: "validate_procedure reg proc = Inr ()"
      and new: "py_str i \<notin> set seen" and step: "validate_entries reg (py_str i # seen) (t # tg) procs = Inr ()"
      and t: "target_of proc = Inr t" "\<not> list_ex (\<lambda>u. py_eq (fst t) (fst u) \<and> py_eq (snd t) (snd u)) tg"
    using "2.prems" by (auto simp: bind_exn_Inr with_item_Inr Let_def split: if_splits)
  have "(\<forall>p \<in> set procs. validate_procedure reg p = Inr ()) \<and> distinct (map (\<lambda>p. py_str (fld p ''id'')) procs)
      \<and> set (map (\<lambda>p. py_str (fld p ''id'')) procs) \<inter> set (py_str i # seen) = {}"
    by (rule "2.IH" [OF refl new t(2) step])
  then show ?case using d v new by auto
qed simp

lemma validate_catalogue_Inr:
  assumes "validate_catalogue reg data = Inr cat"
  shows "(\<forall>p \<in> set cat. validate_procedure reg p = Inr ()) \<and> distinct (map (\<lambda>p. py_str (fld p ''id'')) cat)"
  using assms validate_entries_Inr [of reg "[]" "[]"]
  by (auto simp: validate_catalogue_def bind_exn_Inr split: option.splits pyval.splits if_splits)

lemma validate_procedure_parts:
  assumes "validate_procedure reg p = Inr ()" "fld p ''kind'' \<noteq> PStr ''no_procedure''"
  shows "\<exists>pid c. validate_header pid p = Inr () \<and> validate_parts reg pid p c = Inr ()"
proof -
  obtain d where d: "p = PDict d" using assms(1) by (auto simp: validate_procedure_def get_or_Inr bind_exn_Inr)
  then have "dict_get d ''kind'' \<noteq> Some (PStr ''no_procedure'')" using assms(2) by (auto simp: fld_def the_default_def)
  then show ?thesis using assms(1) by (auto simp: validate_procedure_def bind_exn_Inr with_item_Inr Let_def d split: if_splits)
qed

lemma no_id_invalid: "\<not> rx_full id_rx ''<no id>''"
  by code_simp

lemma validate_procedure_id: "validate_procedure reg p = Inr () \<Longrightarrow> \<exists>s. fld p ''id'' = PStr s \<and> rx_full id_rx s"
  by (auto simp: validate_procedure_def bind_exn_Inr get_or_Inr Let_def fld_def the_default_def matches_def no_id_invalid
      split: if_splits option.splits pyval.splits)

definition is_fix :: "pyval \<Rightarrow> bool" where
  "is_fix p = (fld p ''kind'' \<noteq> PStr ''no_procedure'')"

text \<open>An entry of the shipped catalogue (expiring a user's SSSD cache entry), with the provenance left open.\<close>

definition is_true_of :: "string \<Rightarrow> string \<Rightarrow> pyval" where
  "is_true_of r f = PDict [(''left'', PDict [(''ref'', PStr r), (''field'', PStr f)]), (''op'', PStr ''is_true'')]"

definition fixture_only :: pyval where
  "fixture_only = PDict [(''tier'', PStr ''FIXTURE_ONLY''), (''sources'', PList []), (''tests'', PList [PStr ''tests/client/t.py''])]"

definition built_in :: pyval where
  "built_in =
     PDict [(''tier'', PStr ''BUILT_IN_VERIFIED''),
            (''sources'', PList [PDict [(''kind'', PStr ''upstream-docs''), (''ref'', PStr ''https://sssd.io/d'')]]),
            (''verified_on'', PList [PDict [(''freeipa'', PStr ''4.12''), (''os'', PStr ''fedora-41''), (''tier'', PStr ''LIVE''),
                (''evidence'', PStr ''https://github.com/a/b/actions/runs/12345'')]]),
            (''reviews'', PList [PDict [(''by'', PStr ''r''), (''date'', PStr ''2025-01-02''), (''scope'', PStr ''s''), (''independent'', PBool True)]]),
            (''tests'', PList [PStr ''tests/client/t.py''])]"

definition expire_entry :: "pyval \<Rightarrow> pyval" where
  "expire_entry prov =
     PDict [(''kind'', PStr ''procedure''), (''id'', PStr ''proc.expire''), (''title'', PStr ''Fetch again''),
       (''resolves'', PDict [(''diagnosis'', PStr ''client.stale'')]), (''min_confidence'', PStr ''MEDIUM''),
       (''bindings'', PDict [(''user'', PDict [(''type'', PStr ''ipa_user'')])]),
       (''applies_to'', PDict [(''freeipa_min'', PStr ''4.9''), (''roles'', PList [PStr ''ipa-client''])]),
       (''provenance'', prov),
       (''investigate'', PList [PDict [(''id'', PStr ''tool''), (''check'', PStr ''binary.present''),
          (''params'', PDict [(''name'', PStr ''sss_cache'')]), (''label'', PStr ''Tool'')]]),
       (''prerequisites'', PList [PDict [(''id'', PStr ''tool''), (''text'', PStr ''Installed''), (''when'', is_true_of ''tool'' ''present'')]]),
       (''steps'', PList [PDict [(''id'', PStr ''expire''), (''text'', PStr ''Expire {bind.user}''), (''run_on'', PStr ''local''),
          (''command'', PList [PStr ''sss_cache'', PStr ''-u'', PDict [(''bind'', PStr ''user''), (''type'', PStr ''ipa_user'')]]),
          (''risk'', PStr ''LOW''), (''changes'', PList [PStr ''cache-expire'']), (''expected'', PStr ''Nothing'')]]),
       (''what_changes'', PList []), (''rollback'', PList [PDict [(''text'', PStr ''Nothing'')]]),
       (''verify'', PList [PDict [(''text'', PStr ''Resolves''), (''check'', PStr ''nss.user''),
          (''params'', PDict [(''user'', PDict [(''bind'', PStr ''user'')])]), (''when'', is_true_of ''this'' ''found'')]])]"

definition sample_registry :: check_params_table where
  "sample_registry = [(''binary.present'', [''name'']), (''nss.user'', [''user''])]"

definition sample_catalogue :: "pyval \<Rightarrow> pyval" where
  "sample_catalogue prov = PDict [(''schema'', PInt 1), (''procedures'', PList [expire_entry prov])]"

lemma sample_accepted: "validate_catalogue sample_registry (sample_catalogue fixture_only) = Inr [expire_entry fixture_only]"
  by code_simp
lemma built_in_accepted: "validate_catalogue sample_registry (sample_catalogue built_in) = Inr [expire_entry built_in]"
  by code_simp

section \<open>Properties\<close>

text \<open>C15: The catalogue fails closed, and every fix in it runs only what it may. If reading, parsing or validating the file
  fails anywhere, no procedure at all is loaded. Every fix that is loaded has at least one step; every step and every
  rollback command runs one of the eight fix programs, every command to confirm first a read-only inspection program
  (\<open>readlink\<close> with no option but \<open>-f\<close>), each argument is either a literal of the closed character set or a reference whose
  value is validated as a declared type, and a step's risk is LOW, MEDIUM or HIGH and at least what each declared change
  requires.\<close>

theorem loaded_fixes_allowed:
  assumes "load_catalogue reg show_exn source None = (procs, err)"
  shows "(err \<noteq> None \<longrightarrow> procs = []) \<and> (\<forall>p \<in> set procs. is_fix p \<longrightarrow> procedure_allowed p)"
proof (cases "bind_exn source (validate_catalogue reg)")
  case (Inr cat)
  then have l: "procs = cat" "err = None" using assms by (simp_all add: load_catalogue_def)
  obtain data where "validate_catalogue reg data = Inr cat" using Inr by (auto simp: bind_exn_Inr)
  then have v: "\<forall>p \<in> set cat. validate_procedure reg p = Inr ()" using validate_catalogue_Inr by blast
  have "procedure_allowed p" if "p \<in> set cat" "is_fix p" for p
    using validate_procedure_parts [of reg p] v that validate_parts_allowed unfolding is_fix_def by blast
  then show ?thesis using l by simp
qed (use assms in \<open>auto simp: load_catalogue_def\<close>)

theorem loaded_fixes_allowed_witness:
  "load_catalogue sample_registry exn_name (Inr (sample_catalogue fixture_only)) None = ([expire_entry fixture_only], None)
   \<and> procedure_allowed (expire_entry fixture_only)"
proof -
  have l: "load_catalogue sample_registry exn_name (Inr (sample_catalogue fixture_only)) None = ([expire_entry fixture_only], None)"
    by (simp add: load_catalogue_def sample_accepted)
  have "is_fix (expire_entry fixture_only)" by (simp add: is_fix_def expire_entry_def fld_def dict_get_def the_default_def)
  then show ?thesis using l loaded_fixes_allowed [OF l] by simp
qed

text \<open>A procedure of an accepted catalogue may call itself \<open>BUILT_IN_VERIFIED\<close> only with a live-lab record whose evidence is
  the URL of a CI run, an authoritative source, an independent review and a lower bound of the FreeIPA version.\<close>

theorem verified_tier_earned:
  assumes "validate_catalogue reg data = Inr cat" "p \<in> set cat" "is_fix p"
    "fld (fld p ''provenance'') ''tier'' = PStr ''BUILT_IN_VERIFIED''"
  shows "verified_by p"
proof -
  obtain pid where "validate_header pid p = Inr ()"
    using validate_catalogue_Inr [OF assms(1)] assms(2,3) validate_procedure_parts [of reg p] unfolding is_fix_def by blast
  then have "validate_provenance pid p = Inr ()" by (simp add: validate_header_def)
  then show ?thesis by (rule validate_provenance_verified) (rule assms(4))
qed

theorem verified_tier_earned_witness:
  "validate_catalogue sample_registry (sample_catalogue built_in) = Inr [expire_entry built_in] \<and> verified_by (expire_entry built_in)"
proof -
  have "is_fix (expire_entry built_in)" "fld (fld (expire_entry built_in) ''provenance'') ''tier'' = PStr ''BUILT_IN_VERIFIED''"
    by (simp_all add: is_fix_def expire_entry_def built_in_def fld_def dict_get_def the_default_def)
  then show ?thesis using built_in_accepted verified_tier_earned [OF built_in_accepted, of "expire_entry built_in"] by simp
qed

end
