(* ===== verification/ResolveProps.thy ===== *)
theory ResolveProps
  imports KnowledgeProps
begin

text \<open>
  What the resolution engine guarantees: which resolutions are offered and what their commands are, that nothing else
  carries a fix, and what a verify run accepts.
\<close>

section \<open>Stages\<close>

lemma bind_sum_simps [simp]: "bind_sum (Inl e) f = Inl e" "bind_sum (Inr x) f = f x"
  by (simp_all add: bind_sum_def)

lemma bind_sum_Inr: "bind_sum r f = Inr y \<longleftrightarrow> (\<exists>x. r = Inr x \<and> f x = Inr y)"
  by (cases r) simp_all

lemma lift_exn_Inr [simp]: "lift_exn r = Inr x \<longleftrightarrow> r = Inr x"
  by (cases r) (simp_all add: lift_exn_def)

lemma map_sum_list_Inr: "map_sum_list f xs = Inr ys \<longleftrightarrow> list_all2 (\<lambda>x y. f x = Inr y) xs ys"
  by (induction xs arbitrary: ys) (auto simp: bind_sum_Inr list_all2_Cons1)

text \<open>A resolution without a fix; every stage keeps it so, and so does every early return.\<close>

definition no_fix :: "resolution \<Rightarrow> bool" where
  "no_fix r = (rz_status r \<noteq> OFFERED \<and> rz_steps r = [] \<and> rz_baseline r = None \<and> \<not> rz_definitive r)"

definition flow_ok :: "('a \<Rightarrow> bool) \<Rightarrow> 'a flow \<Rightarrow> bool" where
  "flow_ok P m = (case m of Go x \<Rightarrow> P x | Done r \<Rightarrow> no_fix r | Boom e \<Rightarrow> True)"

lemma flow_ok_simps [simp]: "flow_ok P (Go x) = P x" "flow_ok P (Done r) = no_fix r" "flow_ok P (Boom e)"
  by (simp_all add: flow_ok_def)

lemma bind_flow_simps [simp]: "bind_flow (Go x) f = f x" "bind_flow (Done r) f = Done r" "bind_flow (Boom e) f = Boom e"
  by (simp_all add: bind_flow_def)

lemma bind_flow_Go: "bind_flow m f = Go y \<longleftrightarrow> (\<exists>x. m = Go x \<and> f x = Go y)"
  by (cases m) simp_all

lemma try_exn_Go: "try_exn r f = Go y \<longleftrightarrow> (\<exists>x. r = Inr x \<and> f x = Go y)"
  by (cases r) (simp_all add: try_exn_def)

lemma on_unknown_Go: "on_unknown r h f = Go y \<longleftrightarrow> (\<exists>x. r = Inr x \<and> f x = Go y) \<or> (\<exists>w. r = Inl (Unknown w) \<and> h w = Go y)"
  by (auto simp: on_unknown_def split: sum.splits stuck.splits)

lemma flow_ok_bind: "flow_ok P m \<Longrightarrow> (\<And>x. m = Go x \<Longrightarrow> P x \<Longrightarrow> flow_ok Q (f x)) \<Longrightarrow> flow_ok Q (bind_flow m f)"
  by (cases m) simp_all

lemma flow_ok_try: "(\<And>x. r = Inr x \<Longrightarrow> flow_ok Q (f x)) \<Longrightarrow> flow_ok Q (try_exn r f)"
  by (cases r) (simp_all add: try_exn_def)

lemma flow_ok_unknown:
  "(\<And>w. flow_ok Q (h w)) \<Longrightarrow> (\<And>x. r = Inr x \<Longrightarrow> flow_ok Q (f x)) \<Longrightarrow> flow_ok Q (on_unknown r h f)"
  by (auto simp: on_unknown_def split: sum.splits stuck.splits)

lemma no_fix_because [simp]: "no_fix (because w r) = no_fix r"
  by (simp add: no_fix_def because_def)

lemma no_fix_updates [simp]:
  "no_fix (r\<lparr>rz_reasons := x\<rparr>) = no_fix r" "no_fix (r\<lparr>rz_checks := c\<rparr>) = no_fix r"
  "no_fix (r\<lparr>rz_prerequisites := p\<rparr>) = no_fix r"
  "no_fix (r\<lparr>rz_confirm_first := a, rz_what_changes := b, rz_rollback := rb, rz_verify := v\<rparr>) = no_fix r"
  by (simp_all add: no_fix_def)

lemma statuses [simp]: "WITHHELD \<noteq> OFFERED" "NONE \<noteq> OFFERED"
  by (simp_all add: WITHHELD_def NONE_def OFFERED_def)

lemma started_no_fix: "started replay d proc = Inr r \<Longrightarrow> no_fix r \<and> rz_replay r = replay"
  by (auto simp: started_def with_item_Inr bind_exn_Inr get_or_Inr no_fix_def new_resolution_def)

lemma before_checks_ok: "flow_ok (\<lambda>(bs, r). no_fix r \<and> rz_replay r = replay) (before_checks replay env d proc)"
proof -
  have est: "flow_ok (\<lambda>_. True) (established d proc r)" if "no_fix r" for r
    using that by (auto simp: established_def Let_def intro!: flow_ok_try split: pyval.splits)
  have bound: "flow_ok (\<lambda>(bs, r'). no_fix r' \<and> rz_replay r' = rz_replay r) (bound_values d proc r)" if "no_fix r" for r
    using that by (auto simp: bound_values_def Let_def intro!: flow_ok_try split: option.splits)
  have appl: "flow_ok (\<lambda>_. True) (applicable env proc r)" if "no_fix r" for r
    using that by (auto simp: applicable_def Let_def intro!: flow_ok_try split: option.splits)
  show ?thesis unfolding before_checks_def
    using started_no_fix [of replay d proc] est bound appl
    by (fastforce intro!: flow_ok_try flow_ok_bind [where P = "\<lambda>_. True"] flow_ok_bind [where P = "\<lambda>(bs, r'). no_fix r' \<and> rz_replay r' = replay"])
qed

text \<open>The checks change only what was checked.\<close>

definition like :: "resolution \<Rightarrow> resolution \<Rightarrow> bool" where
  "like r r' = (no_fix r' \<and> rz_replay r' = rz_replay r)"

lemma inv_once_ok: "no_fix r \<Longrightarrow> flow_ok (\<lambda>(own', r'). like r r') (fst (inv_once en iv sc own r rn))"
  by (auto simp: inv_once_def Let_def like_def intro!: flow_ok_try split: sum.splits stuck.splits prod.splits)

lemma inv_once_Go: "inv_once en iv sc own r rn = (Go (own', r'), rn') \<Longrightarrow> no_fix r \<Longrightarrow> like r r'"
  using inv_once_ok [of r en iv sc own rn] by simp

lemma inv_once_Done: "inv_once en iv sc own r rn = (Done r', rn') \<Longrightarrow> no_fix r \<Longrightarrow> no_fix r'"
  using inv_once_ok [of r en iv sc own rn] by simp

lemma like_trans: "like a b \<Longrightarrow> like b c \<Longrightarrow> like a c"
  by (simp add: like_def)

lemma like_no_fix: "like a b \<Longrightarrow> no_fix b"
  by (simp add: like_def)

lemma flow_ok_mono: "flow_ok P m \<Longrightarrow> (\<And>x. P x \<Longrightarrow> Q x) \<Longrightarrow> flow_ok Q m"
  by (cases m) simp_all

lemma inv_items_ok: "no_fix r \<Longrightarrow> flow_ok (\<lambda>(ts', r'). like r r') (fst (inv_items en bs globals iv ts r rn))"
proof (induction en bs globals iv ts r rn rule: inv_items.induct)
  case (2 en bs globals iv it own ts r rn)
  obtain fl rn' where o: "inv_once en iv (item_scope bs globals (it, own)) own r rn = (fl, rn')" by fastforce
  show ?case
  proof (cases fl)
    case (Go x)
    obtain own' r' where x: "x = (own', r')" by (cases x)
    have l: "like r r'" by (rule inv_once_Go [OF o [unfolded Go x] "2.prems"])
    have "flow_ok (\<lambda>(ts', r''). like r' r'') (fst (inv_items en bs globals iv ts r' rn'))"
      by (rule "2.IH" [OF o [symmetric] Go x [symmetric] like_no_fix [OF l]])
    then show ?thesis using o Go x l
      by (auto split: prod.splits intro!: flow_ok_bind elim: flow_ok_mono like_trans)
  next
    case (Done r')
    then show ?thesis using o inv_once_Done [OF o [unfolded Done] "2.prems"] by simp
  qed (use o in simp)
qed (simp add: like_def)

lemma inv_all_ok: "no_fix r \<Longrightarrow> flow_ok (\<lambda>(g, tg', r'). like r r') (fst (inv_all en bs ivs globals tg r rn))"
proof (induction en bs ivs globals tg r rn rule: inv_all.induct)
  case (2 en bs iv ivs globals tg r rn)
  show ?case
  proof (cases "loop_of iv")
    case (Inr name)
    note nm = Inr
    show ?thesis
    proof (cases "truthy name")
      case True
      show ?thesis
      proof (cases "named_targets tg name")
        case (Inr ts)
        obtain fl rn' where o: "inv_items en bs globals iv ts r rn = (fl, rn')" by fastforce
        have ok: "flow_ok (\<lambda>(ts', r'). like r r') fl" using inv_items_ok [OF "2.prems", of en bs globals iv ts rn] o by simp
        show ?thesis
        proof (cases fl)
          case (Go x)
          obtain ts' r' where x: "x = (ts', r')" by (cases x)
          have l: "like r r'" using ok Go x by simp
          have "flow_ok (\<lambda>(g, tg', r''). like r' r'')
              (fst (inv_all en bs ivs globals (dict_set (the_default [] (as_str name)) ts' tg) r' rn'))"
            by (rule "2.IH"(1) [OF nm True Inr o [symmetric] Go x [symmetric] like_no_fix [OF l]])
          then show ?thesis using nm True Inr o Go x l by (auto elim: flow_ok_mono intro: like_trans)
        qed (use nm True Inr o ok in simp_all)
      qed (use nm True in simp)
    next
      case False
      obtain fl rn' where o: "inv_once en iv (base_scope bs globals) globals r rn = (fl, rn')" by fastforce
      have ok: "flow_ok (\<lambda>(ts', r'). like r r') fl" using inv_once_ok [OF "2.prems", of en iv _ globals rn] o by (metis fst_conv)
      show ?thesis
      proof (cases fl)
        case (Go x)
        obtain g' r' where x: "x = (g', r')" by (cases x)
        have l: "like r r'" using ok Go x by simp
        have "flow_ok (\<lambda>(g, tg', r''). like r' r'') (fst (inv_all en bs ivs g' tg r' rn'))"
          by (rule "2.IH"(2) [OF nm False o [symmetric] Go x [symmetric] like_no_fix [OF l]])
        then show ?thesis using nm False o Go x l by (auto elim: flow_ok_mono intro: like_trans)
      qed (use nm False o ok in simp_all)
    qed
  qed simp
qed (simp add: like_def)

lemma no_clash_ok: "no_fix r \<Longrightarrow> flow_ok (\<lambda>_. True) (no_clash tg r)"
  by (induction tg r rule: no_clash.induct) (auto split: option.splits)

lemma withhold_all_ok: "no_fix r \<Longrightarrow> flow_ok (\<lambda>(tg', r'). like r r') (withhold_all bs globals ws tg r)"
proof (induction bs globals ws tg r rule: withhold_all.induct)
  case (2 bs globals w ws tg r)
  have more: "flow_ok (\<lambda>(tg', r'). like r r') (withhold_all bs globals ws tg1 r1)"
    if "like r r1" "flow_ok (\<lambda>(tg', r'). like r1 r') (withhold_all bs globals ws tg1 r1)" for tg1 r1
    using that by (auto elim: flow_ok_mono intro: like_trans)
  show ?case
    apply (simp only: withhold_all.simps)
    apply (rule flow_ok_try)
    subgoal for name
      apply (cases "truthy name")
      subgoal
        apply (simp only: if_True)
        apply (rule flow_ok_try)
        apply (rule flow_ok_try)
        subgoal for ts x
          apply (cases x)
          subgoal for kept why
            apply (simp only: prod.case)
            apply (rule more)
            subgoal using "2.prems" by (simp add: like_def)
            subgoal by (rule "2.IH"(1)) (use "2.prems" in simp_all)
            done
          done
        done
      subgoal
        apply (simp only: if_False)
        apply (rule flow_ok_unknown)
        subgoal using "2.prems" by simp
        subgoal for hit
          by (cases hit) (use "2.prems" "2.IH"(2) in \<open>auto intro!: flow_ok_try\<close>)
        done
      done
    done
qed (simp add: like_def)

section \<open>An offered fix\<close>

text \<open>The whole run behind an offered fix: every gate passed.\<close>

record 'r offer_run =
  or_proc :: pyval
  or_values :: pydict
  or_started :: resolution
  or_invs :: "pyval list"
  or_globals :: checks
  or_targets :: targets
  or_checked :: resolution
  or_withhold :: "pyval list"
  or_kept :: targets
  or_left :: resolution
  or_prereqs :: "prerequisite list"
  or_parts :: fix_parts
  or_after :: 'r

definition passed :: "'r engine \<Rightarrow> environment_info option \<Rightarrow> diagnosis \<Rightarrow> 'r \<Rightarrow> 'r offer_run \<Rightarrow> resolution \<Rightarrow> bool" where
  "passed en env d rn x r =
     (let proc = or_proc x; bs = set_lists (or_kept x) (or_values x)
      in before_checks (en_replay en) env d proc = Go (or_values x, or_started x)
       \<and> bind_exn (get_or proc ''investigate'' (PList [])) iter = Inr (or_invs x)
       \<and> inv_all en (or_values x) (or_invs x) [] (targets_of (spec_of proc) (or_values x)) (or_started x) rn
           = (Go (or_globals x, or_targets x, or_checked x), or_after x)
       \<and> no_clash (or_targets x) (or_checked x) = Go ()
       \<and> bind_exn (get_or proc ''withhold_if'' (PList [])) iter = Inr (or_withhold x)
       \<and> withhold_all (or_values x) (or_globals x) (or_withhold x) (or_targets x) (or_checked x) = Go (or_kept x, or_left x)
       \<and> \<not> nothing_left (or_kept x)
       \<and> bind_exn (bind_exn (get_or proc ''prerequisites'' (PList [])) iter) (prerequisites_of (base_scope bs (or_globals x))) = Inr (or_prereqs x)
       \<and> all_met (or_prereqs x)
       \<and> parts_of proc (scopes_of bs (or_globals x) (or_kept x)) = Inr (or_parts x)
       \<and> fp_steps (or_parts x) \<noteq> [] \<and> step_clash [] (fp_steps (or_parts x)) = Inr None
       \<and> offer (en_sha256 en) env d proc bs (or_parts x) ((or_left x)\<lparr>rz_prerequisites := or_prereqs x\<rparr>) = Inr r)"

lemma finish_cases:
  assumes "no_fix r"
  shows "flow_ok (\<lambda>r'. \<exists>p. parts_of proc (scopes_of bs globals tg) = Inr p \<and> fp_steps p \<noteq> [] \<and> step_clash [] (fp_steps p) = Inr None
           \<and> offer sha env d proc bs p r = Inr r') (finish sha env d proc bs globals tg r)"
  using assms by (auto simp: finish_def intro!: flow_ok_unknown flow_ok_try split: option.splits)

lemma offer_status: "offer sha env d proc bs p r = Inr r' \<Longrightarrow> rz_status r' = OFFERED"
  by (auto simp: offer_def Let_def bind_exn_Inr with_item_Inr split: prod.splits)

lemma after_checks_cases:
  assumes "no_fix r"
  shows "flow_ok (\<lambda>r'. \<exists>ws tg' r2 ps p. no_clash tg r = Go () \<and> bind_exn (get_or proc ''withhold_if'' (PList [])) iter = Inr ws
           \<and> withhold_all bs globals ws tg r = Go (tg', r2) \<and> \<not> nothing_left tg'
           \<and> bind_exn (bind_exn (get_or proc ''prerequisites'' (PList [])) iter) (prerequisites_of (base_scope (set_lists tg' bs) globals)) = Inr ps
           \<and> all_met ps \<and> parts_of proc (scopes_of (set_lists tg' bs) globals tg') = Inr p \<and> fp_steps p \<noteq> []
           \<and> step_clash [] (fp_steps p) = Inr None \<and> offer sha env d proc (set_lists tg' bs) p (r2\<lparr>rz_prerequisites := ps\<rparr>) = Inr r')
         (after_checks sha env d proc bs (globals, tg, r))"
proof -
  define W where "W = bind_exn (get_or proc ''withhold_if'' (PList [])) iter"
  have wh: "flow_ok (\<lambda>(tg', r2). like r r2 \<and> (\<exists>ws. W = Inr ws \<and> withhold_all bs globals ws tg r = Go (tg', r2)))
      (try_exn W (\<lambda>ws. withhold_all bs globals ws tg r))"
  proof (rule flow_ok_try)
    fix ws assume "W = Inr ws"
    then show "flow_ok (\<lambda>(tg', r2). like r r2 \<and> (\<exists>ws. W = Inr ws \<and> withhold_all bs globals ws tg r = Go (tg', r2)))
        (withhold_all bs globals ws tg r)"
      using withhold_all_ok [OF assms, of bs globals ws tg] by (cases "withhold_all bs globals ws tg r") auto
  qed
  show ?thesis
    unfolding after_checks_def prod.case W_def [symmetric]
    apply (rule flow_ok_bind [OF no_clash_ok [OF assms]])
    apply (rule flow_ok_bind [OF wh])
    apply (clarsimp simp: Let_def like_def)
    apply (intro conjI impI flow_ok_try)
    apply (auto intro!: flow_ok_mono [OF finish_cases])
    done
qed

lemma resolve_with_cases:
  assumes "resolve_with en env d proc rn = (fl, rn')"
  shows "flow_ok (\<lambda>r. \<exists>x. or_proc x = proc \<and> or_after x = rn' \<and> passed en env d rn x r) fl"
proof (cases "before_checks (en_replay en) env d proc")
  case (Go y)
  obtain bs r0 where y: "y = (bs, r0)" by (cases y)
  have r0: "no_fix r0" using before_checks_ok [of "en_replay en" env d proc] Go y by simp
  show ?thesis
  proof (cases "bind_exn (get_or proc ''investigate'' (PList [])) iter")
    case (Inr ivs)
    obtain fl1 rn1 where inv: "inv_all en bs ivs [] (targets_of (spec_of proc) bs) r0 rn = (fl1, rn1)" by fastforce
    have fl: "fl = bind_flow fl1 (after_checks (en_sha256 en) env d proc bs)" "rn' = rn1"
      using assms Go y Inr inv by (auto simp: resolve_with_def)
    have ok: "flow_ok (\<lambda>(g, tg', r'). like r0 r') fl1"
      using inv_all_ok [OF r0, of en bs ivs "[]" "targets_of (spec_of proc) bs" rn] inv by simp
    show ?thesis unfolding fl
    proof (rule flow_ok_bind [OF ok])
      fix st assume st: "fl1 = Go st" "case st of (g, tg', r') \<Rightarrow> like r0 r'"
      obtain g tg r1 where s: "st = (g, tg, r1)" "no_fix r1" using st(2) by (cases st) (auto simp: like_def)
      show "flow_ok (\<lambda>r. \<exists>x. or_proc x = proc \<and> or_after x = rn1 \<and> passed en env d rn x r) (after_checks (en_sha256 en) env d proc bs st)"
        unfolding s(1)
      proof (rule flow_ok_mono [OF after_checks_cases [OF s(2)]], elim exE conjE)
        fix r ws tg' r2 ps p
        assume h: "no_clash tg r1 = Go ()" "bind_exn (get_or proc ''withhold_if'' (PList [])) iter = Inr ws"
          "withhold_all bs g ws tg r1 = Go (tg', r2)" "\<not> nothing_left tg'"
          "bind_exn (bind_exn (get_or proc ''prerequisites'' (PList [])) iter) (prerequisites_of (base_scope (set_lists tg' bs) g)) = Inr ps"
          "all_met ps" "parts_of proc (scopes_of (set_lists tg' bs) g tg') = Inr p" "fp_steps p \<noteq> []"
          "step_clash [] (fp_steps p) = Inr None"
          "offer (en_sha256 en) env d proc (set_lists tg' bs) p (r2\<lparr>rz_prerequisites := ps\<rparr>) = Inr r"
        define x where "x = \<lparr>or_proc = proc, or_values = bs, or_started = r0, or_invs = ivs, or_globals = g, or_targets = tg,
          or_checked = r1, or_withhold = ws, or_kept = tg', or_left = r2, or_prereqs = ps, or_parts = p, or_after = rn1\<rparr>"
        have "passed en env d rn x r"
          unfolding passed_def Let_def x_def offer_run.simps using h Go y Inr inv st(1) s(1) by simp
        then show "\<exists>x. or_proc x = proc \<and> or_after x = rn1 \<and> passed en env d rn x r" by (intro exI [of _ x]) (simp add: x_def)
      qed
    qed
  qed (use assms Go y in \<open>auto simp: resolve_with_def\<close>)
qed (use assms before_checks_ok [of "en_replay en" env d proc] in \<open>auto simp: resolve_with_def\<close>)

lemma passed_offered: "passed en env d rn x r \<Longrightarrow> rz_status r = OFFERED"
  by (auto simp: passed_def Let_def intro: offer_status)

lemma flow_result_Some: "flow_result fl = Inr (Some r) \<Longrightarrow> flow_ok P fl \<Longrightarrow> P r \<or> no_fix r"
  by (cases fl) (auto simp: flow_result_def)

lemma resolve_cases:
  assumes "resolve_diagnosis en cat env d rn = (Inr (Some r), rn')"
  shows "no_fix r \<or> (\<exists>key x. d_resolution_key d = Some key \<and> procedure_for cat d key = Inr (Some (or_proc x)) \<and> is_fix (or_proc x)
           \<and> or_after x = rn' \<and> passed en env d rn x r)"
proof -
  obtain key where key: "d_resolution_key d = Some key" "key \<noteq> []"
    using assms by (auto simp: resolve_diagnosis_def split: option.splits if_splits)
  obtain proc where proc: "procedure_for cat d key = Inr (Some proc)"
    using assms key by (auto simp: resolve_diagnosis_def split: sum.splits option.splits)
  show ?thesis
  proof (cases "dict_get (as_dict proc) ''kind'' = Some (PStr ''no_procedure'')")
    case True
    then have "declined d proc = Inr r" using assms key proc by (auto simp: resolve_diagnosis_def map_sum_def split: sum.splits)
    then have "no_fix r" by (auto simp: declined_def with_item_Inr bind_exn_Inr get_or_Inr no_fix_def new_resolution_def)
    then show ?thesis by blast
  next
    case False
    obtain fl rn1 where w: "resolve_with en env d proc rn = (fl, rn1)" by fastforce
    then have r: "flow_result fl = Inr (Some r)" "rn1 = rn'" using assms key proc False by (auto simp: resolve_diagnosis_def)
    have "is_fix proc" using False by (auto simp: is_fix_def fld_def the_default_def split: option.splits)
    then show ?thesis using flow_result_Some [OF r(1) resolve_with_cases [OF w]] key proc r(2) by blast
  qed
qed

lemma offered_run:
  assumes "resolve_diagnosis en cat env d rn = (Inr (Some r), rn')" "rz_status r = OFFERED"
  obtains key x where "d_resolution_key d = Some key" "procedure_for cat d key = Inr (Some (or_proc x))" "is_fix (or_proc x)"
    "or_after x = rn'" "passed en env d rn x r"
  using resolve_cases [OF assms(1)] assms(2) by (auto simp: no_fix_def)

section \<open>The gates\<close>

lemma least_by_member: "least_by m xs = Inr p \<Longrightarrow> p \<in> snd ` set (m # xs)"
  by (induction m xs rule: least_by.induct) (force simp: bind_exn_Inr split: if_splits)+

lemma zip_outcome: "map f xs = map Inr ys \<Longrightarrow> (y, x) \<in> set (zip ys xs) \<Longrightarrow> x \<in> set xs \<and> f x = Inr y"
  by (induction xs arbitrary: ys) auto

lemma procedure_for_selects:
  assumes "procedure_for cat d key = Inr (Some proc)"
  shows "proc \<in> set cat \<and> selects d key proc = Inr True"
proof -
  obtain sel where sel: "sequence_exn (map (selects d key) cat) = Inr sel" using assms by (auto simp: procedure_for_def bind_exn_Inr)
  define ms where "ms = map snd (filter fst (zip sel cat))"
  obtain ids where ids: "sequence_exn (map (\<lambda>p. get_item p ''id'') ms) = Inr ids"
    using assms sel by (auto simp: procedure_for_def bind_exn_Inr Let_def ms_def)
  obtain m xs where z: "zip ids ms = m # xs" "least_by m xs = Inr proc"
    using assms sel ids by (auto simp: procedure_for_def bind_exn_Inr Let_def ms_def split: list.splits)
  have "proc \<in> snd ` set (zip ids ms)" using least_by_member [OF z(2)] z(1) by simp
  then have "proc \<in> set ms" using set_zip_rightD by fastforce
  then have "(True, proc) \<in> set (zip sel cat)" unfolding ms_def by auto
  then show ?thesis by (rule zip_outcome [OF sequence_exn_Some [OF sel]])
qed

lemma established_Go:
  assumes "established d proc r = Go u"
  shows "d_priority d \<noteq> RELATED_SYMPTOM \<and> d_status d = DIAGNOSED
    \<and> needed_rank (fld proc ''min_confidence'') \<le> conf_rank (c_level (d_confidence d))"
  using assms by (auto simp: established_def Let_def try_exn_Go get_item_Inr split: if_splits pyval.splits)

lemma bound_values_Go: "bound_values d proc r = Go (bs, r') \<Longrightarrow> \<exists>why. bindings_of proc (d_bindings d) = Inr (Some bs, why)"
  by (auto simp: bound_values_def Let_def try_exn_Go split: option.splits)

definition in_range :: "pyval \<Rightarrow> nat list \<Rightarrow> bool" where
  "in_range a here =
     ((truthy (fld a ''freeipa_min'') \<longrightarrow> (\<exists>v. version_of (fld a ''freeipa_min'') = Some v \<and> v \<le> here))
      \<and> (truthy (fld a ''freeipa_below'') \<longrightarrow> (\<exists>v. version_of (fld a ''freeipa_below'') = Some v \<and> here < v)))"

lemma applicable_Go: "applicable env proc r = Go u \<Longrightarrow> \<exists>here. here_version env = Some here \<and> in_range (fld proc ''applies_to'') here"
  unfolding applicable_def fld_def [symmetric]
  by (auto simp: Let_def try_exn_Go version_less_def in_range_def linorder_not_less split: option.splits if_splits)

lemma before_checks_Go:
  assumes "before_checks replay env d proc = Go (bs, r)"
  shows "d_priority d \<noteq> RELATED_SYMPTOM \<and> d_status d = DIAGNOSED
    \<and> needed_rank (fld proc ''min_confidence'') \<le> conf_rank (c_level (d_confidence d))
    \<and> (\<exists>why. bindings_of proc (d_bindings d) = Inr (Some bs, why))
    \<and> (\<exists>here. here_version env = Some here \<and> in_range (fld proc ''applies_to'') here)"
  using assms established_Go bound_values_Go applicable_Go
  by (fastforce simp: before_checks_def try_exn_Go bind_flow_Go)

lemma entries_get_or: "bind_exn (get_or proc k (PList [])) iter = Inr xs \<Longrightarrow> entries proc k = xs"
  by (auto simp: bind_exn_Inr get_or_Inr entries_def iter_def the_default_def split: option.splits)

lemma withhold_all_Go:
  "withhold_all bs globals ws tg r = Go (tg', r') \<Longrightarrow> w \<in> set ws \<Longrightarrow> \<not> truthy (fld w ''for_each'')
     \<Longrightarrow> pred (base_scope bs globals) (fld w ''when'') = Inr False"
proof (induction bs globals ws tg r rule: withhold_all.induct)
  case (2 bs globals v ws tg r)
  obtain name where name: "loop_of v = Inr name" using "2.prems"(1) by (auto simp: try_exn_Go)
  have fe: "name = fld v ''for_each''"
    using name by (cases v) (auto simp: loop_of_def get_or_def fld_def the_default_def split: option.splits)
  show ?case
  proof (cases "truthy name")
    case True
    then show ?thesis using "2.prems" name fe by (auto simp: try_exn_Go split: prod.splits intro: "2.IH"(1))
  next
    case False
    obtain hit where hit: "bind_sum (lift_exn (get_item v ''when'')) (pred (base_scope bs globals)) = Inr hit" "\<not> hit"
        and rest1: "withhold_all bs globals ws tg r = Go (tg', r')"
      using "2.prems"(1) name False by (auto simp: try_exn_Go on_unknown_Go split: if_splits)
    have "pred (base_scope bs globals) (fld v ''when'') = Inr False"
      using hit by (auto simp: bind_sum_Inr get_item_Inr)
    then show ?thesis using "2.prems"(2,3) "2.IH"(2) [OF False hit(2) rest1] by auto
  qed
qed simp

lemma dedupe_by_Nil [simp]: "dedupe_by key same [] xs = [] \<longleftrightarrow> xs = []"
  by (cases xs) simp_all

lemma dedupe_by_subset: "set (dedupe_by key same seen xs) \<subseteq> set xs"
  by (induction key same seen xs rule: dedupe_by.induct) auto

lemma offer_fields:
  assumes "offer sha env d proc bs p r = Inr r'"
  shows "rz_steps r' = dedupe_by (\<lambda>s. (fs_id s, fs_argv s)) same_step [] (fp_steps p)
    \<and> rz_confirm_first r' = fp_confirm p \<and> rz_rollback r' = dedupe_by rollback_key (=) [] (fp_rollback p)
    \<and> rz_verify r' = fp_verify p \<and> rz_prerequisites r' = rz_prerequisites r
    \<and> max_risk (rz_steps r') = Inr (rz_risk r')
    \<and> (\<exists>definitive label. label_of proc env = Inr (definitive, label) \<and> rz_definitive r' = (definitive \<and> \<not> rz_replay r))
    \<and> rz_baseline r' = Some [(''procedure_id'', fld proc ''id''), (''procedure_digest'', PStr (procedure_digest sha proc)),
         (''bindings'', PDict bs), (''criteria_digest'', PStr (criteria_digest sha (fp_verify p) (d_diagnosis_id d)))]"
  using assms by (auto simp: offer_def Let_def bind_exn_Inr with_item_Inr simp del: append.simps split: prod.splits)


section \<open>The commands\<close>

text \<open>
  A command that is its template filled in: the program and the literal arguments are those of the catalogue, and in the place of
  a reference stands the value it has in the scope, as the validator of the type the reference declares returned it. No argument is
  empty or has a character outside letters, digits, blank and \<open>._@+/-,=:$%\<close>, and none that was filled in begins with a dash.
\<close>

definition arg_char :: "char \<Rightarrow> bool" where
  "arg_char c = (safe_char c \<or> c = CHR ''%'')"

definition filled_arg :: "scope \<Rightarrow> pyval \<Rightarrow> string \<Rightarrow> bool" where
  "filled_arg sc a s =
     (s \<noteq> [] \<and> list_all arg_char s
      \<and> (case a of
           PStr l \<Rightarrow> s = l
         | PDict d \<Rightarrow> hd s \<noteq> CHR ''-''
             \<and> (\<exists>ty raw. dict_get d ''type'' = Some (PStr ty) \<and> value_of sc a = Inr raw \<and> validate ty raw = Inr (Some s))
         | _ \<Rightarrow> False))"

definition filled_in :: "string list \<Rightarrow> scope \<Rightarrow> pyval \<Rightarrow> string list \<Rightarrow> bool" where
  "filled_in programs sc template argv =
     (\<exists>prog as args. template = PList (PStr prog # as) \<and> argv = prog # args \<and> prog \<in> set programs \<and> list_all2 (filled_arg sc) as args)"

lemma literal_chars: "rx_full arg_literal_rx s \<Longrightarrow> s \<noteq> [] \<and> list_all arg_char s"
proof -
  assume h: "rx_full arg_literal_rx s"
  have "rx_all arg_char arg_literal_rx" "rx_first (\<lambda>c. True) arg_literal_rx" "\<not> nullable arg_literal_rx"
    by (auto simp: arg_literal_rx_def rx_shape arg_char_def safe_char_def alnum_or_def)
  then show ?thesis using rx_full_chars [OF h] rx_full_first [OF h] by blast
qed

lemma validated_safe: "validate ty v = Inr (Some s) \<Longrightarrow> safe_value s"
  using validators_safe by (elim validate_cases) (auto simp: list_all_iff yields_safe_def)

lemma safe_arg: "safe_value s \<Longrightarrow> s \<noteq> [] \<and> hd s \<noteq> CHR ''-'' \<and> list_all arg_char s"
  by (auto simp: safe_value_def arg_char_def list_all_iff)

lemma arg_of_filled:
  assumes "arg_of sc a = Inr s" "arg_allowed a"
  shows "filled_arg sc a s"
proof (cases a)
  case (PStr x)
  then show ?thesis using assms literal_chars [of x] by (auto simp: arg_of_def arg_allowed_def filled_arg_def)
next
  case (PDict x)
  then obtain raw ty where v: "dict_get x ''type'' = Some (PStr ty)" "value_of sc a = Inr raw" "validate ty raw = Inr (Some s)"
    using assms by (auto simp: arg_of_def arg_allowed_def bind_sum_Inr get_item_Inr bind_exn_Inr split: option.splits)
  then show ?thesis using safe_arg [OF validated_safe [OF v(3)]] PDict by (simp add: filled_arg_def)
qed (use assms in \<open>simp_all add: arg_allowed_def\<close>)

lemma list_all2_witness: "list_all2 P xs ys \<Longrightarrow> y \<in> set ys \<Longrightarrow> \<exists>x \<in> set xs. P x y"
  by (induction rule: list_all2_induct) auto

lemma argv_of_filled:
  assumes "argv_of sc argv = Inr out" "argv_allowed programs argv"
  shows "filled_in programs sc argv out"
proof -
  obtain prog as where argv: "argv = PList (PStr prog # as)" "prog \<in> set programs" "\<forall>a \<in> set (PStr prog # as). arg_allowed a"
    using assms(2) by (auto simp: argv_allowed_def)
  then have "list_all2 (\<lambda>x y. arg_of sc x = Inr y) (PStr prog # as) out"
    using assms(1) by (simp only: argv_of_def iter_def pyval.case lift_exn_Inr bind_sum_Inr map_sum_list_Inr) (auto simp: lift_exn_def map_sum_list_Inr [symmetric] bind_sum_Inr)
  then obtain args where out: "out = prog # args" "list_all2 (\<lambda>x y. arg_of sc x = Inr y) as args"
    by (auto simp: list_all2_Cons1 arg_of_def)
  have "list_all2 (filled_arg sc) as args"
    using out(2) argv(3) by (induction rule: list_all2_induct) (auto intro: arg_of_filled)
  then show ?thesis using argv(1,2) out(1) by (auto simp: filled_in_def)
qed

lemma for_entries_member:
  assumes "for_entries scopes f v = Inr ys" "y \<in> set ys"
  shows "\<exists>es e sc scs zs. bind_exn v iter = Inr es \<and> e \<in> set es \<and> scopes e = Inr scs \<and> sc \<in> set scs \<and> f sc e = Inr zs \<and> y \<in> set zs"
proof -
  obtain es xss where es: "bind_exn v iter = Inr es" "list_all2 (\<lambda>e xs. for_entry scopes f e = Inr xs) es xss" "ys = concat xss"
    using assms(1) by (auto simp: for_entries_def bind_sum_Inr map_sum_list_Inr)
  then obtain xs where xs: "xs \<in> set xss" "y \<in> set xs" using assms(2) by auto
  obtain e where e: "e \<in> set es" "for_entry scopes f e = Inr xs" using list_all2_witness [OF es(2) xs(1)] by blast
  obtain scs zss where scs: "scopes e = Inr scs" "list_all2 (\<lambda>sc zs. f sc e = Inr zs) scs zss" "xs = concat zss"
    using e(2) by (auto simp: for_entry_def bind_sum_Inr map_sum_list_Inr)
  then obtain zs where "zs \<in> set zss" "y \<in> set zs" using xs(2) by auto
  then show ?thesis using list_all2_witness [OF scs(2)] es(1) e(1) scs(1) by metis
qed

lemma when_applies_Inr: "when_applies f sc e = Inr zs \<Longrightarrow> y \<in> set zs \<Longrightarrow> applies_here sc e = Inr True \<and> f sc e = Inr y"
  by (auto simp: when_applies_def bind_sum_Inr split: if_splits)

lemma step_of_command: "step_of sc e = Inr st \<Longrightarrow> argv_of sc (fld e ''command'') = Inr (fs_argv st) \<and> fs_id st = fld e ''id''
    \<and> fs_risk st = fld e ''risk'' \<and> iter (fld e ''changes'') = Inr (fs_changes st)"
  by (auto simp: step_of_def argv_at_def bind_sum_Inr get_item_Inr bind_exn_Inr)

lemma confirm_of_command: "confirm_of sc e = Inr c \<Longrightarrow> argv_of sc (fld e ''command'') = Inr (cf_argv c)"
  by (auto simp: confirm_of_def argv_at_def bind_sum_Inr get_item_Inr)

lemma rollback_of_command: "rollback_of sc e = Inr b \<Longrightarrow> rb_argv b = Some a \<Longrightarrow> has ''command'' e \<and> argv_of sc (fld e ''command'') = Inr a"
  by (auto simp: rollback_of_def argv_at_def bind_sum_Inr get_item_Inr split: if_splits)

lemma parts_of_Inr:
  assumes "parts_of proc scopes = Inr p"
  shows "for_entries scopes (when_applies step_of) (get_item proc ''steps'') = Inr (fp_steps p)
    \<and> for_entries scopes (when_applies rollback_of) (get_item proc ''rollback'') = Inr (fp_rollback p)
    \<and> (\<exists>cs. for_entries scopes (\<lambda>sc c. bind_sum (confirm_of sc c) (\<lambda>x. Inr [x])) (get_or proc ''confirm_first'' (PList [])) = Inr cs
          \<and> fp_confirm p = dedupe_by cf_argv (=) [] cs)
    \<and> build_verify proc scopes = Inr (fp_verify p)"
  using assms by (auto simp: parts_of_def bind_sum_Inr)

lemma entries_get_item: "bind_exn (get_item proc k) iter = Inr xs \<Longrightarrow> entries proc k = xs"
  by (auto simp: bind_exn_Inr get_item_Inr entries_def)

text \<open>A scope the procedure is filled in from, for one of its entries.\<close>

definition scope_for :: "(pyval \<Rightarrow> stuck + scope list) \<Rightarrow> pyval \<Rightarrow> scope \<Rightarrow> bool" where
  "scope_for scopes e sc = (\<exists>scs. scopes e = Inr scs \<and> sc \<in> set scs)"

lemma step_entry:
  assumes "parts_of proc scopes = Inr p" "st \<in> set (fp_steps p)"
  shows "\<exists>e \<in> set (entries proc ''steps''). \<exists>sc. scope_for scopes e sc \<and> applies_here sc e = Inr True \<and> step_of sc e = Inr st"
  using for_entries_member [OF parts_of_Inr [OF assms(1), THEN conjunct1] assms(2)] entries_get_item when_applies_Inr
  unfolding scope_for_def by metis

lemma rollback_entry:
  assumes "parts_of proc scopes = Inr p" "b \<in> set (fp_rollback p)"
  shows "\<exists>e \<in> set (entries proc ''rollback''). \<exists>sc. scope_for scopes e sc \<and> rollback_of sc e = Inr b"
  using for_entries_member [OF parts_of_Inr [OF assms(1), THEN conjunct2, THEN conjunct1] assms(2)] entries_get_item when_applies_Inr
  unfolding scope_for_def by metis

lemma confirm_entry:
  assumes "parts_of proc scopes = Inr p" "c \<in> set (fp_confirm p)"
  shows "\<exists>e \<in> set (entries proc ''confirm_first''). \<exists>sc. scope_for scopes e sc \<and> confirm_of sc e = Inr c"
proof -
  obtain cs where cs: "for_entries scopes (\<lambda>sc c. bind_sum (confirm_of sc c) (\<lambda>x. Inr [x])) (get_or proc ''confirm_first'' (PList [])) = Inr cs"
      "fp_confirm p = dedupe_by cf_argv (=) [] cs" using parts_of_Inr [OF assms(1)] by blast
  have "c \<in> set cs" using assms(2) cs(2) dedupe_by_subset by fastforce
  then show ?thesis using for_entries_member [OF cs(1)] entries_get_or unfolding scope_for_def by (fastforce simp: bind_sum_Inr)
qed

lemma loaded_procedures:
  assumes "load_catalogue reg show_exn source None = (cat, err)" "p \<in> set cat"
  shows "validate_procedure reg p = Inr ()"
proof (cases "bind_exn source (validate_catalogue reg)")
  case (Inr c)
  then obtain data where data: "validate_catalogue reg data = Inr c" by (auto simp: bind_exn_Inr)
  have "c = cat" using assms(1) Inr by (simp add: load_catalogue_def)
  then show ?thesis using conjunct1 [OF validate_catalogue_Inr [OF data]] assms(2) by simp
qed (use assms in \<open>simp add: load_catalogue_def\<close>)

lemma loaded_allowed:
  assumes "load_catalogue reg show_exn source None = (cat, err)" "p \<in> set cat" "is_fix p"
  shows "procedure_allowed p"
  using validate_procedure_parts [OF loaded_procedures [OF assms(1,2)]] assms(3) validate_parts_allowed unfolding is_fix_def by blast

text \<open>The scopes of a run that offers: the values the diagnosis bound, what its checks answered, and the items they left.\<close>

definition run_scopes :: "'r offer_run \<Rightarrow> pyval \<Rightarrow> stuck + scope list" where
  "run_scopes x = scopes_of (set_lists (or_kept x) (or_values x)) (or_globals x) (or_kept x)"

lemma offered_parts:
  assumes "passed en env d rn x r"
  shows "parts_of (or_proc x) (run_scopes x) = Inr (or_parts x) \<and> set (rz_steps r) \<subseteq> set (fp_steps (or_parts x))
    \<and> rz_confirm_first r = fp_confirm (or_parts x) \<and> set (rz_rollback r) \<subseteq> set (fp_rollback (or_parts x))"
proof -
  note h = assms [unfolded passed_def Let_def]
  have o: "offer (en_sha256 en) env d (or_proc x) (set_lists (or_kept x) (or_values x)) (or_parts x)
      ((or_left x)\<lparr>rz_prerequisites := or_prereqs x\<rparr>) = Inr r" using h by blast
  have "parts_of (or_proc x) (scopes_of (set_lists (or_kept x) (or_values x)) (or_globals x) (or_kept x)) = Inr (or_parts x)"
    using h by blast
  moreover have "set (rz_steps r) \<subseteq> set (fp_steps (or_parts x))" "rz_confirm_first r = fp_confirm (or_parts x)"
      "set (rz_rollback r) \<subseteq> set (fp_rollback (or_parts x))"
    using offer_fields [OF o] dedupe_by_subset by simp_all
  ultimately show ?thesis by (simp add: run_scopes_def)
qed

text \<open>C10: Every command of an offered fix is the catalogue's own, filled in with validated values, whatever the diagnosis says. From
  the catalogue as it is loaded, each step, confirming command and rollback of the offer is an argument vector (no shell reads it)
  that comes from an entry of the procedure, in a scope of this run: its program is one of the fix programs (for a confirming command
  \<open>stat\<close> or \<open>readlink\<close>) and, like every literal argument, written in the entry; the other arguments are the values of the entry's
  references, each as the validator of the declared type returned it, and none of them begins with a dash. No argument is empty or
  has a character outside ASCII letters, digits, blank and \<open>._@+/-,=:$%\<close>.\<close>

theorem offered_commands_safe:
  assumes "load_catalogue reg show_exn source None = (cat, err)"
    "resolve_diagnosis en cat env d rn = (Inr (Some r), rn')" "rz_status r = OFFERED"
  shows "\<exists>x. passed en env d rn x r \<and> or_proc x \<in> set cat
    \<and> (\<forall>st \<in> set (rz_steps r). \<exists>e \<in> set (entries (or_proc x) ''steps''). \<exists>sc. scope_for (run_scopes x) e sc
         \<and> filled_in FIX_PROGRAMS sc (fld e ''command'') (fs_argv st))
    \<and> (\<forall>c \<in> set (rz_confirm_first r). \<exists>e \<in> set (entries (or_proc x) ''confirm_first''). \<exists>sc. scope_for (run_scopes x) e sc
         \<and> filled_in [''stat'', ''readlink''] sc (fld e ''command'') (cf_argv c))
    \<and> (\<forall>b \<in> set (rz_rollback r). \<forall>a. rb_argv b = Some a \<longrightarrow> (\<exists>e \<in> set (entries (or_proc x) ''rollback''). \<exists>sc.
         scope_for (run_scopes x) e sc \<and> filled_in FIX_PROGRAMS sc (fld e ''command'') a))"
proof -
  obtain key x where k: "procedure_for cat d key = Inr (Some (or_proc x))" "is_fix (or_proc x)" and p: "passed en env d rn x r"
    using assms(2,3) by (rule offered_run)
  note parts = offered_parts [OF p]
  have mem: "or_proc x \<in> set cat" using procedure_for_selects [OF k(1)] by blast
  have ok: "procedure_allowed (or_proc x)" by (rule loaded_allowed [OF assms(1) mem k(2)])
  have "\<exists>e \<in> set (entries (or_proc x) ''steps''). \<exists>sc. scope_for (run_scopes x) e sc \<and> filled_in FIX_PROGRAMS sc (fld e ''command'') (fs_argv st)"
    if st: "st \<in> set (rz_steps r)" for st
  proof -
    obtain e sc where e: "e \<in> set (entries (or_proc x) ''steps'')" "scope_for (run_scopes x) e sc" "step_of sc e = Inr st"
      using step_entry [OF parts [THEN conjunct1]] parts st by blast
    then have "argv_allowed FIX_PROGRAMS (fld e ''command'')" using ok by (simp add: procedure_allowed_def step_allowed_def)
    then show ?thesis using argv_of_filled [OF conjunct1 [OF step_of_command [OF e(3)]]] e(1,2) by blast
  qed
  moreover have "\<exists>e \<in> set (entries (or_proc x) ''confirm_first''). \<exists>sc. scope_for (run_scopes x) e sc
        \<and> filled_in [''stat'', ''readlink''] sc (fld e ''command'') (cf_argv c)" if c: "c \<in> set (rz_confirm_first r)" for c
  proof -
    obtain e sc where e: "e \<in> set (entries (or_proc x) ''confirm_first'')" "scope_for (run_scopes x) e sc" "confirm_of sc e = Inr c"
      using confirm_entry [OF parts [THEN conjunct1]] parts c by metis
    have "argv_allowed [''stat'', ''readlink''] (fld e ''command'')"
      using ok e(1) by (auto simp: procedure_allowed_def confirm_allowed_def CONFIRM_PROGRAMS_def)
    then show ?thesis using argv_of_filled [OF confirm_of_command [OF e(3)]] e(1,2) by blast
  qed
  moreover have "\<exists>e \<in> set (entries (or_proc x) ''rollback''). \<exists>sc. scope_for (run_scopes x) e sc \<and> filled_in FIX_PROGRAMS sc (fld e ''command'') a"
    if b: "b \<in> set (rz_rollback r)" "rb_argv b = Some a" for b a
  proof -
    obtain e sc where e: "e \<in> set (entries (or_proc x) ''rollback'')" "scope_for (run_scopes x) e sc" "rollback_of sc e = Inr b"
      using rollback_entry [OF parts [THEN conjunct1]] parts b(1) by blast
    then have "argv_allowed FIX_PROGRAMS (fld e ''command'')" "argv_of sc (fld e ''command'') = Inr a"
      using rollback_of_command [OF e(3) b(2)] ok by (auto simp: procedure_allowed_def entry_allowed_def)
    then show ?thesis using argv_of_filled e(1,2) by blast
  qed
  ultimately show ?thesis using mem p by blast
qed

lemma max_by_member: "max_by f m xs \<in> set (m # xs)"
  by (induction f m xs rule: max_by.induct) auto

lemma max_by_max: "y \<in> set (m # xs) \<Longrightarrow> f y \<le> f (max_by f m xs)"
proof (induction f m xs arbitrary: y rule: max_by.induct)
  case (2 f m x xs)
  show ?case
  proof (cases "f m < f x")
    case True
    then have "f x \<le> f (max_by f x xs)" "y = m \<or> y \<in> set (x # xs)" using "2.IH"(1) "2.prems" by auto
    then show ?thesis using True "2.IH"(1) [OF True, of y] by auto
  next
    case False
    then have "f m \<le> f (max_by f m xs)" "y = x \<or> y \<in> set (m # xs)" using "2.IH"(2) "2.prems" by auto
    then show ?thesis using False "2.IH"(2) [OF False, of y] by auto
  qed
qed simp

lemma rank_of_risk: "rank_of v = Inr n \<Longrightarrow> risk_rank v = n \<and> (\<exists>s. v = PStr s \<and> s \<in> set RISKS)"
proof -
  assume "rank_of v = Inr n"
  then obtain s where s: "v = PStr s" "dict_get RISK_RANK s = Some n"
    by (auto simp: rank_of_def bind_exn_Inr lookup_key_Inr split: option.splits)
  have "s \<in> set RISKS" using dict_get_member [OF s(2)] unfolding RISK_RANK_def by (rule set_zip_leftD)
  then show ?thesis using s by (simp add: risk_rank_def the_default_def)
qed

lemma max_risk_bound:
  assumes "max_risk sts = Inr v" "st \<in> set sts"
  shows "risk_rank (fs_risk st) \<le> risk_rank v \<and> (\<exists>st' \<in> set sts. v = fs_risk st')"
proof -
  obtain ns where ns: "sequence_exn (map (rank_of \<circ> fs_risk) sts) = Inr ns" using assms(1) by (auto simp: max_risk_def bind_exn_Inr)
  obtain m xs where z: "zip ns (map fs_risk sts) = m # xs" "v = snd (max_by fst m xs)"
    using assms ns by (auto simp: max_risk_def bind_exn_Inr split: list.splits)
  have all: "map (rank_of \<circ> fs_risk) sts = map Inr ns" by (rule sequence_exn_Some [OF ns])
  have pair: "risk_rank (snd p) = fst p \<and> snd p \<in> fs_risk ` set sts" if p: "p \<in> set (zip ns (map fs_risk sts))" for p
  proof -
    obtain i where i: "i < length ns" "i < length sts" "p = (ns ! i, fs_risk (sts ! i))" using p by (cases p rule: prod.exhaust) (auto simp: in_set_zip)
    then have "rank_of (fs_risk (sts ! i)) = Inr (ns ! i)" using arg_cong [OF all, of "\<lambda>l. l ! i"] by simp
    then show ?thesis using i rank_of_risk by auto
  qed
  obtain i where i: "i < length sts" "st = sts ! i" using assms(2) by (metis in_set_conv_nth)
  have "length ns = length sts" using arg_cong [OF all, of length] by simp
  then have mem: "(ns ! i, fs_risk st) \<in> set (m # xs)" using i unfolding z(1) [symmetric] by (auto simp: in_set_zip)
  have best: "max_by fst m xs \<in> set (m # xs)" by (rule max_by_member)
  have "risk_rank (fs_risk st) = ns ! i" "risk_rank v = fst (max_by fst m xs)" "v \<in> fs_risk ` set sts"
    using pair [of "(ns ! i, fs_risk st)"] pair [of "max_by fst m xs"] mem best z by auto
  then show ?thesis using max_by_max [OF mem, of fst] by auto
qed

text \<open>The risk a fix is shown with is never lower than what any of its steps changes requires, and it is LOW, MEDIUM or
  HIGH.\<close>

theorem offered_risk_covers:
  assumes "load_catalogue reg show_exn source None = (cat, err)"
    "resolve_diagnosis en cat env d rn = (Inr (Some r), rn')" "rz_status r = OFFERED"
  shows "(\<exists>s. rz_risk r = PStr s \<and> s \<in> {''LOW'', ''MEDIUM'', ''HIGH''})
    \<and> (\<forall>st \<in> set (rz_steps r). fs_changes st \<noteq> [] \<and> (\<forall>ch \<in> set (fs_changes st). \<exists>n m. ch = PStr n \<and> dict_get CHANGES_MIN_RISK n = Some m
         \<and> risk_rank (PStr m) \<le> risk_rank (rz_risk r)))"
proof -
  obtain key x where k: "procedure_for cat d key = Inr (Some (or_proc x))" "is_fix (or_proc x)" and p: "passed en env d rn x r"
    using assms(2,3) by (rule offered_run)
  obtain scopes where parts: "parts_of (or_proc x) scopes = Inr (or_parts x)" "set (rz_steps r) \<subseteq> set (fp_steps (or_parts x))"
    using offered_parts [OF p] by blast
  have o: "offer (en_sha256 en) env d (or_proc x) (set_lists (or_kept x) (or_values x)) (or_parts x)
      ((or_left x)\<lparr>rz_prerequisites := or_prereqs x\<rparr>) = Inr r" and ne: "fp_steps (or_parts x) \<noteq> []"
    using p [unfolded passed_def Let_def] by blast+
  note f = offer_fields [OF o]
  have mr: "max_risk (rz_steps r) = Inr (rz_risk r)" using f by blast
  have mr2: "rz_steps r \<noteq> []" using f ne by simp
  have mem: "or_proc x \<in> set cat" using procedure_for_selects [OF k(1)] by blast
  have ok: "\<forall>s \<in> set (entries (or_proc x) ''steps''). step_allowed s"
    using loaded_allowed [OF assms(1) mem k(2)] by (simp add: procedure_allowed_def)
  have src: "\<exists>e. step_allowed e \<and> fs_risk st = fld e ''risk'' \<and> iter (fld e ''changes'') = Inr (fs_changes st)" if st: "st \<in> set (rz_steps r)" for st
  proof -
    obtain e sc where e: "e \<in> set (entries (or_proc x) ''steps'')" "step_of sc e = Inr st"
      using step_entry [OF parts(1)] parts(2) st by blast
    then show ?thesis using ok step_of_command [OF e(2)] by blast
  qed
  obtain st0 where st0: "st0 \<in> set (rz_steps r)" "rz_risk r = fs_risk st0"
    using max_risk_bound [OF mr, of "hd (rz_steps r)"] mr2 by auto
  obtain e0 where "step_allowed e0" "fs_risk st0 = fld e0 ''risk''" using src [OF st0(1)] by blast
  then have "\<exists>s. rz_risk r = PStr s \<and> s \<in> {''LOW'', ''MEDIUM'', ''HIGH''}" using st0(2) by (auto simp: step_allowed_def RISKS_def)
  moreover have "fs_changes st \<noteq> [] \<and> (\<forall>ch \<in> set (fs_changes st). \<exists>n m. ch = PStr n \<and> dict_get CHANGES_MIN_RISK n = Some m
      \<and> risk_rank (PStr m) \<le> risk_rank (rz_risk r))" if st: "st \<in> set (rz_steps r)" for st
  proof -
    obtain e where e: "step_allowed e" "fs_risk st = fld e ''risk''" "iter (fld e ''changes'') = Inr (fs_changes st)" using src [OF st] by blast
    have "risk_rank (fs_risk st) \<le> risk_rank (rz_risk r)" using max_risk_bound [OF mr st] by blast
    then show ?thesis using e unfolding step_allowed_def by (fastforce intro: le_trans)
  qed
  ultimately show ?thesis by blast
qed

lemma live_records_Inr: "live_records prov = Inr live \<Longrightarrow> v \<in> set live \<Longrightarrow> v \<in> set (records_of prov ''verified_on'') \<and> fld v ''tier'' = PStr ''LIVE''"
proof -
  assume h: "live_records prov = Inr live" "v \<in> set live"
  obtain vs ts where vs: "list_or_empty prov ''verified_on'' = Inr vs" "sequence_exn (map (\<lambda>v. get_or v ''tier'' PNone) vs) = Inr ts"
      and live: "live = map snd (filter (\<lambda>(t, v). is_str ''LIVE'' t) (zip ts vs))"
    using h(1) by (auto simp: live_records_def bind_exn_Inr)
  obtain t where t: "(t, v) \<in> set (zip ts vs)" "is_str ''LIVE'' t" using h(2) live by auto
  have "v \<in> set vs \<and> get_or v ''tier'' PNone = Inr t" by (rule zip_outcome [OF sequence_exn_Some [OF vs(2)] t(1)])
  then show ?thesis using vs(1) t(2) by (auto simp: records_of_def get_or_Inr is_str_def fld_def)
qed

lemma label_of_definitive:
  assumes "label_of proc env = Inr (True, label)"
  shows "fld (fld proc ''provenance'') ''tier'' = PStr ''BUILT_IN_VERIFIED'' \<and> (\<exists>v here. v \<in> set (records_of (fld proc ''provenance'') ''verified_on'')
    \<and> fld v ''tier'' = PStr ''LIVE'' \<and> here_version env = Some here \<and> version_of (fld v ''freeipa'') = Some here
    \<and> str_lower (py_str (fld v ''os'')) = os_here env)"
proof -
  obtain prov live same tier where p: "fld proc ''provenance'' = prov" "live_records prov = Inr live"
      "sequence_exn (map (same_system env) live) = Inr same" "fld prov ''tier'' = tier"
      "is_str ''BUILT_IN_VERIFIED'' tier" "list_ex (\<lambda>b. b) same"
    using assms by (auto simp: label_of_def with_item_Inr bind_exn_Inr Let_def split: if_splits)
  obtain i where i: "i < length same" "same ! i" using p(6) by (auto simp: list_ex_iff in_set_conv_nth)
  have "length live = length same" using arg_cong [OF sequence_exn_Some [OF p(3)], of length] by simp
  then have "(True, live ! i) \<in> set (zip same live)" using i by (force simp: in_set_zip)
  then obtain v where "(True, v) \<in> set (zip same live)" by blast
  then have v: "v \<in> set live" "same_system env v = Inr True" using zip_outcome [OF sequence_exn_Some [OF p(3)]] by blast+
  then show ?thesis using p live_records_Inr [OF p(2) v(1)]
    by (auto simp: same_system_def with_item_Inr is_str_def split: option.splits if_splits)
qed

lemma passed_replay: "passed en env d rn x r \<Longrightarrow> rz_replay (or_left x) = en_replay en"
proof -
  assume p: "passed en env d rn x r"
  note h = p [unfolded passed_def Let_def]
  have "no_fix (or_started x) \<and> rz_replay (or_started x) = en_replay en"
    using before_checks_ok [of "en_replay en" env d "or_proc x"] h by simp
  moreover have "like (or_started x) (or_checked x)" if "no_fix (or_started x)"
    using inv_all_ok [OF that, of en "or_values x" "or_invs x" "[]" "targets_of (spec_of (or_proc x)) (or_values x)" rn] h by simp
  moreover have "like (or_checked x) (or_left x)" if "no_fix (or_checked x)"
    using withhold_all_ok [OF that, of "or_values x" "or_globals x" "or_withhold x" "or_targets x"] h by simp
  ultimately show ?thesis by (simp add: like_def)
qed

text \<open>C16: A fix is called verified only on the very system it was verified on, and only if that was earned. If the resolution
  of a diagnosis is definitive, it is not a replay; its procedure is \<open>BUILT_IN_VERIFIED\<close> with a live-lab record with evidence,
  an authoritative source and an independent review; and one of its live records names exactly this FreeIPA version and this
  OS release.\<close>

theorem definitive_earned:
  assumes "load_catalogue reg show_exn source None = (cat, err)"
    "resolve_diagnosis en cat env d rn = (Inr (Some r), rn')" "rz_definitive r"
  shows "\<not> en_replay en \<and> (\<exists>p \<in> set cat. verified_by p \<and> (\<exists>v here. v \<in> set (records_of (fld p ''provenance'') ''verified_on'')
    \<and> fld v ''tier'' = PStr ''LIVE'' \<and> here_version env = Some here \<and> version_of (fld v ''freeipa'') = Some here
    \<and> str_lower (py_str (fld v ''os'')) = os_here env))"
proof -
  obtain key x where k: "procedure_for cat d key = Inr (Some (or_proc x))" "is_fix (or_proc x)" and p: "passed en env d rn x r"
    using resolve_cases [OF assms(2)] assms(3) by (auto simp: no_fix_def)
  have o: "offer (en_sha256 en) env d (or_proc x) (set_lists (or_kept x) (or_values x)) (or_parts x)
      ((or_left x)\<lparr>rz_prerequisites := or_prereqs x\<rparr>) = Inr r"
    using p [unfolded passed_def Let_def] by blast
  obtain label where l: "label_of (or_proc x) env = Inr (True, label)" "\<not> rz_replay (or_left x)"
    using offer_fields [OF o] assms(3) by auto
  have mem: "or_proc x \<in> set cat" using procedure_for_selects [OF k(1)] by blast
  obtain pid where "validate_header pid (or_proc x) = Inr ()"
    using validate_procedure_parts [OF loaded_procedures [OF assms(1) mem]] k(2) unfolding is_fix_def by blast
  then have "validate_provenance pid (or_proc x) = Inr ()" by (simp add: validate_header_def)
  then have "verified_by (or_proc x)" using validate_provenance_verified label_of_definitive [OF l(1)] by blast
  then show ?thesis using mem label_of_definitive [OF l(1)] l(2) passed_replay [OF p] by auto
qed

section \<open>The report\<close>

definition entry_ok :: "'r engine \<Rightarrow> pyval list \<Rightarrow> environment_info option \<Rightarrow> diagnosis list \<Rightarrow> string \<times> resolution \<Rightarrow> bool" where
  "entry_ok en cat env ds e =
     (\<exists>d \<in> set ds. fst e = d_diagnosis_id d
        \<and> (no_fix (snd e) \<or> rz_status (snd e) = OFFERED \<and> (\<exists>rn rn'. resolve_diagnosis en cat env d rn = (Inr (Some (snd e)), rn'))))"

lemma entry_ok_mono: "set ds \<subseteq> set ds' \<Longrightarrow> entry_ok en cat env ds e \<Longrightarrow> entry_ok en cat env ds' e"
  unfolding entry_ok_def by blast

lemma internal_error_no_fix [simp]: "no_fix (internal_error d e)"
  by (simp add: internal_error_def) (simp add: no_fix_def new_resolution_def)

lemma dict_set_all: "\<forall>e \<in> set out. P e \<Longrightarrow> P (k, v) \<Longrightarrow> \<forall>e \<in> set (dict_set k v out). P e"
  using dict_set_subset [of k v out] by blast

lemma resolve_each_ok:
  assumes "\<forall>e \<in> set out. entry_ok en cat env all e" "set ds \<subseteq> set all"
  shows "case fst (resolve_each en cat env out ds rn) of Inl e \<Rightarrow> e = KeyboardInterrupt | Inr out' \<Rightarrow> \<forall>e \<in> set out'. entry_ok en cat env all e"
  using assms
proof (induction ds arbitrary: out rn)
  case (Cons d ds)
  obtain res1 rn' where r: "resolve_diagnosis en cat env d rn = (res1, rn')" by fastforce
  have step: "case fst (resolve_each en cat env out' ds rn') of Inl e \<Rightarrow> e = KeyboardInterrupt | Inr o2 \<Rightarrow> \<forall>e \<in> set o2. entry_ok en cat env all e"
    if "\<forall>e \<in> set out'. entry_ok en cat env all e" for out'
    using Cons.IH [OF that] Cons.prems(2) by simp
  have d: "d \<in> set all" using Cons.prems(2) by simp
  show ?case
  proof (cases res1)
    case (Inl e)
    show ?thesis
    proof (cases "e = KeyboardInterrupt")
      case False
      have "entry_ok en cat env all (d_diagnosis_id d, internal_error d e)" using d by (auto simp: entry_ok_def)
      then have "\<forall>e' \<in> set (dict_set (d_diagnosis_id d) (internal_error d e) out). entry_ok en cat env all e'"
        by (rule dict_set_all [OF Cons.prems(1)])
      from step [OF this] show ?thesis using r Inl False by (cases e) simp_all
    qed (use r Inl in simp)
  next
    case (Inr m)
    show ?thesis
    proof (cases m)
      case None
      then show ?thesis using r Inr step [OF Cons.prems(1)] by simp
    next
      case (Some x)
      have "no_fix x \<or> rz_status x = OFFERED" using resolve_cases [OF r [unfolded Inr Some]] passed_offered by fast
      then have "entry_ok en cat env all (d_diagnosis_id d, x)" using d r Inr Some by (auto simp: entry_ok_def)
      then have "\<forall>e' \<in> set (dict_set (d_diagnosis_id d) x out). entry_ok en cat env all e'" by (rule dict_set_all [OF Cons.prems(1)])
      from step [OF this] show ?thesis using r Inr Some by simp
    qed
  qed
qed simp

text \<open>Preparing the fixes never breaks the report and never shows half a fix. Nothing but an interrupt leaves
  \<open>resolve_report\<close>, whatever the catalogue, the diagnoses and the checks do; every entry it attaches belongs to a diagnosis of
  the report; and an entry either is offered, as the outcome of the gates for that diagnosis, or holds no step, no baseline
  for a verify run and no claim to be verified.\<close>

theorem resolve_report_contained:
  "case fst (resolve_report en cat rep rn) of
     Inl e \<Rightarrow> e = KeyboardInterrupt
   | Inr out \<Rightarrow> list_all (entry_ok en (fst cat) (rep_environment rep) (rep_diagnoses rep)) out"
proof -
  obtain out rn' where o: "resolve_each en (fst cat) (rep_environment rep) [] (rep_diagnoses rep) rn = (out, rn')" by fastforce
  have "fst (resolve_report en cat rep rn) = out" by (simp add: resolve_report_def o)
  moreover have "case out of Inl e \<Rightarrow> e = KeyboardInterrupt
      | Inr o2 \<Rightarrow> \<forall>e \<in> set o2. entry_ok en (fst cat) (rep_environment rep) (rep_diagnoses rep) e"
    using resolve_each_ok [of "[]" en "fst cat" "rep_environment rep" "rep_diagnoses rep" "rep_diagnoses rep" rn] o by simp
  ultimately show ?thesis by (simp add: list_all_iff split: sum.splits)
qed

section \<open>An example\<close>

text \<open>A stale SSSD entry of user admin, on the system of the live record.\<close>

definition sample_engine :: "unit engine" where
  "sample_engine =
     \<lparr>en_run = (\<lambda>i ps rn. (Inr (res (py_str i) [] OK [(''present'', PBool True), (''found'', PBool True)] [] []), rn)),
      en_replay = False, en_sha256 = (\<lambda>s. ''0'')\<rparr>"

definition sample_env :: "environment_info option" where
  "sample_env =
     Some \<lparr>env_distro = Some ''fedora'', env_distro_version = Some ''41'', env_python_version = None, env_freeipa_version = Some ''4.12'',
           env_ipa_healthcheck_version = None, env_directory_server_version = None, env_detected_live = True\<rparr>"

definition sample_diagnosis :: diagnosis where
  "sample_diagnosis =
     (new_diagnosis ''client'' ''stale'' DIAGNOSED ''Stale entry'' ''why'' \<lparr>c_level = MEDIUM, c_rationale = [], c_corroborating = 1, c_contradicting = 0\<rparr>)
       \<lparr>d_resolution_key := Some ''client.stale'', d_bindings := [(''user'', PStr ''admin'')]\<rparr>"

definition sample_resolution :: "resolution option" where
  "sample_resolution =
     (case resolve_diagnosis sample_engine [expire_entry built_in] sample_env sample_diagnosis () of (Inr r, u) \<Rightarrow> r | _ \<Rightarrow> None)"

lemma sample_offered: "case sample_resolution of None \<Rightarrow> False | Some r \<Rightarrow> rz_status r = OFFERED \<and> rz_definitive r"
  by code_simp

lemma sample_run:
  "\<exists>r. resolve_diagnosis sample_engine [expire_entry built_in] sample_env sample_diagnosis () = (Inr (Some r), ())
     \<and> rz_status r = OFFERED \<and> rz_definitive r"
  using sample_offered by (auto simp: sample_resolution_def split: option.splits sum.splits prod.splits)

lemma sample_loaded: "load_catalogue sample_registry exn_name (Inr (sample_catalogue built_in)) None = ([expire_entry built_in], None)"
  by (simp add: load_catalogue_def built_in_accepted)


theorem offered_commands_safe_witness:
  "\<exists>r. resolve_diagnosis sample_engine [expire_entry built_in] sample_env sample_diagnosis () = (Inr (Some r), ())
     \<and> (\<forall>st \<in> set (rz_steps r). \<exists>sc t. filled_in FIX_PROGRAMS sc t (fs_argv st))"
proof -
  obtain r where r: "resolve_diagnosis sample_engine [expire_entry built_in] sample_env sample_diagnosis () = (Inr (Some r), ())"
      "rz_status r = OFFERED" using sample_run by blast
  then show ?thesis using offered_commands_safe [OF sample_loaded r] by blast
qed

theorem offered_risk_covers_witness:
  "\<exists>r s. resolve_diagnosis sample_engine [expire_entry built_in] sample_env sample_diagnosis () = (Inr (Some r), ())
     \<and> rz_risk r = PStr s \<and> s \<in> {''LOW'', ''MEDIUM'', ''HIGH''}"
proof -
  obtain r where r: "resolve_diagnosis sample_engine [expire_entry built_in] sample_env sample_diagnosis () = (Inr (Some r), ())"
      "rz_status r = OFFERED" using sample_run by blast
  then show ?thesis using offered_risk_covers [OF sample_loaded r] by blast
qed

theorem definitive_earned_witness:
  "\<exists>r. resolve_diagnosis sample_engine [expire_entry built_in] sample_env sample_diagnosis () = (Inr (Some r), ())
     \<and> rz_definitive r \<and> verified_by (expire_entry built_in)"
proof -
  obtain r where r: "resolve_diagnosis sample_engine [expire_entry built_in] sample_env sample_diagnosis () = (Inr (Some r), ())"
      "rz_definitive r" using sample_run by blast
  then show ?thesis using definitive_earned [OF sample_loaded r] by auto
qed

end
