(* ===== verification/VerifyProps.thy ===== *)
theory VerifyProps
  imports ResolveProps
begin

text \<open>
  What a fix means to those who use it: the command line that is shown reads back as the argument vector, the values that are
  saved are valid when a verify run reads them, a verdict rests on a fresh check, and predicates of the catalogue do not go
  wrong.
\<close>

section \<open>The command line\<close>

text \<open>The words a POSIX shell makes of a command line, as far as it has none but plain characters and quotes; None for
  anything a shell would expand, redirect or run. The arguments are the word read so far and the open quote.\<close>

fun sh_words :: "string option \<Rightarrow> char option \<Rightarrow> string \<Rightarrow> string list option" where
  "sh_words w None [] = Some (case w of None \<Rightarrow> [] | Some a \<Rightarrow> [a])"
| "sh_words w (Some q) [] = None"
| "sh_words w None (c # cs) =
     (if c = CHR '' '' then map_option (\<lambda>ws. (case w of None \<Rightarrow> [] | Some a \<Rightarrow> [a]) @ ws) (sh_words None None cs)
      else if c = CHR 0x27 \<or> c = CHR 0x22 then sh_words (Some (the_default [] w)) (Some c) cs
      else if shell_plain c then sh_words (Some (the_default [] w @ [c])) None cs
      else None)"
| "sh_words w (Some q) (c # cs) =
     (if c = q then sh_words w None cs
      else if q = CHR 0x22 \<and> c \<in> {CHR ''$'', CHR 0x60, CHR 0x5C} then None
      else sh_words (Some (the_default [] w @ [c])) (Some q) cs)"

lemma not_plain: "shell_plain c \<Longrightarrow> c \<noteq> CHR '' '' \<and> c \<noteq> CHR 0x27 \<and> c \<noteq> CHR 0x22"
  by (auto simp: shell_plain_def alnum_or_def is_alnum_ascii_def is_lower_def is_upper_def is_digit09_def rng_def)

lemma sh_plain: "list_all shell_plain s \<Longrightarrow> s \<noteq> [] \<Longrightarrow> sh_words w None (s @ x) = sh_words (Some (the_default [] w @ s)) None x"
proof (induction s arbitrary: w)
  case (Cons c s)
  then show ?case using not_plain [of c] Cons.IH [of "Some (the_default [] w @ [c])"]
    by (cases "s = []") (simp_all add: the_default_def)
qed simp

lemma sh_quoted: "sh_words (Some w) (Some (CHR 0x27)) (concat (map quote_char s) @ CHR 0x27 # x) = sh_words (Some (w @ s)) None x"
  by (induction s arbitrary: w) (simp_all add: quote_char_def the_default_def)

lemma sh_word: "sh_words None None (shlex_quote s @ x) = sh_words (Some s) None x"
  using sh_plain [of s None x] sh_quoted [of "[]" s x] by (simp add: shlex_quote_def the_default_def)

lemma sh_line: "sh_words None None (join '' '' (map shlex_quote argv)) = Some argv"
proof (induction argv rule: induct_list012)
  case (2 a)
  show ?case using sh_word [of a "[]"] by simp
next
  case (3 a b as)
  show ?case using sh_word [of a "'' '' @ join '' '' (map shlex_quote (b # as))"] 3(2) by simp
qed simp

text \<open>C40: The command that is shown for a step is read by a shell as exactly the step's argument vector, whatever the arguments
  are: nothing is split, expanded or run.\<close>

theorem step_command_reads_back: "sh_words None None (step_command st) = Some (fs_argv st)"
  by (simp add: step_command_def sh_line)

section \<open>A verdict\<close>

text \<open>The one call a criterion makes: its check with its parameters, in the state \<open>rn\<close> the run is in.\<close>

definition criterion_call :: "'r engine \<Rightarrow> pyval \<Rightarrow> 'r \<Rightarrow> (exn + check_result) \<times> 'r" where
  "criterion_call en c rn =
     en_run en (PStr (py_str (fld c ''check''))) (as_dict (the_default (PDict []) (dict_get (as_dict c) ''params''))) rn"

text \<open>The call in this state answered OK, and the predicate, which tests this answer, has the value \<open>b\<close> for it.\<close>

definition decided_by_call :: "'r engine \<Rightarrow> pyval \<Rightarrow> 'r \<Rightarrow> bool \<Rightarrow> bool" where
  "decided_by_call en c rn b =
     (refers_to_this (fld c ''when'') = Inr True
      \<and> (case fst (criterion_call en c rn) of
           Inl e \<Rightarrow> False
         | Inr x \<Rightarrow> cr_status x = OK
             \<and> pred \<lparr>sc_bindings = [], sc_checks = [(PStr ''this'', x)], sc_item = None, sc_item_checks = []\<rparr> (fld c ''when'') = Inr b))"

text \<open>
  The verdicts of the criteria, one after the other from state \<open>rn\<close> to state \<open>rn'\<close>: a criterion makes its one call in the state the
  ones before it left, or none; it is met or not met only if that very call decided it, and "not known" otherwise.
\<close>

fun decided_in_turn :: "'r engine \<Rightarrow> pyval list \<Rightarrow> verdict list \<Rightarrow> 'r \<Rightarrow> 'r \<Rightarrow> bool" where
  "decided_in_turn en [] [] rn rn' = (rn' = rn)"
| "decided_in_turn en (c # cs) (v # vs) rn rn' =
     (fst v = criterion_text c
      \<and> (case fst (snd v) of
           Some b \<Rightarrow> decided_by_call en c rn b \<and> decided_in_turn en cs vs (snd (criterion_call en c rn)) rn'
         | None \<Rightarrow> decided_in_turn en cs vs (snd (criterion_call en c rn)) rn' \<or> decided_in_turn en cs vs rn rn'))"
| "decided_in_turn en _ _ rn rn' = False"

lemma lift_exn_simps [simp]: "lift_exn (Inl e) = Inl (Raised e)" "lift_exn (Inr x) = Inr x"
  by (simp_all add: lift_exn_def)

lemma criterion_wf_Inr: "criterion_wf c = Inr u \<Longrightarrow> refers_to_this (fld c ''when'') = Inr True"
  by (auto simp: criterion_wf_def fld_def bind_sum_Inr split: if_splits)

lemma evaluate_one_run:
  assumes "criterion_wf c = Inr u" "criterion_call en c rn = (o1, rn1)"
  shows "evaluate_one en c rn = (verdict_of c (bind_sum (lift_exn o1) (\<lambda>x. bind_sum (judge c x) (\<lambda>b. Inr (b, cr_display x)))), rn1)"
  using assms by (simp add: evaluate_one_def criterion_call_def fld_def)

lemma evaluate_one_ok:
  assumes "evaluate_one en c rn = (out, rn1)"
  shows "case out of Inl e \<Rightarrow> e = KeyboardInterrupt
     | Inr v \<Rightarrow> fst v = criterion_text c
         \<and> (case fst (snd v) of
              Some b \<Rightarrow> decided_by_call en c rn b \<and> rn1 = snd (criterion_call en c rn)
            | None \<Rightarrow> rn1 = snd (criterion_call en c rn) \<or> rn1 = rn)"
proof (cases "criterion_wf c")
  case (Inl e)
  then show ?thesis using assms by (auto simp: evaluate_one_def verdict_of_def split: stuck.splits if_splits)
next
  case (Inr u)
  obtain o1 rn2 where run: "criterion_call en c rn = (o1, rn2)" by fastforce
  have out: "out = verdict_of c (bind_sum (lift_exn o1) (\<lambda>x. bind_sum (judge c x) (\<lambda>b. Inr (b, cr_display x))))" "rn1 = rn2"
    using assms evaluate_one_run [OF Inr run] by simp_all
  show ?thesis
  proof (cases "bind_sum (lift_exn o1) (\<lambda>x. bind_sum (judge c x) (\<lambda>b. Inr (b, cr_display x)))")
    case (Inl e)
    then show ?thesis using out run by (auto simp: verdict_of_def split: stuck.splits)
  next
    case b: (Inr y)
    then obtain x v where x: "o1 = Inr x" "judge c x = Inr v" "y = (v, cr_display x)" by (auto simp: bind_sum_Inr)
    have "decided_by_call en c rn v"
      using run x criterion_wf_Inr [OF Inr] unfolding decided_by_call_def judge_def fld_def by (auto split: if_splits)
    then show ?thesis using out b x run by (auto simp: verdict_of_def)
  qed
qed

lemma evaluate_all_ok:
  "case evaluate_verify en cs rn of (Inl e, rn') \<Rightarrow> e = KeyboardInterrupt | (Inr vs, rn') \<Rightarrow> decided_in_turn en cs vs rn rn'"
proof (induction cs arbitrary: rn)
  case (Cons c cs)
  obtain out rn1 where o: "evaluate_one en c rn = (out, rn1)" by fastforce
  show ?case
  proof (cases out)
    case (Inr v)
    obtain out2 rn2 where e: "evaluate_verify en cs rn1 = (out2, rn2)" by fastforce
    show ?thesis using o Inr e evaluate_one_ok [OF o] Cons.IH [of rn1]
      by (cases out2) (auto split: option.splits)
  qed (use o evaluate_one_ok [OF o] in simp)
qed simp

text \<open>C13: A criterion of a fix counts as met, or as not met, only on the evidence of a check that ran for this verify run: the
  criterion tests the fresh result (never two literals, or a value against itself), and the call of its check, with its
  parameters and made in the very state the criteria before it left the run in, answered OK and gave its predicate that value.
  Everything else is "not known", and nothing but an interrupt is raised, however the stored criteria are damaged.\<close>

theorem verified_only_by_fresh_check:
  "case evaluate_verify en cs rn of (Inl e, rn') \<Rightarrow> e = KeyboardInterrupt | (Inr vs, rn') \<Rightarrow> decided_in_turn en cs vs rn rn'"
  by (rule evaluate_all_ok)

definition sample_criterion :: pyval where
  "sample_criterion = PDict [(''text'', PStr ''Resolves''), (''check'', PStr ''nss.user''), (''when'', is_true_of ''this'' ''present'')]"

theorem verified_only_by_fresh_check_witness:
  "fst (evaluate_verify sample_engine [sample_criterion] ()) = Inr [(''Resolves'', Some True, [])]
   \<and> decided_by_call sample_engine sample_criterion () True"
proof -
  have v: "fst (evaluate_verify sample_engine [sample_criterion] ()) = Inr [(''Resolves'', Some True, [])]" by code_simp
  then have e: "evaluate_verify sample_engine [sample_criterion] () = (Inr [(''Resolves'', Some True, [])], ())"
    by (cases "evaluate_verify sample_engine [sample_criterion] ()") simp
  show ?thesis using verified_only_by_fresh_check [of sample_engine "[sample_criterion]" "()"] v e by simp
qed

section \<open>Predicates do not go wrong\<close>

text \<open>A scope of the engine fits the context of the validation: every scalar binding has a value.\<close>

definition scope_fits :: "kctx \<Rightarrow> scope \<Rightarrow> bool" where
  "scope_fits c sc = (\<forall>n spec. dict_get (kc_bindings c) n = Some spec \<and> fld spec ''type'' \<noteq> PStr ''list'' \<longrightarrow> dict_get (sc_bindings sc) n \<noteq> None)"

lemma py_ord_error: "py_ord strict a b = Inl e \<Longrightarrow> e = TypeError"
  by (induction strict a b rule: py_ord.induct) (auto split: if_splits)

lemma py_in_error: "py_in a b = Inl e \<Longrightarrow> e = TypeError"
  by (auto simp: py_in_def split: pyval.splits)

lemma abs_below_error: "abs_below a b = Inl e \<Longrightarrow> e = TypeError"
  by (auto simp: abs_below_def split: option.splits)

lemma not_comparable_Raised: "not_comparable r = Inl (Raised e) \<Longrightarrow> r = Inl e \<and> e \<noteq> TypeError"
  by (auto simp: not_comparable_def split: sum.splits exn.splits)

lemma map_sum_Inl: "map_sum id f r = Inl e \<longleftrightarrow> r = Inl e"
  by (cases r) auto

lemma compare_not_raised: "compare op a b \<noteq> Inl (Raised e)"
proof
  assume h: "compare op a b = Inl (Raised e)"
  have n: "not_comparable r \<noteq> Inl (Raised e)" if "\<And>x. r = Inl x \<Longrightarrow> x = TypeError" for r
    using that not_comparable_Raised [of r e] by blast
  have p: "not_comparable (py_in x y) \<noteq> Inl (Raised e)" "not_comparable (map_sum id Not (py_in x y)) \<noteq> Inl (Raised e)"
      "not_comparable (py_ord s x y) \<noteq> Inl (Raised e)" "not_comparable (abs_below x y) \<noteq> Inl (Raised e)"
      "not_comparable (map_sum id Not (abs_below x y)) \<noteq> Inl (Raised e)" for x y s
    by (rule n, (simp add: map_sum_Inl)?, erule py_in_error py_ord_error abs_below_error)+
  show False using h p by (simp add: compare_def Let_def split: if_splits)
qed

lemma val_get_Some: "val_get r d = Inr (Some x) \<Longrightarrow> hashable r"
  by (auto simp: val_get_def split: if_splits)

lemma lookup_key_error: "lookup_key v d = Inl e \<Longrightarrow> e = TypeError \<and> \<not> hashable v"
  by (auto simp: lookup_key_def hashable_def split: pyval.splits)

lemma lift_exn_Raised: "lift_exn r = Inl (Raised e) \<longleftrightarrow> r = Inl e"
  by (cases r) simp_all

lemma bind_sum_Inl: "bind_sum r f = Inl e \<longleftrightarrow> r = Inl e \<or> (\<exists>x. r = Inr x \<and> f x = Inl e)"
  by (cases r) auto

lemma hashable_get: "hashable r \<Longrightarrow> val_get r d \<noteq> Inl e"
  by (simp add: val_get_def)

text \<open>The name of a field or of an item can be a key of a dictionary.\<close>

definition plain_name :: "pyval \<Rightarrow> bool" where
  "plain_name v = (case v of PDict d \<Rightarrow> hashable (fld v ''field'') \<and> hashable (fld v ''item'') | _ \<Rightarrow> True)"

lemma result_field_checked:
  assumes "check_ref pid c (PDict d) place = Inr ()" "\<not> has ''bind'' (PDict d)" "\<not> has ''item'' (PDict d)"
    "result_field sc d = Inl (Raised e)"
  shows "e = TypeError \<and> \<not> hashable (fld (PDict d) ''field'')"
proof -
  obtain r x where r: "dict_get d ''ref'' = Some r" "val_get r (kc_checks c) = Inr (Some x)"
      and f: "truthy (the_default PNone (dict_get d ''field''))"
    using assms(1-3) by (auto simp: check_ref_def with_item_Inr bind_exn_Inr split: if_splits)
  obtain fd where fd: "dict_get d ''field'' = Some fd" using f by (cases "dict_get d ''field''") (auto simp: the_default_def)
  have "hashable r" by (rule val_get_Some [OF r(2)])
  then obtain mine shared where "val_get r (sc_item_checks sc) = Inr mine" "val_get r (sc_checks sc) = Inr shared"
    by (simp add: val_get_def)
  then show ?thesis using assms(4) r(1) fd
    by (auto simp: result_field_def get_item_def bind_sum_Inl lift_exn_Raised fld_def the_default_def split: if_splits option.splits dest: lookup_key_error)
qed

lemma value_of_checked:
  assumes "check_value pid v place c = Inr ()" "scope_fits c sc" "value_of sc v = Inl (Raised e)"
  shows "e = TypeError \<and> \<not> plain_name v"
proof (cases v)
  case (PDict d)
  have ref: "check_ref pid c (PDict d) place = Inr ()" using assms(1) PDict by (simp add: check_value_def Let_def)
  consider (bind) "has ''bind'' (PDict d)" | (item) "\<not> has ''bind'' (PDict d)" "has ''item'' (PDict d)"
    | (ref) "\<not> has ''bind'' (PDict d)" "\<not> has ''item'' (PDict d)" by blast
  then show ?thesis
  proof cases
    case bind
    then obtain n spec where n: "dict_get d ''bind'' = Some (PStr n)" "dict_get (kc_bindings c) n = Some spec" "fld spec ''type'' \<noteq> PStr ''list''"
      using ref by (auto simp: check_ref_def with_item_Inr bind_exn_Inr check_bind_def lookup_key_Inr get_or_Inr fld_def
          dest!: sym [of "Some _" "dict_get _ _"] split: if_splits option.splits)
    then obtain x where "dict_get (sc_bindings sc) n = Some x" using assms(2) unfolding scope_fits_def by blast
    then show ?thesis using assms(3) PDict bind n by (auto simp: value_of_def get_item_def lookup_key_def)
  next
    case item
    then show ?thesis using assms(3) PDict ref
      by (auto simp: value_of_def check_ref_def with_item_Inr get_item_def bind_sum_Inl lift_exn_Raised plain_name_def fld_def the_default_def
          split: if_splits option.splits dest: lookup_key_error)
  next
    case ref': ref
    then show ?thesis using assms(3) PDict result_field_checked [OF ref ref'] by (simp add: value_of_def plain_name_def)
  qed
qed (use assms in \<open>simp_all add: value_of_def\<close>)

lemma all_of_Raised: "all_of rs = Inl (Raised e) \<Longrightarrow> Inl (Raised e) \<in> set rs"
  by (induction rs rule: all_of.induct) (auto split: if_splits)

lemma any_of_Raised: "any_of u rs = Inl (Raised e) \<Longrightarrow> Inl (Raised e) \<in> set rs"
  by (induction u rs rule: any_of.induct) (auto split: if_splits option.splits)

lemma check_pred_many:
  assumes "check_pred pid (PDict d) place c = Inr ()" "k = (if has ''all'' (PDict d) then ''all'' else ''any'')" "has k (PDict d)"
  shows "\<exists>qs. dict_get d k = Some (PList qs) \<and> qs \<noteq> [] \<and> (\<forall>q \<in> set qs. \<exists>pl. check_pred pid q pl c = Inr ())"
proof -
  have "has ''all'' (PDict d) \<or> has ''any'' (PDict d)" using assms(2,3) by (auto split: if_splits)
  then obtain x xs where q: "dict_get d k = Some (PList (x # xs))"
      and sub: "each (\<lambda>(i, q). check_pred pid q (place @ ''.'' @ k @ ''['' @ show_nat i @ '']'') c) (enumerate 0 (x # xs)) = Inr ()"
    using assms(1) unfolding check_pred.simps [of pid "PDict d"] assms(2) [symmetric] Let_def
    by (simp only: pyval.case if_True bind_exn_Inr) (simp del: append.simps each_iff enumerate_simps split: option.splits pyval.splits list.splits)
  then show ?thesis using each_enumerate [OF sub] by blast
qed

lemma check_pred_not:
  assumes "check_pred pid (PDict d) place c = Inr ()" "\<not> has ''all'' (PDict d)" "\<not> has ''any'' (PDict d)" "has ''not'' (PDict d)"
  shows "\<exists>q pl. dict_get d ''not'' = Some q \<and> check_pred pid q pl c = Inr ()"
  using assms by (subst (asm) check_pred.simps) (auto simp: bind_exn_Inr split: option.splits)

lemma check_pred_leaf:
  assumes "check_pred pid (PDict d) place c = Inr ()" "\<not> has ''all'' (PDict d)" "\<not> has ''any'' (PDict d)" "\<not> has ''not'' (PDict d)"
  shows "\<exists>op l pl. dict_get d ''op'' = Some op \<and> str_in op OPS \<and> dict_get d ''left'' = Some l \<and> check_value pid l pl c = Inr ()
    \<and> (\<not> str_in op [''is_true'', ''is_false'', ''is_empty''] \<longrightarrow> (\<exists>r pl'. dict_get d ''right'' = Some r \<and> check_value pid r pl' c = Inr ()))"
  using assms by (subst (asm) check_pred.simps) (auto simp: bind_exn_Inr with_item_Inr simp del: append.simps split: if_splits)

text \<open>A condition on every comparison of a predicate.\<close>

function comparisons :: "(pydict \<Rightarrow> bool) \<Rightarrow> pyval \<Rightarrow> bool" where
  "comparisons Q p =
     (case p of
        PDict d \<Rightarrow>
          if has ''all'' p \<or> has ''any'' p
          then (case dict_get d (if has ''all'' p then ''all'' else ''any'') of Some (PList qs) \<Rightarrow> list_all (comparisons Q) qs | _ \<Rightarrow> True)
          else if has ''not'' p then (case dict_get d ''not'' of Some q \<Rightarrow> comparisons Q q | None \<Rightarrow> True)
          else Q d
      | _ \<Rightarrow> True)"
  by pat_completeness auto
termination by (relation "measure (size \<circ> snd)") (auto dest!: dict_get_size size_member)

declare comparisons.simps [simp del]

text \<open>No comparison with one operand carries a second one; the names in the operands can be keys.\<close>

definition bare_unary :: "pydict \<Rightarrow> bool" where
  "bare_unary d = (has ''right'' (PDict d) \<longrightarrow> \<not> str_in (fld (PDict d) ''op'') [''is_true'', ''is_false'', ''is_empty''])"

definition plain_names :: "pydict \<Rightarrow> bool" where
  "plain_names d = (plain_name (fld (PDict d) ''left'') \<and> plain_name (fld (PDict d) ''right''))"

lemma checked_predicate_error:
  assumes "check_pred pid p place c = Inr ()" "scope_fits c sc" "comparisons bare_unary p" "pred sc p = Inl (Raised e)"
  shows "e = TypeError \<and> \<not> comparisons plain_names p"
  using assms
proof (induction p arbitrary: place rule: measure_induct_rule [of size])
  case (less p)
  obtain d where p: "p = PDict d" using less.prems(1) by (cases p) (simp_all add: check_pred.simps)
  note chk = less.prems(1) [unfolded p] and ev = less.prems(4) [unfolded p] and bare = less.prems(3) [unfolded p]
  have sub: "e = TypeError \<and> \<not> comparisons plain_names q" if "dict_get d k = Some v" "q = v \<or> (\<exists>qs. v = PList qs \<and> q \<in> set qs)" "check_pred pid q pl c = Inr ()"
    "comparisons bare_unary q" "pred sc q = Inl (Raised e)" for k v q pl
  proof -
    have "size q < size p" using that(1,2) dict_get_size [of d k v] size_member unfolding p by fastforce
    then show ?thesis using less.IH that(3-5) less.prems(2) by blast
  qed
  consider (many) k where "k = (if has ''all'' p then ''all'' else ''any'')" "has k p"
    | (neg) "\<not> has ''all'' p" "\<not> has ''any'' p" "has ''not'' p"
    | (leaf) "\<not> has ''all'' p" "\<not> has ''any'' p" "\<not> has ''not'' p" by (cases "has ''all'' p"; cases "has ''any'' p"; cases "has ''not'' p") auto
  then show ?case
  proof cases
    case many
    then obtain qs where qs: "dict_get d k = Some (PList qs)" "\<forall>q \<in> set qs. \<exists>pl. check_pred pid q pl c = Inr ()"
      using check_pred_many [OF chk] p by blast
    have any: "has ''all'' p \<or> has ''any'' p" using many by (auto split: if_splits)
    then obtain q where q: "q \<in> set qs" "pred sc q = Inl (Raised e)"
      using ev many qs(1) p unfolding pred.simps [of sc "PDict d"]
      by (auto dest!: all_of_Raised any_of_Raised split: if_splits)
    have "comparisons bare_unary q" using bare any many qs(1) q(1) p unfolding comparisons.simps [of bare_unary "PDict d"] by (auto simp: list_all_iff split: if_splits)
    then have e: "e = TypeError" "\<not> comparisons plain_names q" using sub [OF qs(1)] qs(2) q by blast+
    have "\<not> comparisons plain_names (PDict d)" using any many qs(1) q(1) p e(2) unfolding comparisons.simps [of plain_names "PDict d"]
      by (auto simp: list_all_iff split: if_splits)
    then show ?thesis using e(1) p by simp
  next
    case neg
    then obtain q pl where q: "dict_get d ''not'' = Some q" "check_pred pid q pl c = Inr ()" using check_pred_not [OF chk] p by blast
    have "pred sc q = Inl (Raised e)" using ev neg q(1) p unfolding pred.simps [of sc "PDict d"] by (simp add: map_sum_Inl)
    moreover have "comparisons bare_unary q" using bare neg q(1) p unfolding comparisons.simps [of bare_unary "PDict d"] by simp
    ultimately have e: "e = TypeError" "\<not> comparisons plain_names q" using sub [OF q(1)] q(2) by blast+
    have "\<not> comparisons plain_names (PDict d)" using neg q(1) p e(2) unfolding comparisons.simps [of plain_names "PDict d"] by simp
    then show ?thesis using e(1) p by simp
  next
    case leaf
    then obtain op l pl where l: "dict_get d ''op'' = Some op" "dict_get d ''left'' = Some l" "check_value pid l pl c = Inr ()"
        and r: "\<not> str_in op [''is_true'', ''is_false'', ''is_empty''] \<longrightarrow> (\<exists>r pl'. dict_get d ''right'' = Some r \<and> check_value pid r pl' c = Inr ())"
      using check_pred_leaf [OF chk] p by blast
    have right: "\<exists>pl'. check_value pid (the_default PNone (dict_get d ''right'')) pl' c = Inr ()"
    proof (cases "dict_get d ''right''")
      case (Some x)
      then have "has ''right'' (PDict d)" using dict.get_keys [of d "''right''"] by (simp add: has_def)
      then have "\<not> str_in op [''is_true'', ''is_false'', ''is_empty'']"
        using bare leaf l(1) p unfolding comparisons.simps [of bare_unary "PDict d"] by (simp add: bare_unary_def)
      then show ?thesis using r Some by (auto simp: the_default_def)
    qed (simp add: the_default_def check_value_def)
    have "(value_of sc l = Inl (Raised e)) \<or> value_of sc (the_default PNone (dict_get d ''right'')) = Inl (Raised e)"
      using ev leaf l(1,2) p compare_not_raised unfolding pred.simps [of sc "PDict d"]
      by (auto simp: get_item_def bind_sum_Inl lift_exn_Raised)
    then have e: "e = TypeError" "\<not> (plain_name l \<and> plain_name (the_default PNone (dict_get d ''right'')))"
      using value_of_checked less.prems(2) l(3) right by blast+
    have "\<not> comparisons plain_names (PDict d)" using leaf l(2) p e(2) unfolding comparisons.simps [of plain_names "PDict d"]
      by (simp add: plain_names_def fld_def the_default_def)
    then show ?thesis using e(1) p by simp
  qed
qed

text \<open>C14: A predicate that passed the validation of the catalogue does not go wrong when it is evaluated, on two conditions: there is
  a value for every scalar binding, and no comparison by \<open>is_true\<close>, \<open>is_false\<close> or \<open>is_empty\<close> carries a second operand (the validation
  does not look at that one, while the engine evaluates it). Then it is true, false or not known; the one exception it can still raise
  is TypeError, and only if some comparison names a field or an item by a list or a dictionary, which the validation lets through.\<close>

theorem checked_predicate_sound:
  assumes "check_pred pid p place c = Inr ()" "scope_fits c sc" "comparisons bare_unary p"
  shows "(\<exists>b. pred sc p = Inr b) \<or> (\<exists>why. pred sc p = Inl (Unknown why))
     \<or> pred sc p = Inl (Raised TypeError) \<and> \<not> comparisons plain_names p"
proof (cases "pred sc p")
  case (Inl e)
  then show ?thesis using checked_predicate_error [OF assms] by (cases e) auto
qed simp

definition sample_ctx :: kctx where
  "sample_ctx = \<lparr>kc_bindings = [], kc_checks = [(PStr ''tool'', PNone)], kc_item = PNone\<rparr>"

definition sample_scope :: scope where
  "sample_scope = \<lparr>sc_bindings = [], sc_checks = [(PStr ''tool'', res [] [] OK [(''present'', PBool True)] [] [])], sc_item = None, sc_item_checks = []\<rparr>"

theorem checked_predicate_sound_witness:
  "check_pred ''p'' (is_true_of ''tool'' ''present'') [] sample_ctx = Inr () \<and> comparisons plain_names (is_true_of ''tool'' ''present'')
   \<and> ((\<exists>b. pred sample_scope (is_true_of ''tool'' ''present'') = Inr b)
      \<or> (\<exists>why. pred sample_scope (is_true_of ''tool'' ''present'') = Inl (Unknown why)))"
proof -
  have v: "check_pred ''p'' (is_true_of ''tool'' ''present'') [] sample_ctx = Inr ()"
      "comparisons bare_unary (is_true_of ''tool'' ''present'')" "comparisons plain_names (is_true_of ''tool'' ''present'')" by code_simp+
  have "scope_fits sample_ctx sample_scope" by (simp add: scope_fits_def sample_ctx_def dict_get_def)
  then show ?thesis using v checked_predicate_sound [OF v(1) _ v(2)] by blast
qed

section \<open>Saved values are valid values\<close>

lemma validate_again: "validate ty v = Inr (Some s) \<Longrightarrow> validate ty (PStr s) = Inr (Some s)"
  using validators_canonical by (elim validate_cases) (auto simp: list_all_iff canonical_def validate_def)

lemma validate_as_idem: "validate_as t v = Inr (Some s) \<Longrightarrow> validate_as t (PStr s) = Inr (Some s)"
  by (auto simp: validate_as_def bind_exn_Inr validate_again split: pyval.splits)

lemma sanitize_64: "sanitize_text (sanitize_text x 64) 64 = sanitize_text x 64"
  by (rule sanitize_text_idem) (simp_all add: pre_bound_def)

lemma any_text_no_type: "validate_as (PStr ''any_text'') v \<noteq> Inr (Some s)"
  by (auto simp: validate_as_def bind_exn_Inr validate_def VALIDATORS_def)

lemma item_value_idem: "item_value t v = Inr (Some s) \<Longrightarrow> item_value t (PStr s) = Inr (Some s)"
proof (cases "is_str ''any_text'' t")
  case True
  assume h: "item_value t v = Inr (Some s)"
  then show ?thesis using True any_text_no_type sanitize_64 by (auto simp: item_value_def is_str_def is_text_def split: pyval.splits if_splits)
next
  case False
  assume "item_value t v = Inr (Some s)"
  then show ?thesis using False validate_as_idem by (simp add: item_value_def)
qed

lemma dict_set_fresh: "k \<notin> set (dict_keys d) \<Longrightarrow> dict_set k v d = d @ [(k, v)]"
  by (induction k v d rule: dict_set.induct) (auto simp: dict_keys_def)

definition good_field :: "string \<times> pyval \<Rightarrow> string \<times> pyval \<Rightarrow> bool" where
  "good_field ft fv = (fst fv = fst ft \<and> (\<exists>c s. snd fv = PStr (c # s) \<and> item_value (snd ft) (snd fv) = Inr (Some (c # s))))"

lemma good_field_keys: "list_all2 good_field spec vals \<Longrightarrow> map fst vals = map fst spec"
  by (induction rule: list_all2_induct) (auto simp: good_field_def)

lemma item_fields_good:
  assumes "item_fields it good spec = Inr (Inr g)" "distinct (map fst spec)" "set (dict_keys good) \<inter> set (map fst spec) = {}"
  shows "\<exists>vals. g = good @ vals \<and> list_all2 good_field spec vals"
  using assms
proof (induction it good spec rule: item_fields.induct)
  case (2 it good f t spec)
  obtain o1 where o1: "item_value t (the_default PNone (dict_get it f)) = Inr o1"
      and r: "(case o1 of Some (c # s) \<Rightarrow> item_fields it (dict_set f (PStr (c # s)) good) spec | _ \<Rightarrow> Inr (Inl f)) = Inr (Inr g)"
    using "2.prems"(1) unfolding item_fields.simps bind_exn_Inr by blast
  then obtain c s where "o1 = Some (c # s)" by (cases o1) (auto split: list.splits)
  then have v: "item_value t (the_default PNone (dict_get it f)) = Inr (Some (c # s))"
      and step: "item_fields it (dict_set f (PStr (c # s)) good) spec = Inr (Inr g)" using o1 r by simp_all
  have fresh: "dict_set f (PStr (c # s)) good = good @ [(f, PStr (c # s))]" using "2.prems"(3) by (intro dict_set_fresh) auto
  have "\<exists>vals. g = (good @ [(f, PStr (c # s))]) @ vals \<and> list_all2 good_field spec vals"
    unfolding fresh [symmetric] using step "2.prems"(2,3) fresh by (intro "2.IH") (auto simp: dict_keys_def)
  then obtain vals where "g = good @ (f, PStr (c # s)) # vals" "list_all2 good_field spec vals" by auto
  moreover have "good_field (f, t) (f, PStr (c # s))" using item_value_idem [OF v] by (simp add: good_field_def)
  ultimately show ?case by (intro exI [of _ "(f, PStr (c # s)) # vals"]) simp
qed simp

lemma item_fields_again:
  assumes "list_all2 good_field spec vals" "\<forall>(f, v) \<in> set vals. dict_get it f = Some v" "distinct (map fst spec)"
    "set (dict_keys good) \<inter> set (map fst spec) = {}"
  shows "item_fields it good spec = Inr (Inr (good @ vals))"
  using assms
proof (induction spec vals arbitrary: good rule: list_all2_induct)
  case (Cons ft spec fv vals)
  obtain f t c s where ft: "ft = (f, t)" "fv = (f, PStr (c # s))" "item_value t (PStr (c # s)) = Inr (Some (c # s))"
    using Cons(1) by (cases ft; cases fv) (auto simp: good_field_def)
  have fresh: "dict_set f (PStr (c # s)) good = good @ [(f, PStr (c # s))]" using Cons.prems(3) ft by (intro dict_set_fresh) auto
  show ?case using Cons.IH [of "good @ [(f, PStr (c # s))]"] Cons.prems ft fresh by (auto simp: the_default_def dict_keys_def)
qed simp

lemma dict_get_distinct: "distinct (map fst d) \<Longrightarrow> (k, v) \<in> set d \<Longrightarrow> dict_get d k = Some v"
  by (simp add: dict_get_def)

definition good_item :: "pydict \<Rightarrow> pydict \<Rightarrow> bool" where
  "good_item spec g = (list_all2 good_field spec g \<and> distinct (map fst spec))"

lemma good_item_again: "good_item spec g \<Longrightarrow> item_fields g [] spec = Inr (Inr g)"
  using item_fields_again [of spec g g "[]"] good_field_keys [of spec g] dict_get_distinct [of g]
  by (force simp: good_item_def dict_keys_def)

lemma list_items_good: "list_items spec raws = Inr (items, why) \<Longrightarrow> distinct (map fst spec) \<Longrightarrow> \<forall>g \<in> set items. good_item spec g"
proof (induction spec raws arbitrary: items why rule: list_items.induct)
  case (2 spec it raws)
  obtain o1 lw where r1: "item_fields it [] spec = Inr o1" "list_items spec raws = Inr lw"
      and out1: "(case lw of (items', why') \<Rightarrow> case o1 of Inr good \<Rightarrow> Inr (good # items', why')
          | Inl bad \<Rightarrow> Inr (items', skipped spec it bad # why')) = (Inr (items, why) :: exn + pydict list \<times> string list)"
    using "2.prems"(1) unfolding list_items.simps bind_exn_Inr by (elim exE conjE) (rule that, assumption+)
  obtain items' why' where lw: "lw = (items', why')" by (cases lw)
  note r = r1 [unfolded lw] and out = out1 [unfolded lw prod.case]
  have ih: "\<forall>g \<in> set items'. good_item spec g" using "2.IH" [OF r(2) "2.prems"(2)] .
  show ?case
  proof (cases o1)
    case (Inr g)
    obtain vals where "g = vals" "list_all2 good_field spec vals"
      using item_fields_good [of it "[]" spec g] r(1) Inr "2.prems"(2) by (auto simp: dict_keys_def)
    then have "good_item spec g" using "2.prems"(2) by (simp add: good_item_def)
    then show ?thesis using out Inr ih by auto
  qed (use out ih in auto)
qed auto

lemma list_items_again: "\<forall>g \<in> set items. good_item spec g \<Longrightarrow> list_items spec (map PDict items) = Inr (items, [])"
  by (induction items) (simp_all add: good_item_again)

definition good_list :: "pyval \<Rightarrow> pydict list \<Rightarrow> bool" where
  "good_list spec items =
     (items \<noteq> [] \<longrightarrow> (\<exists>d fs. spec = PDict d \<and> dict_get d ''item'' = Some (PDict fs) \<and> (\<forall>g \<in> set items. good_item fs g)))"

definition good_binding :: "string \<times> pyval \<Rightarrow> string \<times> pyval \<Rightarrow> bool" where
  "good_binding ns nv =
     (fst nv = fst ns \<and> (\<exists>t. get_item (snd ns) ''type'' = Inr t
        \<and> (if is_str ''list'' t then \<exists>items. snd nv = PList (map PDict items) \<and> good_list (snd ns) items
            else \<exists>s. snd nv = PStr s \<and> validate_as t (PStr s) = Inr (Some s))))"

definition item_keys_distinct :: "pyval \<Rightarrow> bool" where
  "item_keys_distinct spec = distinct (map fst (as_dict (fld spec ''item'')))"

lemma items_of_Inr: "items_of v = Inr d \<longleftrightarrow> v = PDict d"
  by (cases v) (auto simp: items_of_def)

lemma list_values_good:
  assumes "list_values spec raw = Inr (items, why)" "item_keys_distinct spec"
  shows "good_list spec items"
proof (cases raw)
  case (PList raws)
  show ?thesis
  proof (cases "list_ex is_dict raws")
    case True
    then obtain d fs where "spec = PDict d" "dict_get d ''item'' = Some (PDict fs)" "list_items fs raws = Inr (items, why)"
      using assms(1) PList by (auto simp: list_values_def bind_exn_Inr get_item_Inr items_of_Inr)
    then show ?thesis using list_items_good assms(2) by (auto simp: good_list_def item_keys_distinct_def)
  qed (use assms PList in \<open>simp add: list_values_def good_list_def\<close>)
qed (use assms in \<open>simp_all add: list_values_def good_list_def\<close>)

lemma list_values_again: "good_list spec items \<Longrightarrow> list_values spec (PList (map PDict items)) = Inr (items, [])"
  by (cases items) (auto simp: good_list_def list_values_def get_item_def items_of_def list_items_again good_item_again)

lemma good_binding_keys: "list_all2 good_binding specs vals \<Longrightarrow> map fst vals = map fst specs"
  by (induction rule: list_all2_induct) (auto simp: good_binding_def)

lemma bind_each_good:
  assumes "bind_each raws out specs = Inr (Some bs, why)" "distinct (map fst specs)" "set (dict_keys out) \<inter> set (map fst specs) = {}"
    "\<forall>(n, sp) \<in> set specs. item_keys_distinct sp"
  shows "\<exists>vals. bs = out @ vals \<and> list_all2 good_binding specs vals"
  using assms
proof (induction specs arbitrary: out why)
  case (Cons ns specs)
  obtain name spec where ns: "ns = (name, spec)" by (cases ns)
  obtain t where t: "get_item spec ''type'' = Inr t" using Cons.prems(1) ns by (auto simp: Let_def bind_exn_Inr)
  have go: "\<exists>vals. bs = out @ vals \<and> list_all2 good_binding (ns # specs) vals"
    if v: "good_binding (name, spec) (name, v)" and step: "bind_each raws (dict_set name v out) specs = Inr (Some bs, why')" for v why'
  proof -
    have fresh: "dict_set name v out = out @ [(name, v)]" using Cons.prems(3) ns by (intro dict_set_fresh) auto
    obtain vals where "bs = (out @ [(name, v)]) @ vals" "list_all2 good_binding specs vals"
      using Cons.IH [OF step] Cons.prems(2-4) ns fresh by (auto simp: dict_keys_def)
    then show ?thesis using v ns by (intro exI [of _ "(name, v) # vals"]) simp
  qed
  show ?case
  proof (cases "is_str ''list'' t")
    case True
    then obtain items w1 w2 where l: "list_values spec (the_default PNone (dict_get raws name)) = Inr (items, w1)"
        and step: "bind_each raws (dict_set name (PList (map PDict items)) out) specs = Inr (Some bs, w2)"
      using Cons.prems(1) ns t by (auto simp: Let_def bind_exn_Inr)
    have "good_list spec items" using list_values_good [OF l] Cons.prems(4) ns by simp
    then have "good_binding (name, spec) (name, PList (map PDict items))" using t True by (auto simp: good_binding_def)
    then show ?thesis using step by (rule go)
  next
    case False
    then obtain s where s: "validate_as t (the_default PNone (dict_get raws name)) = Inr (Some s)"
        and step: "bind_each raws (dict_set name (PStr s) out) specs = Inr (Some bs, why)"
      using Cons.prems(1) ns t by (auto simp: Let_def bind_exn_Inr split: option.splits)
    have "good_binding (name, spec) (name, PStr s)" using t False validate_as_idem [OF s] by (simp add: good_binding_def)
    then show ?thesis using step by (rule go)
  qed
qed simp

lemma bind_each_again:
  assumes "list_all2 good_binding specs vals" "\<forall>(n, v) \<in> set vals. dict_get raws n = Some v" "distinct (map fst specs)"
    "set (dict_keys out) \<inter> set (map fst specs) = {}"
  shows "bind_each raws out specs = Inr (Some (out @ vals), [])"
  using assms
proof (induction specs vals arbitrary: out rule: list_all2_induct)
  case (Cons ns specs nv vals)
  obtain name spec v where ns: "ns = (name, spec)" "nv = (name, v)" using Cons(1) by (cases ns; cases nv) (auto simp: good_binding_def)
  have fresh: "dict_set name v out = out @ [(name, v)]" using Cons.prems(3) ns by (intro dict_set_fresh) auto
  have ih: "bind_each raws (dict_set name v out) specs = Inr (Some (out @ nv # vals), [])"
    using Cons.IH [of "out @ [(name, v)]"] Cons.prems ns fresh by (auto simp: dict_keys_def)
  have raw: "the_default PNone (dict_get raws name) = v" using Cons.prems(1) ns by (simp add: the_default_def)
  obtain t where t: "get_item spec ''type'' = Inr t" using Cons(1) ns by (auto simp: good_binding_def)
  show ?case
  proof (cases "is_str ''list'' t")
    case True
    then obtain items where items: "v = PList (map PDict items)" "good_list spec items" using Cons(1) ns t by (auto simp: good_binding_def)
    have "list_values spec v = Inr (items, [])" unfolding items(1) by (rule list_values_again [OF items(2)])
    then show ?thesis using ih raw t True ns items(1) by (simp add: Let_def)
  next
    case False
    then obtain s where "v = PStr s" "validate_as t (PStr s) = Inr (Some s)" using Cons(1) ns t by (auto simp: good_binding_def)
    then show ?thesis using ih raw t False ns by (simp add: Let_def)
  qed
qed simp

text \<open>The checks and the reasons to withhold only drop reported items.\<close>

definition tg_ok :: "(string \<Rightarrow> pydict \<Rightarrow> bool) \<Rightarrow> string list \<Rightarrow> targets \<Rightarrow> bool" where
  "tg_ok P ns tg = (map fst tg = ns \<and> (\<forall>(n, ts) \<in> set tg. \<forall>t \<in> set ts. P n (fst t)))"

lemma tg_ok_set:
  assumes "tg_ok P ns tg" "named_targets tg name = Inr ts0" "\<forall>t \<in> set ts. fst t \<in> fst ` set ts0"
  shows "tg_ok P ns (dict_set (the_default [] (as_str name)) ts tg)"
proof -
  obtain n where n: "name = PStr n" "dict_get tg n = Some ts0"
    using assms(2) by (auto simp: named_targets_def bind_exn_Inr lookup_key_Inr split: option.splits)
  then have mem: "(n, ts0) \<in> set tg" using dict_get_member by fast
  have "map fst (dict_set n ts tg) = map fst tg" using mem by (force simp: keys_dict_set)
  moreover have "P n (fst t)" if "t \<in> set ts" for t using assms(1,3) mem that unfolding tg_ok_def by fastforce
  ultimately show ?thesis using assms(1) dict_set_subset [of n ts tg] n(1) by (fastforce simp: tg_ok_def the_default_def)
qed

lemma inv_items_items: "inv_items en bs globals iv ts r rn = (Go (ts', r'), rn') \<Longrightarrow> map fst ts' = map fst ts"
proof (induction en bs globals iv ts r rn arbitrary: ts' r' rn' rule: inv_items.induct)
  case (2 en bs globals iv it own ts r rn)
  obtain own1 r1 rn1 where o: "inv_once en iv (item_scope bs globals (it, own)) own r rn = (Go (own1, r1), rn1)"
    using "2.prems" by (auto split: prod.splits flow.splits)
  obtain ts1 r2 rn2 where i: "inv_items en bs globals iv ts r1 rn1 = (Go (ts1, r2), rn2)" "ts' = (it, own1) # ts1"
    using "2.prems" o by (auto simp: bind_flow_Go split: prod.splits)
  have "map fst ts1 = map fst ts" by (rule "2.IH" [OF o [symmetric] refl refl i(1)])
  then show ?case using i(2) by simp
qed simp

lemma inv_all_targets: "inv_all en bs ivs globals tg r rn = (Go (g, tg', r'), rn') \<Longrightarrow> tg_ok P ns tg \<Longrightarrow> tg_ok P ns tg'"
proof (induction en bs ivs globals tg r rn rule: inv_all.induct)
  case (2 en bs iv ivs globals tg r rn)
  obtain name where nm: "loop_of iv = Inr name" using "2.prems"(1) by (auto split: sum.splits)
  show ?case
  proof (cases "truthy name")
    case True
    obtain ts where ts: "named_targets tg name = Inr ts" using "2.prems"(1) nm True by (auto split: sum.splits)
    obtain ts1 r1 rn1 where i: "inv_items en bs globals iv ts r rn = (Go (ts1, r1), rn1)"
      using "2.prems"(1) nm True ts by (auto split: prod.splits flow.splits)
    have "\<forall>t \<in> set ts1. fst t \<in> fst ` set ts" using inv_items_items [OF i] by (metis image_eqI image_set)
    then have "tg_ok P ns (dict_set (the_default [] (as_str name)) ts1 tg)" by (rule tg_ok_set [OF "2.prems"(2) ts])
    then show ?thesis using "2.IH"(1) [OF nm True ts i [symmetric] refl refl] "2.prems"(1) nm True ts i by simp
  next
    case False
    obtain g1 r1 rn1 where o: "inv_once en iv (base_scope bs globals) globals r rn = (Go (g1, r1), rn1)"
      using "2.prems"(1) nm False by (auto split: prod.splits flow.splits)
    show ?thesis using "2.IH"(2) [OF nm False o [symmetric] refl refl] "2.prems" nm False o by simp
  qed
qed simp

lemma keep_items_subset: "keep_items bs globals w ts = Inr (kept, why) \<Longrightarrow> set kept \<subseteq> set ts"
  by (induction ts arbitrary: kept why) (fastforce simp: bind_exn_Inr split: option.splits)+

lemma withhold_all_targets: "withhold_all bs globals ws tg r = Go (tg', r') \<Longrightarrow> tg_ok P ns tg \<Longrightarrow> tg_ok P ns tg'"
proof (induction bs globals ws tg r rule: withhold_all.induct)
  case (2 bs globals w ws tg r)
  obtain name where name: "loop_of w = Inr name" using "2.prems"(1) by (auto simp: try_exn_Go)
  show ?case
  proof (cases "truthy name")
    case True
    then obtain ts kept why where k: "named_targets tg name = Inr ts" "keep_items bs globals w ts = Inr (kept, why)"
        and step: "withhold_all bs globals ws (dict_set (the_default [] (as_str name)) kept tg) (r\<lparr>rz_reasons := rz_reasons r @ why\<rparr>) = Go (tg', r')"
      using "2.prems"(1) name by (auto simp: try_exn_Go split: prod.splits)
    have "tg_ok P ns (dict_set (the_default [] (as_str name)) kept tg)"
      by (rule tg_ok_set [OF "2.prems"(2) k(1)]) (use keep_items_subset [OF k(2)] in blast)
    then show ?thesis by (rule "2.IH"(1) [OF True step])
  next
    case False
    then obtain hit where "\<not> hit" "withhold_all bs globals ws tg r = Go (tg', r')"
      using "2.prems"(1) name by (auto simp: try_exn_Go on_unknown_Go split: if_splits)
    then show ?thesis using "2.IH"(2) [OF False] "2.prems"(2) by blast
  qed
qed simp

lemma set_binding:
  assumes "list_all2 good_binding specs bs" "\<forall>sp. (n, sp) \<in> set specs \<longrightarrow> good_binding (n, sp) (n, v)" "n \<in> set (map fst specs)"
  shows "list_all2 good_binding specs (dict_set n v bs)"
  using assms
proof (induction specs bs rule: list_all2_induct)
  case (Cons ns specs nv bs)
  have k: "fst nv = fst ns" using Cons(1) by (simp add: good_binding_def)
  obtain m x where nv: "nv = (m, x)" by (cases nv)
  show ?case
  proof (cases "m = n")
    case True
    then have "good_binding ns (n, v)" using Cons.prems(1) k nv by (cases ns) auto
    then show ?thesis using True nv Cons(2) by simp
  next
    case False
    then show ?thesis using Cons k nv by auto
  qed
qed simp

lemma set_lists_good:
  assumes "list_all2 good_binding specs bs" "\<forall>(n, ts) \<in> set tg. n \<in> set (map fst specs)
      \<and> (\<forall>sp. (n, sp) \<in> set specs \<longrightarrow> good_binding (n, sp) (n, PList (map (PDict \<circ> fst) ts)))"
  shows "list_all2 good_binding specs (set_lists tg bs)"
  using assms unfolding set_lists_def
proof (induction tg arbitrary: bs)
  case (Cons nt tg)
  obtain n ts where nt: "nt = (n, ts)" by (cases nt)
  have "list_all2 good_binding specs (dict_set n (PList (map (PDict \<circ> fst) ts)) bs)"
    using Cons.prems nt by (intro set_binding) (auto simp: comp_def)
  then show ?case using Cons.IH Cons.prems(2) nt by (simp add: comp_def)
qed simp

lemma set_lists_get: "distinct (map fst tg) \<Longrightarrow> (n, ts) \<in> set tg \<Longrightarrow> dict_get (set_lists tg bs) n = Some (PList (map (PDict \<circ> fst) ts))"
proof (induction tg rule: rev_induct)
  case (snoc x tg)
  obtain m us where x: "x = (m, us)" by (cases x)
  have step: "set_lists (tg @ [x]) bs = dict_set m (PList (map (PDict \<circ> fst) us)) (set_lists tg bs)" by (simp add: set_lists_def x)
  show ?case
  proof (cases "n = m")
    case True
    then have "ts = us" using snoc.prems x by force
    then show ?thesis using True by (simp add: step dict.get_set)
  next
    case False
    then show ?thesis using snoc unfolding step by (simp add: x dict.get_set comp_def)
  qed
qed simp

text \<open>What \<open>json.loads\<close> with the catalogue's hook guarantees: no object has the same key twice.\<close>

definition distinct_objects :: "pyval \<Rightarrow> bool" where
  "distinct_objects p = (distinct (map fst (spec_of p)) \<and> (\<forall>(n, sp) \<in> set (spec_of p). item_keys_distinct sp))"

lemma bindings_of_Inr:
  assumes "bindings_of proc raws = Inr (Some bs, why)"
  shows "\<exists>d. proc = PDict d \<and> dict_get d ''bindings'' = Some (PDict (spec_of proc)) \<and> bind_each raws [] (spec_of proc) = Inr (Some bs, why)"
  using assms by (auto simp: bindings_of_def with_item_Inr bind_exn_Inr items_of_Inr spec_of_def the_default_def Let_def
      split: option.splits if_splits)

lemma bindings_again:
  assumes "list_all2 good_binding (spec_of proc) bs" "distinct (map fst (spec_of proc))" "proc = PDict d" "dict_get d ''bindings'' = Some (PDict (spec_of proc))"
    "list_names (spec_of proc) \<noteq> [] \<Longrightarrow> \<exists>n \<in> set (list_names (spec_of proc)). truthy (the_default PNone (dict_get bs n))"
  shows "bindings_of proc bs = Inr (Some bs, [])"
proof -
  have "distinct (map fst bs)" using good_binding_keys [OF assms(1)] assms(2) by simp
  then have look: "\<forall>(n, v) \<in> set bs. dict_get bs n = Some v" using dict_get_distinct by fast
  have b: "bind_each bs [] (spec_of proc) = Inr (Some bs, [])"
    using bind_each_again [OF assms(1) look assms(2), of "[]"] by (simp add: dict_keys_def)
  have "get_item proc ''bindings'' = Inr (PDict (spec_of proc))" using assms(3,4) by (simp add: get_item_def)
  then show ?thesis using b assms(5) by (auto simp: bindings_of_def with_item_def items_of_def Let_def list_ex_iff)
qed

definition good_target :: "pydict \<Rightarrow> string \<Rightarrow> pydict \<Rightarrow> bool" where
  "good_target specs n g = (\<forall>sp. (n, sp) \<in> set specs \<longrightarrow> good_list sp [g])"

lemma list_name_type: "n \<in> set (list_names specs) \<Longrightarrow> distinct (map fst specs) \<Longrightarrow> (n, sp) \<in> set specs
    \<Longrightarrow> dict_get (as_dict sp) ''type'' = Some (PStr ''list'')"
  unfolding list_names_def by (auto dest: eq_key_imp_eq_value)

lemma good_list_type: "good_binding (n, sp) (n, v) \<Longrightarrow> dict_get (as_dict sp) ''type'' = Some (PStr ''list'')
    \<Longrightarrow> \<exists>items. v = PList (map PDict items) \<and> good_list sp items"
  by (auto simp: good_binding_def get_item_Inr is_str_def split: if_splits)

lemma good_list_each: "good_list sp items \<longleftrightarrow> (\<forall>g \<in> set items. good_list sp [g])"
  by (cases items) (auto simp: good_list_def)

lemma targets_of_ok:
  assumes "list_all2 good_binding specs bs" "distinct (map fst specs)"
  shows "tg_ok (good_target specs) (list_names specs) (targets_of specs bs)"
proof -
  have "good_target specs n (fst t)"
    if n: "n \<in> set (list_names specs)" and t: "t \<in> set (case dict_get bs n of Some (PList xs) \<Rightarrow> map (\<lambda>x. (as_dict x, [])) xs | _ \<Rightarrow> [])" for n t
    unfolding good_target_def
  proof (intro allI impI)
    fix sp assume sp: "(n, sp) \<in> set specs"
    obtain v where v: "dict_get bs n = Some v" "good_binding (n, sp) (n, v)"
    proof -
      obtain i where i: "i < length specs" "specs ! i = (n, sp)" using sp by (metis in_set_conv_nth)
      then have "good_binding (n, sp) (bs ! i)" using assms(1) by (metis list_all2_nthD)
      then obtain v where "bs ! i = (n, v)" "good_binding (n, sp) (n, v)" by (cases "bs ! i") (auto simp: good_binding_def)
      moreover have "i < length bs" using i assms(1) by (simp add: list_all2_lengthD)
      ultimately show ?thesis using that dict_get_distinct [of bs n v] good_binding_keys [OF assms(1)] assms(2) by (metis nth_mem)
    qed
    obtain items where "v = PList (map PDict items)" "good_list sp items"
      using good_list_type [OF v(2) list_name_type [OF n assms(2) sp]] by blast
    then show "good_list sp [fst t]" using t v(1) good_list_each [of sp items] by auto
  qed
  then have "\<forall>(n, ts) \<in> set (targets_of specs bs). \<forall>t \<in> set ts. good_target specs n (fst t)"
    unfolding targets_of_def by (simp del: split_paired_All) blast
  then show ?thesis by (simp add: tg_ok_def targets_of_def comp_def)
qed

lemma kept_good:
  assumes "list_all2 good_binding specs bs" "distinct (map fst specs)" "tg_ok (good_target specs) (list_names specs) tg"
  shows "list_all2 good_binding specs (set_lists tg bs)"
proof (rule set_lists_good [OF assms(1)], clarify, intro conjI allI impI)
  fix n ts assume e: "(n, ts) \<in> set tg"
  have "n \<in> set (map fst tg)" using e by force
  then have n: "n \<in> set (list_names specs)" using assms(3) unfolding tg_ok_def by (simp only:)
  then show "n \<in> set (map fst specs)" by (auto simp: list_names_def)
  fix sp assume sp: "(n, sp) \<in> set specs"
  have "\<forall>t \<in> set ts. good_list sp [fst t]" using e assms(3) sp by (fastforce simp: tg_ok_def good_target_def)
  then have "good_list sp (map fst ts)" unfolding good_list_each [of sp "map fst ts"] by simp
  moreover obtain t where "get_item sp ''type'' = Inr t" "is_str ''list'' t"
    using list_name_type [OF n assms(2) sp] by (cases sp) (auto simp: get_item_def is_str_def dict_get_def)
  ultimately show "good_binding (n, sp) (n, PList (map (PDict \<circ> fst) ts))"
    by (auto simp: good_binding_def intro!: exI [of _ "map fst ts"])
qed

lemma kept_truthy:
  assumes "map fst tg = list_names specs" "distinct (map fst specs)" "\<not> nothing_left tg" "list_names specs \<noteq> []"
  shows "\<exists>n \<in> set (list_names specs). truthy (the_default PNone (dict_get (set_lists tg bs) n))"
proof -
  have "tg \<noteq> []" using assms(1,4) by auto
  then obtain n ts where t: "(n, ts) \<in> set tg" "ts \<noteq> []" using assms(3) by (auto simp: nothing_left_def list_all_iff)
  have "distinct (list_names specs)" unfolding list_names_def using assms(2) by (rule distinct_map_filter)
  then have "distinct (map fst tg)" using assms(1) by simp
  then have "dict_get (set_lists tg bs) n = Some (PList (map (PDict \<circ> fst) ts))" using t(1) by (rule set_lists_get)
  then have "truthy (the_default PNone (dict_get (set_lists tg bs) n))" using t(2) by (cases ts) (simp_all add: the_default_def)
  have "n \<in> set (map fst tg)" using t(1) by force
  then have "n \<in> set (list_names specs)" unfolding assms(1) .
  then show ?thesis using \<open>truthy _\<close> by (rule bexI [rotated])
qed

lemma all_exn_True: "(\<And>x. x \<in> set xs \<Longrightarrow> f x = Inr True) \<Longrightarrow> all_exn (map f xs) = Inr True"
  by (induction xs) simp_all

lemma reread_saved:
  assumes "bindings_of proc bs = Inr (Some bs, [])" "list_all2 good_binding (spec_of proc) bs" "distinct (map fst (spec_of proc))"
  shows "reread proc (PDict bs) = Inr (Some bs)"
proof -
  have "bind_exn (get_or (PDict bs) n PNone) (\<lambda>v. bind_exn (py_len (if truthy v then v else PList [])) (\<lambda>l.
      Inr (length (the_default [] (as_list (the_default PNone (dict_get bs n)))) = l))) = Inr True"
    if n: "n \<in> set (list_names (spec_of proc))" for n
  proof -
    obtain sp where sp: "(n, sp) \<in> set (spec_of proc)" using n by (auto simp: list_names_def)
    obtain i where i: "i < length (spec_of proc)" "spec_of proc ! i = (n, sp)" using sp by (metis in_set_conv_nth)
    then have "good_binding (n, sp) (bs ! i)" using assms(2) by (metis list_all2_nthD)
    then obtain v where v: "bs ! i = (n, v)" "good_binding (n, sp) (n, v)" by (cases "bs ! i") (auto simp: good_binding_def)
    then obtain items where "bs ! i = (n, PList (map PDict items))"
      using good_list_type [OF v(2) list_name_type [OF n assms(3) sp]] by blast
    moreover have "i < length bs" using i assms(2) by (simp add: list_all2_lengthD)
    ultimately have "dict_get bs n = Some (PList (map PDict items))"
      using dict_get_distinct [of bs n] good_binding_keys [OF assms(2)] assms(3) by (metis nth_mem)
    then show ?thesis by (cases items) (simp_all add: get_or_def the_default_def py_len_def)
  qed
  then show ?thesis using assms(1) by (simp add: reread_def Let_def all_exn_True)
qed

lemma loaded_distinct:
  assumes "load_catalogue reg show_exn source None = (cat, err)"
  shows "distinct (map (\<lambda>p. py_str (fld p ''id'')) cat)"
proof (cases "bind_exn source (validate_catalogue reg)")
  case (Inr c)
  then obtain data where data: "validate_catalogue reg data = Inr c" by (auto simp: bind_exn_Inr)
  have "c = cat" using assms(1) Inr by (simp add: load_catalogue_def)
  then show ?thesis using conjunct2 [OF validate_catalogue_Inr [OF data]] by simp
qed (use assms in \<open>simp add: load_catalogue_def\<close>)

lemma validate_procedure_dict: "validate_procedure reg p = Inr () \<Longrightarrow> is_dict p"
  by (auto simp: validate_procedure_def bind_exn_Inr get_or_Inr)

lemma py_eq_str [simp]: "py_eq (PStr a) (PStr b) = (a = b)"
  by (simp add: py_eq.simps)

lemma saved_procedure_found:
  assumes "\<forall>p \<in> set cat. \<exists>s. fld p ''id'' = PStr s" "\<forall>p \<in> set cat. is_dict p" "distinct (map (\<lambda>p. py_str (fld p ''id'')) cat)" "proc \<in> set cat" "is_fix proc"
  shows "saved_procedure cat (fld proc ''id'') = Inr (Some proc)"
  using assms
proof (induction cat)
  case (Cons p ps)
  have "\<exists>s. fld p ''id'' = PStr s" "\<exists>t. fld proc ''id'' = PStr t" using Cons.prems(1,4) by auto
  then obtain s t where st: "fld p ''id'' = PStr s" "fld proc ''id'' = PStr t" by blast
  have g: "get_or p ''id'' PNone = Inr (PStr s)" using Cons.prems(2) st(1) by (cases p) (auto simp: get_or_def fld_def)
  show ?case
  proof (cases "p = proc")
    case True
    then have "dict_get (as_dict p) ''kind'' \<noteq> Some (PStr ''no_procedure'')" using Cons.prems(5) by (auto simp: is_fix_def fld_def the_default_def)
    then show ?thesis using True g st by simp
  next
    case False
    then have "proc \<in> set ps" using Cons.prems(4) by simp
    then have "s \<noteq> t" using Cons.prems(3) st by (force simp: image_iff)
    then show ?thesis using Cons \<open>proc \<in> set ps\<close> g st by simp
  qed
qed simp

text \<open>C12: A verify run accepts the record of a fix that was offered: the procedure is found under its id and its digest is the
  same, and the saved values, validated again under the declared types, are all valid and unchanged (also those of the items
  that were left after some were withheld). And if the fresh checks rebuild the criteria that were shown, they are found to be
  the saved ones. So "cannot be rebuilt" or "changed" is never reported for a record that nothing touched.\<close>

theorem offered_record_accepted:
  assumes "load_catalogue reg show_exn source None = (cat, err)" "\<forall>p \<in> set cat. distinct_objects p"
    "resolve_diagnosis en cat env d rn = (Inr (Some r), rn')" "rz_status r = OFFERED"
  shows "\<exists>base p bs. rz_baseline r = Some base \<and> p \<in> set cat \<and> dict_get base ''bindings'' = Some (PDict bs)
    \<and> rebuild_values (en_sha256 en) cat (PDict base) = Inr (Inr (p, bs))
    \<and> compared (en_sha256 en) (PDict (base @ [(''diagnosis_id'', PStr (d_diagnosis_id d))])) (rz_verify r) = (Some (rz_verify r), [], [])"
proof -
  obtain key x where k: "procedure_for cat d key = Inr (Some (or_proc x))" "is_fix (or_proc x)" and p: "passed en env d rn x r"
    using assms(3,4) by (rule offered_run)
  define proc where "proc = or_proc x"
  define bs where "bs = set_lists (or_kept x) (or_values x)"
  note h = p [unfolded passed_def Let_def, folded proc_def bs_def]
  have mem: "proc \<in> set cat" using procedure_for_selects [OF k(1)] proc_def by blast
  have dist: "distinct (map fst (spec_of proc))" "\<forall>(n, sp) \<in> set (spec_of proc). item_keys_distinct sp"
    using assms(2) mem unfolding distinct_objects_def by blast+
  obtain why where "bindings_of proc (d_bindings d) = Inr (Some (or_values x), why)" using before_checks_Go h by blast
  then obtain pd where pd: "proc = PDict pd" "dict_get pd ''bindings'' = Some (PDict (spec_of proc))"
      "bind_each (d_bindings d) [] (spec_of proc) = Inr (Some (or_values x), why)" using bindings_of_Inr by blast
  have good: "list_all2 good_binding (spec_of proc) (or_values x)"
    using bind_each_good [OF pd(3) dist(1) _ dist(2)] by (auto simp: dict_keys_def)
  have inv: "inv_all en (or_values x) (or_invs x) [] (targets_of (spec_of proc) (or_values x)) (or_started x) rn
      = (Go (or_globals x, or_targets x, or_checked x), or_after x)"
      and wh: "withhold_all (or_values x) (or_globals x) (or_withhold x) (or_targets x) (or_checked x) = Go (or_kept x, or_left x)"
    using h by blast+
  have kept: "tg_ok (good_target (spec_of proc)) (list_names (spec_of proc)) (or_kept x)"
    by (rule withhold_all_targets [OF wh inv_all_targets [OF inv targets_of_ok [OF good dist(1)]]])
  have good': "list_all2 good_binding (spec_of proc) bs" unfolding bs_def by (rule kept_good [OF good dist(1) kept])
  have "bindings_of proc bs = Inr (Some bs, [])"
  proof (rule bindings_again [OF good' dist(1) pd(1,2)])
    assume "list_names (spec_of proc) \<noteq> []"
    then show "\<exists>n \<in> set (list_names (spec_of proc)). truthy (the_default PNone (dict_get bs n))"
      unfolding bs_def using kept_truthy [OF _ dist(1)] kept h by (auto simp: tg_ok_def)
  qed
  then have re: "reread proc (PDict bs) = Inr (Some bs)" by (rule reread_saved [OF _ good' dist(1)])
  have cat: "\<forall>q \<in> set cat. validate_procedure reg q = Inr ()" "distinct (map (\<lambda>p. py_str (fld p ''id'')) cat)"
    using loaded_procedures [OF assms(1)] loaded_distinct [OF assms(1)] by blast+
  have "saved_procedure cat (fld proc ''id'') = Inr (Some proc)"
    using cat mem k(2) validate_procedure_id validate_procedure_dict unfolding proc_def
    by (intro saved_procedure_found) blast+
  moreover have o: "offer (en_sha256 en) env d proc bs (or_parts x) ((or_left x)\<lparr>rz_prerequisites := or_prereqs x\<rparr>) = Inr r" using h by blast
  note f = offer_fields [OF o]
  define base where "base = [(''procedure_id'', fld proc ''id''), (''procedure_digest'', PStr (procedure_digest (en_sha256 en) proc)),
         (''bindings'', PDict bs), (''criteria_digest'', PStr (criteria_digest (en_sha256 en) (rz_verify r) (d_diagnosis_id d)))]"
  have "rz_baseline r = Some base" "dict_get base ''bindings'' = Some (PDict bs)" using f by (simp_all add: base_def dict_get_def)
  moreover have "rebuild_values (en_sha256 en) cat (PDict base) = Inr (Inr (proc, bs))"
    using calculation(1) re by (simp add: rebuild_values_def base_def dict_get_def the_default_def Let_def)
  moreover have "compared (en_sha256 en) (PDict (base @ [(''diagnosis_id'', PStr (d_diagnosis_id d))])) (rz_verify r) = (Some (rz_verify r), [], [])"
    by (simp add: compared_def base_def dict_get_def the_default_def Let_def)
  ultimately show ?thesis using mem by blast
qed

theorem offered_record_accepted_witness:
  "\<exists>r base p bs. resolve_diagnosis sample_engine [expire_entry built_in] sample_env sample_diagnosis () = (Inr (Some r), ())
     \<and> rz_baseline r = Some base \<and> rebuild_values (en_sha256 sample_engine) [expire_entry built_in] (PDict base) = Inr (Inr (p, bs))"
proof -
  obtain r where r: "resolve_diagnosis sample_engine [expire_entry built_in] sample_env sample_diagnosis () = (Inr (Some r), ())"
      "rz_status r = OFFERED" using sample_run by blast
  have "distinct_objects (expire_entry built_in)" by code_simp
  then show ?thesis using offered_record_accepted [OF sample_loaded _ r] r(1) by auto
qed

end
