(* ===== verification/Baseline.thy ===== *)
theory Baseline
  imports VerifyProps Unexplained
begin

text \<open>
  \<open>ipa-diagnose verify\<close> (\<open>verify.py\<close>, with the exit codes of \<open>cli.py\<close>): the saved report of an earlier run is read back as
  untrusted data and compared with a fresh report. The packs, the catalogue of procedures and the runner of the checks are
  arguments; a run without a runner passes None. The resolutions of a report are passed beside it.
\<close>

section \<open>Data\<close>

datatype verify_outcome = RESOLVED | STILL_PRESENT | PARTIALLY_RESOLVED | UNABLE_TO_VERIFY | CHANGED

record verify_item =
  vi_diagnosis_id :: string
  vi_title :: string
  vi_outcome :: verify_outcome
  vi_detail :: string

record verify_result =
  vr_items :: "verify_item list"
  vr_new_conditions :: "diagnosis list"
  vr_previous_generated_at :: pyval
  vr_current_report :: diagnosis_report

definition ROOT_TIER :: "priority_bucket list" where
  "ROOT_TIER = [PRIMARY, SECONDARY_INDEPENDENT]"

definition fresh_ids :: "diagnosis_report \<Rightarrow> string list" where
  "fresh_ids r = map d_diagnosis_id (rep_diagnoses r)"

definition keep_baseline :: "verify_result \<Rightarrow> bool" where
  "keep_baseline vr =
     list_ex (\<lambda>i. vi_outcome i \<noteq> RESOLVED \<and> vi_diagnosis_id i \<notin> set (fresh_ids (vr_current_report vr))) (vr_items vr)"

section \<open>Reading the saved report\<close>

text \<open>What \<open>_state_location_ok\<close> asks of the file system. A path is the list of its parts below the root; \<open>fs_exists\<close>, \<open>fs_owner\<close> and
  \<open>fs_link_owner\<close> may raise OSError (None).\<close>

record file_system =
  fs_islink :: "string list \<Rightarrow> bool"
  fs_exists :: "string list \<Rightarrow> bool option"
  fs_owner :: "string list \<Rightarrow> int option"
  fs_link_owner :: "string list \<Rightarrow> int option"

text \<open>Every prefix of the parent: a link belongs to root or to this user.\<close>

fun links_ok :: "file_system \<Rightarrow> int \<Rightarrow> string list \<Rightarrow> string list \<Rightarrow> bool" where
  "links_ok fs euid pre [] = True"
| "links_ok fs euid pre (x # xs) =
     ((fs_islink fs (pre @ [x]) \<longrightarrow> (case fs_link_owner fs (pre @ [x]) of None \<Rightarrow> False | Some u \<Rightarrow> u = 0 \<or> u = euid))
      \<and> links_ok fs euid (pre @ [x]) xs)"

definition owned_if_there :: "file_system \<Rightarrow> (string list \<Rightarrow> int option) \<Rightarrow> int \<Rightarrow> string list \<Rightarrow> bool" where
  "owned_if_there fs owner euid path =
     (case fs_exists fs path of None \<Rightarrow> False | Some there \<Rightarrow> there \<longrightarrow> owner path = Some euid)"

definition state_location_ok :: "file_system \<Rightarrow> int option \<Rightarrow> string list \<Rightarrow> string \<Rightarrow> bool" where
  "state_location_ok fs geteuid parent name =
     (\<not> fs_islink fs (parent @ [name])
      \<and> (case geteuid of None \<Rightarrow> True
         | Some euid \<Rightarrow>
             links_ok fs euid [] parent \<and> owned_if_there fs (fs_owner fs) euid parent
             \<and> owned_if_there fs (fs_link_owner fs) euid (parent @ [name])))"

text \<open>Parts of untrusted JSON: \<open>d.get(k) if isinstance(d.get(k), dict) else {}\<close> and the like.\<close>

definition sub_dict :: "pydict \<Rightarrow> string \<Rightarrow> pydict" where
  "sub_dict d k = (case dict_get d k of Some (PDict e) \<Rightarrow> e | _ \<Rightarrow> [])"

definition sub_list :: "pydict \<Rightarrow> string \<Rightarrow> pyval list" where
  "sub_list d k = (case dict_get d k of Some (PList xs) \<Rightarrow> xs | _ \<Rightarrow> [])"

definition str_at :: "pydict \<Rightarrow> string \<Rightarrow> string option" where
  "str_at d k = (case dict_get d k of Some (PStr s) \<Rightarrow> Some s | _ \<Rightarrow> None)"

definition dicts :: "pyval list \<Rightarrow> pydict list" where
  "dicts xs = map as_dict (filter is_dict xs)"

definition entry_id :: "pydict \<Rightarrow> string" where
  "entry_id d = the_default [] (str_at d ''diagnosis_id'')"

definition entries_with_id :: "pyval list \<Rightarrow> pydict list" where
  "entries_with_id xs = filter (\<lambda>d. str_at d ''diagnosis_id'' \<noteq> None) (dicts xs)"

text \<open>The texts of an entry are made plain; those that are missing or not texts get a value.\<close>

definition set_text :: "string \<Rightarrow> pydict \<Rightarrow> pydict" where
  "set_text k d = (if str_at d k = None then dict_set k (PStr []) d else d)"

definition clean_entry :: "pydict \<Rightarrow> pydict" where
  "clean_entry d =
     (let did = sanitize_text (entry_id d) 160;
          title = (case str_at d ''title'' of Some t \<Rightarrow> sanitize_text t 160 | None \<Rightarrow> did)
      in set_text ''status'' (set_text ''priority'' (set_text ''pack_id''
           (dict_set ''title'' (PStr title) (dict_set ''diagnosis_id'' (PStr did) d)))))"

definition accept_saved :: "pyval \<Rightarrow> pydict option" where
  "accept_saved data =
     (case data of
        PDict d \<Rightarrow>
          (case the_default (PList []) (dict_get d ''diagnoses'') of
             PList ds \<Rightarrow>
               (let d1 = dict_set ''diagnoses'' (PList (map (PDict \<circ> clean_entry) (entries_with_id ds))) d
                in Some (if str_at d1 ''generated_at'' = None then dict_set ''generated_at'' (PStr ''an unknown time'') d1 else d1))
           | _ \<Rightarrow> None)
      | _ \<Rightarrow> None)"

definition UnreadableBaseline :: exn where "UnreadableBaseline = OtherError ''UnreadableBaseline''"

text \<open>The exceptions of reading and parsing that are caught: OSError, ValueError (with JSONDecodeError) and RecursionError.\<close>

fun unreadable_by :: "exn \<Rightarrow> bool" where
  "unreadable_by (ValueError s) = True"
| "unreadable_by (OtherError n) = (n \<in> {''OSError'', ''RecursionError''})"
| "unreadable_by _ = False"

text \<open>\<open>there\<close>: the path exists or is a link; \<open>trusted\<close>: the location is; \<open>parsed\<close>: what reading and parsing the file gives.\<close>

definition load_previous_report :: "bool \<Rightarrow> bool \<Rightarrow> exn + pyval \<Rightarrow> bool \<Rightarrow> exn + pydict option" where
  "load_previous_report there trusted parsed strict =
     (let refuse = (if strict then Inl UnreadableBaseline else Inr None)
      in if \<not> there then Inr None
         else if \<not> trusted then refuse
         else case parsed of
                Inl e \<Rightarrow> if unreadable_by e then refuse else Inl e
              | Inr data \<Rightarrow> (case accept_saved data of None \<Rightarrow> refuse | Some d \<Rightarrow> Inr (Some d)))"

definition saved_entries :: "pydict \<Rightarrow> pydict list" where
  "saved_entries previous = map as_dict (sub_list previous ''diagnoses'')"

definition baseline_fixes :: "pydict \<Rightarrow> (string \<times> pydict) list" where
  "baseline_fixes previous =
     dict_of (map (\<lambda>f. (entry_id f, f)) (entries_with_id (sub_list (sub_dict (sub_dict previous ''v2'') ''verify_baseline'') ''fixes'')))"

definition baseline_damage :: "pydict \<Rightarrow> string option" where
  "baseline_damage previous =
     (if \<not> py_eq (the_default PNone (dict_get previous ''report_schema_version'')) (PInt 2) \<and> dict_get previous ''v2'' = None
      then None
      else case dict_get (sub_dict previous ''v2'') ''verify_baseline'' of
             Some (PDict b) \<Rightarrow>
               if \<not> py_eq (the_default PNone (dict_get b ''schema'')) (PInt 1) \<or> as_list (the_default PNone (dict_get b ''fixes'')) = None
               then Some (''The saved diagnosis is damaged (its verification data is missing or malformed). Run ipa-diagnose again.'')
               else if (case str_at previous ''hostname'' of None \<Rightarrow> True | Some h \<Rightarrow> strip h = [])
               then Some (''The saved diagnosis is damaged (it does not say which host it is from). Run ipa-diagnose again.'')
               else None
           | _ \<Rightarrow> Some (''The saved diagnosis is damaged (its verification data is missing or malformed). Run ipa-diagnose again.''))"

text \<open>The diagnoses the saved resolutions say a fix was offered for.\<close>

definition shown_offered :: "pydict \<Rightarrow> string list" where
  "shown_offered previous =
     map entry_id (filter (\<lambda>r. str_at r ''status'' = Some OFFERED) (entries_with_id (sub_list (sub_dict previous ''v2'') ''resolutions'')))"

definition offered_without_record :: "pydict \<Rightarrow> (string \<times> pydict) list \<Rightarrow> string list" where
  "offered_without_record previous fixes = filter (\<lambda>i. i \<notin> set (dict_keys fixes)) (shown_offered previous)"

definition SERVICE_NAME_RE :: rx where
  "SERVICE_NAME_RE = Seq (Cls (alnum_or ''_'')) (upto 0 80 (Cls (alnum_or ''_.@-'')))"

definition known_diagnosis_id :: "pack list \<Rightarrow> string \<Rightarrow> bool" where
  "known_diagnosis_id packs did =
     (let prefix = PACK_ID @ ''.service-not-running-''
      in did \<in> set (concat (map (\<lambda>p. map (\<lambda>(rule_id, evaluate). pk_pack_id p @ ''.'' @ rule_id) (pk_rules p)) packs))
         \<or> did \<in> {PACK_ID @ ''.healthcheck-check-failed'', PACK_ID @ ''.unexplained-findings''}
         \<or> starts_with did prefix \<and> rx_full SERVICE_NAME_RE (drop (length prefix) did))"

definition baseline_problem :: "pydict \<Rightarrow> diagnosis_report \<Rightarrow> string option" where
  "baseline_problem previous current =
     (let prev_host = the_default [] (str_at previous ''hostname'');
          prev_replay = truthy (the_default PNone (dict_get previous ''replay_source''));
          replay = rep_replay_source current \<notin> {None, Some []}
      in if prev_host \<noteq> [] \<and> rep_hostname current \<noteq> [] \<and> prev_host \<noteq> rep_hostname current
         then Some (''The saved diagnosis is from host '' @ sanitize_text prev_host 80 @ '', not this host ('' @
                sanitize_text (rep_hostname current) 80 @ ''). Run ipa-diagnose here first.'')
         else if prev_replay \<noteq> replay
         then Some (''The saved diagnosis came from '' @ (if prev_replay then ''a replay fixture'' else ''a live run'') @
                '', but this run is '' @ (if replay then ''a replay'' else ''live'') @ ''. Run ipa-diagnose again.'')
         else None)"

section \<open>What is kept until a verify run confirms it\<close>

definition still_unfixed :: "pyval list \<Rightarrow> 'r engine \<Rightarrow> pydict \<Rightarrow> 'r \<Rightarrow> (exn + bool) \<times> 'r" where
  "still_unfixed cat en fix1 rn =
     (case rebuild_verify en cat (PDict fix1) rn of
        (Inl e, rn') \<Rightarrow> (Inl e, rn')
      | (Inr (None, problem, why), rn') \<Rightarrow> (Inr False, rn')
      | (Inr (Some criteria, problem, why), rn') \<Rightarrow>
          (if problem \<noteq> [] then (Inr False, rn')
           else case evaluate_verify en (map criterion_val criteria) rn' of
                  (Inl e, rn'') \<Rightarrow> (Inl e, rn'')
                | (Inr vs, rn'') \<Rightarrow> (Inr (list_ex (\<lambda>v. fst (snd v) \<noteq> Some True) vs), rn'')))"

fun keep_fixes :: "pyval list \<Rightarrow> 'r engine option \<Rightarrow> string list \<Rightarrow> string list \<Rightarrow> string list \<Rightarrow> (string \<times> pydict) list \<Rightarrow> 'r
                    \<Rightarrow> (exn + pydict list) \<times> 'r" where
  "keep_fixes cat en shown confirmed fresh [] rn = (Inr [], rn)"
| "keep_fixes cat en shown confirmed fresh ((did, f) # fs) rn =
     (if did \<in> set shown \<or> did \<in> set confirmed then keep_fixes cat en shown confirmed fresh fs rn
      else case (case en of
                   Some e \<Rightarrow> if did \<notin> set fresh then still_unfixed cat e f rn else (Inr True, rn)
                 | None \<Rightarrow> (Inr True, rn)) of
             (Inl x, rn') \<Rightarrow> (Inl x, rn')
           | (Inr keep, rn') \<Rightarrow>
               (case keep_fixes cat en shown confirmed fresh fs rn' of
                  (out, rn'') \<Rightarrow> (map_sum id (\<lambda>ks. if keep then f # ks else ks) out, rn'')))"

definition carry_forward_fixes ::
    "pyval list \<Rightarrow> 'r engine option \<Rightarrow> pydict option \<Rightarrow> diagnosis_report \<Rightarrow> (string \<times> resolution) list \<Rightarrow> string list \<Rightarrow> 'r
     \<Rightarrow> (exn + pydict list) \<times> 'r" where
  "carry_forward_fixes cat en previous report resolutions confirmed rn =
     (case previous of
        None \<Rightarrow> (Inr [], rn)
      | Some p \<Rightarrow>
          if baseline_problem p report \<noteq> None \<or> baseline_damage p \<noteq> None then (Inr [], rn)
          else keep_fixes cat en (map fst (filter (\<lambda>(i, r). rz_status r = OFFERED) resolutions)) confirmed (fresh_ids report)
                 (baseline_fixes p) rn)"

text \<open>The first entry of each wanted diagnosis.\<close>

fun pick_entries :: "string list \<Rightarrow> string list \<Rightarrow> pydict list \<Rightarrow> pydict list" where
  "pick_entries wanted seen [] = []"
| "pick_entries wanted seen (d # ds) =
     (case str_at d ''diagnosis_id'' of
        Some did \<Rightarrow> if did \<in> set wanted \<and> did \<notin> set seen then d # pick_entries wanted (did # seen) ds
                    else pick_entries wanted seen ds
      | None \<Rightarrow> pick_entries wanted seen ds)"

definition carried_diagnoses :: "pydict option \<Rightarrow> diagnosis_report \<Rightarrow> pydict list \<Rightarrow> pydict list" where
  "carried_diagnoses previous report carried =
     (case previous of
        None \<Rightarrow> []
      | Some p \<Rightarrow>
          pick_entries (filter (\<lambda>i. i \<notin> set (fresh_ids report)) (map entry_id carried)) []
            (saved_entries p @ dicts (sub_list (sub_dict p ''v2'') ''carried_diagnoses'')))"

section \<open>Comparing\<close>

text \<open>The diagnoses of the earlier run by id, with those that were carried because their fix was not confirmed.\<close>

definition add_carried :: "pydict \<Rightarrow> (string \<times> pydict) list \<Rightarrow> (string \<times> pydict) list" where
  "add_carried d acc = (if entry_id d \<in> set (dict_keys acc) then acc else dict_set (entry_id (clean_entry d)) (clean_entry d) acc)"

definition prev_by_id :: "pydict \<Rightarrow> (string \<times> pydict) list" where
  "prev_by_id previous =
     fold add_carried (entries_with_id (sub_list (sub_dict previous ''v2'') ''carried_diagnoses''))
       (dict_of (map (\<lambda>d. (entry_id d, d)) (saved_entries previous)))"

definition curr_by_id :: "diagnosis_report \<Rightarrow> (string \<times> diagnosis) list" where
  "curr_by_id current = dict_of (map (\<lambda>d. (d_diagnosis_id d, d)) (rep_diagnoses current))"

text \<open>The collectors that failed, by the text before the colon of each error.\<close>

definition failed_sources :: "diagnosis_report \<Rightarrow> string list" where
  "failed_sources current = map (\<lambda>e. strip (fst (partition_char (CHR '':'') e))) (rep_collection_errors current)"

definition pack_collectors :: "pack list \<Rightarrow> (string \<times> string list) list" where
  "pack_collectors packs = dict_of (map (\<lambda>p. (pk_pack_id p, pk_additional_collectors p @ pk_unconditional_collectors p)) packs)"

definition pack_gap :: "pack list \<Rightarrow> diagnosis_report \<Rightarrow> string \<Rightarrow> bool" where
  "pack_gap packs current pid =
     (pid \<noteq> [] \<and> (list_ex (\<lambda>s. contains s pid) (failed_sources current)
       \<or> list_ex (\<lambda>c. c \<in> set (failed_sources current)) (the_default [] (dict_get (pack_collectors packs) pid))))"

definition healthcheck_missing :: "diagnosis_report \<Rightarrow> bool" where
  "healthcheck_missing current =
     (\<not> ec_healthcheck_collected (rep_evidence_completeness current)
      \<or> list_ex (\<lambda>e. starts_with e ''ipa-healthcheck-coverage'') (rep_collection_errors current))"

definition crashed_checks :: "diagnosis_report \<Rightarrow> bool" where
  "crashed_checks current = list_ex (\<lambda>d. d_rule_id d = ''healthcheck-check-failed'') (rep_diagnoses current)"

definition not_a_baseline :: "pydict \<Rightarrow> diagnosis_report \<Rightarrow> string option" where
  "not_a_baseline previous current =
     (case baseline_problem previous current of Some why \<Rightarrow> Some why | None \<Rightarrow> baseline_damage previous)"

text \<open>Why a diagnosis of the earlier run cannot be judged from the fresh report, in the order of the loop.\<close>

definition why_unable :: "pack list \<Rightarrow> pydict \<Rightarrow> diagnosis_report \<Rightarrow> string \<Rightarrow> pydict \<Rightarrow> string option" where
  "why_unable packs previous current did prev_d =
     (case not_a_baseline previous current of
        Some why \<Rightarrow> Some why
      | None \<Rightarrow>
          if \<not> known_diagnosis_id packs did
          then Some (''This version of ipa-diagnose does not produce this diagnosis any more (or the saved report '' @
                     ''is damaged), so its absence proves nothing. Run ipa-diagnose again.'')
          else if healthcheck_missing current
          then Some ''ipa-healthcheck could not run (or did not run its full set of checks) this time, so nothing can be confirmed resolved.''
          else if pack_gap packs current (the_default [] (str_at prev_d ''pack_id''))
          then Some ''Fresh evidence for this pack could not be collected this run.''
          else if dict_get (curr_by_id current) did \<noteq> None then None
          else if crashed_checks current
          then Some ''Some ipa-healthcheck checks failed to run this time, so this cannot be confirmed resolved.''
          else if did \<in> set (offered_without_record previous (baseline_fixes previous))
          then Some ''A fix was shown for this, but the saved record needed to check it is missing. Run ipa-diagnose again.''
          else None)"

text \<open>The two marks of the code are outside the range of \<open>char\<close>; they are written as the bytes of UTF-8.\<close>

fun check_mark :: "bool option \<Rightarrow> string" where
  "check_mark (Some True) = [CHR 0xE2, CHR 0x9C, CHR 0x93]"
| "check_mark (Some False) = [CHR 0xE2, CHR 0x9C, CHR 0x97]"
| "check_mark None = ''?''"

definition fix_verdict :: "bool \<Rightarrow> verdict list \<Rightarrow> verify_outcome \<times> string" where
  "fix_verdict replay results =
     (let lines = join ''; '' (map (\<lambda>(t, ok, detail). check_mark ok @ '' '' @ t) results);
          own = (if replay then ''the fix's own checks (recorded in the replay fixture, not run now)'' else ''the fix's own checks'')
      in if results = [] \<or> list_ex (\<lambda>v. fst (snd v) = None) results
         then (UNABLE_TO_VERIFY, ''The diagnosis is gone, but '' @ own @ '' could not all be run: '' @ lines)
         else if list_all (\<lambda>v. fst (snd v) = Some True) results
         then (RESOLVED, ''The diagnosis is gone and '' @ own @ '' pass: '' @ lines)
         else (PARTIALLY_RESOLVED, ''The diagnosis is gone, but not every one of '' @ own @ '' passes yet: '' @ lines))"

definition fix_outcome :: "pyval list \<Rightarrow> 'r engine option \<Rightarrow> pydict option \<Rightarrow> 'r \<Rightarrow> (exn + verify_outcome \<times> string) \<times> 'r" where
  "fix_outcome cat en fix1 rn =
     (case (fix1, en) of
        (Some f, Some e) \<Rightarrow>
          (case rebuild_verify e cat (PDict f) rn of
             (Inl x, rn') \<Rightarrow> (Inl x, rn')
           | (Inr (None, problem, why), rn') \<Rightarrow>
               (Inr (UNABLE_TO_VERIFY, ''The diagnosis is gone, but the fix that was shown cannot be checked: '' @ why @ ''. Run ipa-diagnose again.''), rn')
           | (Inr (Some criteria, problem, why), rn') \<Rightarrow>
               (if problem = REBUILD_CHANGED
                then (Inr (CHANGED, ''The diagnosis is gone, but '' @ why @ ''. Run ipa-diagnose again.''), rn')
                else case evaluate_verify e (map criterion_val criteria) rn' of
                       (Inl x, rn'') \<Rightarrow> (Inl x, rn'')
                     | (Inr vs, rn'') \<Rightarrow> (Inr (fix_verdict (en_replay e) vs), rn'')))
      | _ \<Rightarrow> (Inr (RESOLVED, ''The condition that triggered this diagnosis is no longer present in fresh evidence.''), rn))"

text \<open>A diagnosis that is in the fresh report too.\<close>

definition still_there :: "pydict \<Rightarrow> diagnosis \<Rightarrow> verify_outcome \<times> string" where
  "still_there prev_d curr_d =
     (if str_at prev_d ''priority'' \<in> set (map (Some \<circ> priority_value) ROOT_TIER) \<and> d_priority curr_d \<notin> set ROOT_TIER
      then (PARTIALLY_RESOLVED, ''Still detected, but no longer a primary problem (now '' @ priority_value (d_priority curr_d) @ '').'')
      else if str_at prev_d ''status'' = Some (status_value DIAGNOSED) \<and> d_status curr_d \<noteq> DIAGNOSED
      then (PARTIALLY_RESOLVED, ''No longer confidently diagnosed, but related symptoms are still present.'')
      else (STILL_PRESENT, ''Fresh evidence still shows this condition.''))"

definition verify_one ::
    "pack list \<Rightarrow> pyval list \<Rightarrow> 'r engine option \<Rightarrow> pydict \<Rightarrow> diagnosis_report \<Rightarrow> string \<times> pydict \<Rightarrow> 'r \<Rightarrow> (exn + verify_item) \<times> 'r" where
  "verify_one packs cat en previous current = (\<lambda>(did, prev_d) rn.
     (let item = (\<lambda>(outcome, detail). \<lparr>vi_diagnosis_id = did, vi_title = the_default did (str_at prev_d ''title''),
                    vi_outcome = outcome, vi_detail = detail\<rparr>)
      in case why_unable packs previous current did prev_d of
           Some why \<Rightarrow> (Inr (item (UNABLE_TO_VERIFY, why)), rn)
         | None \<Rightarrow>
             (case dict_get (curr_by_id current) did of
                Some curr_d \<Rightarrow> (Inr (item (still_there prev_d curr_d)), rn)
              | None \<Rightarrow> (case fix_outcome cat en (dict_get (baseline_fixes previous) did) rn of
                           (out, rn') \<Rightarrow> (map_sum id item out, rn')))))"

fun verify_each ::
    "('e \<Rightarrow> 'r \<Rightarrow> (exn + verify_item) \<times> 'r) \<Rightarrow> 'e list \<Rightarrow> 'r \<Rightarrow> (exn + verify_item list) \<times> 'r" where
  "verify_each f [] rn = (Inr [], rn)"
| "verify_each f (x # xs) rn =
     (case f x rn of
        (Inl e, rn') \<Rightarrow> (Inl e, rn')
      | (Inr i, rn') \<Rightarrow> (case verify_each f xs rn' of (out, rn'') \<Rightarrow> (map_sum id ((#) i) out, rn'')))"

text \<open>Fixes that were saved for a diagnosis that is not in the saved report.\<close>

definition orphans :: "pydict \<Rightarrow> string list" where
  "orphans previous =
     sort (filter (\<lambda>i. i \<notin> set (dict_keys (prev_by_id previous))) (dedup (dict_keys (baseline_fixes previous) @ shown_offered previous)))"

definition orphan_item :: "string \<Rightarrow> verify_item" where
  "orphan_item did =
     \<lparr>vi_diagnosis_id = sanitize_text did 160, vi_title = sanitize_text did 160, vi_outcome = UNABLE_TO_VERIFY,
      vi_detail = ''The saved diagnosis is damaged: a fix was saved for this, but the diagnosis itself is missing. Run ipa-diagnose again.''\<rparr>"

definition compare_reports ::
    "pack list \<Rightarrow> pyval list \<Rightarrow> 'r engine option \<Rightarrow> pydict option \<Rightarrow> diagnosis_report \<Rightarrow> 'r \<Rightarrow> (exn + verify_result) \<times> 'r" where
  "compare_reports packs cat en prev current rn =
     (case prev of
        None \<Rightarrow> (Inr \<lparr>vr_items = [], vr_new_conditions = [], vr_previous_generated_at = PNone, vr_current_report = current\<rparr>, rn)
      | Some previous \<Rightarrow>
          (case verify_each (verify_one packs cat en previous current) (prev_by_id previous) rn of
             (out, rn') \<Rightarrow>
               (map_sum id (\<lambda>is.
                  \<lparr>vr_items = is @ map orphan_item (orphans previous),
                   vr_new_conditions =
                     map snd (filter (\<lambda>(did, d). did \<notin> set (dict_keys (prev_by_id previous)) \<and> d_priority d \<in> set ROOT_TIER) (curr_by_id current)),
                   vr_previous_generated_at = the_default PNone (dict_get previous ''generated_at''),
                   vr_current_report = current\<rparr>) out, rn')))"

section \<open>Exit codes\<close>

fun exit_code_for :: "overall_status \<Rightarrow> int" where
  "exit_code_for HEALTHY = 0"
| "exit_code_for DEGRADED = 1"
| "exit_code_for OS_CRITICAL = 2"
| "exit_code_for OS_UNKNOWN = 3"
| "exit_code_for NOT_FULLY_VERIFIED = 4"

definition verify_exit_code :: "verify_result \<Rightarrow> int" where
  "verify_exit_code vr =
     (let report = vr_current_report vr; fresh = exit_code_for (rep_overall_status report); outcomes = map vi_outcome (vr_items vr)
      in if vr_previous_generated_at vr = PNone then fresh
         else if list_ex (\<lambda>x. x \<in> {STILL_PRESENT, PARTIALLY_RESOLVED}) outcomes \<or> vr_new_conditions vr \<noteq> []
         then (if fresh \<in> {1, 2, 3} then fresh else 1)
         else if list_ex (\<lambda>x. x \<in> {UNABLE_TO_VERIFY, CHANGED}) outcomes \<or> ec_level (rep_evidence_completeness report) \<noteq> ''complete''
         then 4
         else fresh)"

text \<open>\<open>_save_baseline\<close>: what the new baseline holds of the old one; None when nothing is saved.\<close>

definition save_baseline ::
    "pyval list \<Rightarrow> 'r engine option \<Rightarrow> pydict option \<Rightarrow> diagnosis_report \<Rightarrow> (string \<times> resolution) list \<Rightarrow> string list \<Rightarrow> 'r
     \<Rightarrow> (exn + diagnosis_report option) \<times> 'r" where
  "save_baseline cat en previous report resolutions confirmed rn =
     (if \<not> ec_healthcheck_collected (rep_evidence_completeness report) then (Inr None, rn)
      else case carry_forward_fixes cat en previous report resolutions confirmed rn of
             (out, rn') \<Rightarrow>
               (map_sum id (\<lambda>fixes. Some (report\<lparr>rep_carried_fixes := fixes,
                  rep_carried_diagnoses := carried_diagnoses previous report fixes\<rparr>)) out, rn'))"

text \<open>\<open>cmd_verify\<close> after the reports were read: the exit code and, when the baseline is replaced, the report that is saved.\<close>

definition cmd_verify ::
    "pack list \<Rightarrow> pyval list \<Rightarrow> 'r engine option \<Rightarrow> exn + pydict option \<Rightarrow> pydict option \<Rightarrow> diagnosis_report \<Rightarrow> (string \<times> resolution) list \<Rightarrow> 'r
     \<Rightarrow> (exn + int \<times> diagnosis_report option) \<times> 'r" where
  "cmd_verify packs cat en loaded again report resolutions rn =
     (case loaded of
        Inl e \<Rightarrow> (if e = UnreadableBaseline then Inr (4, None) else Inl e, rn)
      | Inr previous \<Rightarrow>
          (case compare_reports packs cat en previous report rn of
             (Inl e, rn') \<Rightarrow> (Inl e, rn')
           | (Inr vr, rn') \<Rightarrow>
               if keep_baseline vr then (Inr (verify_exit_code vr, None), rn')
               else (case save_baseline cat en again report resolutions
                            (map vi_diagnosis_id (filter (\<lambda>i. vi_outcome i = RESOLVED) (vr_items vr))) rn' of
                       (out, rn'') \<Rightarrow> (map_sum id (Pair (verify_exit_code vr)) out, rn''))))"

section \<open>Properties\<close>

lemma lift_sum_Inl [simp]: "map_sum id f r = Inl e \<longleftrightarrow> r = Inl e"
  by (cases r) auto

lemma lift_sum_Inr [simp]: "map_sum id f r = Inr y \<longleftrightarrow> (\<exists>x. r = Inr x \<and> y = f x)"
  by (cases r) auto

lemma rebuild_verify_error: "rebuild_verify en cat f rn = (Inl e, rn') \<Longrightarrow> e = KeyboardInterrupt"
  by (auto simp: rebuild_verify_def caught_def split: if_splits sum.splits prod.splits stuck.splits)

lemma evaluate_verify_error: "evaluate_verify en cs rn = (Inl e, rn') \<Longrightarrow> e = KeyboardInterrupt"
  using evaluate_all_ok [of en cs rn] by simp

text \<open>Criteria that are compared were rebuilt as they were saved, or the record says that they changed.\<close>

lemma rebuild_verify_criteria:
  assumes "rebuild_verify en cat (PDict f) rn = (Inr (Some cs, problem, why), rn')"
  shows "problem = REBUILD_CHANGED
     \<or> dict_get f ''criteria_digest'' = Some (PStr (criteria_digest (en_sha256 en) cs (py_str (the_default (PStr []) (dict_get f ''diagnosis_id'')))))"
  using assms
  by (auto simp: rebuild_verify_def rebuild_values_def bind_exn_Inr caught_def no_rebuild_def compared_def Let_def the_default_def
      split: if_splits sum.splits prod.splits stuck.splits option.splits)

lemma verify_each_Inr:
  "verify_each f xs rn = (Inr is, rn') \<Longrightarrow> list_all2 (\<lambda>x i. \<exists>rn1 rn2. f x rn1 = (Inr i, rn2)) xs is"
  by (induction xs arbitrary: rn "is") (auto split: prod.splits sum.splits)

lemma verify_each_Inl: "verify_each f xs rn = (Inl e, rn') \<Longrightarrow> \<exists>x rn1 rn2. f x rn1 = (Inl e, rn2)"
  by (induction xs arbitrary: rn) (auto split: prod.splits sum.splits)

lemma verify_one_fields:
  "verify_one packs cat en previous current (did, prev_d) rn = (Inr i, rn')
   \<Longrightarrow> vi_diagnosis_id i = did \<and> vi_title i = the_default did (str_at prev_d ''title'')"
  by (auto simp: verify_one_def Let_def split: option.splits prod.splits)

lemma compare_items:
  assumes "compare_reports packs cat en (Some previous) current rn = (Inr vr, rn')"
  obtains "is" where "vr_items vr = is @ map orphan_item (orphans previous)"
    "list_all2 (\<lambda>x i. \<exists>rn1 rn2. verify_one packs cat en previous current x rn1 = (Inr i, rn2)) (prev_by_id previous) is"
    "vr_current_report vr = current" "vr_previous_generated_at vr = the_default PNone (dict_get previous ''generated_at'')"
  using assms by (auto simp: compare_reports_def split: prod.splits dest!: verify_each_Inr)

lemma why_unable_None:
  assumes "why_unable packs previous current did prev_d = None"
  shows "not_a_baseline previous current = None" "known_diagnosis_id packs did" "\<not> healthcheck_missing current"
    "\<not> pack_gap packs current (the_default [] (str_at prev_d ''pack_id''))"
    "dict_get (curr_by_id current) did = None
      \<Longrightarrow> \<not> crashed_checks current \<and> did \<notin> set (offered_without_record previous (baseline_fixes previous))"
  using assms by (auto simp: why_unable_def split: option.splits if_splits)

text \<open>The ids of the diagnoses that are compared are all different.\<close>

lemma dict_of_distinct: "distinct (dict_keys (dict_of kvs))"
proof -
  have "distinct (dict_keys d) \<Longrightarrow> distinct (dict_keys (foldl (\<lambda>d (k, v). dict_set k v d) d kvs))" for d
    by (induction kvs arbitrary: d) (auto simp: dict.distinct_keys)
  then show ?thesis by (simp add: dict_of_def dict_keys_def)
qed

lemma prev_by_id_distinct: "distinct (dict_keys (prev_by_id previous))"
proof -
  have "distinct (dict_keys acc) \<Longrightarrow> distinct (dict_keys (fold add_carried es acc))" for es acc
    by (induction es arbitrary: acc) (auto simp: add_carried_def dict.distinct_keys)
  then show ?thesis by (simp add: prev_by_id_def dict_of_distinct)
qed

lemma curr_by_id_None: "dict_get (curr_by_id current) did = None \<longleftrightarrow> did \<notin> set (fresh_ids current)"
  by (simp add: dict.get_None_iff curr_by_id_def dict_of_keys fresh_ids_def image_image)

lemma item_outcome:
  assumes "verify_one packs cat en previous current (did, prev_d) rn = (Inr i, rn')"
  shows "(\<exists>why. why_unable packs previous current did prev_d = Some why \<and> vi_outcome i = UNABLE_TO_VERIFY)
     \<or> why_unable packs previous current did prev_d = None
        \<and> ((\<exists>d. dict_get (curr_by_id current) did = Some d \<and> vi_outcome i = fst (still_there prev_d d))
         \<or> dict_get (curr_by_id current) did = None
           \<and> (\<exists>detail. fix_outcome cat en (dict_get (baseline_fixes previous) did) rn = (Inr (vi_outcome i, detail), rn')))"
  using assms by (auto simp: verify_one_def Let_def split: option.splits prod.splits)

lemma still_there_not_resolved: "fst (still_there prev_d d) \<in> {STILL_PRESENT, PARTIALLY_RESOLVED}"
  by (simp add: still_there_def)

text \<open>Every criterion is met by its own call, each call made in the state the one before it left.\<close>

primrec met_in_turn :: "'r engine \<Rightarrow> pyval list \<Rightarrow> 'r \<Rightarrow> bool" where
  "met_in_turn en [] rn = True"
| "met_in_turn en (c # cs) rn = (decided_by_call en c rn True \<and> met_in_turn en cs (snd (criterion_call en c rn)))"

text \<open>
  The criteria of a saved fix are established from the state \<open>rn\<close> on: they are rebuilt from it, there are some, they are those the
  digest was taken of, and from the state the rebuilding leaves, the check of each is called and proves it.
\<close>

definition fix_confirmed :: "pyval list \<Rightarrow> 'r engine \<Rightarrow> pydict \<Rightarrow> 'r \<Rightarrow> bool" where
  "fix_confirmed cat en f rn =
     (case rebuild_verify en cat (PDict f) rn of
        (Inr (Some cs, problem, why), rn1) \<Rightarrow>
          cs \<noteq> [] \<and> problem = [] \<and> met_in_turn en (map criterion_val cs) rn1
          \<and> dict_get f ''criteria_digest'' = Some (PStr (criteria_digest (en_sha256 en) cs (py_str (the_default (PStr []) (dict_get f ''diagnosis_id'')))))
      | _ \<Rightarrow> False)"

lemma rebuild_unchanged:
  assumes "rebuild_verify en cat (PDict f) rn = (Inr (Some cs, problem, why), rn')" "problem \<noteq> REBUILD_CHANGED"
  shows "problem = [] \<and> why = []"
  using assms
  by (auto simp: rebuild_verify_def rebuild_values_def bind_exn_Inr caught_def no_rebuild_def compared_def Let_def
      split: if_splits sum.splits prod.splits stuck.splits option.splits)

lemma fix_verdict_resolved: "fst (fix_verdict replay vs) = RESOLVED \<Longrightarrow> vs \<noteq> [] \<and> (\<forall>v \<in> set vs. fst (snd v) = Some True)"
  by (auto simp: fix_verdict_def Let_def list_all_iff list_ex_iff split: if_splits)

lemma list_all2_left: "list_all2 P xs ys \<Longrightarrow> y \<in> set ys \<Longrightarrow> \<exists>x \<in> set xs. P x y"
  by (auto simp: list_all2_conv_all_nth in_set_conv_nth) (metis nth_mem)

lemma all_met:
  assumes "decided_in_turn en cs vs rn rn'" "\<forall>v \<in> set vs. fst (snd v) = Some True"
  shows "met_in_turn en cs rn \<and> length cs = length vs"
  using assms by (induction en cs vs rn rn' rule: decided_in_turn.induct) simp_all

lemma fix_outcome_resolved:
  assumes "fix_outcome cat en fix1 rn = (Inr (RESOLVED, detail), rn')" "en = Some e" "fix1 = Some f"
  shows "fix_confirmed cat e f rn"
proof -
  obtain cs problem why rn1 where r: "rebuild_verify e cat (PDict f) rn = (Inr (Some cs, problem, why), rn1)" "problem \<noteq> REBUILD_CHANGED"
    and v: "\<exists>vs rn2. evaluate_verify e (map criterion_val cs) rn1 = (Inr vs, rn2) \<and> fix_verdict (en_replay e) vs = (RESOLVED, detail)"
    using assms by (auto simp: fix_outcome_def split: prod.splits sum.splits option.splits if_splits)
  then obtain vs rn2 where e: "evaluate_verify e (map criterion_val cs) rn1 = (Inr vs, rn2)" "fst (fix_verdict (en_replay e) vs) = RESOLVED"
    by auto
  have "decided_in_turn e (map criterion_val cs) vs rn1 rn2"
    using evaluate_all_ok [of e "map criterion_val cs" rn1] e(1) by simp
  from all_met [OF this] fix_verdict_resolved [OF e(2)]
  have "met_in_turn e (map criterion_val cs) rn1" "cs \<noteq> []" by auto
  then show ?thesis
    using r rebuild_unchanged [OF r] rebuild_verify_criteria [OF r(1)] by (simp add: fix_confirmed_def)
qed

text \<open>Each item is made in the state the items before it left.\<close>

lemma verify_each_turn:
  assumes "verify_each f xs rn = (Inr is, rn')" "k < length xs"
  shows "\<exists>pre rn2. verify_each f (take k xs) rn = (Inr pre, snd (verify_each f (take k xs) rn))
     \<and> f (xs ! k) (snd (verify_each f (take k xs) rn)) = (Inr (is ! k), rn2)"
  using assms
proof (induction xs arbitrary: rn rn' "is" k)
  case (Cons x xs)
  obtain i rn1 js rn2 where x: "f x rn = (Inr i, rn1)" "verify_each f xs rn1 = (Inr js, rn2)" "is = i # js"
    using Cons.prems(1) by (auto split: prod.splits sum.splits)
  show ?case
  proof (cases k)
    case (Suc m)
    then show ?thesis using Cons.IH [OF x(2), of m] Cons.prems(2) x(1,3)
      by (cases "verify_each f (take m xs) rn1") auto
  qed (use x in simp)
qed simp

text \<open>The state of the runner when it is the turn of the diagnosis at position \<open>k\<close> of the earlier run.\<close>

definition state_at :: "pack list \<Rightarrow> pyval list \<Rightarrow> 'r engine option \<Rightarrow> pydict \<Rightarrow> diagnosis_report \<Rightarrow> nat \<Rightarrow> 'r \<Rightarrow> 'r" where
  "state_at packs cat en previous current k rn =
     snd (verify_each (verify_one packs cat en previous current) (take k (prev_by_id previous)) rn)"

text \<open>The item of a diagnosis of the earlier run, made at its turn, or of a fix without one.\<close>

lemma compare_item:
  assumes "compare_reports packs cat en (Some previous) current rn = (Inr vr, rn')" "i \<in> set (vr_items vr)"
  shows "(\<exists>k prev_d rn2. k < length (prev_by_id previous) \<and> prev_by_id previous ! k = (vi_diagnosis_id i, prev_d)
            \<and> verify_one packs cat en previous current (vi_diagnosis_id i, prev_d) (state_at packs cat en previous current k rn) = (Inr i, rn2))
         \<or> (\<exists>did. i = orphan_item did)"
proof -
  obtain "is" rn1 where is1: "vr_items vr = is @ map orphan_item (orphans previous)"
      "verify_each (verify_one packs cat en previous current) (prev_by_id previous) rn = (Inr is, rn1)"
    using assms(1) by (auto simp: compare_reports_def split: prod.splits)
  have len: "length is = length (prev_by_id previous)" using verify_each_Inr [OF is1(2)] by (simp add: list_all2_lengthD)
  show ?thesis
  proof (cases "i \<in> set is")
    case True
    then obtain k where k: "k < length (prev_by_id previous)" "is ! k = i" using len by (auto simp: in_set_conv_nth)
    obtain did prev_d where x: "prev_by_id previous ! k = (did, prev_d)" by fastforce
    obtain rn2 where v: "verify_one packs cat en previous current (did, prev_d) (state_at packs cat en previous current k rn) = (Inr i, rn2)"
      using verify_each_turn [OF is1(2) k(1)] x k(2) by (auto simp: state_at_def)
    have "vi_diagnosis_id i = did" using verify_one_fields [OF v] by simp
    then show ?thesis using x v k(1) by blast
  qed (use is1 assms(2) in auto)
qed

text \<open>C1: "RESOLVED" is earned. A verify run reports a diagnosis of the earlier run as resolved only if the saved report is a sound
  baseline of this host and mode, this version can produce the diagnosis, the fresh run collected everything the diagnosis
  rests on and no check crashed, and the fresh report does not have it; where a fix was shown, its saved record is there, and
  (when checks can be run) from the very state the run is in at the turn of this diagnosis, the criteria are rebuilt from the
  catalogue, are those of the record's digest, and the call of each one's check, in its turn, answered OK and proved it.\<close>

theorem resolved_is_earned:
  assumes "compare_reports packs cat en (Some previous) current rn = (Inr vr, rn')" "i \<in> set (vr_items vr)" "vi_outcome i = RESOLVED"
  shows "baseline_problem previous current = None \<and> baseline_damage previous = None
     \<and> known_diagnosis_id packs (vi_diagnosis_id i) \<and> vi_diagnosis_id i \<notin> set (fresh_ids current)
     \<and> \<not> healthcheck_missing current \<and> \<not> crashed_checks current
     \<and> vi_diagnosis_id i \<notin> set (offered_without_record previous (baseline_fixes previous))
     \<and> (\<exists>k prev_d. k < length (prev_by_id previous) \<and> prev_by_id previous ! k = (vi_diagnosis_id i, prev_d)
          \<and> \<not> pack_gap packs current (the_default [] (str_at prev_d ''pack_id''))
          \<and> (\<forall>e f. en = Some e \<and> dict_get (baseline_fixes previous) (vi_diagnosis_id i) = Some f
               \<longrightarrow> fix_confirmed cat e f (state_at packs cat en previous current k rn)))"
proof -
  let ?rn = "\<lambda>k. state_at packs cat en previous current k rn"
  obtain k prev_d rn2 where k: "k < length (prev_by_id previous)" "prev_by_id previous ! k = (vi_diagnosis_id i, prev_d)"
      and p: "verify_one packs cat en previous current (vi_diagnosis_id i, prev_d) (?rn k) = (Inr i, rn2)"
    using compare_item [OF assms(1,2)] assms(3) by (auto simp: orphan_item_def)
  have nr: "RESOLVED \<noteq> fst (still_there prev_d d)" for d by (simp add: still_there_def)
  have wcf: "why_unable packs previous current (vi_diagnosis_id i) prev_d = None \<and> dict_get (curr_by_id current) (vi_diagnosis_id i) = None
      \<and> (\<exists>detail. fix_outcome cat en (dict_get (baseline_fixes previous) (vi_diagnosis_id i)) (?rn k) = (Inr (RESOLVED, detail), rn2))"
    using item_outcome [OF p] nr unfolding assms(3) by (elim disjE conjE exE) (simp only: verify_outcome.distinct, blast+)
  note w = conjunct1 [OF wcf] and c = conjunct1 [OF conjunct2 [OF wcf]] and f = conjunct2 [OF conjunct2 [OF wcf]]
  have fc: "fix_confirmed cat e r (?rn k)" if g: "en = Some e" "dict_get (baseline_fixes previous) (vi_diagnosis_id i) = Some r" for e r
  proof -
    obtain detail where "fix_outcome cat en (dict_get (baseline_fixes previous) (vi_diagnosis_id i)) (?rn k) = (Inr (RESOLVED, detail), rn2)"
      using f by (elim exE)
    then show ?thesis by (rule fix_outcome_resolved [OF _ g])
  qed
  have "baseline_problem previous current = None \<and> baseline_damage previous = None"
    using why_unable_None(1) [OF w] by (simp add: not_a_baseline_def split: option.splits)
  then show ?thesis
    using why_unable_None(2-4) [OF w] why_unable_None(5) [OF w c] c [unfolded curr_by_id_None] k fc by blast
qed

lemma every_answered:
  assumes "compare_reports packs cat en (Some previous) current rn = (Inr vr, rn')"
  shows "map vi_diagnosis_id (vr_items vr) = dict_keys (prev_by_id previous) @ map (\<lambda>d. sanitize_text d 160) (orphans previous)
     \<and> distinct (dict_keys (prev_by_id previous)) \<and> set (map entry_id (saved_entries previous)) \<subseteq> set (dict_keys (prev_by_id previous))
     \<and> set (dict_keys (baseline_fixes previous)) \<union> set (shown_offered previous) \<subseteq> set (dict_keys (prev_by_id previous)) \<union> set (orphans previous)"
proof -
  obtain "is" where is1: "vr_items vr = is @ map orphan_item (orphans previous)"
      "list_all2 (\<lambda>x i. \<exists>rn1 rn2. verify_one packs cat en previous current x rn1 = (Inr i, rn2)) (prev_by_id previous) is"
    by (rule compare_items [OF assms])
  have "list_all2 (\<lambda>x i. vi_diagnosis_id i = fst x) (prev_by_id previous) is"
    by (rule list_all2_mono [OF is1(2)]) (auto dest: verify_one_fields)
  then have "map vi_diagnosis_id is = dict_keys (prev_by_id previous)"
    by (auto simp: dict_keys_def list_all2_conv_all_nth intro: nth_equalityI)
  moreover have "set (dict_keys acc) \<subseteq> set (dict_keys (fold add_carried es acc))" for es acc
  proof (induction es arbitrary: acc)
    case (Cons d es)
    have "set (dict_keys acc) \<subseteq> set (dict_keys (add_carried d acc))" by (auto simp: add_carried_def dict.set_keys)
    then show ?case using Cons.IH [of "add_carried d acc"] by simp
  qed simp
  then have "set (map entry_id (saved_entries previous)) \<subseteq> set (dict_keys (prev_by_id previous))"
    using dict_of_keys [of "map (\<lambda>d. (entry_id d, d)) (saved_entries previous)"] by (fastforce simp: prev_by_id_def comp_def)
  ultimately show ?thesis using is1(1) prev_by_id_distinct by (auto simp: orphan_item_def orphans_def)
qed

text \<open>C3: Nothing of the earlier run is passed over: the items are exactly one for each of its diagnoses (carried ones included), in
  order, then one "unable to verify" for each fix that was saved without its diagnosis; a saved fix always has its item.\<close>

theorem every_saved_diagnosis_is_answered:
  assumes "compare_reports packs cat en (Some previous) current rn = (Inr vr, rn')"
  shows "map vi_diagnosis_id (vr_items vr) = dict_keys (prev_by_id previous) @ map (\<lambda>d. sanitize_text d 160) (orphans previous)
     \<and> distinct (dict_keys (prev_by_id previous)) \<and> set (map entry_id (saved_entries previous)) \<subseteq> set (dict_keys (prev_by_id previous))
     \<and> set (dict_keys (baseline_fixes previous)) \<union> set (shown_offered previous) \<subseteq> set (dict_keys (prev_by_id previous)) \<union> set (orphans previous)"
  by (rule every_answered [OF assms])

lemma fix_outcome_error: "fix_outcome cat en f rn = (Inl e, rn') \<Longrightarrow> e = KeyboardInterrupt"
  by (auto simp: fix_outcome_def split: option.splits prod.splits sum.splits if_splits
      dest: rebuild_verify_error evaluate_verify_error)

lemma still_unfixed_error: "still_unfixed cat en f rn = (Inl e, rn') \<Longrightarrow> e = KeyboardInterrupt"
  by (auto simp: still_unfixed_def split: option.splits prod.splits sum.splits if_splits
      dest: rebuild_verify_error evaluate_verify_error)

lemma compare_error:
  assumes "compare_reports packs cat en prev current rn = (Inl e, rn')"
  shows "e = KeyboardInterrupt"
proof -
  obtain previous where "verify_each (verify_one packs cat en previous current) (prev_by_id previous) rn = (Inl e, rn')"
    using assms by (auto simp: compare_reports_def split: option.splits prod.splits)
  then obtain did prev_d rn1 rn2 where "verify_one packs cat en previous current (did, prev_d) rn1 = (Inl e, rn2)"
    by (metis verify_each_Inl prod.exhaust)
  then show ?thesis
    by (auto simp: verify_one_def Let_def split: option.splits prod.splits dest: fix_outcome_error)
qed

lemma keep_fixes_error: "keep_fixes cat en shown confirmed fresh fs rn = (Inl e, rn') \<Longrightarrow> e = KeyboardInterrupt"
  by (induction fs arbitrary: rn) (auto split: if_splits option.splits prod.splits sum.splits dest: still_unfixed_error)

lemma save_baseline_error: "save_baseline cat en previous report rs confirmed rn = (Inl e, rn') \<Longrightarrow> e = KeyboardInterrupt"
  by (auto simp: save_baseline_def carry_forward_fixes_def split: if_splits option.splits prod.splits dest: keep_fixes_error)

lemma verify_exit_zero:
  assumes "verify_exit_code vr = 0" "vr_previous_generated_at vr \<noteq> PNone"
  shows "(\<forall>i \<in> set (vr_items vr). vi_outcome i = RESOLVED) \<and> vr_new_conditions vr = []
     \<and> ec_level (rep_evidence_completeness (vr_current_report vr)) = ''complete''
     \<and> rep_overall_status (vr_current_report vr) = HEALTHY"
proof -
  have o: "x = RESOLVED \<or> x \<in> {STILL_PRESENT, PARTIALLY_RESOLVED} \<or> x \<in> {UNABLE_TO_VERIFY, CHANGED}" for x by (cases x) auto
  have "exit_code_for st = 0 \<Longrightarrow> st = HEALTHY" for st by (cases st) auto
  then show ?thesis using assms o unfolding verify_exit_code_def Let_def
    by (auto simp: list_ex_iff split: if_splits)
qed

lemma loaded_has_time:
  assumes "load_previous_report there trusted parsed strict = Inr (Some previous)"
  shows "\<exists>t. dict_get previous ''generated_at'' = Some (PStr t)"
  using assms
  by (auto simp: load_previous_report_def accept_saved_def Let_def str_at_def dict.get_set split: if_splits sum.splits option.splits pyval.splits)

text \<open>C2: Exit code 0 of \<open>verify\<close> is a clean bill. Whatever the saved report holds, if the run compared it and ends with 0, every
  diagnosis and every fix of the earlier run was confirmed resolved, there is no new root problem, the evidence was complete
  and the fresh report is healthy; and the new baseline is saved then.\<close>

theorem verify_zero_is_clean:
  assumes "load_previous_report there trusted parsed True = Inr (Some previous)"
    and "cmd_verify packs cat en (Inr (Some previous)) again report resolutions rn = (Inr (0, saved), rn')"
  shows "\<exists>vr rn1. compare_reports packs cat en (Some previous) report rn = (Inr vr, rn1) \<and> \<not> keep_baseline vr
     \<and> list_all (\<lambda>i. vi_outcome i = RESOLVED) (vr_items vr) \<and> vr_new_conditions vr = []
     \<and> ec_level (rep_evidence_completeness report) = ''complete'' \<and> rep_overall_status report = HEALTHY"
proof -
  obtain vr rn1 where vr: "compare_reports packs cat en (Some previous) report rn = (Inr vr, rn1)" "verify_exit_code vr = 0"
    using assms(2) by (auto simp: cmd_verify_def split: prod.splits sum.splits if_splits)
  have f: "vr_current_report vr = report \<and> vr_previous_generated_at vr = the_default PNone (dict_get previous ''generated_at'')"
    by (rule compare_items [OF vr(1)]) simp
  moreover have "the_default PNone (dict_get previous ''generated_at'') \<noteq> PNone"
    using loaded_has_time [OF assms(1)] by (auto simp: the_default_def)
  ultimately have "list_all (\<lambda>i. vi_outcome i = RESOLVED) (vr_items vr) \<and> vr_new_conditions vr = []
     \<and> ec_level (rep_evidence_completeness report) = ''complete'' \<and> rep_overall_status report = HEALTHY"
    using verify_exit_zero [OF vr(2)] by (simp add: list_all_iff)
  moreover from this have "\<not> keep_baseline vr" by (auto simp: keep_baseline_def list_ex_iff list_all_iff)
  ultimately show ?thesis using vr(1) by blast
qed

lemma keep_fixes_fresh:
  assumes "keep_fixes cat en shown confirmed fresh fs rn = (Inr kept, rn')" "(did, f) \<in> set fs"
    "did \<notin> set shown" "did \<notin> set confirmed" "did \<in> set fresh"
  shows "f \<in> set kept"
  using assms
proof (induction fs arbitrary: rn kept rn')
  case (Cons e fs)
  obtain d g where e: "e = (d, g)" by (cases e)
  from Cons.prems(1) Cons.prems(3-) e Cons.IH show ?case using Cons.prems(2)
    by (auto split: if_splits option.splits prod.splits sum.splits)
qed simp

text \<open>C4: When a \<open>verify\<close> run replaces a sound baseline (undamaged, of this host and mode), no fix the old one records is dropped
  unconfirmed: each record is for a diagnosis this run confirmed as resolved, or that it shows a fix for again, or it is carried
  into the new baseline. This includes a record whose diagnosis is missing from the old report, when its id is a plain text
  (one that cleaning does not change). A run that is not \<open>verify\<close> is not spoken of.\<close>

theorem unconfirmed_fix_survives:
  assumes "cmd_verify packs cat en (Inr (Some p)) (Some p) report resolutions rn = (Inr (code1, Some saved), rn')"
    and "baseline_problem p report = None" "baseline_damage p = None"
    and "(did, f) \<in> set (baseline_fixes p)" "did \<in> set (dict_keys (prev_by_id p)) \<or> sanitize_text did 160 = did"
  shows "(\<exists>vr rn1 i. compare_reports packs cat en (Some p) report rn = (Inr vr, rn1) \<and> i \<in> set (vr_items vr)
            \<and> vi_diagnosis_id i = did \<and> vi_outcome i = RESOLVED)
     \<or> (\<exists>r. (did, r) \<in> set resolutions \<and> rz_status r = OFFERED) \<or> f \<in> set (rep_carried_fixes saved)"
proof -
  obtain vr rn1 where vr: "compare_reports packs cat en (Some p) report rn = (Inr vr, rn1)" "\<not> keep_baseline vr"
      and s: "save_baseline cat en (Some p) report resolutions (map vi_diagnosis_id (filter (\<lambda>i. vi_outcome i = RESOLVED) (vr_items vr))) rn1 = (Inr (Some saved), rn')"
    using assms(1) by (auto simp: cmd_verify_def split: prod.splits sum.splits if_splits)
  have "did \<in> set (dict_keys (baseline_fixes p))" using assms(4) by (force simp: dict_keys_def)
  then have "did \<in> set (dict_keys (prev_by_id p)) \<or> did \<in> set (orphans p)" using every_answered [OF vr(1)] by blast
  then have "did \<in> set (dict_keys (prev_by_id p) @ map (\<lambda>d. sanitize_text d 160) (orphans p))"
    using assms(5) by (auto simp: image_iff intro: bexI [of _ did])
  then have "did \<in> set (map vi_diagnosis_id (vr_items vr))" and c: "vr_current_report vr = report"
    using every_answered [OF vr(1)] compare_items [OF vr(1)] by auto
  then obtain i where i: "i \<in> set (vr_items vr)" "vi_diagnosis_id i = did" by auto
  obtain kept where k: "keep_fixes cat en (map fst (filter (\<lambda>(i, r). rz_status r = OFFERED) resolutions))
        (map vi_diagnosis_id (filter (\<lambda>i. vi_outcome i = RESOLVED) (vr_items vr))) (fresh_ids report) (baseline_fixes p) rn1 = (Inr kept, rn')"
      "rep_carried_fixes saved = kept"
    using s assms(2,3) by (auto simp: save_baseline_def carry_forward_fixes_def split: prod.splits if_splits)
  show ?thesis
  proof (cases "did \<in> set (map vi_diagnosis_id (filter (\<lambda>i. vi_outcome i = RESOLVED) (vr_items vr)))")
    case False
    then have "did \<in> set (fresh_ids report)" using i vr(2) c by (auto simp: keep_baseline_def list_ex_iff)
    then have "f \<in> set kept" if "\<nexists>r. (did, r) \<in> set resolutions \<and> rz_status r = OFFERED"
      using keep_fixes_fresh [OF k(1) assms(4) _ False] that by force
    then show ?thesis using k(2) by blast
  qed (use vr(1) in auto)
qed

lemma load_cases:
  "case load_previous_report there trusted parsed True of
     Inl e \<Rightarrow> there \<and> (e = UnreadableBaseline \<or> parsed = Inl e \<and> \<not> unreadable_by e)
   | Inr None \<Rightarrow> \<not> there
   | Inr (Some previous) \<Rightarrow> there \<and> trusted \<and> (\<exists>data. parsed = Inr data \<and> accept_saved data = Some previous)"
  by (auto simp: load_previous_report_def Let_def split: sum.splits option.splits)

lemma exit_code_range: "exit_code_for st \<in> {0, 1, 2, 3, 4}"
  by (cases st) simp_all

lemma verify_exit_range: "verify_exit_code vr \<in> {0, 1, 2, 3, 4}"
  using exit_code_range by (auto simp: verify_exit_code_def Let_def)

text \<open>C5: No saved report, however damaged, and no saved fix can make \<open>verify\<close> fail: a location that is not trusted or a file that is not a
  report is the one error "unreadable" (exit code 4, nothing is saved); after that only an interrupt gets out.\<close>

theorem verify_contained:
  "case cmd_verify packs cat en (load_previous_report there trusted parsed True) again report resolutions rn of
     (Inl e, rn') \<Rightarrow> e = KeyboardInterrupt \<or> (parsed = Inl e \<and> \<not> unreadable_by e)
   | (Inr (code1, saved), rn') \<Rightarrow>
       (case load_previous_report there trusted parsed True of
          Inl e \<Rightarrow> there \<and> code1 = 4 \<and> saved = None
        | Inr None \<Rightarrow> \<not> there \<and> code1 = exit_code_for (rep_overall_status report)
        | Inr (Some previous) \<Rightarrow> there \<and> trusted \<and> code1 \<in> {0, 1, 2, 3, 4} \<and> parsed \<in> range Inr)"
proof (cases "load_previous_report there trusted parsed True")
  case (Inl e)
  then show ?thesis using load_cases [of there parsed trusted] by (auto simp: cmd_verify_def)
next
  case (Inr prev)
  have "e = KeyboardInterrupt" if "cmd_verify packs cat en (Inr prev) again report resolutions rn = (Inl e, rn')" for e rn'
    using that by (auto simp: cmd_verify_def split: prod.splits sum.splits if_splits dest: compare_error save_baseline_error)
  moreover have "c \<in> {0, 1, 2, 3, 4} \<and> (prev = None \<longrightarrow> c = exit_code_for (rep_overall_status report))"
    if st: "cmd_verify packs cat en (Inr prev) again report resolutions rn = (Inr (c, saved), rn')" for c saved rn'
  proof -
    obtain vr rn1 where "compare_reports packs cat en prev report rn = (Inr vr, rn1)" "c = verify_exit_code vr"
      using st by (auto simp: cmd_verify_def split: prod.splits sum.splits if_splits)
    then show ?thesis using verify_exit_range [of vr] by (auto simp: compare_reports_def verify_exit_code_def)
  qed
  ultimately show ?thesis using Inr load_cases [of there parsed trusted]
    by (cases "cmd_verify packs cat en (Inr prev) again report resolutions rn"; cases "fst (cmd_verify packs cat en (Inr prev) again report resolutions rn)")
      (auto split: option.splits)
qed

section \<open>Examples\<close>

text \<open>A run that offered the fix of \<open>ResolveProps\<close> for an unexplained finding; the fresh report is healthy and complete.\<close>

definition healthy_report :: diagnosis_report where
  "healthy_report =
     \<lparr>rep_generated_at = ''2026-01-02T03:04:05Z'', rep_hostname = ''ipa1.example.test'', rep_overall_status = HEALTHY, rep_diagnoses = [],
      rep_collection_errors = [], rep_packs_evaluated = [], rep_replay_source = None, rep_environment = None,
      rep_evidence_completeness = \<lparr>ec_level = ''complete'', ec_healthcheck_collected = True, ec_unverified = [],
        ec_ruv_state = ''none'', ec_ruv_reason = None\<rparr>,
      rep_unclaimed_warnings = 0, rep_undiagnosed_findings = [], rep_resolutions = [], rep_carried_fixes = [],
      rep_carried_diagnoses = [], rep_service_states = [], rep_side_effects = [], rep_unknown_severity_findings = []\<rparr>"

definition saved_fix :: pydict where
  "saved_fix =
     [(''diagnosis_id'', PStr ''healthcheck.unexplained-findings''), (''procedure_id'', PStr ''proc.expire''), (''procedure_digest'', PStr ''0''),
      (''bindings'', PDict [(''user'', PStr ''admin'')]), (''criteria_digest'', PStr ''0'')]"

definition saved_report :: pydict where
  "saved_report =
     [(''hostname'', PStr ''ipa1.example.test''), (''generated_at'', PStr ''2026-01-01T03:04:05Z''), (''report_schema_version'', PInt 2),
      (''diagnoses'', PList [PDict [(''diagnosis_id'', PStr ''healthcheck.unexplained-findings''), (''title'', PStr ''Findings''),
          (''pack_id'', PStr ''healthcheck''), (''priority'', PStr ''PRIMARY_PROBLEM''), (''status'', PStr ''DIAGNOSED'')]]),
      (''v2'', PDict [(''verify_baseline'', PDict [(''schema'', PInt 1), (''fixes'', PList [PDict saved_fix])])])]"

definition sample_verify :: "(exn + int \<times> diagnosis_report option) \<times> unit" where
  "sample_verify =
     cmd_verify [] [expire_entry built_in] (Some sample_engine) (Inr (Some saved_report)) (Some saved_report) healthy_report [] ()"

lemma sample_compared:
  "case fst (compare_reports [] [expire_entry built_in] (Some sample_engine) (Some saved_report) healthy_report ()) of
     Inl e \<Rightarrow> False
   | Inr vr \<Rightarrow> map (\<lambda>i. (vi_diagnosis_id i, vi_outcome i)) (vr_items vr) = [(''healthcheck.unexplained-findings'', RESOLVED)]"
  by code_simp

lemma sample_verified:
  "case fst sample_verify of Inl e \<Rightarrow> False | Inr (c, saved) \<Rightarrow> c = 0 \<and> saved \<noteq> None"
  by code_simp

lemma unit_pair: "fst p = x \<Longrightarrow> p = (x, ())"
  by (cases p) simp

lemma sample_compare_run:
  obtains vr i where "compare_reports [] [expire_entry built_in] (Some sample_engine) (Some saved_report) healthy_report () = (Inr vr, ())"
    "i \<in> set (vr_items vr)" "vi_diagnosis_id i = ''healthcheck.unexplained-findings''" "vi_outcome i = RESOLVED"
proof -
  obtain vr where vr: "compare_reports [] [expire_entry built_in] (Some sample_engine) (Some saved_report) healthy_report () = (Inr vr, ())"
      "map (\<lambda>i. (vi_diagnosis_id i, vi_outcome i)) (vr_items vr) = [(''healthcheck.unexplained-findings'', RESOLVED)]"
    using sample_compared by (auto split: sum.splits dest: unit_pair)
  then obtain i where "i \<in> set (vr_items vr)" "(vi_diagnosis_id i, vi_outcome i) = (''healthcheck.unexplained-findings'', RESOLVED)"
    by auto
  then show thesis using that vr by auto
qed

lemma sample_verify_run:
  obtains saved where "cmd_verify [] [expire_entry built_in] (Some sample_engine) (Inr (Some saved_report)) (Some saved_report) healthy_report [] ()
    = (Inr (0, Some saved), ())"
  using sample_verified unit_pair [of sample_verify] by (auto simp: sample_verify_def split: sum.splits prod.splits)

lemma saved_report_fixes: "baseline_fixes saved_report = [(''healthcheck.unexplained-findings'', saved_fix)]"
  by code_simp

lemma saved_report_ids: "dict_keys (prev_by_id saved_report) = [''healthcheck.unexplained-findings'']"
  by code_simp

lemma saved_report_fits: "baseline_problem saved_report healthy_report = None"
  by (simp add: baseline_problem_def saved_report_def healthy_report_def str_at_def dict_get_def the_default_def)

lemma saved_report_sound: "baseline_damage saved_report = None"
  by code_simp

lemma saved_report_texts:
  "sanitize_text ''healthcheck.unexplained-findings'' 160 = ''healthcheck.unexplained-findings''" "sanitize_text ''Findings'' 160 = ''Findings''"
proof -
  have "clean_text ''healthcheck.unexplained-findings''" "clean_text ''Findings''" by code_simp+
  then show "sanitize_text ''healthcheck.unexplained-findings'' 160 = ''healthcheck.unexplained-findings''"
      "sanitize_text ''Findings'' 160 = ''Findings''"
    by (simp_all add: sanitize_clean pre_bound_def)
qed

lemma saved_report_loads: "load_previous_report True True (Inr (PDict saved_report)) True = Inr (Some saved_report)"
  by (simp add: load_previous_report_def accept_saved_def saved_report_def dict_get_def str_at_def entries_with_id_def dicts_def
      clean_entry_def entry_id_def the_default_def set_text_def saved_report_texts)

theorem resolved_is_earned_witness:
  "\<exists>vr i. compare_reports [] [expire_entry built_in] (Some sample_engine) (Some saved_report) healthy_report () = (Inr vr, ())
     \<and> i \<in> set (vr_items vr) \<and> vi_outcome i = RESOLVED \<and> known_diagnosis_id [] (vi_diagnosis_id i)
     \<and> fix_confirmed [expire_entry built_in] sample_engine saved_fix ()"
proof -
  obtain vr i where r: "compare_reports [] [expire_entry built_in] (Some sample_engine) (Some saved_report) healthy_report () = (Inr vr, ())"
    "i \<in> set (vr_items vr)" "vi_diagnosis_id i = ''healthcheck.unexplained-findings''" "vi_outcome i = RESOLVED"
    by (rule sample_compare_run)
  have "dict_get (baseline_fixes saved_report) (vi_diagnosis_id i) = Some saved_fix"
    by (simp add: saved_report_fixes r(3) dict_get_def)
  moreover have u: "x = ()" for x :: unit by simp
  ultimately show ?thesis using resolved_is_earned [OF r(1,2,4)] r unfolding u [of "state_at _ _ _ _ _ _ _"] by blast
qed

theorem every_saved_diagnosis_is_answered_witness:
  "\<exists>vr. compare_reports [] [expire_entry built_in] (Some sample_engine) (Some saved_report) healthy_report () = (Inr vr, ())
     \<and> map vi_diagnosis_id (vr_items vr)
       = dict_keys (prev_by_id saved_report) @ map (\<lambda>d. sanitize_text d 160) (orphans saved_report)"
proof -
  obtain vr i where r: "compare_reports [] [expire_entry built_in] (Some sample_engine) (Some saved_report) healthy_report () = (Inr vr, ())"
    by (rule sample_compare_run)
  show ?thesis using every_saved_diagnosis_is_answered [OF r] r by blast
qed

theorem verify_zero_is_clean_witness:
  "\<exists>vr rn1. compare_reports [] [expire_entry built_in] (Some sample_engine) (Some saved_report) healthy_report () = (Inr vr, rn1)
     \<and> \<not> keep_baseline vr \<and> list_all (\<lambda>i. vi_outcome i = RESOLVED) (vr_items vr)"
proof -
  obtain saved where s: "cmd_verify [] [expire_entry built_in] (Some sample_engine) (Inr (Some saved_report)) (Some saved_report) healthy_report [] ()
    = (Inr (0, Some saved), ())" by (rule sample_verify_run)
  show ?thesis using verify_zero_is_clean [OF saved_report_loads s] by (elim exE conjE) (intro exI conjI, assumption+)
qed

theorem unconfirmed_fix_survives_witness:
  "\<exists>saved. cmd_verify [] [expire_entry built_in] (Some sample_engine) (Inr (Some saved_report)) (Some saved_report) healthy_report [] ()
       = (Inr (0, Some saved), ())
     \<and> ((\<exists>vr rn1 i. compare_reports [] [expire_entry built_in] (Some sample_engine) (Some saved_report) healthy_report () = (Inr vr, rn1)
            \<and> i \<in> set (vr_items vr) \<and> vi_diagnosis_id i = ''healthcheck.unexplained-findings'' \<and> vi_outcome i = RESOLVED)
        \<or> saved_fix \<in> set (rep_carried_fixes saved))"
proof -
  obtain saved where s: "cmd_verify [] [expire_entry built_in] (Some sample_engine) (Inr (Some saved_report)) (Some saved_report) healthy_report [] ()
    = (Inr (0, Some saved), ())" by (rule sample_verify_run)
  have "(''healthcheck.unexplained-findings'', saved_fix) \<in> set (baseline_fixes saved_report)"
    "''healthcheck.unexplained-findings'' \<in> set (dict_keys (prev_by_id saved_report))"
    by (simp_all add: saved_report_fixes saved_report_ids)
  from unconfirmed_fix_survives [OF s saved_report_fits saved_report_sound this(1) disjI1 [OF this(2)]] s show ?thesis by auto
qed

end
