(* ===== verification/EnvGraph.thy ===== *)
theory EnvGraph
  imports PyValues Textsafe
begin

text \<open>
  The environment graph of \<open>environment/graph.py\<close>: entities of closed kinds, facts about them with their state and
  observer, evidenced relations, and enumerations that say whether they were complete. Its operations are functions on
  the record, \<open>build_step\<close> makes them a step relation, and the lemmas show what every graph keeps however it was built.
\<close>

section \<open>Kinds and states\<close>

datatype entity_kind =
    SERVER | REPLICA | CLIENT | SUFFIX | AGREEMENT | TOPOLOGY_SEGMENT | SERVER_ROLE | DIRECTORY_SERVER_INSTANCE | KDC
  | PRINCIPAL | KEYTAB

fun kind_value :: "entity_kind \<Rightarrow> string" where
  "kind_value SERVER = ''SERVER''"
| "kind_value REPLICA = ''REPLICA''"
| "kind_value CLIENT = ''CLIENT''"
| "kind_value SUFFIX = ''SUFFIX''"
| "kind_value AGREEMENT = ''AGREEMENT''"
| "kind_value TOPOLOGY_SEGMENT = ''TOPOLOGY_SEGMENT''"
| "kind_value SERVER_ROLE = ''SERVER_ROLE''"
| "kind_value DIRECTORY_SERVER_INSTANCE = ''DIRECTORY_SERVER_INSTANCE''"
| "kind_value KDC = ''KDC''"
| "kind_value PRINCIPAL = ''PRINCIPAL''"
| "kind_value KEYTAB = ''KEYTAB''"

definition all_kinds :: "entity_kind list" where
  "all_kinds = [SERVER, REPLICA, CLIENT, SUFFIX, AGREEMENT, TOPOLOGY_SEGMENT, SERVER_ROLE, DIRECTORY_SERVER_INSTANCE, KDC,
     PRINCIPAL, KEYTAB]"

datatype fact_state = ESTABLISHED | FS_UNKNOWN | CONTRADICTED

fun state_value :: "fact_state \<Rightarrow> string" where
  "state_value ESTABLISHED = ''ESTABLISHED''"
| "state_value FS_UNKNOWN = ''UNKNOWN''"
| "state_value CONTRADICTED = ''CONTRADICTED''"

datatype enum_status = COMPLETE | PARTIAL | NOT_ASKED | ENUM_FAILED

fun enum_value :: "enum_status \<Rightarrow> string" where
  "enum_value COMPLETE = ''COMPLETE''"
| "enum_value PARTIAL = ''PARTIAL''"
| "enum_value NOT_ASKED = ''NOT_ASKED''"
| "enum_value ENUM_FAILED = ''FAILED''"

datatype rel_kind =
    HOSTS | HAS_ROLE | PARTICIPATES_IN | SUPPLIER_OF | CONSUMER_OF | REPLICATES | CONNECTS | SEGMENT_OF | PRINCIPAL_OF
  | CONTAINS | SELECTS

fun rel_value :: "rel_kind \<Rightarrow> string" where
  "rel_value HOSTS = ''HOSTS''"
| "rel_value HAS_ROLE = ''HAS_ROLE''"
| "rel_value PARTICIPATES_IN = ''PARTICIPATES_IN''"
| "rel_value SUPPLIER_OF = ''SUPPLIER_OF''"
| "rel_value CONSUMER_OF = ''CONSUMER_OF''"
| "rel_value REPLICATES = ''REPLICATES''"
| "rel_value CONNECTS = ''CONNECTS''"
| "rel_value SEGMENT_OF = ''SEGMENT_OF''"
| "rel_value PRINCIPAL_OF = ''PRINCIPAL_OF''"
| "rel_value CONTAINS = ''CONTAINS''"
| "rel_value SELECTS = ''SELECTS''"

fun ENDPOINTS :: "rel_kind \<Rightarrow> entity_kind list \<times> entity_kind list" where
  "ENDPOINTS HOSTS = ([SERVER], [DIRECTORY_SERVER_INSTANCE, KDC])"
| "ENDPOINTS HAS_ROLE = ([SERVER], [SERVER_ROLE])"
| "ENDPOINTS PARTICIPATES_IN = ([SERVER], [SUFFIX])"
| "ENDPOINTS SUPPLIER_OF = ([SERVER], [AGREEMENT])"
| "ENDPOINTS CONSUMER_OF = ([SERVER], [AGREEMENT])"
| "ENDPOINTS REPLICATES = ([AGREEMENT], [SUFFIX])"
| "ENDPOINTS CONNECTS = ([TOPOLOGY_SEGMENT], [SERVER])"
| "ENDPOINTS SEGMENT_OF = ([TOPOLOGY_SEGMENT], [SUFFIX])"
| "ENDPOINTS PRINCIPAL_OF = ([PRINCIPAL], [SERVER])"
| "ENDPOINTS CONTAINS = ([KEYTAB], [PRINCIPAL])"
| "ENDPOINTS SELECTS = ([CLIENT], [SERVER])"

definition MAX_ENTITIES :: nat where "MAX_ENTITIES = 400"
definition MAX_FACTS :: nat where "MAX_FACTS = 3000"
definition MAX_RELATIONS :: nat where "MAX_RELATIONS = 1500"

section \<open>References\<close>

definition entity_ref :: "entity_kind \<Rightarrow> string \<Rightarrow> string" where
  "entity_ref k key = kind_value k @ '':'' @ key"

definition kind_of :: "string \<Rightarrow> entity_kind option" where
  "kind_of r = find (\<lambda>k. kind_value k = fst (partition_char (CHR '':'') r)) all_kinds"

section \<open>The graph\<close>

record entity =
  e_kind :: entity_kind
  e_key :: string
  e_owner :: "string option"
  e_scope :: "string option"
  e_evidence :: "string list"

definition e_ref :: "entity \<Rightarrow> string" where "e_ref e = entity_ref (e_kind e) (e_key e)"

record fact =
  fa_subject :: string
  fa_name :: string
  fa_value :: pyval
  fa_state :: fact_state
  fa_evidence :: "string list"
  fa_collected_at :: "string option"
  fa_source :: string
  fa_observed_from :: "string option"
  fa_context :: "(string \<times> string) list"
  fa_conflicting :: "pyval list"

record relation =
  rl_kind :: rel_kind
  rl_src :: string
  rl_dst :: string
  rl_evidence :: "string list"

record graph_enumeration =
  ge_status :: enum_status
  ge_kind :: "entity_kind option"
  ge_members :: "string list"
  ge_reason :: string
  ge_scope :: "string option"

type_synonym fact_key = "string \<times> string \<times> string option"
type_synonym rel_key = "rel_kind \<times> string \<times> string"

record env_graph =
  g_entities :: "(string \<times> entity) list"
  g_facts :: "(fact_key \<times> fact) list"
  g_relations :: "(rel_key \<times> relation) list"
  g_enumerations :: "(string \<times> graph_enumeration) list"
  g_dropped_entities :: nat
  g_dropped_facts :: nat
  g_dropped_relations :: nat

definition empty_graph :: env_graph where
  "empty_graph = \<lparr>g_entities = [], g_facts = [], g_relations = [], g_enumerations = [],
     g_dropped_entities = 0, g_dropped_facts = 0, g_dropped_relations = 0\<rparr>"

definition GraphError :: exn where "GraphError = OtherError ''GraphError''"

lemma size_list_taken [termination_simp]: "x \<in> set (take n xs) \<Longrightarrow> f x < Suc (size_list f xs)"
  by (auto simp: less_Suc_eq_le dest!: in_set_takeD intro: size_list_estimation')

lemma size_dict_taken [termination_simp]:
  assumes "(a, b) \<in> set (take n d)"
  shows "size b < Suc (size_list (\<lambda>x. Suc (size (snd x))) d)"
  using size_list_taken [OF assms, of "\<lambda>x. Suc (size (snd x))"] by simp

text \<open>\<open>_clean\<close>: texts sanitized, collections cut to 64 members.\<close>

fun clean_value :: "pyval \<Rightarrow> pyval" where
  "clean_value (PStr s) = PStr (sanitize_text s 300)"
| "clean_value (PList xs) = PList (map clean_value (take 64 xs))"
| "clean_value (PDict d) = PDict (dict_of (map (\<lambda>(k, x). (sanitize_text k 80, clean_value x)) (take 64 d)))"
| "clean_value v = v"

text \<open>\<open>tuple(sorted(set(evidence)))\<close>\<close>

definition sorted_set :: "('a :: linorder) list \<Rightarrow> 'a list" where
  "sorted_set xs = sort (dedup xs)"

section \<open>Building\<close>

definition add_entity ::
  "entity_kind \<Rightarrow> string \<Rightarrow> string option \<Rightarrow> string option \<Rightarrow> string list \<Rightarrow> env_graph \<Rightarrow> exn + string option \<times> env_graph" where
  "add_entity k key owner scope evidence g =
     (if key = '''' then Inl GraphError
      else
        let key = sanitize_text key 300;
            r = entity_ref k key;
            ev = sorted_set evidence
        in case dict_get (g_entities g) r of
             Some old \<Rightarrow>
               Inr (Some r, g\<lparr>g_entities := dict_set r (old\<lparr>e_evidence := sorted_set (e_evidence old @ ev)\<rparr>) (g_entities g)\<rparr>)
           | None \<Rightarrow>
               (if MAX_ENTITIES \<le> length (g_entities g)
                then Inr (None, g\<lparr>g_dropped_entities := Suc (g_dropped_entities g)\<rparr>)
                else Inr (Some r, g\<lparr>g_entities := dict_set r
                       \<lparr>e_kind = k, e_key = key, e_owner = owner, e_scope = scope, e_evidence = ev\<rparr> (g_entities g)\<rparr>)))"

text \<open>The fact that \<open>add_fact\<close> makes of its arguments, and what it does with one it already holds.\<close>

definition new_fact ::
  "string \<Rightarrow> string \<Rightarrow> pyval \<Rightarrow> fact_state \<Rightarrow> string list \<Rightarrow> string option \<Rightarrow> string \<Rightarrow> string option \<Rightarrow> (string \<times> string) list \<Rightarrow> fact"
where
  "new_fact subject name v st evidence collected_at source observed_from ctx =
     (let v = clean_value v;
          st = (if v = PNone \<and> st = ESTABLISHED then FS_UNKNOWN else st)
      in \<lparr>fa_subject = subject, fa_name = name, fa_value = v, fa_state = st, fa_evidence = sorted_set evidence,
          fa_collected_at = collected_at, fa_source = source, fa_observed_from = observed_from,
          fa_context = sort ctx, fa_conflicting = []\<rparr>)"

definition merge_fact :: "fact \<Rightarrow> fact \<Rightarrow> fact" where
  "merge_fact old new =
     (if fa_state old = ESTABLISHED \<and> fa_state new = ESTABLISHED \<and> \<not> py_eq (fa_value old) (fa_value new)
      then old\<lparr>fa_state := CONTRADICTED, fa_conflicting := fa_conflicting old @ [fa_value new],
               fa_evidence := sorted_set (fa_evidence old @ fa_evidence new)\<rparr>
      else if fa_state old = FS_UNKNOWN \<and> fa_state new = ESTABLISHED then new
      else old)"

definition add_fact ::
  "string option \<Rightarrow> string \<Rightarrow> pyval \<Rightarrow> fact_state \<Rightarrow> string list \<Rightarrow> string option \<Rightarrow> string \<Rightarrow> string option \<Rightarrow> (string \<times> string) list
   \<Rightarrow> env_graph \<Rightarrow> exn + env_graph" where
  "add_fact subject name v st evidence collected_at source observed_from ctx g =
     (case subject of
        None \<Rightarrow> Inr g
      | Some s \<Rightarrow>
          if s \<notin> set (dict_keys (g_entities g)) then Inl GraphError
          else if source \<notin> {''LIVE'', ''REPLAY''} then Inl GraphError
          else
            let k = (s, name, observed_from);
                new = new_fact s name v st evidence collected_at source observed_from ctx
            in case dict_get (g_facts g) k of
                 Some old \<Rightarrow> Inr (g\<lparr>g_facts := dict_set k (merge_fact old new) (g_facts g)\<rparr>)
               | None \<Rightarrow>
                   (if MAX_FACTS \<le> length (g_facts g) then Inr (g\<lparr>g_dropped_facts := Suc (g_dropped_facts g)\<rparr>)
                    else Inr (g\<lparr>g_facts := dict_set k new (g_facts g)\<rparr>)))"

text \<open>\<open>_kind_of(r) in kinds\<close>\<close>

definition kind_in :: "string \<Rightarrow> entity_kind list \<Rightarrow> bool" where
  "kind_in r ks = (case kind_of r of None \<Rightarrow> False | Some k \<Rightarrow> k \<in> set ks)"

definition add_relation :: "rel_kind \<Rightarrow> string option \<Rightarrow> string option \<Rightarrow> string list \<Rightarrow> env_graph \<Rightarrow> exn + env_graph" where
  "add_relation kind src dst evidence g =
     (case (src, dst) of
        (Some a, Some b) \<Rightarrow>
          if a \<notin> set (dict_keys (g_entities g)) \<or> b \<notin> set (dict_keys (g_entities g)) then Inl GraphError
          else if \<not> kind_in a (fst (ENDPOINTS kind)) \<or> \<not> kind_in b (snd (ENDPOINTS kind)) then Inl GraphError
          else
            let k = (kind, a, b)
            in if k \<in> set (dict_keys (g_relations g)) then Inr g
               else if MAX_RELATIONS \<le> length (g_relations g) then Inr (g\<lparr>g_dropped_relations := Suc (g_dropped_relations g)\<rparr>)
               else Inr (g\<lparr>g_relations := dict_set k
                      \<lparr>rl_kind = kind, rl_src = a, rl_dst = b, rl_evidence = sorted_set evidence\<rparr> (g_relations g)\<rparr>)
      | _ \<Rightarrow> Inr g)"

definition set_enumeration ::
  "string \<Rightarrow> enum_status \<Rightarrow> entity_kind option \<Rightarrow> string list \<Rightarrow> string \<Rightarrow> string option \<Rightarrow> env_graph \<Rightarrow> env_graph" where
  "set_enumeration name st kind members reason scope g =
     g\<lparr>g_enumerations := dict_set name
         \<lparr>ge_status = st, ge_kind = kind, ge_members = sorted_set members, ge_reason = sanitize_text reason 300, ge_scope = scope\<rparr>
         (g_enumerations g)\<rparr>"

section \<open>Lookups\<close>

definition get_entity :: "env_graph \<Rightarrow> string \<Rightarrow> entity option" where
  "get_entity g r = dict_get (g_entities g) r"

definition entities_of :: "env_graph \<Rightarrow> entity_kind \<Rightarrow> entity list" where
  "entities_of g k = sort_key e_key (filter (\<lambda>e. e_kind e = k) (map snd (g_entities g)))"

definition facts_about :: "env_graph \<Rightarrow> string \<Rightarrow> string option \<Rightarrow> fact list" where
  "facts_about g subject name =
     sort_key (\<lambda>f. (fa_name f, the_default '''' (fa_observed_from f)))
       (map snd (filter (\<lambda>((s, n, _), f). s = subject \<and> (name = None \<or> name = Some n)) (g_facts g)))"

definition get_fact :: "env_graph \<Rightarrow> string \<Rightarrow> string \<Rightarrow> string option \<Rightarrow> fact option" where
  "get_fact g subject name observed_from = dict_get (g_facts g) (subject, name, observed_from)"

definition relations_of :: "env_graph \<Rightarrow> rel_kind option \<Rightarrow> string option \<Rightarrow> string option \<Rightarrow> relation list" where
  "relations_of g kind src dst =
     sort_key (\<lambda>r. (rel_value (rl_kind r), rl_src r, rl_dst r))
       (filter (\<lambda>r. (kind = None \<or> kind = Some (rl_kind r)) \<and> (src = None \<or> src = Some (rl_src r)) \<and> (dst = None \<or> dst = Some (rl_dst r)))
         (map snd (g_relations g)))"

definition enumeration_status :: "env_graph \<Rightarrow> string \<Rightarrow> enum_status" where
  "enumeration_status g name = (case dict_get (g_enumerations g) name of Some e \<Rightarrow> ge_status e | None \<Rightarrow> NOT_ASKED)"

definition absent :: "env_graph \<Rightarrow> string \<Rightarrow> entity_kind \<Rightarrow> string \<Rightarrow> bool option" where
  "absent g name kind key =
     (case dict_get (g_enumerations g) name of
        None \<Rightarrow> None
      | Some e \<Rightarrow>
          if entity_ref kind key \<in> set (ge_members e) then Some False
          else if ge_status e \<noteq> COMPLETE \<or> ge_kind e \<noteq> Some kind then None
          else Some True)"

definition truncated :: "env_graph \<Rightarrow> bool" where
  "truncated g = (g_dropped_entities g \<noteq> 0 \<or> g_dropped_facts g \<noteq> 0 \<or> g_dropped_relations g \<noteq> 0)"

section \<open>Serialization\<close>

definition opt_text :: "string option \<Rightarrow> pyval" where
  "opt_text s = (case s of None \<Rightarrow> PNone | Some t \<Rightarrow> PStr t)"

definition str_list :: "string list \<Rightarrow> pyval" where "str_list xs = PList (map PStr xs)"

definition entity_dict :: "entity \<Rightarrow> pyval" where
  "entity_dict e = PDict [(''ref'', PStr (e_ref e)), (''kind'', PStr (kind_value (e_kind e))), (''key'', PStr (e_key e)),
     (''owner'', opt_text (e_owner e)), (''scope'', opt_text (e_scope e)), (''evidence'', str_list (e_evidence e))]"

definition fact_dict :: "fact \<Rightarrow> pyval" where
  "fact_dict f = PDict ([(''subject'', PStr (fa_subject f)), (''name'', PStr (fa_name f)), (''value'', fa_value f),
     (''state'', PStr (state_value (fa_state f))), (''evidence'', str_list (fa_evidence f)),
     (''collected_at'', opt_text (fa_collected_at f)), (''source'', PStr (fa_source f)),
     (''observed_from'', opt_text (fa_observed_from f)),
     (''context'', PDict (dict_of (map (\<lambda>(k, v). (k, PStr v)) (fa_context f))))]
     @ (if fa_conflicting f = [] then [] else [(''conflicting'', PList (fa_conflicting f))]))"

definition relation_dict :: "relation \<Rightarrow> pyval" where
  "relation_dict r = PDict [(''kind'', PStr (rel_value (rl_kind r))), (''src'', PStr (rl_src r)), (''dst'', PStr (rl_dst r)),
     (''evidence'', str_list (rl_evidence r))]"

definition enumeration_dict :: "graph_enumeration \<Rightarrow> pyval" where
  "enumeration_dict e = PDict [(''status'', PStr (enum_value (ge_status e))),
     (''kind'', case ge_kind e of None \<Rightarrow> PNone | Some k \<Rightarrow> PStr (kind_value k)), (''members'', str_list (ge_members e)),
     (''reason'', PStr (ge_reason e)), (''scope'', opt_text (ge_scope e))]"

definition graph_to_dict :: "env_graph \<Rightarrow> pydict" where
  "graph_to_dict g =
     [(''entities'', PList (map entity_dict (sort_key e_ref (map snd (g_entities g))))),
      (''facts'', PList (map (\<lambda>p. fact_dict (snd p))
         (sort_key (\<lambda>((s, n, o'), _). (s, n, the_default '''' o')) (g_facts g)))),
      (''relations'', PList (map relation_dict (relations_of g None None None))),
      (''enumerations'', PDict (map (\<lambda>(n, e). (n, enumeration_dict e)) (sort_key fst (g_enumerations g)))),
      (''bounds'', PDict [(''max_entities'', PInt (int MAX_ENTITIES)), (''max_facts'', PInt (int MAX_FACTS)),
         (''max_relations'', PInt (int MAX_RELATIONS)),
         (''dropped'', PDict [(''entities'', PInt (int (g_dropped_entities g))), (''facts'', PInt (int (g_dropped_facts g))),
            (''relations'', PInt (int (g_dropped_relations g)))])])]"

section \<open>What builds a graph\<close>

datatype graph_op =
    AddEntity entity_kind string "string option" "string option" "string list"
  | AddFact "string option" string pyval fact_state "string list" "string option" string "string option" "(string \<times> string) list"
  | AddRelation rel_kind "string option" "string option" "string list"
  | SetEnumeration string enum_status "entity_kind option" "string list" string "string option"

fun apply_op :: "graph_op \<Rightarrow> env_graph \<Rightarrow> exn + env_graph" where
  "apply_op (AddEntity k key owner scope ev) g = bind_exn (add_entity k key owner scope ev g) (\<lambda>(r, g'). Inr g')"
| "apply_op (AddFact s n v st ev t src obs ctx) g = add_fact s n v st ev t src obs ctx g"
| "apply_op (AddRelation k a b ev) g = add_relation k a b ev g"
| "apply_op (SetEnumeration n st k ms why sc) g = Inr (set_enumeration n st k ms why sc g)"

text \<open>The graphs reached from the empty one, with the calls that reached them, the last one first.\<close>

inductive built :: "graph_op list \<Rightarrow> env_graph \<Rightarrow> bool" where
  built_empty: "built [] empty_graph"
| built_op: "built ops g \<Longrightarrow> apply_op x g = Inr g' \<Longrightarrow> built (x # ops) g'"

inductive_cases built_ConsE: "built (x # ops) g"

section \<open>References name their kind\<close>

lemma no_colon: "CHR '':'' \<notin> set (kind_value k)"
  by (cases k) simp_all

lemma partition_no_char: "c \<notin> set a \<Longrightarrow> fst (partition_char c (a @ c # b)) = a"
  by (induction a) (auto split: prod.splits)

lemma kind_value_inj: "kind_value k = kind_value k' \<longleftrightarrow> k = k'"
  by (cases k; cases k') simp_all

lemma rel_value_inj: "rel_value k = rel_value k' \<longleftrightarrow> k = k'"
  by (cases k; cases k') simp_all

lemma find_kind: "find (\<lambda>k'. kind_value k' = kind_value k) all_kinds = Some k"
  by (cases k) (simp_all add: all_kinds_def)

lemma kind_of_ref: "kind_of (entity_ref k key) = Some k"
  using partition_no_char [OF no_colon, of k key] by (simp add: kind_of_def entity_ref_def find_kind)

lemma entity_ref_inj: "entity_ref k a = entity_ref k' b \<longleftrightarrow> k = k' \<and> a = b"
  by (metis kind_of_ref entity_ref_def option.inject append_same_eq append_eq_append_conv append_Cons list.inject same_append_eq)

section \<open>What every graph keeps\<close>

definition wf_bounds :: "env_graph \<Rightarrow> bool" where
  "wf_bounds g =
     (length (g_entities g) \<le> MAX_ENTITIES \<and> length (g_facts g) \<le> MAX_FACTS \<and> length (g_relations g) \<le> MAX_RELATIONS
      \<and> (g_dropped_entities g \<noteq> 0 \<longrightarrow> length (g_entities g) = MAX_ENTITIES)
      \<and> (g_dropped_facts g \<noteq> 0 \<longrightarrow> length (g_facts g) = MAX_FACTS)
      \<and> (g_dropped_relations g \<noteq> 0 \<longrightarrow> length (g_relations g) = MAX_RELATIONS))"

definition wf_entities :: "env_graph \<Rightarrow> bool" where
  "wf_entities g = (distinct (dict_keys (g_entities g)) \<and> list_all (\<lambda>(r, e). r = e_ref e) (g_entities g))"

definition fact_ok :: "env_graph \<Rightarrow> fact_key \<Rightarrow> fact \<Rightarrow> bool" where
  "fact_ok g k f =
     (k = (fa_subject f, fa_name f, fa_observed_from f) \<and> fa_subject f \<in> set (dict_keys (g_entities g))
      \<and> fa_source f \<in> {''LIVE'', ''REPLAY''}
      \<and> (fa_state f = ESTABLISHED \<longrightarrow> fa_value f \<noteq> PNone)
      \<and> (fa_conflicting f \<noteq> [] \<longrightarrow> fa_state f = CONTRADICTED))"

definition wf_facts :: "env_graph \<Rightarrow> bool" where
  "wf_facts g = (distinct (dict_keys (g_facts g)) \<and> list_all (\<lambda>(k, f). fact_ok g k f) (g_facts g))"

text \<open>An entity of one of these kinds is there.\<close>

definition has_kind :: "env_graph \<Rightarrow> string \<Rightarrow> entity_kind list \<Rightarrow> bool" where
  "has_kind g r ks = (case get_entity g r of None \<Rightarrow> False | Some e \<Rightarrow> e_kind e \<in> set ks)"

definition relation_ok :: "env_graph \<Rightarrow> rel_key \<Rightarrow> relation \<Rightarrow> bool" where
  "relation_ok g k r =
     (k = (rl_kind r, rl_src r, rl_dst r) \<and> has_kind g (rl_src r) (fst (ENDPOINTS (rl_kind r)))
      \<and> has_kind g (rl_dst r) (snd (ENDPOINTS (rl_kind r))))"

definition wf_relations :: "env_graph \<Rightarrow> bool" where
  "wf_relations g = (distinct (dict_keys (g_relations g)) \<and> list_all (\<lambda>(k, r). relation_ok g k r) (g_relations g))"

definition wf_graph :: "env_graph \<Rightarrow> bool" where
  "wf_graph g = (wf_bounds g \<and> wf_entities g \<and> wf_facts g \<and> wf_relations g)"

lemma length_dict_set: "length (dict_set k v d) = (if k \<in> set (dict_keys d) then length d else Suc (length d))"
  using arg_cong [OF keys_dict_set [of k v d], of length] by (simp add: dict_keys_def image_iff split: if_splits)

lemma key_iff: "dict_get d k = None \<longleftrightarrow> k \<notin> set (dict_keys d)"
  by (rule dict.get_None_iff)

lemma key_there: "dict_get d k = Some v \<Longrightarrow> k \<in> set (dict_keys d)"
  using dict.get_keys [of d k] by simp

lemma list_all_dict_set: "list_all P d \<Longrightarrow> P (k, v) \<Longrightarrow> list_all P (dict_set k v d)"
  using dict_set_subset [of k v d] by (auto simp: list_all_iff)

text \<open>The entities a graph has, with their kinds: what its facts and relations refer to. It only grows.\<close>

definition entities_kept :: "env_graph \<Rightarrow> env_graph \<Rightarrow> bool" where
  "entities_kept g g' = (\<forall>r e. get_entity g r = Some e \<longrightarrow> (\<exists>e'. get_entity g' r = Some e' \<and> e_kind e' = e_kind e))"

lemma kept_keys: "entities_kept g g' \<Longrightarrow> r \<in> set (dict_keys (g_entities g)) \<Longrightarrow> r \<in> set (dict_keys (g_entities g'))"
  unfolding entities_kept_def get_entity_def by (metis key_iff not_None_eq)

lemma kept_kind: "entities_kept g g' \<Longrightarrow> has_kind g r ks \<Longrightarrow> has_kind g' r ks"
  unfolding entities_kept_def has_kind_def by (cases "get_entity g r") fastforce+

lemma kept_facts: "entities_kept g g' \<Longrightarrow> list_all (\<lambda>(k, f). fact_ok g k f) d \<Longrightarrow> list_all (\<lambda>(k, f). fact_ok g' k f) d"
  using kept_keys by (fastforce simp: list_all_iff fact_ok_def)

lemma kept_relations:
  "entities_kept g g' \<Longrightarrow> list_all (\<lambda>(k, r). relation_ok g k r) d \<Longrightarrow> list_all (\<lambda>(k, r). relation_ok g' k r) d"
  using kept_kind by (fastforce simp: list_all_iff relation_ok_def)

lemma same_entities_kept: "g_entities g' = g_entities g \<Longrightarrow> entities_kept g g'"
  by (simp add: entities_kept_def get_entity_def)

lemma entity_at: "wf_entities g \<Longrightarrow> get_entity g r = Some e \<Longrightarrow> r = e_ref e"
  unfolding wf_entities_def get_entity_def by (auto simp: list_all_iff dest: dict_get_member)

subsection \<open>Each operation\<close>

lemma add_entity_cases:
  assumes "add_entity k key owner scope ev g = Inr (x, g')"
  obtains (merged) old where "get_entity g (entity_ref k (sanitize_text key 300)) = Some old"
      "x = Some (entity_ref k (sanitize_text key 300))"
      "g' = g\<lparr>g_entities := dict_set (entity_ref k (sanitize_text key 300))
               (old\<lparr>e_evidence := sorted_set (e_evidence old @ sorted_set ev)\<rparr>) (g_entities g)\<rparr>"
  | (dropped) "get_entity g (entity_ref k (sanitize_text key 300)) = None" "MAX_ENTITIES \<le> length (g_entities g)" "x = None"
      "g' = g\<lparr>g_dropped_entities := Suc (g_dropped_entities g)\<rparr>"
  | (added) "get_entity g (entity_ref k (sanitize_text key 300)) = None" "length (g_entities g) < MAX_ENTITIES"
      "x = Some (entity_ref k (sanitize_text key 300))"
      "g' = g\<lparr>g_entities := dict_set (entity_ref k (sanitize_text key 300))
               \<lparr>e_kind = k, e_key = sanitize_text key 300, e_owner = owner, e_scope = scope, e_evidence = sorted_set ev\<rparr> (g_entities g)\<rparr>"
  using assms by (auto simp: add_entity_def Let_def get_entity_def not_le split: if_splits option.splits)

lemma add_entity_kept: "add_entity k key owner scope ev g = Inr (x, g') \<Longrightarrow> entities_kept g g'"
  by (erule add_entity_cases) (auto simp: entities_kept_def get_entity_def dict.get_set)

lemma wf_bounds_set:
  "wf_bounds g \<Longrightarrow> r \<in> set (dict_keys (g_entities g)) \<or> length (g_entities g) < MAX_ENTITIES
   \<Longrightarrow> wf_bounds (g\<lparr>g_entities := dict_set r e (g_entities g)\<rparr>)"
  "wf_bounds g \<Longrightarrow> k \<in> set (dict_keys (g_facts g)) \<or> length (g_facts g) < MAX_FACTS
   \<Longrightarrow> wf_bounds (g\<lparr>g_facts := dict_set k f (g_facts g)\<rparr>)"
  "wf_bounds g \<Longrightarrow> length (g_relations g) < MAX_RELATIONS \<Longrightarrow> wf_bounds (g\<lparr>g_relations := dict_set l x (g_relations g)\<rparr>)"
  by (auto simp: wf_bounds_def length_dict_set)

lemma wf_bounds_drop:
  "wf_bounds g \<Longrightarrow> MAX_ENTITIES \<le> length (g_entities g) \<Longrightarrow> wf_bounds (g\<lparr>g_dropped_entities := n\<rparr>)"
  "wf_bounds g \<Longrightarrow> MAX_FACTS \<le> length (g_facts g) \<Longrightarrow> wf_bounds (g\<lparr>g_dropped_facts := n\<rparr>)"
  "wf_bounds g \<Longrightarrow> MAX_RELATIONS \<le> length (g_relations g) \<Longrightarrow> wf_bounds (g\<lparr>g_dropped_relations := n\<rparr>)"
  by (auto simp: wf_bounds_def)

lemma wf_entities_set:
  "wf_entities g \<Longrightarrow> r = e_ref e \<Longrightarrow> wf_entities (g\<lparr>g_entities := dict_set r e (g_entities g)\<rparr>)"
  by (simp add: wf_entities_def list_all_dict_set dict.distinct_keys)

lemma wf_kept:
  assumes "wf_graph g" "entities_kept g g'" "g_facts g' = g_facts g" "g_relations g' = g_relations g"
    and "wf_bounds g'" "wf_entities g'"
  shows "wf_graph g'"
  using assms kept_facts [OF assms(2)] kept_relations [OF assms(2)] by (simp add: wf_graph_def wf_facts_def wf_relations_def)

lemma add_entity_wf:
  assumes wf: "wf_graph g" and a: "add_entity k key owner scope ev g = Inr (x, g')"
  shows "wf_graph g'"
proof -
  note wfs = wf [unfolded wf_graph_def]
  note kept = wf_kept [OF wf add_entity_kept [OF a]]
  show ?thesis
    using a
  proof (cases rule: add_entity_cases)
    case (merged old)
    have "entity_ref k (sanitize_text key 300) = e_ref old" using wfs merged(1) by (intro entity_at) simp_all
    then have "wf_entities g'" unfolding merged(3) using wfs by (intro wf_entities_set) (simp_all add: e_ref_def)
    moreover have "wf_bounds g'" unfolding merged(3) using wfs merged(1) by (intro wf_bounds_set(1)) (auto simp: get_entity_def key_there)
    ultimately show ?thesis using merged(3) by (intro kept) simp_all
  next
    case dropped
    then show ?thesis using wfs by (intro kept) (auto simp: wf_bounds_drop wf_entities_def)
  next
    case added
    have "wf_entities g'" unfolding added(4) using wfs by (intro wf_entities_set) (simp_all add: e_ref_def)
    moreover have "wf_bounds g'" unfolding added(4) using wfs added(2) by (intro wf_bounds_set(1)) simp_all
    ultimately show ?thesis using added(4) by (intro kept) simp_all
  qed
qed

lemma add_fact_cases:
  assumes "add_fact s n v st ev t src obs ctx g = Inr g'"
  obtains (nothing) "s = None" "g' = g"
  | (merged) r old where "s = Some r" "r \<in> set (dict_keys (g_entities g))" "src \<in> {''LIVE'', ''REPLAY''}"
      "get_fact g r n obs = Some old"
      "g' = g\<lparr>g_facts := dict_set (r, n, obs) (merge_fact old (new_fact r n v st ev t src obs ctx)) (g_facts g)\<rparr>"
  | (dropped) r where "s = Some r" "get_fact g r n obs = None" "MAX_FACTS \<le> length (g_facts g)"
      "g' = g\<lparr>g_dropped_facts := Suc (g_dropped_facts g)\<rparr>"
  | (added) r where "s = Some r" "r \<in> set (dict_keys (g_entities g))" "src \<in> {''LIVE'', ''REPLAY''}"
      "get_fact g r n obs = None" "length (g_facts g) < MAX_FACTS"
      "g' = g\<lparr>g_facts := dict_set (r, n, obs) (new_fact r n v st ev t src obs ctx) (g_facts g)\<rparr>"
  using assms by (auto simp: add_fact_def Let_def get_fact_def not_le split: if_splits option.splits)

lemma new_fact_ok:
  "r \<in> set (dict_keys (g_entities g)) \<Longrightarrow> src \<in> {''LIVE'', ''REPLAY''} \<Longrightarrow> fact_ok g (r, n, obs) (new_fact r n v st ev t src obs ctx)"
  by (auto simp: fact_ok_def new_fact_def Let_def)

lemma merge_fact_ok: "fact_ok g k old \<Longrightarrow> fact_ok g k new \<Longrightarrow> fact_ok g k (merge_fact old new)"
  by (auto simp: fact_ok_def merge_fact_def)

lemma fact_at: "wf_facts g \<Longrightarrow> get_fact g s n obs = Some f \<Longrightarrow> fact_ok g (s, n, obs) f"
  unfolding wf_facts_def get_fact_def by (auto simp: list_all_iff dest: dict_get_member)

lemma wf_facts_set:
  assumes "wf_facts g" "fact_ok g k f"
  shows "wf_facts (g\<lparr>g_facts := dict_set k f (g_facts g)\<rparr>)"
proof -
  have "list_all (\<lambda>(k, f). fact_ok g k f) (dict_set k f (g_facts g))"
    using assms by (intro list_all_dict_set) (simp_all add: wf_facts_def)
  then show ?thesis
    using assms kept_facts [OF same_entities_kept, of "g\<lparr>g_facts := dict_set k f (g_facts g)\<rparr>" g]
    by (simp add: wf_facts_def dict.distinct_keys)
qed

lemma add_fact_wf:
  assumes wf: "wf_graph g" and a: "add_fact s n v st ev t src obs ctx g = Inr g'"
  shows "wf_graph g'"
proof -
  note wfs = wf [unfolded wf_graph_def]
  have same: "wf_graph (g\<lparr>g_facts := d\<rparr>)" if "wf_bounds (g\<lparr>g_facts := d\<rparr>)" "wf_facts (g\<lparr>g_facts := d\<rparr>)" for d
    using that wfs kept_relations [OF same_entities_kept, of "g\<lparr>g_facts := d\<rparr>" g]
    by (simp add: wf_graph_def wf_entities_def wf_relations_def)
  show ?thesis
    using a
  proof (cases rule: add_fact_cases)
    case nothing
    then show ?thesis using wf by simp
  next
    case (merged r old)
    have "fact_ok g (r, n, obs) old" using wfs merged(4) by (intro fact_at) simp_all
    with merged show ?thesis
      using wfs by (auto intro!: same wf_bounds_set(2) wf_facts_set merge_fact_ok new_fact_ok simp: get_fact_def key_there)
  next
    case (dropped r)
    then show ?thesis
      using wfs kept_facts [OF same_entities_kept, of "g\<lparr>g_dropped_facts := Suc (g_dropped_facts g)\<rparr>" g]
        kept_relations [OF same_entities_kept, of "g\<lparr>g_dropped_facts := Suc (g_dropped_facts g)\<rparr>" g]
      by (simp add: wf_graph_def wf_bounds_drop wf_entities_def wf_facts_def wf_relations_def)
  next
    case (added r)
    then show ?thesis using wfs by (auto intro!: same wf_bounds_set(2) wf_facts_set new_fact_ok)
  qed
qed

lemma add_relation_cases:
  assumes "add_relation kind src dst ev g = Inr g'"
  obtains (nothing) "g' = g"
  | (dropped) "MAX_RELATIONS \<le> length (g_relations g)" "g' = g\<lparr>g_dropped_relations := Suc (g_dropped_relations g)\<rparr>"
  | (added) a b where "src = Some a" "dst = Some b" "a \<in> set (dict_keys (g_entities g))" "b \<in> set (dict_keys (g_entities g))"
      "kind_in a (fst (ENDPOINTS kind))" "kind_in b (snd (ENDPOINTS kind))" "length (g_relations g) < MAX_RELATIONS"
      "(kind, a, b) \<notin> set (dict_keys (g_relations g))"
      "g' = g\<lparr>g_relations := dict_set (kind, a, b)
               \<lparr>rl_kind = kind, rl_src = a, rl_dst = b, rl_evidence = sorted_set ev\<rparr> (g_relations g)\<rparr>"
proof (cases "src = None \<or> dst = None")
  case True
  then have "g' = g" using assms by (auto simp: add_relation_def split: option.splits)
  then show ?thesis by (rule nothing)
next
  case False
  then obtain a b where ab: "src = Some a" "dst = Some b" by (cases src; cases dst) simp_all
  note x = assms [unfolded add_relation_def ab, simplified, unfolded Let_def]
  show ?thesis
  proof (cases "(kind, a, b) \<in> set (dict_keys (g_relations g))")
    case True
    then have "g' = g" using x by (simp split: if_splits)
    then show ?thesis by (rule nothing)
  next
    case new: False
    show ?thesis
    proof (cases "MAX_RELATIONS \<le> length (g_relations g)")
      case True
      then show ?thesis using x new dropped by (simp split: if_splits)
    next
      case False
      then show ?thesis using x new ab by (intro added [OF ab]) (simp_all split: if_splits)
    qed
  qed
qed

lemma has_kind_in:
  assumes "wf_entities g" "r \<in> set (dict_keys (g_entities g))" "kind_in r ks"
  shows "has_kind g r ks"
proof -
  obtain e where e: "get_entity g r = Some e" using assms(2) by (metis get_entity_def key_iff not_None_eq)
  then have "kind_of r = Some (e_kind e)" by (simp add: entity_at [OF assms(1) e] e_ref_def kind_of_ref)
  then show ?thesis using assms(3) e by (simp add: kind_in_def has_kind_def)
qed

lemma add_relation_wf:
  assumes wf: "wf_graph g" and a: "add_relation kind src dst ev g = Inr g'"
  shows "wf_graph g'"
proof -
  note wfs = wf [unfolded wf_graph_def]
  show ?thesis
    using a
  proof (cases rule: add_relation_cases)
    case nothing
    then show ?thesis using wf by simp
  next
    case dropped
    then show ?thesis
      using wfs kept_facts [OF same_entities_kept, of g' g] kept_relations [OF same_entities_kept, of g' g]
      by (simp add: wf_graph_def wf_bounds_drop wf_entities_def wf_facts_def wf_relations_def)
  next
    case (added a b)
    let ?r = "\<lparr>rl_kind = kind, rl_src = a, rl_dst = b, rl_evidence = sorted_set ev\<rparr>"
    have "relation_ok g (kind, a, b) ?r" using added(3-6) wfs by (simp add: relation_ok_def has_kind_in)
    then have "list_all (\<lambda>(k, r). relation_ok g k r) (dict_set (kind, a, b) ?r (g_relations g))"
      using wfs by (intro list_all_dict_set) (simp_all add: wf_relations_def)
    then show ?thesis
      using added(7,9) wfs kept_facts [OF same_entities_kept, of g' g] kept_relations [OF same_entities_kept, of g' g]
      by (simp add: wf_graph_def wf_bounds_set wf_entities_def wf_facts_def wf_relations_def dict.distinct_keys)
  qed
qed

lemma set_enumeration_wf: "wf_graph g \<Longrightarrow> wf_graph (set_enumeration n st k ms why sc g)"
  using kept_facts [OF same_entities_kept, of "set_enumeration n st k ms why sc g" g]
    kept_relations [OF same_entities_kept, of "set_enumeration n st k ms why sc g" g]
  by (simp add: set_enumeration_def wf_graph_def wf_bounds_def wf_entities_def wf_facts_def wf_relations_def)

lemma apply_op_wf: "wf_graph g \<Longrightarrow> apply_op x g = Inr g' \<Longrightarrow> wf_graph g'"
  by (cases x) (auto simp: bind_exn_def split: sum.splits intro: add_entity_wf add_fact_wf add_relation_wf set_enumeration_wf)

lemma empty_wf: "wf_graph empty_graph"
  by (simp add: empty_graph_def wf_graph_def wf_bounds_def wf_entities_def wf_facts_def wf_relations_def dict_keys_def)

lemma built_wf: "built ops g \<Longrightarrow> wf_graph g"
  by (induction rule: built.induct) (rule empty_wf, rule apply_op_wf)

section \<open>What is known only grows\<close>

text \<open>What a fact may become: an unknown one is established once, an established one is at most contradicted and keeps
  its value.\<close>

inductive fact_evolves :: "fact \<Rightarrow> fact \<Rightarrow> bool" where
  evolves_same: "fact_evolves f f"
| evolves_learned: "fa_state f = FS_UNKNOWN \<Longrightarrow> fa_state f' = ESTABLISHED \<Longrightarrow> fact_evolves f f'"
| evolves_contradicted: "fa_state f = ESTABLISHED \<Longrightarrow> fa_state f' = CONTRADICTED \<Longrightarrow> fa_value f' = fa_value f
    \<Longrightarrow> \<not> py_eq (fa_value f) w \<Longrightarrow> fa_conflicting f' = fa_conflicting f @ [w]
    \<Longrightarrow> set (fa_evidence f) \<subseteq> set (fa_evidence f') \<Longrightarrow> fact_evolves f f'"

lemma merge_evolves: "fact_evolves old (merge_fact old new)"
  by (cases "fa_state old = ESTABLISHED \<and> fa_state new = ESTABLISHED \<and> \<not> py_eq (fa_value old) (fa_value new)")
    (auto simp: merge_fact_def sorted_set_def intro: fact_evolves.intros)

lemma add_fact_grows:
  assumes "add_fact s n v st ev t src obs ctx g = Inr g'" "get_fact g a b c = Some f"
  shows "\<exists>f'. get_fact g' a b c = Some f' \<and> fact_evolves f f'"
  using assms by (cases rule: add_fact_cases) (auto simp: get_fact_def dict.get_set intro: evolves_same merge_evolves)

lemma op_frames:
  "add_entity k key owner scope ev g = Inr (x, g') \<Longrightarrow> g_facts g' = g_facts g \<and> g_relations g' = g_relations g \<and> g_enumerations g' = g_enumerations g"
  "add_relation kind src dst ev g = Inr g' \<Longrightarrow> g_facts g' = g_facts g \<and> g_entities g' = g_entities g \<and> g_enumerations g' = g_enumerations g"
  "add_fact s n v st ev' t src' obs ctx g = Inr g' \<Longrightarrow> g_relations g' = g_relations g \<and> g_entities g' = g_entities g \<and> g_enumerations g' = g_enumerations g"
  by (auto elim!: add_entity_cases add_relation_cases add_fact_cases)

lemma apply_op_fact:
  assumes "apply_op x g = Inr g'" "get_fact g a b c = Some f"
  shows "\<exists>f'. get_fact g' a b c = Some f' \<and> fact_evolves f f'"
proof (cases x)
  case (AddFact s n v st ev t src obs ctx)
  then show ?thesis using assms add_fact_grows by simp
next
  case (AddEntity k key owner scope ev)
  then obtain y where "add_entity k key owner scope ev g = Inr (y, g')" using assms(1) by (auto simp: bind_exn_def split: sum.splits)
  from op_frames(1) [OF this] show ?thesis using assms(2) by (auto simp: get_fact_def intro: evolves_same)
next
  case (AddRelation k s d ev)
  then show ?thesis using assms op_frames(2) [of k s d ev g g'] by (auto simp: get_fact_def intro: evolves_same)
next
  case SetEnumeration
  then show ?thesis using assms by (auto simp: get_fact_def set_enumeration_def intro: evolves_same)
qed

lemma apply_op_kept: "apply_op x g = Inr g' \<Longrightarrow> entities_kept g g'"
  by (cases x) (auto simp: bind_exn_def set_enumeration_def dest: add_entity_kept op_frames intro: same_entities_kept split: sum.splits)

section \<open>Where the facts come from\<close>

text \<open>The calls that state a value for a fact, seen by one observer, and the values they state.\<close>

definition stated :: "graph_op list \<Rightarrow> string \<Rightarrow> string \<Rightarrow> string option \<Rightarrow> pyval \<Rightarrow> bool" where
  "stated ops s n obs w =
     list_ex (\<lambda>x. case x of AddFact s' n' v st _ _ _ obs' _ \<Rightarrow>
                    s' = Some s \<and> n' = n \<and> obs' = obs \<and> st = ESTABLISHED \<and> clean_value v = w \<and> w \<noteq> PNone
                | _ \<Rightarrow> False) ops"

text \<open>No call states a contradiction itself.\<close>

fun plain_op :: "graph_op \<Rightarrow> bool" where
  "plain_op (AddFact s n v st ev t src obs ctx) = (st \<noteq> CONTRADICTED)"
| "plain_op _ = True"

definition fact_earned :: "graph_op list \<Rightarrow> fact \<Rightarrow> bool" where
  "fact_earned ops f =
     ((fa_state f = ESTABLISHED \<longrightarrow> stated ops (fa_subject f) (fa_name f) (fa_observed_from f) (fa_value f))
      \<and> (fa_state f = CONTRADICTED \<longrightarrow>
           (\<exists>w. fa_conflicting f = [w] \<and> \<not> py_eq (fa_value f) w
                \<and> stated ops (fa_subject f) (fa_name f) (fa_observed_from f) (fa_value f)
                \<and> stated ops (fa_subject f) (fa_name f) (fa_observed_from f) w)))"

lemma stated_Cons: "stated ops s n obs w \<Longrightarrow> stated (x # ops) s n obs w"
  by (simp add: stated_def)

lemma earned_Cons: "fact_earned ops f \<Longrightarrow> fact_earned (x # ops) f"
  unfolding fact_earned_def using stated_Cons by blast

lemma new_fact_earned:
  "st \<noteq> CONTRADICTED \<Longrightarrow> fact_earned (AddFact (Some s) n v st ev t src obs ctx # ops) (new_fact s n v st ev t src obs ctx)"
  by (auto simp: fact_earned_def new_fact_def Let_def stated_def)

lemma merge_fact_earned:
  assumes "fact_earned ops old" "fact_earned ops new" "fa_conflicting old \<noteq> [] \<longrightarrow> fa_state old = CONTRADICTED"
    and same: "fa_subject old = fa_subject new" "fa_name old = fa_name new" "fa_observed_from old = fa_observed_from new"
  shows "fact_earned ops (merge_fact old new)"
proof (cases "fa_state old = ESTABLISHED \<and> fa_state new = ESTABLISHED \<and> \<not> py_eq (fa_value old) (fa_value new)")
  case True
  then have "fa_conflicting old = []" using assms(3) by auto
  then show ?thesis using True assms(1,2) same by (simp add: merge_fact_def fact_earned_def)
next
  case False
  then have "merge_fact old new = old \<or> merge_fact old new = new" by (auto simp: merge_fact_def)
  then show ?thesis using assms(1,2) by auto
qed

lemma fact_parts: "wf_graph g \<Longrightarrow> get_fact g s n obs = Some f \<Longrightarrow>
    fa_subject f = s \<and> fa_name f = n \<and> fa_observed_from f = obs \<and> (fa_conflicting f \<noteq> [] \<longrightarrow> fa_state f = CONTRADICTED)"
  using fact_at [of g s n obs f] by (simp add: wf_graph_def fact_ok_def)

lemma new_fact_parts:
  "fa_subject (new_fact s n v st ev t src obs ctx) = s" "fa_name (new_fact s n v st ev t src obs ctx) = n"
  "fa_observed_from (new_fact s n v st ev t src obs ctx) = obs"
  by (simp_all add: new_fact_def Let_def)

lemma built_earned:
  assumes "built ops g"
  shows "list_all plain_op ops \<Longrightarrow> get_fact g s n obs = Some f \<Longrightarrow> fact_earned ops f"
  using assms
proof (induction arbitrary: s n obs f rule: built.induct)
  case built_empty
  then show ?case by (simp add: get_fact_def empty_graph_def dict_get_def)
next
  case (built_op ops g x g')
  have wf: "wf_graph g" by (rule built_wf [OF built_op.hyps(1)])
  have plain: "list_all plain_op ops" "plain_op x" using built_op.prems(1) by simp_all
  have kept: "fact_earned (x # ops) f" if "get_fact g s n obs = Some f" for s n obs f
    by (rule earned_Cons) (rule built_op.IH [OF plain(1) that])
  have old: "fact_earned (x # ops) f" if "g_facts g' = g_facts g"
    using built_op.prems(2) kept that by (simp add: get_fact_def)
  show ?case
  proof (cases x)
    case (AddFact s0 n0 v st ev t src obs0 ctx)
    have a: "add_fact s0 n0 v st ev t src obs0 ctx g = Inr g'" using built_op.hyps(2) AddFact by simp
    have st: "st \<noteq> CONTRADICTED" using plain(2) AddFact by simp
    show ?thesis
      using a
    proof (cases rule: add_fact_cases)
      case (merged r o')
      have e: "fact_earned (x # ops) (merge_fact o' (new_fact r n0 v st ev t src obs0 ctx))"
        using fact_parts [OF wf merged(4)] kept [OF merged(4)] new_fact_earned [OF st, of r n0 v ev t src obs0 ctx ops]
        by (intro merge_fact_earned) (simp_all add: new_fact_parts AddFact merged(1))
      show ?thesis
        using built_op.prems(2) e kept merged(5) by (cases "(s, n, obs) = (r, n0, obs0)") (auto simp: get_fact_def dict.get_set)
    next
      case (added r)
      show ?thesis
        using built_op.prems(2) kept added(1,6) new_fact_earned [OF st, of r n0 v ev t src obs0 ctx ops] AddFact
        by (cases "(s, n, obs) = (r, n0, obs0)") (auto simp: get_fact_def dict.get_set)
    qed (use old in simp_all)
  next
    case (AddEntity k key owner scope ev)
    then obtain y where "add_entity k key owner scope ev g = Inr (y, g')"
      using built_op.hyps(2) by (auto simp: bind_exn_def split: sum.splits)
    from op_frames(1) [OF this] show ?thesis using old by simp
  next
    case (AddRelation k a b ev)
    then show ?thesis using built_op.hyps(2) op_frames(2) [of k a b ev g g'] old by simp
  next
    case SetEnumeration
    then show ?thesis using built_op.hyps(2) old by (auto simp: set_enumeration_def)
  qed
qed

section \<open>Absence\<close>

text \<open>The last call that sets an enumeration.\<close>

fun sets_enumeration :: "string \<Rightarrow> graph_op \<Rightarrow> bool" where
  "sets_enumeration name (SetEnumeration n st k ms why sc) = (n = name)"
| "sets_enumeration name _ = False"

lemma built_enumeration:
  assumes "built ops g"
  shows "dict_get (g_enumerations g) name =
    (case find (sets_enumeration name) ops of
       Some (SetEnumeration n st k ms why sc) \<Rightarrow>
         Some \<lparr>ge_status = st, ge_kind = k, ge_members = sorted_set ms, ge_reason = sanitize_text why 300, ge_scope = sc\<rparr>
     | _ \<Rightarrow> None)"
  using assms
proof (induction rule: built.induct)
  case built_empty
  then show ?case by (simp add: empty_graph_def dict_get_def)
next
  case (built_op ops g x g')
  show ?case
  proof (cases x)
    case (AddEntity k key owner scope ev)
    then obtain y where "add_entity k key owner scope ev g = Inr (y, g')"
      using built_op.hyps(2) by (auto simp: bind_exn_def split: sum.splits)
    from op_frames(1) [OF this] show ?thesis using built_op.IH AddEntity by simp
  next
    case (AddFact s n v st ev t src obs ctx)
    then show ?thesis using built_op op_frames(3) [of s n v st ev t src obs ctx g g'] by simp
  next
    case (AddRelation k a b ev)
    then show ?thesis using built_op op_frames(2) [of k a b ev g g'] by simp
  next
    case (SetEnumeration n st k ms why sc)
    then show ?thesis using built_op by (auto simp: set_enumeration_def dict.get_set)
  qed
qed

section \<open>Nothing is lost without a word\<close>

text \<open>How a stated value is held: a number, a boolean or None as it is, a text sanitized to 300 characters, the first 64
  members of a list, the first 64 entries of a dict under their sanitized names.\<close>

inductive kept_as :: "pyval \<Rightarrow> pyval \<Rightarrow> bool" where
  kept_text: "kept_as (PStr s) (PStr (sanitize_text s 300))"
| kept_list: "list_all2 kept_as (take 64 vs) ws \<Longrightarrow> kept_as (PList vs) (PList ws)"
| kept_dict: "(\<And>k w. dict_get e k = Some w \<Longrightarrow> \<exists>k' v. (k', v) \<in> set (take 64 d) \<and> k = sanitize_text k' 80 \<and> kept_as v w)
    \<Longrightarrow> set (dict_keys e) = (\<lambda>(k, v). sanitize_text k 80) ` set (take 64 d) \<Longrightarrow> kept_as (PDict d) (PDict e)"
| kept_scalar: "(\<And>s. v \<noteq> PStr s) \<Longrightarrow> (\<And>vs. v \<noteq> PList vs) \<Longrightarrow> (\<And>d. v \<noteq> PDict d) \<Longrightarrow> kept_as v v"

lemma kept_as_clean: "kept_as v (clean_value v)"
proof (induction v rule: clean_value.induct)
  case (2 xs)
  have "list_all2 kept_as (take 64 xs) (map clean_value (take 64 xs))"
    unfolding list.rel_map by (rule list.rel_refl_strong) (rule 2)
  then show ?case unfolding clean_value.simps by (rule kept_list)
next
  case (3 d)
  show ?case
    unfolding clean_value.simps
  proof (rule kept_dict)
    fix k w
    assume "dict_get (dict_of (map (\<lambda>(k, x). (sanitize_text k 80, clean_value x)) (take 64 d))) k = Some w"
    then have "(k, w) \<in> set (map (\<lambda>(k, x). (sanitize_text k 80, clean_value x)) (take 64 d))"
      by (meson dict_get_member dict_of_subset subsetD)
    then show "\<exists>k' v. (k', v) \<in> set (take 64 d) \<and> k = sanitize_text k' 80 \<and> kept_as v w" using 3 by fastforce
  qed (force simp: dict_of_keys image_iff)
qed (auto intro: kept_as.intros)

text \<open>The calls that add one entity, that say something of one fact, that add one relation.\<close>

fun adds_entity :: "string \<Rightarrow> graph_op \<Rightarrow> bool" where
  "adds_entity r (AddEntity k key _ _ _) = (entity_ref k (sanitize_text key 300) = r)"
| "adds_entity r _ = False"

fun speaks_of :: "fact_key \<Rightarrow> graph_op \<Rightarrow> bool" where
  "speaks_of (s, n, obs) (AddFact s' n' _ st _ _ _ obs' _) = (s' = Some s \<and> n' = n \<and> obs' = obs \<and> st \<noteq> FS_UNKNOWN)"
| "speaks_of _ _ = False"

fun adds_relation :: "rel_key \<Rightarrow> graph_op \<Rightarrow> bool" where
  "adds_relation (k, a, b) (AddRelation k' a' b' _) = (k' = k \<and> a' = Some a \<and> b' = Some b)"
| "adds_relation _ _ = False"

text \<open>What the graph holds of one call, \<open>earlier\<close> being the calls before it. An entity is there with the evidence of every call
  that named it, and the owner and scope of the first. A fact is there; when the call stated a value, the fact is established
  with this value, or it is contradicted; the first value anyone stated stays its value, with the evidence for it. A relation is
  there, with the evidence of the first call that added it.\<close>

definition op_kept :: "graph_op list \<Rightarrow> graph_op \<Rightarrow> env_graph \<Rightarrow> bool" where
  "op_kept earlier x g =
     (case x of
        AddEntity k key owner scope ev \<Rightarrow>
          (\<exists>e. get_entity g (entity_ref k (sanitize_text key 300)) = Some e
             \<and> e_kind e = k \<and> e_key e = sanitize_text key 300 \<and> set ev \<subseteq> set (e_evidence e)
             \<and> (\<not> list_ex (adds_entity (entity_ref k (sanitize_text key 300))) earlier \<longrightarrow> e_owner e = owner \<and> e_scope e = scope))
      | AddFact (Some s) n v st ev _ _ obs _ \<Rightarrow>
          (\<exists>f w. get_fact g s n obs = Some f \<and> fa_subject f = s \<and> fa_name f = n \<and> fa_observed_from f = obs \<and> kept_as v w
             \<and> (st = ESTABLISHED \<and> w \<noteq> PNone \<longrightarrow>
                  (fa_state f = ESTABLISHED \<and> (fa_value f = w \<or> py_eq (fa_value f) w) \<or> fa_state f = CONTRADICTED)
                  \<and> (\<not> list_ex (speaks_of (s, n, obs)) earlier \<longrightarrow> fa_value f = w \<and> set ev \<subseteq> set (fa_evidence f))))
      | AddRelation k (Some a) (Some b) ev \<Rightarrow>
          (\<exists>r. dict_get (g_relations g) (k, a, b) = Some r \<and> rl_kind r = k \<and> rl_src r = a \<and> rl_dst r = b
             \<and> (\<not> list_ex (adds_relation (k, a, b)) earlier \<longrightarrow> set (rl_evidence r) = set ev))
      | _ \<Rightarrow> True)"

definition entity_grows :: "entity \<Rightarrow> entity \<Rightarrow> bool" where
  "entity_grows e e' = (e_kind e' = e_kind e \<and> e_key e' = e_key e \<and> e_owner e' = e_owner e \<and> e_scope e' = e_scope e
     \<and> set (e_evidence e) \<subseteq> set (e_evidence e'))"

lemma set_sorted_set [simp]: "set (sorted_set xs) = set xs"
  by (simp add: sorted_set_def)

lemma fact_evolves_stated:
  assumes "fact_evolves f f'" "fa_state f \<noteq> FS_UNKNOWN"
  shows "fa_value f' = fa_value f \<and> set (fa_evidence f) \<subseteq> set (fa_evidence f')
    \<and> (fa_state f' = fa_state f \<or> fa_state f' = CONTRADICTED)"
  using assms by (cases rule: fact_evolves.cases) auto

lemma entity_stays:
  assumes "apply_op x g = Inr g'" "get_entity g r = Some e"
  shows "\<exists>e'. get_entity g' r = Some e' \<and> entity_grows e e'"
proof (cases x)
  case (AddEntity k key owner scope ev)
  then obtain y where "add_entity k key owner scope ev g = Inr (y, g')" using assms(1) by (auto simp: bind_exn_def split: sum.splits)
  then show ?thesis using assms(2)
    by (cases rule: add_entity_cases) (auto simp: entity_grows_def get_entity_def dict.get_set)
next
  case (AddFact s n v st ev t src obs ctx)
  then show ?thesis using assms op_frames(3) [of s n v st ev t src obs ctx g g'] by (simp add: get_entity_def entity_grows_def)
next
  case (AddRelation k a b ev)
  then show ?thesis using assms op_frames(2) [of k a b ev g g'] by (simp add: get_entity_def entity_grows_def)
next
  case SetEnumeration
  then show ?thesis using assms by (auto simp: set_enumeration_def get_entity_def entity_grows_def)
qed

lemma relation_stays:
  assumes "apply_op x g = Inr g'" "dict_get (g_relations g) k = Some r"
  shows "dict_get (g_relations g') k = Some r"
proof (cases x)
  case (AddEntity k key owner scope ev)
  then obtain y where "add_entity k key owner scope ev g = Inr (y, g')" using assms(1) by (auto simp: bind_exn_def split: sum.splits)
  from op_frames(1) [OF this] show ?thesis using assms(2) by simp
next
  case (AddFact s n v st ev t src obs ctx)
  then show ?thesis using assms op_frames(3) [of s n v st ev t src obs ctx g g'] by simp
next
  case (AddRelation k' a b ev)
  then have "add_relation k' a b ev g = Inr g'" using assms(1) by simp
  then show ?thesis using assms(2) by (cases rule: add_relation_cases) (auto simp: dict.get_set key_iff [symmetric])
next
  case SetEnumeration
  then show ?thesis using assms by (auto simp: set_enumeration_def)
qed

lemma op_kept_step:
  assumes step: "apply_op y g = Inr g'" and wf: "wf_graph g'" and kept: "op_kept earlier x g"
  shows "op_kept earlier x g'"
proof (cases x)
  case (AddEntity k key owner scope ev)
  then obtain e where e: "get_entity g (entity_ref k (sanitize_text key 300)) = Some e" using kept by (auto simp: op_kept_def)
  obtain e' where "get_entity g' (entity_ref k (sanitize_text key 300)) = Some e'" "entity_grows e e'"
    using entity_stays [OF step e] by blast
  then show ?thesis using AddEntity kept e by (auto simp: op_kept_def entity_grows_def)
next
  case (AddFact s n v st ev t src obs ctx)
  show ?thesis
  proof (cases s)
    case (Some a)
    obtain f w where f: "get_fact g a n obs = Some f" "kept_as v w"
      "st = ESTABLISHED \<and> w \<noteq> PNone \<longrightarrow>
         (fa_state f = ESTABLISHED \<and> (fa_value f = w \<or> py_eq (fa_value f) w) \<or> fa_state f = CONTRADICTED)
         \<and> (\<not> list_ex (speaks_of (a, n, obs)) earlier \<longrightarrow> fa_value f = w \<and> set ev \<subseteq> set (fa_evidence f))"
      using kept AddFact Some by (auto simp: op_kept_def)
    obtain f' where f': "get_fact g' a n obs = Some f'" "fact_evolves f f'" using apply_op_fact [OF step f(1)] by blast
    have "st = ESTABLISHED \<and> w \<noteq> PNone \<longrightarrow>
         (fa_state f' = ESTABLISHED \<and> (fa_value f' = w \<or> py_eq (fa_value f') w) \<or> fa_state f' = CONTRADICTED)
         \<and> (\<not> list_ex (speaks_of (a, n, obs)) earlier \<longrightarrow> fa_value f' = w \<and> set ev \<subseteq> set (fa_evidence f'))"
    proof
      assume st: "st = ESTABLISHED \<and> w \<noteq> PNone"
      then have "fa_state f \<noteq> FS_UNKNOWN" using f(3) by auto
      from fact_evolves_stated [OF f'(2) this] show
        "(fa_state f' = ESTABLISHED \<and> (fa_value f' = w \<or> py_eq (fa_value f') w) \<or> fa_state f' = CONTRADICTED)
         \<and> (\<not> list_ex (speaks_of (a, n, obs)) earlier \<longrightarrow> fa_value f' = w \<and> set ev \<subseteq> set (fa_evidence f'))"
        using f(3) st by auto
    qed
    then show ?thesis using AddFact Some f(2) f'(1) fact_parts [OF wf f'(1)] by (simp add: op_kept_def) blast
  qed (simp add: op_kept_def AddFact)
next
  case (AddRelation k a b ev)
  then show ?thesis using kept relation_stays [OF step] by (cases a; cases b) (auto simp: op_kept_def)
qed (simp add: op_kept_def)


lemma truncated_step: "apply_op x g = Inr g' \<Longrightarrow> truncated g \<Longrightarrow> truncated g'"
proof -
  assume a: "apply_op x g = Inr g'" and t: "truncated g"
  show "truncated g'"
  proof (cases x)
    case (AddEntity k key owner scope ev)
    then obtain y where "add_entity k key owner scope ev g = Inr (y, g')" using a by (auto simp: bind_exn_def split: sum.splits)
    then show ?thesis using t by (cases rule: add_entity_cases) (auto simp: truncated_def)
  next
    case (AddFact s n v st ev ct src obs ctx)
    then have "add_fact s n v st ev ct src obs ctx g = Inr g'" using a by simp
    then show ?thesis using t by (cases rule: add_fact_cases) (auto simp: truncated_def)
  next
    case (AddRelation k' b c ev)
    then have "add_relation k' b c ev g = Inr g'" using a by simp
    then show ?thesis using t by (cases rule: add_relation_cases) (auto simp: truncated_def)
  next
    case SetEnumeration
    then show ?thesis using a t by (auto simp: set_enumeration_def truncated_def)
  qed
qed

lemma entity_before: "built ops g \<Longrightarrow> get_entity g r = Some e \<Longrightarrow> list_ex (adds_entity r) ops"
proof (induction arbitrary: e rule: built.induct)
  case built_empty
  then show ?case by (simp add: get_entity_def empty_graph_def dict_get_def)
next
  case (built_op ops g x g')
  show ?case
  proof (cases "get_entity g r")
    case (Some e')
    then show ?thesis using built_op.IH by simp
  next
    case None
    show ?thesis
    proof (cases x)
      case (AddEntity k key owner scope ev)
      then obtain y where "add_entity k key owner scope ev g = Inr (y, g')"
        using built_op.hyps(2) by (auto simp: bind_exn_def split: sum.splits)
      then show ?thesis using None built_op.prems AddEntity
        by (cases rule: add_entity_cases) (auto simp: get_entity_def dict.get_set split: if_splits)
    next
      case (AddFact s n v st ev t src obs ctx)
      then show ?thesis using None built_op.hyps(2) built_op.prems op_frames(3) [of s n v st ev t src obs ctx g g'] by (simp add: get_entity_def)
    next
      case (AddRelation k a b ev)
      then show ?thesis using None built_op.hyps(2) built_op.prems op_frames(2) [of k a b ev g g'] by (simp add: get_entity_def)
    next
      case SetEnumeration
      then show ?thesis using None built_op.hyps(2) built_op.prems by (auto simp: set_enumeration_def get_entity_def)
    qed
  qed
qed

lemma relation_before: "built ops g \<Longrightarrow> dict_get (g_relations g) k = Some r \<Longrightarrow> list_ex (adds_relation k) ops"
proof (induction arbitrary: r rule: built.induct)
  case built_empty
  then show ?case by (simp add: empty_graph_def dict_get_def)
next
  case (built_op ops g x g')
  show ?case
  proof (cases "dict_get (g_relations g) k")
    case (Some e')
    then show ?thesis using built_op.IH by simp
  next
    case None
    show ?thesis
    proof (cases x)
      case (AddEntity k' key owner scope ev)
      then obtain y where "add_entity k' key owner scope ev g = Inr (y, g')"
        using built_op.hyps(2) by (auto simp: bind_exn_def split: sum.splits)
      from op_frames(1) [OF this] show ?thesis using None built_op.prems by simp
    next
      case (AddFact s n v st ev t src obs ctx)
      then show ?thesis using None built_op.hyps(2) built_op.prems op_frames(3) [of s n v st ev t src obs ctx g g'] by simp
    next
      case (AddRelation k' a b ev)
      then have "add_relation k' a b ev g = Inr g'" using built_op.hyps(2) by simp
      then show ?thesis using None built_op.prems AddRelation
        by (cases rule: add_relation_cases) (auto simp: dict.get_set split: if_splits)
    next
      case SetEnumeration
      then show ?thesis using None built_op.hyps(2) built_op.prems by (auto simp: set_enumeration_def)
    qed
  qed
qed

text \<open>A fact of which nothing was said but that it is unknown is unknown.\<close>

lemma fact_unspoken:
  "built ops g \<Longrightarrow> \<not> list_ex (speaks_of (s, n, obs)) ops \<Longrightarrow> get_fact g s n obs = Some f \<Longrightarrow> fa_state f = FS_UNKNOWN"
proof (induction arbitrary: f rule: built.induct)
  case built_empty
  then show ?case by (simp add: get_fact_def empty_graph_def dict_get_def)
next
  case (built_op ops g x g')
  note IH = built_op.IH
  have old: "fa_state f' = FS_UNKNOWN" if "get_fact g s n obs = Some f'" for f' using IH that built_op.prems(1) by simp
  show ?case
  proof (cases x)
    case (AddEntity k key owner scope ev)
    then obtain y where "add_entity k key owner scope ev g = Inr (y, g')"
      using built_op.hyps(2) by (auto simp: bind_exn_def split: sum.splits)
    from op_frames(1) [OF this] show ?thesis using old built_op.prems by (simp add: get_fact_def)
  next
    case (AddFact s' n' v st ev t src obs' ctx)
    have st: "st = FS_UNKNOWN" if "s' = Some s" "n' = n" "obs' = obs" using that AddFact built_op.prems(1) by simp
    have "add_fact s' n' v st ev t src obs' ctx g = Inr g'" using AddFact built_op.hyps(2) by simp
    then show ?thesis
      using old built_op.prems(2) st
      by (cases rule: add_fact_cases) (auto simp: get_fact_def dict.get_set merge_fact_def new_fact_def Let_def split: if_splits)
  next
    case (AddRelation k a b ev)
    then show ?thesis using built_op.hyps(2) op_frames(2) [of k a b ev g g'] old built_op.prems by (simp add: get_fact_def)
  next
    case SetEnumeration
    then show ?thesis using built_op.hyps(2) old built_op.prems by (auto simp: set_enumeration_def get_fact_def)
  qed
qed

lemma new_fact_state:
  "fa_value (new_fact s n v st ev t src obs ctx) = clean_value v" "fa_evidence (new_fact s n v st ev t src obs ctx) = sorted_set ev"
  "fa_state (new_fact s n v ESTABLISHED ev t src obs ctx) = (if clean_value v = PNone then FS_UNKNOWN else ESTABLISHED)"
  by (simp_all add: new_fact_def Let_def)

lemma merge_fact_stated:
  assumes "fa_state new = ESTABLISHED"
  shows "fa_state (merge_fact old new) = ESTABLISHED
      \<and> (fa_value (merge_fact old new) = fa_value new \<or> py_eq (fa_value (merge_fact old new)) (fa_value new))
    \<or> fa_state (merge_fact old new) = CONTRADICTED"
  using assms by (cases "fa_state old") (auto simp: merge_fact_def)

lemma add_fact_there:
  assumes g: "built earlier g" and a: "add_fact (Some s) n v st ev t src obs ctx g = Inr g'" and ok: "\<not> truncated g'"
  shows "\<exists>f. get_fact g' s n obs = Some f \<and> (st = ESTABLISHED \<and> clean_value v \<noteq> PNone \<longrightarrow>
      (fa_state f = ESTABLISHED \<and> (fa_value f = clean_value v \<or> py_eq (fa_value f) (clean_value v)) \<or> fa_state f = CONTRADICTED)
      \<and> (\<not> list_ex (speaks_of (s, n, obs)) earlier \<longrightarrow> fa_value f = clean_value v \<and> set ev \<subseteq> set (fa_evidence f)))"
  using a
proof (cases rule: add_fact_cases)
  case (merged r old)
  then have there: "get_fact g' s n obs = Some (merge_fact old (new_fact s n v st ev t src obs ctx))"
    by (simp add: get_fact_def dict.get_set)
  have "\<not> list_ex (speaks_of (s, n, obs)) earlier \<Longrightarrow> fa_state old = FS_UNKNOWN"
    using fact_unspoken [OF g] merged(1,4) by simp
  then show ?thesis
    using merge_fact_stated [of "new_fact s n v st ev t src obs ctx" old]
    by (auto simp: there new_fact_state merge_fact_def)
next
  case dropped
  then show ?thesis using ok by (simp add: truncated_def)
next
  case (added r)
  then show ?thesis by (auto simp: get_fact_def dict.get_set new_fact_state)
qed simp

lemma op_kept_now:
  assumes g: "built earlier g" and a: "apply_op x g = Inr g'" and ok: "\<not> truncated g'"
  shows "op_kept earlier x g'"
proof (cases x)
  case (AddEntity k key owner scope ev)
  then obtain y where "add_entity k key owner scope ev g = Inr (y, g')" using a by (auto simp: bind_exn_def split: sum.splits)
  then show ?thesis
  proof (cases rule: add_entity_cases)
    case (merged old)
    have "entity_ref k (sanitize_text key 300) = e_ref old"
      using built_wf [OF g] by (intro entity_at [OF _ merged(1)]) (simp add: wf_graph_def)
    then have "e_kind old = k" "e_key old = sanitize_text key 300" by (simp_all add: e_ref_def entity_ref_inj)
    then show ?thesis
      using merged(3) entity_before [OF g merged(1)] by (simp add: AddEntity op_kept_def get_entity_def dict.get_set)
  next
    case dropped
    then show ?thesis using ok by (simp add: truncated_def)
  next
    case added
    then show ?thesis by (simp add: AddEntity op_kept_def get_entity_def dict.get_set)
  qed
next
  case (AddFact s n v st ev t src obs ctx)
  show ?thesis
  proof (cases s)
    case (Some r)
    have "add_fact (Some r) n v st ev t src obs ctx g = Inr g'" using a AddFact Some by simp
    from add_fact_there [OF g this ok] obtain f where f: "get_fact g' r n obs = Some f"
      "st = ESTABLISHED \<and> clean_value v \<noteq> PNone \<longrightarrow>
      (fa_state f = ESTABLISHED \<and> (fa_value f = clean_value v \<or> py_eq (fa_value f) (clean_value v)) \<or> fa_state f = CONTRADICTED)
      \<and> (\<not> list_ex (speaks_of (r, n, obs)) earlier \<longrightarrow> fa_value f = clean_value v \<and> set ev \<subseteq> set (fa_evidence f))" by blast
    from fact_parts [OF apply_op_wf [OF built_wf [OF g] a] f(1)] show ?thesis
      using f kept_as_clean [of v] by (simp add: op_kept_def AddFact Some) blast
  qed (simp add: op_kept_def AddFact)
next
  case (AddRelation k b c ev)
  show ?thesis
  proof (cases "b = None \<or> c = None")
    case False
    then obtain s d where sd: "b = Some s" "c = Some d" by auto
    have ar: "add_relation k (Some s) (Some d) ev g = Inr g'" using a AddRelation sd by simp
    have wfr: "wf_relations g" using built_wf [OF g] by (simp add: wf_graph_def)
    show ?thesis
    proof (cases "dict_get (g_relations g) (k, s, d)")
      case (Some r)
      then have "(k, s, d) = (rl_kind r, rl_src r, rl_dst r)"
        using wfr dict_get_member [of "g_relations g"] by (fastforce simp: wf_relations_def list_all_iff relation_ok_def)
      then show ?thesis
        using relation_before [OF g Some] relation_stays [OF a Some] by (simp add: op_kept_def AddRelation sd)
    next
      case None
      then have "(k, s, d) \<notin> set (dict_keys (g_relations g))" by (simp add: key_iff)
      then have "dict_get (g_relations g') (k, s, d) = Some \<lparr>rl_kind = k, rl_src = s, rl_dst = d, rl_evidence = sorted_set ev\<rparr>"
        using ar ok by (auto simp: add_relation_def Let_def truncated_def dict.get_set split: if_splits)
      then show ?thesis by (simp add: op_kept_def AddRelation sd)
    qed
  qed (auto simp: op_kept_def AddRelation split: option.splits)
qed (simp add: op_kept_def)

lemma built_keeps:
  "built (later @ x # earlier) g \<Longrightarrow> \<not> truncated g \<Longrightarrow> op_kept earlier x g"
proof (induction later arbitrary: g)
  case Nil
  then show ?case using op_kept_now by (auto elim!: built_ConsE)
next
  case (Cons y later)
  then obtain h where h: "built (later @ x # earlier) h" "apply_op y h = Inr g" by (auto elim: built_ConsE)
  then have "op_kept earlier x h" using Cons truncated_step by blast
  then show ?case using op_kept_step [OF h(2) built_wf [OF Cons.prems(1)]] by blast
qed


text \<open>The enumeration of a call after which no call set it again.\<close>

definition enumeration_kept :: "graph_op list \<Rightarrow> graph_op \<Rightarrow> env_graph \<Rightarrow> bool" where
  "enumeration_kept later x g =
     (case x of
        SetEnumeration n st k ms why sc \<Rightarrow>
          \<not> list_ex (sets_enumeration n) later \<longrightarrow>
          (\<exists>e. dict_get (g_enumerations g) n = Some e \<and> ge_status e = st \<and> ge_kind e = k \<and> set (ge_members e) = set ms
             \<and> ge_reason e = sanitize_text why 300 \<and> ge_scope e = sc)
      | _ \<Rightarrow> True)"

lemma find_after: "\<not> list_ex P xs \<Longrightarrow> P x \<Longrightarrow> find P (xs @ x # ys) = Some x"
  by (induction xs) auto

lemma enumeration_stays: "built (later @ x # earlier) g \<Longrightarrow> enumeration_kept later x g"
  using find_after [of _ later x earlier] by (cases x) (auto simp: enumeration_kept_def built_enumeration)

section \<open>One picture, one text\<close>

text \<open>Two graphs with the same content, whatever the order in which it was added.\<close>

definition same_content :: "env_graph \<Rightarrow> env_graph \<Rightarrow> bool" where
  "same_content g h =
     (dict_get (g_entities g) = dict_get (g_entities h) \<and> dict_get (g_facts g) = dict_get (g_facts h)
      \<and> dict_get (g_relations g) = dict_get (g_relations h) \<and> dict_get (g_enumerations g) = dict_get (g_enumerations h)
      \<and> g_dropped_entities g = g_dropped_entities h \<and> g_dropped_facts g = g_dropped_facts h
      \<and> g_dropped_relations g = g_dropped_relations h)"

lemma same_dict_mset:
  assumes "distinct (dict_keys d)" "distinct (dict_keys e)" "dict_get d = dict_get e"
  shows "mset d = mset e"
proof -
  have d: "(k, v) \<in> set d \<longleftrightarrow> dict_get d k = Some v" for k v using assms(1) by (simp add: dict_get_def dict_keys_def)
  have e: "(k, v) \<in> set e \<longleftrightarrow> dict_get e k = Some v" for k v using assms(2) by (simp add: dict_get_def dict_keys_def)
  have "set d = set e" by (intro set_eqI) (simp add: split_paired_all d e assms(3))
  moreover have "distinct d" "distinct e" using assms(1,2) by (simp_all add: dict_keys_def distinct_map)
  ultimately show ?thesis by (simp add: set_eq_iff_mset_eq_distinct)
qed

lemma sort_key_same:
  assumes "mset xs = mset ys" "inj_on f (set xs)"
  shows "sort_key f xs = sort_key f ys"
proof (rule sort_key_inj_key_eq)
  show "mset xs = mset (sort_key f ys)" using assms(1) by simp
  show "inj_on f (set xs)" by (rule assms(2))
  show "sorted (map f (sort_key f ys))" by (rule sorted_sort_key)
qed

lemma inj_on_values:
  assumes "distinct (dict_keys d)" "list_all (\<lambda>(k, v). k = f v) d"
  shows "inj_on f (set (map snd d))"
proof (rule inj_onI)
  fix x y
  assume "x \<in> set (map snd d)" "y \<in> set (map snd d)" and xy: "f x = f y"
  then obtain k l where "(k, x) \<in> set d" "(l, y) \<in> set d" by auto
  moreover from this have "k = f x" "l = f y" using assms(2) unfolding list_all_iff by fastforce+
  ultimately have "(f x, x) \<in> set d" "(f x, y) \<in> set d" using xy by simp_all
  moreover have "distinct (map fst d)" using assms(1) by (simp add: dict_keys_def)
  ultimately show "x = y" by (simp add: eq_key_imp_eq_value)
qed

lemma built_enumerations_distinct: "built ops g \<Longrightarrow> distinct (dict_keys (g_enumerations g))"
proof (induction rule: built.induct)
  case built_empty
  show ?case by (simp add: empty_graph_def dict_keys_def)
next
  case (built_op ops g x g')
  show ?case
  proof (cases x)
    case (AddEntity k key owner scope ev)
    then obtain y where "add_entity k key owner scope ev g = Inr (y, g')"
      using built_op.hyps(2) by (auto simp: bind_exn_def split: sum.splits)
    from op_frames(1) [OF this] show ?thesis using built_op.IH by simp
  next
    case (AddFact s n v st ev t src obs ctx)
    then show ?thesis using built_op op_frames(3) [of s n v st ev t src obs ctx g g'] by simp
  next
    case (AddRelation k a b ev)
    then show ?thesis using built_op op_frames(2) [of k a b ev g g'] by simp
  next
    case (SetEnumeration n st k ms why sc)
    then show ?thesis using built_op by (auto simp: set_enumeration_def dict.distinct_keys)
  qed
qed

definition fact_sort_key :: "fact_key \<times> fact \<Rightarrow> string \<times> string \<times> string" where
  "fact_sort_key = (\<lambda>((s, n, o'), _). (s, n, the_default '''' o'))"

text \<open>No observer has an empty name.\<close>

definition named_observers :: "env_graph \<Rightarrow> bool" where
  "named_observers g = list_all (\<lambda>((_, _, o'), _). o' \<noteq> Some '''') (g_facts g)"

lemma fact_key_inj:
  assumes "distinct (dict_keys (g_facts g))" "named_observers g"
  shows "inj_on fact_sort_key (set (g_facts g))"
proof (rule inj_onI)
  fix x y
  assume x: "x \<in> set (g_facts g)" and y: "y \<in> set (g_facts g)" and xy: "fact_sort_key x = fact_sort_key y"
  obtain s n o1 f where xs: "x = ((s, n, o1), f)" by (cases x) auto
  obtain s' n' o2 f' where ys: "y = ((s', n', o2), f')" by (cases y) auto
  have "o1 \<noteq> Some ''''" "o2 \<noteq> Some ''''" using assms(2) x y by (auto simp: named_observers_def list_all_iff xs ys)
  then have "(s, n, o1) = (s', n', o2)" using xy by (auto simp: fact_sort_key_def xs ys the_default_def split: option.splits)
  then show "x = y" using x y assms(1) by (auto simp: xs ys dict_keys_def dest: eq_key_imp_eq_value)
qed

lemma relation_key_inj:
  assumes "wf_relations g"
  shows "inj_on (\<lambda>r. (rel_value (rl_kind r), rl_src r, rl_dst r)) (set (map snd (g_relations g)))"
proof -
  have "list_all (\<lambda>(k, r). k = (rl_kind r, rl_src r, rl_dst r)) (g_relations g)"
    using assms by (auto simp: wf_relations_def relation_ok_def list_all_iff)
  from inj_on_values [OF _ this] have "inj_on (\<lambda>r. (rl_kind r, rl_src r, rl_dst r)) (set (map snd (g_relations g)))"
    using assms by (simp add: wf_relations_def)
  then show ?thesis by (simp add: inj_on_def rel_value_inj)
qed

lemma to_dict_of_content:
  assumes g: "built ops g" and h: "built ops' h" and same: "same_content g h" and obs: "named_observers g"
  shows "graph_to_dict g = graph_to_dict h"
proof -
  note wg = built_wf [OF g, unfolded wf_graph_def] and wh = built_wf [OF h, unfolded wf_graph_def]
  note sm = same [unfolded same_content_def]
  have e: "mset (g_entities g) = mset (g_entities h)"
    using wg wh sm by (intro same_dict_mset) (simp_all add: wf_entities_def)
  have f: "mset (g_facts g) = mset (g_facts h)"
    using wg wh sm by (intro same_dict_mset) (simp_all add: wf_facts_def)
  have r: "mset (g_relations g) = mset (g_relations h)"
    using wg wh sm by (intro same_dict_mset) (simp_all add: wf_relations_def)
  have n: "mset (g_enumerations g) = mset (g_enumerations h)"
    using built_enumerations_distinct [OF g] built_enumerations_distinct [OF h] sm by (intro same_dict_mset) simp_all
  have "sort_key e_ref (map snd (g_entities g)) = sort_key e_ref (map snd (g_entities h))"
    using wg e by (intro sort_key_same inj_on_values) (simp_all add: wf_entities_def)
  moreover have "sort_key fact_sort_key (g_facts g) = sort_key fact_sort_key (g_facts h)"
    using wg f obs by (intro sort_key_same fact_key_inj) (simp_all add: wf_facts_def)
  moreover have "relations_of g None None None = relations_of h None None None"
    using wg r relation_key_inj [of g] unfolding relations_of_def by (simp add: sort_key_same)
  moreover have "sort_key fst (g_enumerations g) = sort_key fst (g_enumerations h)"
    using n built_enumerations_distinct [OF g] by (intro sort_key_same) (simp_all add: dict_keys_def distinct_map)
  ultimately show ?thesis using sm unfolding graph_to_dict_def fact_sort_key_def by simp
qed

section \<open>A small graph\<close>

text \<open>A server and a suffix it takes part in, whose clock one observer reports twice; the last call comes first.\<close>

fun run_ops :: "graph_op list \<Rightarrow> exn + env_graph" where
  "run_ops [] = Inr empty_graph"
| "run_ops (x # ops) = bind_exn (run_ops ops) (apply_op x)"

lemma run_built: "run_ops ops = Inr g \<Longrightarrow> built ops g"
  by (induction ops arbitrary: g) (auto simp: bind_exn_def intro: built.intros split: sum.splits)

definition sample_ops :: "graph_op list" where
  "sample_ops =
     [SetEnumeration ''servers'' COMPLETE (Some SERVER) [''SERVER:a''] '''' None,
      AddFact (Some ''SERVER:a'') ''clock'' (PInt 2) ESTABLISHED [''s2''] None ''LIVE'' (Some ''a'') [],
      AddFact (Some ''SERVER:a'') ''clock'' (PInt 1) ESTABLISHED [''s1''] None ''LIVE'' (Some ''a'') [],
      AddRelation PARTICIPATES_IN (Some ''SERVER:a'') (Some ''SUFFIX:d'') [''s1''],
      AddEntity SUFFIX ''d'' None (Some ''d'') [''s1''],
      AddEntity SERVER ''a'' (Some ''a'') None [''s1'']]"

definition sample_clock :: fact where
  "sample_clock = \<lparr>fa_subject = ''SERVER:a'', fa_name = ''clock'', fa_value = PInt 1, fa_state = CONTRADICTED,
     fa_evidence = [''s1'', ''s2''], fa_collected_at = None, fa_source = ''LIVE'', fa_observed_from = Some ''a'', fa_context = [],
     fa_conflicting = [PInt 2]\<rparr>"

definition sample_graph :: env_graph where
  "sample_graph = \<lparr>
     g_entities = [(''SERVER:a'', \<lparr>e_kind = SERVER, e_key = ''a'', e_owner = Some ''a'', e_scope = None, e_evidence = [''s1'']\<rparr>),
                   (''SUFFIX:d'', \<lparr>e_kind = SUFFIX, e_key = ''d'', e_owner = None, e_scope = Some ''d'', e_evidence = [''s1'']\<rparr>)],
     g_facts = [((''SERVER:a'', ''clock'', Some ''a''), sample_clock)],
     g_relations = [((PARTICIPATES_IN, ''SERVER:a'', ''SUFFIX:d''),
        \<lparr>rl_kind = PARTICIPATES_IN, rl_src = ''SERVER:a'', rl_dst = ''SUFFIX:d'', rl_evidence = [''s1'']\<rparr>)],
     g_enumerations = [(''servers'', \<lparr>ge_status = COMPLETE, ge_kind = Some SERVER, ge_members = [''SERVER:a''], ge_reason = '''', ge_scope = None\<rparr>)],
     g_dropped_entities = 0, g_dropped_facts = 0, g_dropped_relations = 0\<rparr>"

lemma sample_keys: "sanitize_text ''a'' 300 = ''a''" "sanitize_text ''d'' 300 = ''d''" "sanitize_text '''' 300 = ''''"
proof -
  have "clean_text ''a''" "clean_text ''d''" "clean_text ''''" by code_simp+
  then show "sanitize_text ''a'' 300 = ''a''" "sanitize_text ''d'' 300 = ''d''" "sanitize_text '''' 300 = ''''"
    by (simp_all add: sanitize_clean pre_bound_def)
qed

lemma sample_kinds: "kind_of ''SERVER:a'' = Some SERVER" "kind_of ''SUFFIX:d'' = Some SUFFIX"
  by code_simp+

lemma sample_not_equal: "\<not> py_eq (PInt 1) (PInt 2)"
  by code_simp

lemmas sample_simps = bind_exn_def add_entity_def add_relation_def add_fact_def set_enumeration_def kind_in_def sample_kinds
  sample_graph_def sample_clock_def dict_get_def dict_keys_def MAX_RELATIONS_def MAX_FACTS_def MAX_ENTITIES_def new_fact_def
  merge_fact_def sample_not_equal sorted_set_def Let_def sample_keys empty_graph_def entity_ref_def

lemma sample_graph_run: "run_ops sample_ops = Inr sample_graph"
  by (simp add: sample_ops_def sample_simps)

lemmas sample_built = run_built [OF sample_graph_run]

section \<open>Properties\<close>

text \<open>C22: Whatever calls built it, the graph is consistent: within its bounds, and at the bound when something was dropped;
  every reference names its entity; every fact is about an entity that is there, from a source that is LIVE or REPLAY, with a
  value when it is established; every relation connects two entities that are there and of the kinds it may connect.\<close>

theorem graph_always_consistent: "built ops g \<Longrightarrow> wf_graph g"
  by (rule built_wf)

theorem graph_always_consistent_witness: "wf_graph sample_graph"
  by (rule graph_always_consistent [OF sample_built])

text \<open>C19: A fact is shown as contradicted only when one and the same observer was heard to state two different values of
  it: what two hosts see differently is never a contradiction. And an established fact has the value some call stated.\<close>

theorem contradiction_needs_one_observer:
  assumes "built ops g" "list_all plain_op ops" "get_fact g s n obs = Some f"
  shows "(fa_state f = ESTABLISHED \<longrightarrow> stated ops s n obs (fa_value f))
    \<and> (fa_state f = CONTRADICTED \<longrightarrow>
        (\<exists>w. fa_conflicting f = [w] \<and> \<not> py_eq (fa_value f) w \<and> stated ops s n obs (fa_value f) \<and> stated ops s n obs w))"
  using built_earned [OF assms] fact_parts [OF built_wf [OF assms(1)] assms(3)] by (simp add: fact_earned_def)

theorem contradiction_needs_one_observer_witness:
  "\<exists>w. fa_conflicting sample_clock = [w] \<and> stated sample_ops ''SERVER:a'' ''clock'' (Some ''a'') w"
proof -
  have "get_fact sample_graph ''SERVER:a'' ''clock'' (Some ''a'') = Some sample_clock"
    by (simp add: get_fact_def sample_graph_def dict_get_def)
  moreover have "list_all plain_op sample_ops" by (simp add: sample_ops_def)
  moreover have "fa_state sample_clock = CONTRADICTED" by (simp add: sample_clock_def)
  ultimately show ?thesis using contradiction_needs_one_observer [OF sample_built] by blast
qed

text \<open>C20: Absence is read only from a complete enumeration of that kind: a key is reported absent exactly when the last call
  that set the enumeration said it was complete, for this kind of entity, and did not list the key.\<close>

theorem absence_only_from_complete:
  assumes "built ops g"
  shows "absent g name kind key = Some True \<longleftrightarrow>
    (\<exists>ms why sc. find (sets_enumeration name) ops = Some (SetEnumeration name COMPLETE (Some kind) ms why sc)
       \<and> entity_ref kind key \<notin> set ms)"
proof (cases "find (sets_enumeration name) ops")
  case None
  then show ?thesis using built_enumeration [OF assms, of name] by (simp add: absent_def)
next
  case (Some x)
  then have "sets_enumeration name x" by (metis find_Some_iff)
  then obtain st k ms why sc where "x = SetEnumeration name st k ms why sc" by (cases x) auto
  then show ?thesis using built_enumeration [OF assms, of name] Some by (auto simp: absent_def sorted_set_def)
qed

theorem absence_only_from_complete_witness:
  "absent sample_graph ''servers'' SERVER ''b'' = Some True \<and> absent sample_graph ''servers'' SERVER ''a'' = Some False"
proof
  show "absent sample_graph ''servers'' SERVER ''b'' = Some True"
    unfolding absence_only_from_complete [OF sample_built] by (simp add: sample_ops_def entity_ref_def)
  show "absent sample_graph ''servers'' SERVER ''a'' = Some False"
    by (simp add: absent_def sample_graph_def dict_get_def entity_ref_def)
qed

text \<open>C21: Of every call that built it, a graph that does not say it was truncated holds: the entity, with the evidence of this
  call; the fact, established with the value stated (a text cut to 300 characters, a list or dict to its first 64 members) or
  contradicted, and with exactly this value and its evidence when no call before had said anything of it but that it is unknown;
  the relation, with the evidence of the first call that added it; the enumeration as the last call set it. Not held are the
  members of a list after the 64th, a third value of a fact that is contradicted already, and the evidence of a call that
  repeats a fact or a relation. A call about an entity that was dropped before (no reference) adds nothing.\<close>

theorem untruncated_graph_holds_all:
  "built (later @ x # earlier) g \<Longrightarrow> \<not> truncated g \<Longrightarrow> op_kept earlier x g \<and> enumeration_kept later x g"
  using built_keeps enumeration_stays by blast

theorem untruncated_graph_holds_all_witness:
  "(\<exists>f. get_fact sample_graph ''SERVER:a'' ''clock'' (Some ''a'') = Some f \<and> fa_value f = PInt 1 \<and> ''s1'' \<in> set (fa_evidence f))
   \<and> (\<exists>e. dict_get (g_enumerations sample_graph) ''servers'' = Some e \<and> ge_status e = COMPLETE \<and> set (ge_members e) = {''SERVER:a''})"
proof -
  have ok: "\<not> truncated sample_graph" by (simp add: truncated_def sample_graph_def)
  have b: "built (take 2 sample_ops @ (sample_ops ! 2) # drop 3 sample_ops) sample_graph"
    "built ([] @ (sample_ops ! 0) # drop 1 sample_ops) sample_graph"
    using sample_built by (simp_all add: sample_ops_def)
  have one: "kept_as (PInt 1) w \<Longrightarrow> w = PInt 1" for w by (auto elim: kept_as.cases)
  show ?thesis
    using untruncated_graph_holds_all [OF b(1) ok] untruncated_graph_holds_all [OF b(2) ok]
    by (auto simp: sample_ops_def op_kept_def enumeration_kept_def dest!: one)
qed

text \<open>C23: When no fact has an observer with an empty name, the serialized graph depends on its content alone, not on the order
  in which it was built. (Facts are sorted by \<open>observed_from or ''\<close>: a fact without an observer and one with the empty name
  would tie, and keep the order in which they were added.)\<close>

theorem serialization_deterministic:
  "built ops g \<Longrightarrow> built ops' h \<Longrightarrow> same_content g h \<Longrightarrow> named_observers g \<Longrightarrow> graph_to_dict g = graph_to_dict h"
  by (rule to_dict_of_content)

theorem serialization_deterministic_witness:
  "graph_to_dict sample_graph = graph_to_dict (sample_graph\<lparr>g_entities := rev (g_entities sample_graph)\<rparr>)"
proof (rule serialization_deterministic [OF sample_built])
  let ?h = "sample_graph\<lparr>g_entities := rev (g_entities sample_graph)\<rparr>"
  let ?ops = "take 4 sample_ops @ [AddEntity SERVER ''a'' (Some ''a'') None [''s1''], AddEntity SUFFIX ''d'' None (Some ''d'') [''s1'']]"
  have "run_ops ?ops = Inr ?h" by (simp add: sample_ops_def sample_simps)
  then show "built ?ops ?h" by (rule run_built)
  show "same_content sample_graph ?h"
    by (simp add: same_content_def sample_graph_def fun_eq_iff dict_get_def)
  show "named_observers sample_graph" by (simp add: named_observers_def sample_graph_def)
qed

end
