(* ===== verification/ReplSafety.thy ===== *)
theory ReplSafety
  imports Resolve ReplCause Planner Access
begin

text \<open>
  What may be printed by \<open>ipa-diagnose replication\<close>: the resolution safety gate and the completeness claim of
  \<open>replication/safety.py\<close>, and their composition with the resolution engine, the gaps and the status of an investigation in
  \<open>replication/run.py\<close>. The runner of the read-only checks is an argument (its state is \<open>'r\<close>): \<open>en_run\<close> of the engine is the
  cached call, \<open>fresh\<close> the call with \<open>fresh=True\<close>. The time is in seconds since the first day of year 1.
\<close>

section \<open>Data\<close>

definition MAX_EVIDENCE_AGE :: rat where "MAX_EVIDENCE_AGE = 300"

record live_record =
  lv_tier :: string
  lv_freeipa :: string
  lv_os :: string
  lv_date :: string
  lv_scenario :: string
  lv_evidence :: string

record slice5 =
  s5_backup :: "string option"
  s5_rollback :: "string option"
  s5_on_failure :: string
  s5_topology :: "string list"
  s5_revalidate :: "(string \<times> string) option"
  s5_live :: "live_record list"

definition SLICE5_PROCEDURES :: "(string \<times> slice5) list" where
  "SLICE5_PROCEDURES =
    [(''proc.service.start-stopped-service'',
      \<lparr>s5_backup = Some ''NO_DATA_CHANGED'', s5_rollback = None,
       s5_on_failure = ''If 'systemctl start' fails, the unit stays stopped and nothing else changed: read 'systemctl status {unit}' and 'journalctl -u {unit} -n 50' (read-only) for the reason, fix that cause, and run ipa-diagnose replication again. Do not use 'ipactl start' instead: it stops every IPA service when one of them fails to start.'',
       s5_topology = [], s5_revalidate = Some (''systemd.unit'', ''service''),
       s5_live =
        [\<lparr>lv_tier = ''LIVE'', lv_freeipa = ''4.13.4'', lv_os = ''fedora-43'', lv_date = ''2026-09-30 (UTC)'',
          lv_scenario = ''replication lab R05/R05b: krb5kdc stopped on ipa01 (confirmed with systemctl), ipa-diagnose replication run blind, the printed 'systemctl start krb5kdc.service' run verbatim, replication --verify RESOLVED'',
          lv_evidence = ''https://github.com/InfraGuard-Labs/ipa-diagnose/actions/runs/36654176983''\<rparr>,
         \<lparr>lv_tier = ''LIVE'', lv_freeipa = ''4.13.4'', lv_os = ''fedora-43'', lv_date = ''2026-09-30 (UTC)'',
          lv_scenario = ''replication lab R02b/R02c: dirsrv stopped on ipa02 (confirmed with systemctl), ipa-diagnose replication run blind on ipa02, the printed 'systemctl start dirsrv@LAB-TEST.service' run verbatim, replication --verify RESOLVED'',
          lv_evidence = ''https://github.com/InfraGuard-Labs/ipa-diagnose/actions/runs/36657552130''\<rparr>]\<rparr>)]"

definition BACKUP_REASONS :: "(string \<times> string) list" where
  "BACKUP_REASONS =
    [(''NO_DATA_CHANGED'', ''no backup is needed: the procedure starts a service; no file, configuration or directory data is changed'')]"

definition ROLLBACK_REASONS :: "(string \<times> string) list" where
  "ROLLBACK_REASONS =
    [(''RESTORES_PRIOR_STATE_ONLY'', ''no rollback is needed: the procedure only returns a service to its configured state'')]"

definition ALLOWED_PROGRAMS :: "string list" where "ALLOWED_PROGRAMS = [''systemctl'']"
definition ALLOWED_SYSTEMCTL :: "string list" where "ALLOWED_SYSTEMCTL = [''start'']"

definition FORBIDDEN :: "rx list" where
  "FORBIDDEN =
    [
     ci (seqs [WordB, lit ''ipa-'', opt (lit ''cs''), lit ''replica-manage'', WordB]),
     ci (seqs [lit ''clean'', opt (lit ''-''), opt (lit ''all''), lit ''ruv'']),
     ci (seqs [lit ''force'', opt (lit ''-''), lit ''sync'']),
     ci (seqs [lit ''re'', opt (lit ''-''), lit ''initiali'', Cls (\<lambda>c. c \<in> set ''sz''), lit ''e'']),
     ci (seqs [WordB, lit ''server-del'', WordB]),
     ci (seqs [WordB, lit ''topologysegment-'']),
     ci (seqs [WordB, lit ''ipa-server-install'', WordB]),
     ci (seqs [lit ''--uninstall'', WordB]),
     ci (seqs [WordB, lit ''ipa-getkeytab'', WordB]),
     ci (seqs [WordB, lit ''ipa-rmkeytab'', WordB]),
     ci (seqs [WordB, lit ''ktutil'', WordB]),
     ci (seqs [WordB, lit ''ldap'', alts [lit ''modify'', lit ''add'', lit ''delete'', lit ''passwd''], WordB]),
     ci (seqs [WordB, lit ''dsconf'', WordB]),
     ci (seqs [WordB, lit ''dsctl'', WordB]),
     ci (seqs [WordB, lit ''makestep'', WordB]),
     ci (seqs [WordB, lit ''date'', plus (Cls is_space), lit ''-s'', WordB]),
     ci (seqs [lit ''set-time'', WordB]),
     ci (seqs [WordB, lit ''certutil'', WordB]),
     ci (seqs [WordB, lit ''ipa-cert-fix'', WordB]),
     ci (seqs [WordB, lit ''config-mod'', WordB]),
     ci (seqs [WordB, lit ''ipa-crlgen-manage'', WordB]),
     ci (seqs [WordB, lit ''rm'', Cls is_space]),
     ci (lit ''/var/lib/sss''),
     ci (seqs [WordB, lit ''sss_cache'', WordB]),
     ci (seqs [WordB, lit ''disable'', WordB]),
     ci (seqs [WordB, lit ''mask'', WordB])]"

text \<open>The diagnosis of \<open>replication/diagnose.py\<close> and its identity.\<close>

record repl_diagnosis =
  rd_code :: string
  rd_subject :: string
  rd_title :: string
  rd_capability :: string
  rd_severity :: string
  rd_confidence :: string
  rd_detail :: string
  rd_impact :: string
  rd_evidence :: "string list"
  rd_scope :: string
  rd_kind :: "string option"
  rd_chain_ids :: "string list"
  rd_related_to :: "string option"
  rd_explains :: "string list"
  rd_next_steps :: "string list"
  rd_handoff :: "(string \<times> string) list option"
  rd_resolution_key :: "string option"
  rd_variant :: "string option"
  rd_bindings :: pydict
  rd_role :: string

definition rd_key :: "repl_diagnosis \<Rightarrow> string" where
  "rd_key d = rd_code d @ ''@'' @ rd_subject d"

text \<open>What \<open>topology.summarize\<close> says, as far as the gate reads it.\<close>

record topology =
  tp_complete :: bool
  tp_roles :: "(string \<times> string list) list"
  tp_renewal_master :: "string option"
  tp_dnssec_key_master :: "string option"
  tp_articulation_points :: "(string \<times> string list) list"

record gate_ctx =
  gc_me :: string
  gc_replay :: bool
  gc_trace :: trace
  gc_diagnoses :: "repl_diagnosis list"
  gc_chains :: "(string \<times> cause_chain) list"
  gc_topology :: topology
  gc_now :: rat

section \<open>The age of evidence\<close>

definition days_before_year :: "nat \<Rightarrow> int" where
  "days_before_year y = (let z = int y - 1 in z * 365 + z div 4 - z div 100 + z div 400)"

definition days_before_month :: "nat \<Rightarrow> nat \<Rightarrow> nat" where
  "days_before_month y m = sum_list (map (month_days y) [1..<m])"

definition utc_seconds :: "utc_time \<Rightarrow> int" where
  "utc_seconds t =
     (days_before_year (t ! 0) + int (days_before_month (t ! 0) (t ! 1)) + int (t ! 2)) * 86400
     + int (t ! 3) * 3600 + int (t ! 4) * 60 + int (t ! 5)"

definition age_of :: "string option \<Rightarrow> rat \<Rightarrow> rat option" where
  "age_of ts now =
     (case ts of None \<Rightarrow> None
      | Some s \<Rightarrow> if s = [] then None
                  else map_option (\<lambda>t. now - of_int (utc_seconds t)) (strptime (strptime_rx ''-'' ''T'' '':'') s))"

definition too_old :: "rat option \<Rightarrow> bool" where
  "too_old age = (case age of None \<Rightarrow> True | Some a \<Rightarrow> MAX_EVIDENCE_AGE < a \<or> a < - 5)"

section \<open>Topology predicates\<close>

definition holders_of :: "topology \<Rightarrow> string \<Rightarrow> string list" where
  "holders_of topo role = sort (map fst (filter (\<lambda>(h, rs). role \<in> set rs) (tp_roles topo)))"

definition topology_predicate :: "string \<Rightarrow> string \<Rightarrow> topology \<Rightarrow> bool option" where
  "topology_predicate name me topo =
     (if \<not> tp_complete topo then None
      else if name \<in> {''not_sole_ca'', ''not_sole_kra'', ''not_sole_dns''}
      then let role = (if name = ''not_sole_ca'' then ''CA'' else if name = ''not_sole_kra'' then ''KRA'' else ''DNS'');
               h = holders_of topo role
           in if h = [] then None else Some (h \<noteq> [me])
      else if name \<in> {''not_renewal_master'', ''not_dnssec_key_master''}
      then (case (if name = ''not_renewal_master'' then tp_renewal_master topo else tp_dnssec_key_master topo) of
              None \<Rightarrow> None | Some h \<Rightarrow> Some (h \<noteq> me))
      else if name = ''not_articulation_point''
      then Some (list_all (\<lambda>(_, ps). me \<notin> set ps) (tp_articulation_points topo))
      else None)"

section \<open>The gate\<close>

definition after_colon :: "string \<Rightarrow> string" where
  "after_colon s = (case partition_char (CHR '':'') s of (a, found, b) \<Rightarrow> if found then b else a)"

definition this_server :: "string \<Rightarrow> string" where "this_server me = ''server:'' @ me"

definition elsewhere_reason :: "repl_diagnosis \<Rightarrow> string" where
  "elsewhere_reason d = ''The cause is not on this server ('' @ after_colon (rd_subject d) @
     ''): ipa-diagnose prints no command for another server and changes nothing remotely. Follow the handoff instead.''"

text \<open>The deepest link of the chain is this diagnosis.\<close>

definition rests_on :: "gate_ctx \<Rightarrow> repl_diagnosis \<Rightarrow> string \<Rightarrow> bool" where
  "rests_on c d cid =
     (case dict_get (gc_chains c) cid of
        None \<Rightarrow> False
      | Some ch \<Rightarrow> ch_links ch \<noteq> [] \<and> lk_subject (last (ch_links ch)) = rd_subject d \<and> lk_evidence (last (ch_links ch)) \<noteq> []
                   \<and> lk_capability (last (ch_links ch)) = rd_capability d)"

definition evidence_age :: "gate_ctx \<Rightarrow> string \<Rightarrow> rat option" where
  "evidence_age c sid =
     age_of (case trace_get (gc_trace c) sid None of None \<Rightarrow> None | Some r \<Rightarrow> rc_collected_at r) (gc_now c)"

definition picture_reasons :: "gate_ctx \<Rightarrow> repl_diagnosis \<Rightarrow> string list" where
  "picture_reasons c d =
     (case rd_kind d of
        Some k \<Rightarrow> if k \<in> {''UNDIAGNOSED'', ''CONTRADICTING'', ''TRANSIENT''}
                  then [''The diagnosis is '' @ k @ '': nothing is fixed on an unexplained, contradicting or transient picture.''] else []
      | None \<Rightarrow> [])
     @ (if rd_role d \<notin> {''PRIMARY'', ''INDEPENDENT''}
        then [''This is reported as '' @ rd_role d @ '', not as a root cause: fix its cause first.''] else [])
     @ (if rd_confidence d \<noteq> ''HIGH'' then [''The cause is established with '' @ str_lower (rd_confidence d) @ '' confidence only.''] else [])
     @ (if \<not> list_all (rests_on c d) (rd_chain_ids d) then [''The deepest proven link of its cause chain is not this diagnosis.''] else [])
     @ (if rd_chain_ids d = [] then [''No established cause chain rests on this diagnosis.''] else [])
     @ (case filter (\<lambda>x. rd_role x = ''CONTRADICTING'') (gc_diagnoses c) of
          [] \<Rightarrow> []
        | x # _ \<Rightarrow> [''Contradicting evidence was found ('' @ rd_title x @ ''): no fix is shown while the evidence disagrees.''])"

definition evidence_reasons :: "gate_ctx \<Rightarrow> repl_diagnosis \<Rightarrow> string list" where
  "evidence_reasons c d =
     (if gc_replay c
      then [''This is recorded (REPLAY) evidence: it cannot revalidate the target now, so no command is shown from it.'']
      else if rd_evidence d = [] then [''The diagnosis names no evidence, so its age cannot be established.'']
      else case find (\<lambda>sid. too_old (evidence_age c sid)) (rd_evidence d) of
             None \<Rightarrow> []
           | Some sid \<Rightarrow> [''The evidence it rests on ('' @ sid @ '') is missing or older than 300 s: run ipa-diagnose replication again.''])"

definition topology_reasons :: "gate_ctx \<Rightarrow> slice5 \<Rightarrow> string list" where
  "topology_reasons c m =
     concat (map (\<lambda>p. case topology_predicate p (gc_me c) (gc_topology c) of
                        Some True \<Rightarrow> []
                      | r \<Rightarrow> [''Topology safety ('' @ map (\<lambda>ch. if ch = CHR ''_'' then CHR '' '' else ch) p @ '') is '' @
                              (if r = Some False then ''violated'' else ''not established from a complete topology read'') @ ''.''])
               (s5_topology m))"

text \<open>The fresh check of the target.\<close>

definition recheck_reasons :: "string \<Rightarrow> check_result option \<Rightarrow> string list" where
  "recheck_reasons check r =
     (case r of
        None \<Rightarrow> [''The target could not be re-checked just now, so it is not established that it is still in the diagnosed state.'']
      | Some x \<Rightarrow>
          if cr_status x \<noteq> OK
          then [''The target could not be re-checked just now, so it is not established that it is still in the diagnosed state.'']
          else if check = ''systemd.unit'' \<and> dict_get (cr_fields x) ''active_state'' = Some (PStr ''active'')
          then [py_str (the_default PNone (dict_get (cr_fields x) ''unit'')) @
                '' is running now (re-checked just now): the state changed since the diagnosis. Run ipa-diagnose replication again.'']
          else [])"

definition recheck ::
  "(string \<Rightarrow> pydict \<Rightarrow> 'r \<Rightarrow> (exn + check_result) \<times> 'r) \<Rightarrow> repl_diagnosis \<Rightarrow> string \<times> string \<Rightarrow> 'r \<Rightarrow> (exn + string list) \<times> 'r" where
  "recheck fresh d cb rn =
     (let v = the_default PNone (dict_get (rd_bindings d) (snd cb))
      in if truthy v
         then (case fresh (fst cb) [(snd cb, v)] rn of (r, rn') \<Rightarrow> (map_sum id (\<lambda>x. recheck_reasons (fst cb) (Some x)) r, rn'))
         else (Inr (recheck_reasons (fst cb) None), rn))"

definition meta_of :: "string option \<Rightarrow> slice5 option" where
  "meta_of pid = dict_get SLICE5_PROCEDURES (the_default [] pid)"

definition standing_reasons :: "gate_ctx \<Rightarrow> repl_diagnosis \<Rightarrow> string option \<Rightarrow> string list" where
  "standing_reasons c d pid =
     picture_reasons c d @ evidence_reasons c d
     @ (if the_default [] pid \<noteq> [] \<and> meta_of pid = None then [''This procedure is not one ipa-diagnose replication may print.''] else [])
     @ (case meta_of pid of None \<Rightarrow> [] | Some m \<Rightarrow> topology_reasons c m)"

definition resolution_gate ::
  "(string \<Rightarrow> pydict \<Rightarrow> 'r \<Rightarrow> (exn + check_result) \<times> 'r) \<Rightarrow> gate_ctx \<Rightarrow> repl_diagnosis \<Rightarrow> string option \<Rightarrow> 'r \<Rightarrow> (exn + string list) \<times> 'r" where
  "resolution_gate fresh c d pid rn =
     (if rd_subject d \<noteq> this_server (gc_me c) \<or> rd_scope d \<noteq> ''local'' then (Inr [elsewhere_reason d], rn)
      else
        let rs = standing_reasons c d pid
        in case meta_of pid of
             None \<Rightarrow> (Inr rs, rn)
           | Some m \<Rightarrow>
               if \<not> gc_replay c \<and> rs = []
               then (case s5_revalidate m of None \<Rightarrow> (Inr rs, rn) | Some cb \<Rightarrow> recheck fresh d cb rn)
               else (Inr rs, rn))"

section \<open>Limits on an offered procedure\<close>

text \<open>The commands of the steps and the rollbacks, each with the sub-commands it may use.\<close>

definition offered_commands :: "resolution \<Rightarrow> (string list \<times> string list) list" where
  "offered_commands r =
     map (\<lambda>s. (fs_argv s, ALLOWED_SYSTEMCTL)) (rz_steps r)
     @ List.map_filter (\<lambda>e. case rb_argv e of Some (a # as) \<Rightarrow> Some (a # as, [''stop'']) | _ \<Rightarrow> None) (rz_rollback r)"

definition command_problems :: "string list \<times> string list \<Rightarrow> string list" where
  "command_problems c =
     (case c of (argv, verbs) \<Rightarrow>
        (if argv = [] \<or> hd argv \<notin> set ALLOWED_PROGRAMS
         then [[CHR 0x27] @ (if argv = [] then [] else hd argv) @ ([CHR 0x27] @ '' is not a program ipa-diagnose replication may print.'')]
         else if hd argv = ''systemctl'' \<and> (length argv \<noteq> 3 \<or> argv ! 1 \<notin> set verbs)
         then [''Only 'systemctl start UNIT' (and its rollback 'systemctl stop UNIT') may be printed.''] else [])
        @ (if list_ex (\<lambda>rx. rx_found rx (join '' '' argv)) FORBIDDEN then [''The procedure contains an operation Slice 5 never prints.''] else []))"

definition check_offered :: "resolution \<Rightarrow> string list" where
  "check_offered r =
     sort (dedup
       (concat (map command_problems (offered_commands r))
        @ map (\<lambda>s. ''A step would not run on this server.'') (filter (\<lambda>s. fs_run_on s \<noteq> PStr ''local'') (rz_steps r))
        @ (if rz_risk r = PStr ''HIGH'' \<and> (rz_rollback r = [] \<or> rz_confirm_first r = [])
           then [''A HIGH-risk procedure needs a rollback and a backup/confirmation step.''] else [])))"

section \<open>Whether nothing needs to be looked up\<close>

definition live_match :: "live_record list \<Rightarrow> string option \<Rightarrow> string \<Rightarrow> live_record option" where
  "live_match vs freeipa os_id =
     (case version_of (opt_str freeipa) of
        None \<Rightarrow> None
      | Some here \<Rightarrow>
          find (\<lambda>v. lv_tier v = ''LIVE''
                    \<and> (case version_of (PStr (lv_freeipa v)) of None \<Rightarrow> False | Some there \<Rightarrow> take 3 there = take 3 here)
                    \<and> str_lower (lv_os v) = os_id) vs)"

record no_google_claim =
  ng_claimed :: bool
  ng_checklist :: "(string \<times> bool) list"
  ng_missing :: "string list"
  ng_host :: string
  ng_on_failure :: string
  ng_backup :: string
  ng_incident_criteria :: "string list"

definition no_meta :: slice5 where
  "no_meta = \<lparr>s5_backup = None, s5_rollback = None, s5_on_failure = [], s5_topology = [], s5_revalidate = None, s5_live = []\<rparr>"

text \<open>\<open>getattr(res, "procedure_id", "") or ""\<close> as a key\<close>

definition meta_for :: "resolution \<Rightarrow> slice5" where
  "meta_for r = (case rz_procedure_id r of PStr s \<Rightarrow> the_default no_meta (dict_get SLICE5_PROCEDURES s) | _ \<Rightarrow> no_meta)"

definition reason_known :: "(string \<times> string) list \<Rightarrow> string option \<Rightarrow> bool" where
  "reason_known d k = (case k of None \<Rightarrow> False | Some s \<Rightarrow> s \<in> set (dict_keys d))"

definition no_google_checklist ::
  "resolution \<Rightarrow> pyval option \<Rightarrow> string option \<Rightarrow> string \<Rightarrow> string list \<Rightarrow> (string \<times> bool) list" where
  "no_google_checklist r procedure freeipa os_id criteria =
     [(''named_target'', rz_steps r \<noteq> [] \<and> list_all (\<lambda>s. 3 \<le> length (fs_argv s)) (rz_steps r)),
      (''exact_commands'', rz_steps r \<noteq> [] \<and> list_all (\<lambda>s. fs_argv s \<noteq> []) (rz_steps r)),
      (''host_per_step'', list_all (\<lambda>s. fs_run_on s = PStr ''local'') (rz_steps r)),
      (''prerequisites_met'', list_all (\<lambda>p. pq_state p \<in> {''met'', ''confirm''}) (rz_prerequisites r)),
      (''what_changes'', rz_what_changes r \<noteq> []),
      (''expected_result'', list_all (\<lambda>s. fs_expected s \<noteq> []) (rz_steps r)),
      (''on_failure'', s5_on_failure (meta_for r) \<noteq> []),
      (''risk'', truthy (rz_risk r)),
      (''backup'', rz_confirm_first r \<noteq> [] \<or> reason_known BACKUP_REASONS (s5_backup (meta_for r))),
      (''rollback'', rz_rollback r \<noteq> [] \<or> reason_known ROLLBACK_REASONS (s5_rollback (meta_for r))),
      (''verification_tied_to_incident'', rz_verify r \<noteq> [] \<and> criteria \<noteq> []),
      (''live_verified_here'', procedure \<noteq> None \<and> live_match (s5_live (meta_for r)) freeipa os_id \<noteq> None)]"

text \<open>\<open>s.replace(old, new)\<close> for a text \<open>old\<close> that is not empty\<close>

function replace_all :: "string \<Rightarrow> string \<Rightarrow> string \<Rightarrow> string" where
  "replace_all old new s =
     (case s of
        [] \<Rightarrow> []
      | c # cs \<Rightarrow> if old \<noteq> [] \<and> starts_with s old then new @ replace_all old new (drop (length old) s) else c # replace_all old new cs)"
  by pat_completeness auto
termination
  by (relation "measure (\<lambda>(old, new, s). length s)") (auto split: list.splits)

declare replace_all.simps [simp del]

definition no_google :: "resolution \<Rightarrow> pyval option \<Rightarrow> string \<Rightarrow> string option \<Rightarrow> string \<Rightarrow> string list \<Rightarrow> no_google_claim" where
  "no_google r procedure me freeipa os_id criteria =
     (let unit_name = (case concat (map (\<lambda>s. take 1 (drop 2 (fs_argv s))) (rz_steps r)) of [] \<Rightarrow> ''the unit'' | a # _ \<Rightarrow> a);
          checklist = no_google_checklist r procedure freeipa os_id criteria;
          missing = map fst (filter (\<lambda>(_, v). \<not> v) checklist)
      in \<lparr>ng_claimed = (missing = []), ng_checklist = checklist, ng_missing = missing, ng_host = me,
          ng_on_failure = replace_all ''{unit}'' unit_name (s5_on_failure (meta_for r)),
          ng_backup = (if rz_confirm_first r \<noteq> [] then []
                       else the_default [] (dict_get BACKUP_REASONS (the_default [] (s5_backup (meta_for r))))),
          ng_incident_criteria = criteria\<rparr>)"

section \<open>Gaps and the status of an investigation\<close>

definition LOCAL_ESSENTIAL :: "string list" where
  "LOCAL_ESSENTIAL = [''server'', ''local.ds'', ''local.kdc'', ''local.storage'', ''local.keytab'', ''topology'', ''agreements'']"

definition SUBJECT_ESSENTIAL :: "string list" where
  "SUBJECT_ESSENTIAL = [''peer.dns'', ''peer.port'', ''peer.rootdse'', ''gssapi'']"

text \<open>\<open>_gap\<close>: the first argument is how many more records of the chain of blocked steps may be asked.\<close>

fun gap :: "nat \<Rightarrow> trace \<Rightarrow> step_record \<Rightarrow> bool" where
  "gap 0 t r = (rc_outcome r = Out_UNKNOWN)"
| "gap (Suc n) t r =
     (if rc_outcome r = Out_UNKNOWN then True
      else if rc_outcome r \<noteq> SKIPPED then False
      else if skip_kind r \<in> {''privilege'', ''not applicable''}
      then \<not> starts_with (rc_skip_reason r) ''not applicable: the agreement binds with''
      else if skip_kind r = ''stopped'' then \<not> starts_with (rc_skip_reason r) ''stopped: this host is not an IPA server''
      else if skip_kind r = ''blocked''
      then (case rc_blocked_by r of
              None \<Rightarrow> True
            | Some s \<Rightarrow> if s = [] then True else (case trace_get t s None of None \<Rightarrow> True | Some up \<Rightarrow> gap n t up))
      else False)"

definition is_gap :: "trace \<Rightarrow> step_record \<Rightarrow> bool" where "is_gap = gap 21"

record gap_entry =
  gp_step :: string
  gp_check :: string
  gp_reason :: string

definition gap_reason :: "step_record \<Rightarrow> string" where
  "gap_reason r = (if rc_outcome r = Out_UNKNOWN then rc_summary r else rc_skip_reason r)"

definition local_gap :: "trace \<Rightarrow> string \<Rightarrow> gap_entry list" where
  "local_gap t sid =
     (case trace_get t sid None of
        None \<Rightarrow> []
      | Some r \<Rightarrow>
          let entry = (\<lambda>why. [\<lparr>gp_step = sid, gp_check = rc_title r, gp_reason = why\<rparr>])
          in if is_gap t r then entry (gap_reason r)
             else if sid = ''topology'' \<and> rc_outcome r = WARN then entry ''the topology read was not confirmed complete''
             else if sid = ''agreements'' \<and> rc_outcome r \<in> {PASS, WARN} \<and> dict_get (rc_facts r) ''complete'' \<noteq> Some (PBool True)
             then entry ''the agreements read was not confirmed complete''
             else if sid = ''agreements'' \<and> dict_get (rc_facts r) ''peer_found'' = Some (PBool False) then entry (rc_summary r)
             else [])"

definition principals_gap :: "trace \<Rightarrow> gap_entry list" where
  "principals_gap t =
     (case trace_get t ''principals'' None of
        None \<Rightarrow> []
      | Some r \<Rightarrow> if is_gap t r
                  then [\<lparr>gp_step = ''principals'', gp_check = rc_title r,
                         gp_reason = (if rc_summary r \<noteq> [] then rc_summary r else rc_skip_reason r)\<rparr>] else [])"

definition enumeration_gap :: "enumeration option \<Rightarrow> gap_entry list" where
  "enumeration_gap e =
     (case e of
        None \<Rightarrow> []
      | Some x \<Rightarrow>
          if en_status x \<in> {''COMPLETE'', ''NOT_ASKED''} then []
          else [\<lparr>gp_step = ''agreement'', gp_check = ''outbound agreements investigated'',
                 gp_reason = en_status x @ '': '' @ (if en_reason x \<noteq> [] then en_reason x else ''not every agreement was investigated'')
                   @ (if en_dropped x \<noteq> [] then ''; not investigated: '' @ join '', '' (en_dropped x) else [])\<rparr>])"

definition subject_gap :: "trace \<Rightarrow> string \<Rightarrow> string \<Rightarrow> gap_entry list" where
  "subject_gap t subj base =
     (case trace_get t base (Some subj) of
        None \<Rightarrow> []
      | Some r \<Rightarrow> if is_gap t r
                  then [\<lparr>gp_step = rc_step_id r, gp_check = rc_title r @ '' ['' @ subj @ '']'', gp_reason = gap_reason r\<rparr>] else [])"

definition reverse_gap :: "trace \<Rightarrow> (string \<times> string) list \<Rightarrow> string \<Rightarrow> gap_entry list" where
  "reverse_gap t reverse subj =
     (if dict_get reverse subj \<noteq> Some ''UNKNOWN'' then []
      else [\<lparr>gp_step = ''reverse@'' @ subj, gp_check = ''reverse direction ['' @ subj @ '']'',
             gp_reason = ''not observed from this server (''
               @ (case trace_get t ''reverse'' (Some subj) of None \<Rightarrow> ''not run'' | Some r \<Rightarrow> gap_reason r)
               @ ''); to read it from here, run 'kinit admin' in the same (root) session and run again (sudo does not pass your own ticket on), or run ipa-diagnose replication on the peer''\<rparr>])"

text \<open>\<open>not_verified\<close> of \<open>_completeness\<close>; the level is complete when there is no gap.\<close>

definition not_verified :: "trace \<Rightarrow> (string \<times> string) list \<Rightarrow> gap_entry list" where
  "not_verified t reverse =
     (let e = dict_get (tr_enumerations t) ''agreement''
      in concat (map (local_gap t) LOCAL_ESSENTIAL) @ principals_gap t @ enumeration_gap e
         @ concat (map (\<lambda>subj. concat (map (subject_gap t subj) SUBJECT_ESSENTIAL) @ reverse_gap t reverse subj)
             (case e of None \<Rightarrow> [] | Some x \<Rightarrow> en_subjects x)))"

definition investigation_status :: "repl_diagnosis list \<Rightarrow> bool \<Rightarrow> bool \<Rightarrow> string" where
  "investigation_status diags all_checked server =
     (if \<not> server then ''NOT_AN_IPA_SERVER''
      else if list_ex (\<lambda>d. rd_severity d = ''FAIL'' \<or> rd_role d \<in> {''UNDIAGNOSED'', ''CONTRADICTING''}) diags then ''PROBLEM_FOUND''
      else if \<not> all_checked \<or> list_ex (\<lambda>d. rd_kind d = Some ''TRANSIENT'') diags then ''NOT_FULLY_VERIFIED''
      else if diags \<noteq> [] then ''HEALTHY_WITH_WARNINGS''
      else ''HEALTHY'')"

section \<open>The fixes of an investigation\<close>

definition incident_criteria :: "repl_diagnosis \<Rightarrow> repl_diagnosis list \<Rightarrow> criterion list \<Rightarrow> string list" where
  "incident_criteria d diags verify =
     filter (\<lambda>x. x \<noteq> [])
       (concat (map (\<lambda>key. case find (\<lambda>x. rd_key x = key) diags of
            None \<Rightarrow> []
          | Some s \<Rightarrow> if rd_code s \<in> {''REPLICATION_FAILING'', ''REVERSE_REPLICATION_FAILING''}
                      then [''the agreement '' @ rd_subject s @
                            '' reports success for a session that ended after this diagnosis, with no update in progress''] else [])
          (rd_explains d))
        @ map cr_text verify
        @ [rd_title d @ '': no longer found by a fresh ipa-diagnose replication run''])"

definition with_variant :: "string option \<Rightarrow> diagnosis" where
  "with_variant v = (new_diagnosis [] [] DIAGNOSED [] [] \<lparr>c_level = HIGH, c_rationale = [], c_corroborating = 0, c_contradicting = 0\<rparr>)\<lparr>d_variant := v\<rparr>"

text \<open>The procedure a diagnosis would lead to, and the catalogue's entry with that id.\<close>

definition expected_procedure :: "pyval list \<Rightarrow> string option \<Rightarrow> string option \<Rightarrow> exn + pyval" where
  "expected_procedure cat key variant =
     (case key of
        None \<Rightarrow> Inr PNone
      | Some k \<Rightarrow> bind_exn (procedure_for cat (with_variant variant) k) (\<lambda>p. case p of None \<Rightarrow> Inr PNone | Some x \<Rightarrow> get_item x ''id''))"

fun procedure_by_id :: "pyval list \<Rightarrow> pyval \<Rightarrow> exn + pyval option" where
  "procedure_by_id [] pid = Inr None"
| "procedure_by_id (p # ps) pid = bind_exn (get_or p ''id'' PNone) (\<lambda>i. if py_eq i pid then Inr (Some p) else procedure_by_id ps pid)"

record gate_result =
  gr_gate :: string
  gr_reasons :: "string list"
  gr_no_google :: "no_google_claim option"
  gr_preview :: "(pyval \<times> string list list) option"

definition env_text :: "pydict \<Rightarrow> string \<Rightarrow> string option" where
  "env_text env k = (case dict_get env k of Some (PStr s) \<Rightarrow> Some s | _ \<Rightarrow> None)"

definition repl_confidence :: "string \<Rightarrow> confidence_level" where
  "repl_confidence c = (if c = ''HIGH'' then HIGH else if c = ''MEDIUM'' then MEDIUM else LOW)"

text \<open>The diagnosis as the resolution engine reads it.\<close>

definition engine_diagnosis :: "repl_diagnosis list \<Rightarrow> repl_diagnosis \<Rightarrow> string option \<Rightarrow> exn + diagnosis" where
  "engine_diagnosis diags d variant =
     post_init
       ((new_diagnosis ''replication'' (rd_code d)
          (if rd_confidence d \<in> {''HIGH'', ''MEDIUM''} then DIAGNOSED else UNKNOWN_INSUFFICIENT_EVIDENCE) (rd_title d) (rd_detail d)
          \<lparr>c_level = repl_confidence (rd_confidence d), c_rationale = rd_detail d, c_corroborating = 0, c_contradicting = 0\<rparr>)
        \<lparr>d_priority := (if rd_role d = ''PRIMARY'' then PRIMARY else if rd_role d = ''INDEPENDENT'' then SECONDARY_INDEPENDENT else RELATED_SYMPTOM),
         d_diagnosis_id := ''replication.'' @ rd_key d, d_resolution_key := rd_resolution_key d, d_variant := variant,
         d_bindings := rd_bindings d,
         d_related_to_titles := map rd_title (filter (\<lambda>x. Some (rd_key x) = rd_related_to d) diags)\<rparr>)"

definition withdrawn :: "resolution \<Rightarrow> string list \<Rightarrow> resolution" where
  "withdrawn r why = r\<lparr>rz_status := WITHHELD, rz_reasons := why, rz_steps := [], rz_rollback := [], rz_verify := [], rz_what_changes := [],
     rz_confirm_first := [], rz_baseline := None\<rparr>"

text \<open>Which commands recorded evidence would have led to.\<close>

definition preview_of :: "(exn + resolution option) \<Rightarrow> exn + (pyval \<times> string list list) option" where
  "preview_of m =
     (case m of
        Inl KeyboardInterrupt \<Rightarrow> Inl KeyboardInterrupt
      | Inl e \<Rightarrow> Inr None
      | Inr None \<Rightarrow> Inr None
      | Inr (Some r) \<Rightarrow>
          Inr (if rz_status r = OFFERED \<and> check_offered r = [] then Some (rz_procedure_id r, map fs_argv (rz_steps r)) else None))"

definition os_id_of :: "pydict \<Rightarrow> string" where
  "os_id_of env = str_lower (the_default [] (env_text env ''os'')) @ ''-'' @ str_lower (the_default [] (env_text env ''os_version''))"

text \<open>What becomes of the engine's answer once the gate has passed.\<close>

definition settle_offer ::
  "pydict \<Rightarrow> repl_diagnosis list \<Rightarrow> repl_diagnosis \<Rightarrow> pyval \<Rightarrow> resolution \<Rightarrow> resolution \<times> gate_result" where
  "settle_offer env diags d proc r =
     (let passed_with = (\<lambda>ng. \<lparr>gr_gate = ''PASSED'', gr_reasons = [], gr_no_google = ng, gr_preview = None\<rparr>)
      in if rz_status r \<noteq> OFFERED then (r, passed_with None)
         else if check_offered r \<noteq> [] then (withdrawn r (check_offered r), passed_with None)
         else (r, passed_with (Some (no_google r (Some proc) (the_default [] (env_text env ''host'')) (env_text env ''freeipa'') (os_id_of env)
                 (incident_criteria d diags (rz_verify r))))))"

definition withheld_by_gate :: "bool \<Rightarrow> string \<Rightarrow> pyval \<Rightarrow> pyval \<Rightarrow> string list \<Rightarrow> exn + resolution" where
  "withheld_by_gate replay did pid proc reasons =
     bind_exn (get_or proc ''title'' (PStr [])) (\<lambda>title. bind_exn (get_or proc ''provenance'' (PDict [])) (\<lambda>prov.
     bind_exn (get_or prov ''tier'' (PStr [])) (\<lambda>tier.
     Inr ((new_resolution did WITHHELD)\<lparr>rz_procedure_id := pid, rz_title := title, rz_reasons := reasons, rz_tier := tier, rz_replay := replay\<rparr>))))"

type_synonym repl_outcome = "(resolution \<times> gate_result option) option"

definition resolve_gated ::
  "(string \<Rightarrow> pydict \<Rightarrow> 'r \<Rightarrow> (exn + check_result) \<times> 'r) \<Rightarrow> 'r engine \<Rightarrow> pyval list \<Rightarrow> environment_info \<Rightarrow> pydict \<Rightarrow> gate_ctx
   \<Rightarrow> repl_diagnosis \<Rightarrow> string option \<Rightarrow> pyval \<Rightarrow> pyval \<Rightarrow> 'r \<Rightarrow> (exn + repl_outcome) \<times> 'r" where
  "resolve_gated fresh en cat info env c d variant pid proc rn =
     (case resolution_gate fresh c d (case pid of PStr s \<Rightarrow> Some s | _ \<Rightarrow> None) rn of
        (Inl e, rn1) \<Rightarrow> (Inl e, rn1)
      | (Inr reasons, rn1) \<Rightarrow>
          (case engine_diagnosis (gc_diagnoses c) d variant of
             Inl e \<Rightarrow> (Inl e, rn1)
           | Inr ed \<Rightarrow>
               if reasons \<noteq> []
               then (case (if gc_replay c \<and> list_all (\<lambda>r. contains r ''REPLAY'') reasons
                           then (case resolve_diagnosis en cat (Some info) ed rn1 of (m, rn2) \<Rightarrow> (preview_of m, rn2))
                           else (Inr None, rn1)) of
                       (Inl e, rn2) \<Rightarrow> (Inl e, rn2)
                     | (Inr preview, rn2) \<Rightarrow>
                         (bind_exn (withheld_by_gate (gc_replay c) (d_diagnosis_id ed) pid proc reasons) (\<lambda>r.
                          Inr (Some (r, Some \<lparr>gr_gate = ''WITHHELD'', gr_reasons = reasons, gr_no_google = None, gr_preview = preview\<rparr>))), rn2))
               else (case resolve_diagnosis en cat (Some info) ed rn1 of
                       (Inl KeyboardInterrupt, rn2) \<Rightarrow> (Inl KeyboardInterrupt, rn2)
                     | (Inl e, rn2) \<Rightarrow> (Inr (map_option (map_prod id Some) (Some (settle_offer env (gc_diagnoses c) d proc (internal_error ed e)))), rn2)
                     | (Inr None, rn2) \<Rightarrow> (Inr None, rn2)
                     | (Inr (Some r), rn2) \<Rightarrow> (Inr (map_option (map_prod id Some) (Some (settle_offer env (gc_diagnoses c) d proc r))), rn2))))"

definition resolve_one ::
  "(string \<Rightarrow> pydict \<Rightarrow> 'r \<Rightarrow> (exn + check_result) \<times> 'r) \<Rightarrow> 'r engine \<Rightarrow> pyval list \<Rightarrow> environment_info \<Rightarrow> pydict \<Rightarrow> gate_ctx
   \<Rightarrow> repl_diagnosis \<Rightarrow> 'r \<Rightarrow> (exn + repl_outcome) \<times> 'r" where
  "resolve_one fresh en cat info env c d rn =
     (if the_default [] (rd_resolution_key d) = [] then (Inr None, rn)
      else
        let variant = (if starts_with (the_default [] (rd_resolution_key d)) ''healthcheck.'' then rd_variant d else None)
        in case bind_exn (expected_procedure cat (rd_resolution_key d) variant) (\<lambda>pid.
                bind_exn (procedure_by_id cat pid) (\<lambda>p. Inr (pid, p))) of
             Inl e \<Rightarrow> (Inl e, rn)
           | Inr (pid, None) \<Rightarrow> (Inr None, rn)
           | Inr (pid, Some proc) \<Rightarrow>
               (if dict_get (as_dict proc) ''kind'' = Some (PStr ''no_procedure'')
                then (bind_exn (get_item proc ''reason'') (\<lambda>why.
                      Inr (Some ((new_resolution (''replication.'' @ rd_key d) NONE)\<lparr>rz_procedure_id := pid, rz_reasons := [py_str why]\<rparr>, None))), rn)
                else resolve_gated fresh en cat info env c d variant pid proc rn))"

type_synonym fixes_found = "(string \<times> resolution) list \<times> (string \<times> gate_result) list"

definition record_fix :: "string \<Rightarrow> repl_outcome \<Rightarrow> fixes_found \<Rightarrow> fixes_found" where
  "record_fix key o' found =
     (case o' of
        None \<Rightarrow> found
      | Some (r, g) \<Rightarrow> (dict_set key r (fst found), case g of None \<Rightarrow> snd found | Some x \<Rightarrow> dict_set key x (snd found)))"

fun resolve_fixes ::
  "(repl_diagnosis \<Rightarrow> 'r \<Rightarrow> (exn + repl_outcome) \<times> 'r) \<Rightarrow> repl_diagnosis list \<Rightarrow> fixes_found \<Rightarrow> 'r \<Rightarrow> (exn + fixes_found) \<times> 'r" where
  "resolve_fixes one [] found rn = (Inr found, rn)"
| "resolve_fixes one (d # ds) found rn =
     (case one d rn of
        (Inl e, rn') \<Rightarrow> (Inl e, rn')
      | (Inr o', rn') \<Rightarrow> resolve_fixes one ds (record_fix (rd_key d) o' found) rn')"

text \<open>\<open>_resolve\<close>: the fixes and the gates, by the key of the diagnosis. The catalogue's own error is reported beside them.\<close>

definition repl_env_info :: "bool \<Rightarrow> pydict \<Rightarrow> environment_info" where
  "repl_env_info replay env =
     \<lparr>env_distro = env_text env ''os'', env_distro_version = env_text env ''os_version'', env_python_version = None,
      env_freeipa_version = env_text env ''freeipa'', env_ipa_healthcheck_version = None, env_directory_server_version = None,
      env_detected_live = \<not> replay\<rparr>"

definition resolve_replication ::
  "(string \<Rightarrow> pydict \<Rightarrow> 'r \<Rightarrow> (exn + check_result) \<times> 'r) \<Rightarrow> 'r engine \<Rightarrow> catalogue \<Rightarrow> repl_diagnosis list \<Rightarrow> cause_chain list \<Rightarrow> pydict
   \<Rightarrow> trace \<Rightarrow> topology \<Rightarrow> rat \<Rightarrow> 'r \<Rightarrow> (exn + fixes_found) \<times> 'r" where
  "resolve_replication fresh en cat diags found_chains env tr topo now rn =
     (let c = \<lparr>gc_me = the_default [] (env_text env ''host''), gc_replay = en_replay en, gc_trace = tr, gc_diagnoses = diags,
               gc_chains = dict_of (map (\<lambda>ch. (ch_chain_id ch, ch)) found_chains), gc_topology = topo, gc_now = now\<rparr>
      in resolve_fixes (resolve_one fresh en (fst cat) (repl_env_info (en_replay en) env) env c) diags ([], []) rn)"

end
