(* ===== verification/ReplSafetyProps.thy ===== *)
theory ReplSafetyProps
  imports ReplSafety VerifyProps PlanRun
begin

text \<open>
  What the replication mode promises about the fixes it prints: the gate passes exactly when every one of its conditions
  holds, an offered procedure only starts (or, to roll back, stops) a unit of this server, and both together for the whole
  loop over the diagnoses. An investigation that ends as healthy has no gap.
\<close>

section \<open>The gate\<close>

text \<open>
  The conditions of the gate, written out. Evidence is recent: its record says when it was collected, at most 300 seconds
  ago (and at most 5 seconds ahead of this clock). A chain rests on the diagnosis: its last link is on the diagnosis' subject and
  capability and has evidence.
\<close>

definition recent :: "gate_ctx \<Rightarrow> string \<Rightarrow> bool" where
  "recent c sid =
     (\<exists>r s u. trace_get (gc_trace c) sid None = Some r \<and> rc_collected_at r = Some s \<and> s \<noteq> []
        \<and> strptime (strptime_rx ''-'' ''T'' '':'') s = Some u
        \<and> - 5 \<le> gc_now c - of_int (utc_seconds u) \<and> gc_now c - of_int (utc_seconds u) \<le> 300)"

definition deepest :: "gate_ctx \<Rightarrow> repl_diagnosis \<Rightarrow> string \<Rightarrow> bool" where
  "deepest c d cid =
     (\<exists>ch above l. dict_get (gc_chains c) cid = Some ch \<and> ch_links ch = above @ [l]
        \<and> lk_subject l = rd_subject d \<and> lk_capability l = rd_capability d \<and> lk_evidence l \<noteq> [])"

definition may_fix :: "gate_ctx \<Rightarrow> repl_diagnosis \<Rightarrow> string option \<Rightarrow> bool" where
  "may_fix c d pid =
     (rd_subject d = ''server:'' @ gc_me c \<and> rd_scope d = ''local''
      \<and> rd_kind d \<notin> {Some ''UNDIAGNOSED'', Some ''CONTRADICTING'', Some ''TRANSIENT''}
      \<and> rd_role d \<in> {''PRIMARY'', ''INDEPENDENT''} \<and> rd_confidence d = ''HIGH''
      \<and> rd_chain_ids d \<noteq> [] \<and> list_all (deepest c d) (rd_chain_ids d)
      \<and> list_all (\<lambda>x. rd_role x \<noteq> ''CONTRADICTING'') (gc_diagnoses c)
      \<and> \<not> gc_replay c \<and> rd_evidence d \<noteq> [] \<and> list_all (recent c) (rd_evidence d)
      \<and> (the_default [] pid = [] \<or> pid = Some ''proc.service.start-stopped-service''))"

text \<open>The unit the diagnosis names, and the fresh check of it: it answered, and did not find the unit running.\<close>

definition bound_unit :: "repl_diagnosis \<Rightarrow> pyval option" where
  "bound_unit d = (case dict_get (rd_bindings d) ''service'' of None \<Rightarrow> None | Some v \<Rightarrow> if truthy v then Some v else None)"

definition still_stopped ::
  "(string \<Rightarrow> pydict \<Rightarrow> 'r \<Rightarrow> (exn + check_result) \<times> 'r) \<Rightarrow> repl_diagnosis \<Rightarrow> 'r \<Rightarrow> bool" where
  "still_stopped fresh d rn =
     (case bound_unit d of
        None \<Rightarrow> False
      | Some v \<Rightarrow>
          (case fst (fresh ''systemd.unit'' [(''service'', v)] rn) of
             Inl e \<Rightarrow> False
           | Inr x \<Rightarrow> cr_status x = ''OK'' \<and> dict_get (cr_fields x) ''active_state'' \<noteq> Some (PStr ''active'')))"

lemma rests_on_deepest: "rests_on c d = deepest c d"
proof
  fix cid
  have ll: "ls \<noteq> [] \<Longrightarrow> \<exists>above. ls = above @ [last ls]" for ls :: "causal_link list" by (metis append_butlast_last_id)
  show "rests_on c d cid = deepest c d cid"
    using ll by (fastforce simp: rests_on_def deepest_def split: option.splits)
qed

lemma recent_iff: "(\<lambda>sid. \<not> too_old (evidence_age c sid)) = recent c"
  by (auto simp: recent_def too_old_def evidence_age_def age_of_def MAX_EVIDENCE_AGE_def not_less fun_eq_iff split: option.splits)

lemma filter_role: "(filter (\<lambda>x. P x) xs = []) = list_all (\<lambda>x. \<not> P x) xs"
  by (simp add: filter_empty_conv list_all_iff)

lemma picture_none:
  "picture_reasons c d = [] \<longleftrightarrow>
     rd_kind d \<notin> {Some ''UNDIAGNOSED'', Some ''CONTRADICTING'', Some ''TRANSIENT''} \<and> rd_role d \<in> {''PRIMARY'', ''INDEPENDENT''}
     \<and> rd_confidence d = ''HIGH'' \<and> rd_chain_ids d \<noteq> [] \<and> list_all (rests_on c d) (rd_chain_ids d)
     \<and> list_all (\<lambda>x. rd_role x \<noteq> ''CONTRADICTING'') (gc_diagnoses c)"
proof -
  have k: "(case rd_kind d of
        Some k \<Rightarrow> if k \<in> {''UNDIAGNOSED'', ''CONTRADICTING'', ''TRANSIENT''}
                  then [''The diagnosis is '' @ k @ '': nothing is fixed on an unexplained, contradicting or transient picture.''] else []
      | None \<Rightarrow> []) = [] \<longleftrightarrow> rd_kind d \<notin> {Some ''UNDIAGNOSED'', Some ''CONTRADICTING'', Some ''TRANSIENT''}"
    by (cases "rd_kind d") simp_all
  have x: "(case filter (\<lambda>x. rd_role x = ''CONTRADICTING'') (gc_diagnoses c) of
          [] \<Rightarrow> []
        | x # _ \<Rightarrow> [''Contradicting evidence was found ('' @ rd_title x @ ''): no fix is shown while the evidence disagrees.'']) = []
      \<longleftrightarrow> list_all (\<lambda>x. rd_role x \<noteq> ''CONTRADICTING'') (gc_diagnoses c)"
    unfolding filter_role [symmetric] by (simp split: list.splits)
  show ?thesis unfolding picture_reasons_def append_is_Nil_conv k x by (simp del: insert_iff)
qed

lemma evidence_none:
  "evidence_reasons c d = [] \<longleftrightarrow>
     \<not> gc_replay c \<and> rd_evidence d \<noteq> [] \<and> list_all (\<lambda>sid. \<not> too_old (evidence_age c sid)) (rd_evidence d)"
proof (cases "find (\<lambda>sid. too_old (evidence_age c sid)) (rd_evidence d)")
  case None
  then have "list_all (\<lambda>sid. \<not> too_old (evidence_age c sid)) (rd_evidence d)" by (auto simp: find_None_iff list_all_iff)
  then show ?thesis using None by (simp add: evidence_reasons_def)
next
  case (Some s)
  then have "s \<in> set (rd_evidence d)" "too_old (evidence_age c s)" by (auto simp: find_Some_iff)
  then show ?thesis using Some by (auto simp: evidence_reasons_def list_all_iff)
qed

lemma meta_of_cases:
  "meta_of pid = (if pid = Some ''proc.service.start-stopped-service'' then Some (snd (hd SLICE5_PROCEDURES)) else None)"
  by (cases pid) (auto simp: meta_of_def SLICE5_PROCEDURES_def the_default_def dict_get_def)

lemma registered_meta: "s5_topology (snd (hd SLICE5_PROCEDURES)) = []" "s5_revalidate (snd (hd SLICE5_PROCEDURES)) = Some (''systemd.unit'', ''service'')"
  by (simp_all add: SLICE5_PROCEDURES_def)

lemma may_fix_iff:
  "may_fix c d pid \<longleftrightarrow> rd_subject d = this_server (gc_me c) \<and> rd_scope d = ''local'' \<and> standing_reasons c d pid = []"
  unfolding standing_reasons_def append_is_Nil_conv picture_none evidence_none rests_on_deepest recent_iff meta_of_cases
  by (auto simp: may_fix_def this_server_def topology_reasons_def registered_meta)

lemma recheck_unit:
  "recheck fresh d (''systemd.unit'', ''service'') rn =
     (case bound_unit d of
        None \<Rightarrow> (Inr (recheck_reasons ''systemd.unit'' None), rn)
      | Some v \<Rightarrow> (case fresh ''systemd.unit'' [(''service'', v)] rn of
                     (r, rn') \<Rightarrow> (map_sum id (\<lambda>x. recheck_reasons ''systemd.unit'' (Some x)) r, rn')))"
  by (auto simp: recheck_def bound_unit_def the_default_def Let_def split: option.splits)

lemma recheck_iff: "fst (recheck fresh d (''systemd.unit'', ''service'') rn) = Inr [] \<longleftrightarrow> still_stopped fresh d rn"
proof (cases "bound_unit d")
  case None
  then show ?thesis by (simp add: recheck_unit still_stopped_def recheck_reasons_def)
next
  case (Some v)
  obtain r rn' where r: "fresh ''systemd.unit'' [(''service'', v)] rn = (r, rn')" by fastforce
  show ?thesis using Some r by (cases r) (auto simp: recheck_unit still_stopped_def recheck_reasons_def OK_def)
qed

lemma gate_run:
  "resolution_gate fresh c d pid rn =
     (if \<not> (rd_subject d = this_server (gc_me c) \<and> rd_scope d = ''local'') then (Inr [elsewhere_reason d], rn)
      else if may_fix c d pid \<and> the_default [] pid \<noteq> [] then recheck fresh d (''systemd.unit'', ''service'') rn
      else (Inr (standing_reasons c d pid), rn))"
proof (cases "rd_subject d = this_server (gc_me c) \<and> rd_scope d = ''local''")
  case True
  then have m: "may_fix c d pid \<longleftrightarrow> standing_reasons c d pid = []" by (simp add: may_fix_iff)
  have live: "may_fix c d pid \<Longrightarrow> \<not> gc_replay c" "may_fix c d pid \<Longrightarrow> the_default [] pid \<noteq> [] \<Longrightarrow> pid = Some ''proc.service.start-stopped-service''"
    by (auto simp: may_fix_def)
  show ?thesis
  proof (cases "pid = Some ''proc.service.start-stopped-service''")
    case reg: True
    have "(\<not> gc_replay c \<and> standing_reasons c d pid = []) = may_fix c d pid" using live(1) m by blast
    then show ?thesis using True reg unfolding resolution_gate_def Let_def meta_of_cases
      by (simp add: registered_meta the_default_def)
  next
    case False
    then have n: "(may_fix c d pid \<and> the_default [] pid \<noteq> []) = False" using live(2) by blast
    show ?thesis using True False unfolding resolution_gate_def Let_def meta_of_cases n by simp
  qed
qed (auto simp: resolution_gate_def)

lemma gate_iff:
  "fst (resolution_gate fresh c d pid rn) = Inr [] \<longleftrightarrow> may_fix c d pid \<and> (the_default [] pid = [] \<or> still_stopped fresh d rn)"
  unfolding gate_run using may_fix_iff [of c d pid] recheck_iff [of fresh d rn] by auto

lemma gate_touches:
  "snd (resolution_gate fresh c d pid rn) =
     (case bound_unit d of
        None \<Rightarrow> rn
      | Some v \<Rightarrow> if may_fix c d pid \<and> the_default [] pid \<noteq> [] then snd (fresh ''systemd.unit'' [(''service'', v)] rn) else rn)"
  unfolding gate_run using may_fix_iff [of c d pid]
  by (auto simp: recheck_unit split: option.splits prod.splits)

section \<open>The limits on an offer\<close>

definition unit_command :: "string \<Rightarrow> string list \<Rightarrow> bool" where
  "unit_command verb argv = (\<exists>u. argv = [''systemctl'', verb, u] \<and> \<not> list_ex (\<lambda>rx. rx_found rx (join '' '' argv)) FORBIDDEN)"

definition offer_limited :: "resolution \<Rightarrow> bool" where
  "offer_limited r =
     (list_all (\<lambda>s. unit_command ''start'' (fs_argv s) \<and> fs_run_on s = PStr ''local'') (rz_steps r)
      \<and> list_all (\<lambda>e. case rb_argv e of None \<Rightarrow> True | Some a \<Rightarrow> a = [] \<or> unit_command ''stop'' a) (rz_rollback r)
      \<and> (rz_risk r = PStr ''HIGH'' \<longrightarrow> rz_rollback r \<noteq> [] \<and> rz_confirm_first r \<noteq> []))"

lemma three_words: "length argv = 3 \<Longrightarrow> argv = [hd argv, argv ! 1, argv ! 2]"
  by (cases argv; cases "tl argv"; cases "tl (tl argv)") auto

lemma command_none:
  assumes "command_problems (argv, [verb]) = []"
  shows "unit_command verb argv"
proof -
  have a: "argv \<noteq> []" "hd argv = ''systemctl''" "length argv = 3" "argv ! 1 = verb"
      "\<not> list_ex (\<lambda>rx. rx_found rx (join '' '' argv)) FORBIDDEN"
    using assms by (auto simp: command_problems_def ALLOWED_PROGRAMS_def split: if_splits)
  have "argv = [''systemctl'', verb, argv ! 2]" using three_words [OF a(3)] a(2,4) by simp
  then show ?thesis unfolding unit_command_def using a(5) by blast
qed

lemma sorted_dedup_empty: "sort (dedup xs) = [] \<longleftrightarrow> xs = []"
proof -
  have "set (sort (dedup xs)) = set xs" by simp
  then show ?thesis by (metis set_empty)
qed

lemma check_offered_limits:
  assumes "check_offered r = []"
  shows "offer_limited r"
proof -
  have nil: "concat (map command_problems (offered_commands r))
        @ map (\<lambda>s. ''A step would not run on this server.'') (filter (\<lambda>s. fs_run_on s \<noteq> PStr ''local'') (rz_steps r))
        @ (if rz_risk r = PStr ''HIGH'' \<and> (rz_rollback r = [] \<or> rz_confirm_first r = [])
           then [''A HIGH-risk procedure needs a rollback and a backup/confirmation step.''] else []) = []"
    using assms unfolding check_offered_def sorted_dedup_empty .
  have cmds: "\<And>x. x \<in> set (offered_commands r) \<Longrightarrow> command_problems x = []" using nil by simp
  have here: "list_all (\<lambda>s. fs_run_on s = PStr ''local'') (rz_steps r)" using nil by (simp add: filter_empty_conv list_all_iff)
  have risk: "rz_risk r = PStr ''HIGH'' \<longrightarrow> rz_rollback r \<noteq> [] \<and> rz_confirm_first r \<noteq> []" using nil by (simp split: if_splits)
  have "unit_command ''start'' (fs_argv s)" if "s \<in> set (rz_steps r)" for s
    using that by (intro command_none cmds) (simp add: offered_commands_def ALLOWED_SYSTEMCTL_def)
  moreover have "a = [] \<or> unit_command ''stop'' a" if "e \<in> set (rz_rollback r)" "rb_argv e = Some a" for e a
  proof (cases a)
    case (Cons x xs)
    have "unit_command ''stop'' (x # xs)"
      using that unfolding Cons by (intro command_none cmds) (force simp: offered_commands_def map_filter_def image_iff)
    then show ?thesis unfolding Cons by simp
  qed simp
  ultimately show ?thesis
    using here risk by (auto simp: offer_limited_def list_all_iff split: option.splits)
qed


section \<open>One diagnosis, and all of them\<close>

text \<open>What holds of a fix that the replication mode shows.\<close>

definition fix_gated ::
  "(string \<Rightarrow> pydict \<Rightarrow> 'r \<Rightarrow> (exn + check_result) \<times> 'r) \<Rightarrow> gate_ctx \<Rightarrow> repl_diagnosis \<Rightarrow> 'r \<Rightarrow> resolution \<Rightarrow> bool" where
  "fix_gated fresh c d rn r =
     (offer_limited r \<and> may_fix c d (Some ''proc.service.start-stopped-service'') \<and> still_stopped fresh d rn)"

lemma settle_offer_offered:
  "settle_offer env diags d proc r0 = (r, g) \<Longrightarrow> rz_status r = OFFERED \<Longrightarrow> r = r0 \<and> offer_limited r"
  using check_offered_limits [of r0]
  by (auto simp: settle_offer_def Let_def withdrawn_def OFFERED_def WITHHELD_def split: if_splits)

lemma internal_error_status: "rz_status (internal_error d e) = WITHHELD"
  by (simp add: internal_error_def because_def new_resolution_def)

lemma not_offered: "rz_status (new_resolution i WITHHELD) \<noteq> OFFERED" "rz_status (new_resolution i NONE) \<noteq> OFFERED"
  by (simp_all add: new_resolution_def WITHHELD_def NONE_def OFFERED_def)

lemma withheld_status: "withheld_by_gate replay i pid proc rs = Inr r \<Longrightarrow> rz_status r \<noteq> OFFERED"
  by (auto simp: withheld_by_gate_def bind_exn_def new_resolution_def WITHHELD_def OFFERED_def split: sum.splits)

lemma resolve_gated_offered:
  assumes "resolve_gated fresh en cat info env c d variant pid proc rn = (Inr (Some (r, g)), rn')" "rz_status r = OFFERED"
  shows "fst (resolution_gate fresh c d (case pid of PStr s \<Rightarrow> Some s | _ \<Rightarrow> None) rn) = Inr [] \<and> offer_limited r"
proof -
  obtain m rn1 where gate: "resolution_gate fresh c d (case pid of PStr s \<Rightarrow> Some s | _ \<Rightarrow> None) rn = (m, rn1)" by fastforce
  obtain reasons where m: "m = Inr reasons" using assms(1) gate by (cases m) (simp_all add: resolve_gated_def)
  obtain ed where ed: "engine_diagnosis (gc_diagnoses c) d variant = Inr ed"
    using assms(1) gate m by (cases "engine_diagnosis (gc_diagnoses c) d variant") (simp_all add: resolve_gated_def)
  have none: "reasons = []"
  proof (rule ccontr)
    assume "reasons \<noteq> []"
    then have "\<exists>r0. withheld_by_gate (gc_replay c) (d_diagnosis_id ed) pid proc reasons = Inr r0 \<and> r = r0"
      using assms(1) gate m ed
      by (auto simp: resolve_gated_def bind_exn_def split: prod.splits sum.splits if_splits)
    then show False using withheld_status assms(2) by blast
  qed
  have "\<exists>r0 g0. settle_offer env (gc_diagnoses c) d proc r0 = (r, g0)"
  proof -
    obtain a rn2 where run: "resolve_diagnosis en cat (Some info) ed rn1 = (a, rn2)" by fastforce
    show ?thesis
    proof (cases a)
      case (Inl e)
      then show ?thesis using assms(1) gate m ed none run by (cases e) (auto simp: resolve_gated_def map_prod_def split: prod.splits)
    next
      case (Inr o')
      then show ?thesis using assms(1) gate m ed none run by (cases o') (auto simp: resolve_gated_def map_prod_def split: prod.splits)
    qed
  qed
  then have "offer_limited r" using settle_offer_offered assms(2) by blast
  then show ?thesis using gate m none by simp
qed

text \<open>Every entry of a loaded catalogue has a text as its id.\<close>

definition named_entry :: "pyval \<Rightarrow> bool" where
  "named_entry p = (is_dict p \<and> (\<exists>s. fld p ''id'' = PStr s \<and> s \<noteq> []))"

lemma empty_id_invalid: "\<not> rx_full id_rx []"
  by code_simp

lemma loaded_named:
  assumes "load_catalogue reg show_exn source None = (cat, err)" "p \<in> set cat"
  shows "named_entry p"
proof (cases "bind_exn source (validate_catalogue reg)")
  case (Inr c)
  then obtain data where data: "validate_catalogue reg data = Inr c" by (auto simp: bind_exn_Inr)
  have "c = cat" using assms(1) Inr by (simp add: load_catalogue_def)
  then have v: "validate_procedure reg p = Inr ()" using conjunct1 [OF validate_catalogue_Inr [OF data]] assms(2) by simp
  then obtain s where s: "fld p ''id'' = PStr s" "rx_full id_rx s" using validate_procedure_id by blast
  moreover have "s \<noteq> []" using s(2) empty_id_invalid by auto
  ultimately show ?thesis using validate_procedure_dict [OF v] by (simp add: named_entry_def)
qed (use assms in \<open>simp add: load_catalogue_def\<close>)

lemma get_item_fld: "get_item p k = Inr v \<Longrightarrow> v = fld p k"
  by (auto simp: get_item_def fld_def the_default_def split: pyval.splits option.splits)

lemma expected_named:
  assumes "\<And>p. p \<in> set cat \<Longrightarrow> named_entry p" "expected_procedure cat key v = Inr pid" "pid \<noteq> PNone"
  shows "\<exists>s. pid = PStr s \<and> s \<noteq> []"
proof -
  obtain k where k: "key = Some k" using assms(2,3) by (cases key) (simp_all add: expected_procedure_def)
  obtain p where p: "procedure_for cat (with_variant v) k = Inr (Some p)" "get_item p ''id'' = Inr pid"
    using assms(2,3) k by (auto simp: expected_procedure_def bind_exn_Inr split: option.splits)
  have "p \<in> set cat" using procedure_for_selects [OF p(1)] by simp
  then show ?thesis using assms(1) get_item_fld [OF p(2)] by (auto simp: named_entry_def)
qed

lemma py_eq_none: "py_eq (PStr s) PNone = False"
  by (simp add: py_eq.simps num_key_def)

lemma no_entry_without_id:
  "(\<And>p. p \<in> set cat \<Longrightarrow> named_entry p) \<Longrightarrow> procedure_by_id cat PNone = Inr None"
proof (induction cat)
  case (Cons p ps)
  have "named_entry p" using Cons.prems by simp
  then obtain d s where "p = PDict d" "fld p ''id'' = PStr s" unfolding named_entry_def by (cases p) auto
  then have "get_or p ''id'' PNone = Inr (PStr s)" by (simp add: get_or_def fld_def)
  then show ?case using Cons by (simp add: bind_exn_def py_eq_none)
qed simp

lemma resolve_one_offered:
  assumes "resolve_one fresh en cat info env c d rn = (Inr (Some (r, g)), rn')" "rz_status r = OFFERED"
    and named: "\<And>p. p \<in> set cat \<Longrightarrow> named_entry p"
  shows "fix_gated fresh c d rn r"
proof -
  let ?v = "if starts_with (the_default [] (rd_resolution_key d)) ''healthcheck.'' then rd_variant d else None"
  have key: "the_default [] (rd_resolution_key d) \<noteq> []" using assms(1) by (auto simp: resolve_one_def)
  obtain pid where pid: "expected_procedure cat (rd_resolution_key d) ?v = Inr pid"
    using assms(1) key by (cases "expected_procedure cat (rd_resolution_key d) ?v") (simp_all add: resolve_one_def Let_def bind_exn_def)
  obtain p where p: "procedure_by_id cat pid = Inr p"
    using assms(1) key pid by (cases "procedure_by_id cat pid") (simp_all add: resolve_one_def Let_def bind_exn_def)
  obtain proc where proc: "p = Some proc" using assms(1) key pid p by (cases p) (simp_all add: resolve_one_def Let_def bind_exn_def)
  have gated: "resolve_gated fresh en cat info env c d ?v pid proc rn = (Inr (Some (r, g)), rn')"
  proof (cases "dict_get (as_dict proc) ''kind'' = Some (PStr ''no_procedure'')")
    case True
    then have "\<exists>why. r = (new_resolution (''replication.'' @ rd_key d) NONE)\<lparr>rz_procedure_id := pid, rz_reasons := [py_str why]\<rparr>"
      using assms(1) key pid p proc by (auto simp: resolve_one_def Let_def bind_exn_def split: sum.splits)
    then show ?thesis using assms(2) by (auto simp: new_resolution_def NONE_def OFFERED_def)
  next
    case False
    then show ?thesis using assms(1) key pid p proc by (simp add: resolve_one_def Let_def bind_exn_def)
  qed
  note g = resolve_gated_offered [OF gated assms(2)]
  let ?pid = "case pid of PStr s \<Rightarrow> Some s | _ \<Rightarrow> None"
  have may: "may_fix c d ?pid" using g gate_iff [of fresh c d ?pid rn] by simp
  have "pid \<noteq> PNone" using p proc no_entry_without_id [of cat] named by auto
  then obtain s where s: "pid = PStr s" "s \<noteq> []" using expected_named [of cat, OF named pid] by blast
  then have "may_fix c d (Some s)" using may by simp
  moreover from this have "s = ''proc.service.start-stopped-service''" using s(2) by (simp add: may_fix_def the_default_def)
  moreover have "still_stopped fresh d rn" using g gate_iff [of fresh c d ?pid rn] s by (simp add: the_default_def)
  ultimately show ?thesis unfolding fix_gated_def using g by blast
qed

text \<open>Each diagnosis is resolved in the state the ones before it left.\<close>

lemma resolve_fixes_turn:
  assumes "resolve_fixes one ds found rn = (Inr out, rn')" "dict_get (fst out) key = Some r"
  shows "dict_get (fst found) key = Some r
     \<or> (\<exists>k rn1 g. k < length ds \<and> rd_key (ds ! k) = key
          \<and> one (ds ! k) (snd (resolve_fixes one (take k ds) found rn)) = (Inr (Some (r, g)), rn1))"
  using assms
proof (induction one ds found rn rule: resolve_fixes.induct)
  case (2 one d ds found rn)
  obtain o' rn1 where o: "one d rn = (Inr o', rn1)" using "2.prems"(1) by (auto split: prod.splits sum.splits)
  then have "resolve_fixes one ds (record_fix (rd_key d) o' found) rn1 = (Inr out, rn')" using "2.prems"(1) by simp
  from "2.IH" [OF o [symmetric] refl this "2.prems"(2)] consider
      (first) "dict_get (fst (record_fix (rd_key d) o' found)) key = Some r"
    | (later) k rn2 g where "k < length ds" "rd_key (ds ! k) = key"
        "one (ds ! k) (snd (resolve_fixes one (take k ds) (record_fix (rd_key d) o' found) rn1)) = (Inr (Some (r, g)), rn2)" by blast
  then show ?case
  proof cases
    case first
    show ?thesis
    proof (cases "dict_get (fst found) key = Some r")
      case False
      then have "\<exists>g. o' = Some (r, g) \<and> rd_key d = key"
        using first by (cases o') (auto simp: record_fix_def dict.get_set split: if_splits prod.splits)
      then show ?thesis using o by (intro disjI2 exI [of _ 0]) auto
    qed simp
  next
    case later
    then show ?thesis using o by (intro disjI2 exI [of _ "Suc k"]) auto
  qed
qed simp

definition gate_ctx_of ::
  "bool \<Rightarrow> repl_diagnosis list \<Rightarrow> cause_chain list \<Rightarrow> pydict \<Rightarrow> trace \<Rightarrow> topology \<Rightarrow> rat \<Rightarrow> gate_ctx" where
  "gate_ctx_of replay diags found_chains env tr topo now =
     \<lparr>gc_me = the_default [] (env_text env ''host''), gc_replay = replay, gc_trace = tr, gc_diagnoses = diags,
      gc_chains = dict_of (map (\<lambda>ch. (ch_chain_id ch, ch)) found_chains), gc_topology = topo, gc_now = now\<rparr>"

text \<open>The state of the runner when it is the turn of the diagnosis at position \<open>k\<close>.\<close>

definition repl_turn ::
  "(string \<Rightarrow> pydict \<Rightarrow> 'r \<Rightarrow> (exn + check_result) \<times> 'r) \<Rightarrow> 'r engine \<Rightarrow> catalogue \<Rightarrow> repl_diagnosis list \<Rightarrow> pydict \<Rightarrow> gate_ctx \<Rightarrow> nat \<Rightarrow> 'r \<Rightarrow> 'r" where
  "repl_turn fresh en cat diags env c k rn =
     snd (resolve_fixes (resolve_one fresh en (fst cat) (repl_env_info (en_replay en) env) env c) (take k diags) ([], []) rn)"

section \<open>Gaps\<close>

text \<open>
  A step is accounted for. It has a verdict; or it was not run, and that needs no answer: no privilege was missing, nothing stopped
  the run and the step was not inapplicable, but for an agreement that binds another way and a host that is no IPA server; or it was
  blocked by a step that is accounted for itself. A chain of blocked steps is followed over \<open>n\<close> steps.
\<close>

inductive accounted :: "trace \<Rightarrow> nat \<Rightarrow> step_record \<Rightarrow> bool" for t where
  verdict: "rc_outcome r \<in> {PASS, WARN, FAIL} \<Longrightarrow> accounted t n r"
| not_needed: "rc_outcome r = SKIPPED \<Longrightarrow> skip_kind r \<notin> {''privilege'', ''not applicable'', ''stopped'', ''blocked''} \<Longrightarrow> accounted t n r"
| other_bind: "rc_outcome r = SKIPPED \<Longrightarrow> starts_with (rc_skip_reason r) ''not applicable: the agreement binds with'' \<Longrightarrow> accounted t n r"
| no_server: "rc_outcome r = SKIPPED \<Longrightarrow> starts_with (rc_skip_reason r) ''stopped: this host is not an IPA server'' \<Longrightarrow> accounted t n r"
| blocked: "rc_outcome r = SKIPPED \<Longrightarrow> skip_kind r = ''blocked'' \<Longrightarrow> rc_blocked_by r = Some s \<Longrightarrow> trace_get t s None = Some up \<Longrightarrow>
     accounted t n up \<Longrightarrow> accounted t (Suc n) r"
| too_deep: "rc_outcome r \<noteq> Out_UNKNOWN \<Longrightarrow> accounted t 0 r"

lemma outcome_cases: "x = Out_UNKNOWN \<or> x = SKIPPED \<or> x \<in> {PASS, WARN, FAIL}" by (cases x) auto

lemma not_gap_accounted: "\<not> gap n t r \<Longrightarrow> accounted t n r"
proof (induction n t r rule: gap.induct)
  case (1 t r)
  then show ?case by (auto intro: accounted.too_deep)
next
  case (2 n t r)
  then have u: "rc_outcome r \<noteq> Out_UNKNOWN" by auto
  show ?case
  proof (cases "rc_outcome r = SKIPPED")
    case False
    then have "rc_outcome r \<in> {PASS, WARN, FAIL}" using u outcome_cases by blast
    then show ?thesis by (rule accounted.verdict)
  next
    case True
    consider (priv) "skip_kind r \<in> {''privilege'', ''not applicable''}" | (stop) "skip_kind r = ''stopped''" | (block) "skip_kind r = ''blocked''"
      | (other) "skip_kind r \<notin> {''privilege'', ''not applicable'', ''stopped'', ''blocked''}" by blast
    then show ?thesis
    proof cases
      case priv
      then show ?thesis using "2.prems" True by (auto intro: accounted.other_bind)
    next
      case stop
      then show ?thesis using "2.prems" True by (auto intro: accounted.no_server)
    next
      case block
      have k: "skip_kind r \<notin> {''privilege'', ''not applicable''}" "skip_kind r \<noteq> ''stopped''" using block by simp_all
      obtain s up where b: "rc_blocked_by r = Some s" "s \<noteq> []" "trace_get t s None = Some up" "\<not> gap n t up"
        using "2.prems" u True block k by (auto split: option.splits if_splits)
      have "accounted t n up" using "2.IH" [OF u _ k block b(1,2,3)] True b(4) by simp
      then show ?thesis using True block b(1,3) by (rule accounted.blocked [rotated -1])
    next
      case other
      then show ?thesis using True by (intro accounted.not_needed)
    qed
  qed
qed

lemma no_local_gap:
  assumes "local_gap t sid = []" "trace_get t sid None = Some r"
  shows "accounted t 21 r"
  using assms by (intro not_gap_accounted) (auto simp: local_gap_def Let_def is_gap_def split: if_splits)

lemma agreements_complete:
  assumes "local_gap t ''agreements'' = []" "trace_get t ''agreements'' None = Some r" "rc_outcome r \<in> {PASS, WARN}"
  shows "dict_get (rc_facts r) ''complete'' = Some (PBool True) \<and> dict_get (rc_facts r) ''peer_found'' \<noteq> Some (PBool False)"
  using assms by (auto simp: local_gap_def Let_def split: if_splits)

lemma topology_confirmed: "local_gap t ''topology'' = [] \<Longrightarrow> trace_get t ''topology'' None = Some r \<Longrightarrow> rc_outcome r \<noteq> WARN"
  by (auto simp: local_gap_def Let_def split: if_splits)

lemma no_subject_gap: "subject_gap t subj base = [] \<Longrightarrow> trace_get t base (Some subj) = Some r \<Longrightarrow> accounted t 21 r"
  by (intro not_gap_accounted) (auto simp: subject_gap_def is_gap_def split: if_splits)

lemma no_principals_gap: "principals_gap t = [] \<Longrightarrow> trace_get t ''principals'' None = Some r \<Longrightarrow> accounted t 21 r"
  by (intro not_gap_accounted) (auto simp: principals_gap_def is_gap_def split: if_splits)

text \<open>The checks an answer needs: those of this server, and those of each of its agreements.\<close>

definition own_checks :: "string list" where
  "own_checks = [''server'', ''local.ds'', ''local.kdc'', ''local.storage'', ''local.keytab'', ''topology'', ''agreements'', ''principals'']"

definition agreement_checks :: "string list" where
  "agreement_checks = [''peer.dns'', ''peer.port'', ''peer.rootdse'', ''gssapi'']"

lemma no_gap_own:
  assumes "not_verified t rev_states = []" "sid \<in> set own_checks" "trace_get t sid None = Some r"
  shows "accounted t 21 r"
proof (cases "sid = ''principals''")
  case True
  then show ?thesis using no_principals_gap assms by (auto simp: not_verified_def Let_def)
next
  case False
  then have "sid \<in> set LOCAL_ESSENTIAL" using assms(2) by (auto simp: own_checks_def LOCAL_ESSENTIAL_def)
  then have "local_gap t sid = []" using assms(1) by (simp add: not_verified_def Let_def)
  then show ?thesis using no_local_gap assms(3) by blast
qed

section \<open>Properties\<close>

text \<open>C18: The resolution safety gate of the replication mode lets a diagnosis through exactly when all of this holds: its subject is
  this server; it is local, a root (PRIMARY or INDEPENDENT), of HIGH confidence and not undiagnosed, contradicting or transient; it names
  cause chains, and the last link of every one is on its subject and capability and has evidence; no diagnosis of the run is
  contradicting; the evidence is live, named, and every piece was collected at most 300 seconds ago (or at most 5 seconds ahead of this
  clock); there is no procedure, or it is the one that starts a stopped service, and then the diagnosis names a unit and the
  check of that unit, made fresh in this very state, answered OK and did not find it active. The unit is checked only when all of the
  other conditions hold: otherwise the runner is not touched.\<close>

theorem repl_gate_passes_iff:
  "(fst (resolution_gate fresh c d pid rn) = Inr [] \<longleftrightarrow> may_fix c d pid \<and> (the_default [] pid = [] \<or> still_stopped fresh d rn))
   \<and> snd (resolution_gate fresh c d pid rn) =
       (case bound_unit d of
          None \<Rightarrow> rn
        | Some v \<Rightarrow> if may_fix c d pid \<and> the_default [] pid \<noteq> [] then snd (fresh ''systemd.unit'' [(''service'', v)] rn) else rn)"
  by (intro conjI gate_iff gate_touches)


text \<open>C24: A run of a plan is reported as HEALTHY only when it left nothing open: this host is an IPA server and there is no diagnosis;
  every step of the plan among the checks of this server (server, Directory Server, KDC, storage, keytab, topology,
  agreements, principals) has a record and is accounted for; the topology was confirmed, and agreements that were read, were read
  completely; and for a template "agreement" of the plan, the enumeration is complete (or the step that lists them did not run), and
  for every agreement its reverse direction is not unknown and each of its four checks that the template has (name, port, root DSE,
  GSSAPI) has a record and is accounted for. A step that was not run for lack of privilege, was stopped, or was blocked by one that is
  not accounted for is not (a chain of more than 21 blocked steps is not followed further).\<close>

theorem healthy_is_complete:
  assumes "run_plan (plan_env src clock utc reg) reg plan inputs is_root max_seconds max_steps hint w = Inr (t, w')"
    "investigation_status diags (not_verified t rev_states = []) server = ''HEALTHY''"
  shows "server \<and> diags = []
    \<and> (\<forall>s. PStep s \<in> set plan \<and> st_step_id s \<in> set own_checks \<longrightarrow> (\<exists>r. trace_get t (st_step_id s) None = Some r \<and> accounted t 21 r))
    \<and> (\<forall>r. trace_get t ''topology'' None = Some r \<longrightarrow> rc_outcome r \<noteq> WARN)
    \<and> (\<forall>r. trace_get t ''agreements'' None = Some r \<and> rc_outcome r \<in> {PASS, WARN} \<longrightarrow> dict_get (rc_facts r) ''complete'' = Some (PBool True))
    \<and> (\<forall>fe. PForEach fe \<in> set plan \<and> fe_template_id fe = ''agreement'' \<longrightarrow>
         (\<exists>e. dict_get (tr_enumerations t) ''agreement'' = Some e \<and> en_status e \<in> {''COMPLETE'', ''NOT_ASKED''}
            \<and> (\<forall>subj \<in> set (en_subjects e). dict_get rev_states subj \<noteq> Some ''UNKNOWN''
                 \<and> (\<forall>s \<in> set (fe_steps fe). st_step_id s \<in> set agreement_checks \<longrightarrow>
                      (\<exists>r. trace_get t (st_step_id s) (Some subj) = Some r \<and> accounted t 21 r)))))"
proof -
  note facts = run_plan_facts [OF assms(1)] and keys = run_plan_keyed [OF assms(1)]
  have s: "server" "diags = []" and none: "not_verified t rev_states = []"
    using assms(2) by (auto simp: investigation_status_def split: if_splits)
  have local: "local_gap t sid = []" if "sid \<in> set LOCAL_ESSENTIAL" for sid
    using none that by (simp add: not_verified_def Let_def)
  have ag: "local_gap t ''agreements'' = []" "local_gap t ''topology'' = []" by (rule local; simp add: LOCAL_ESSENTIAL_def)+
  have own: "\<exists>r. trace_get t (st_step_id s) None = Some r \<and> accounted t 21 r" if "PStep s \<in> set plan" "st_step_id s \<in> set own_checks" for s
    using step_recorded [OF facts that(1)] no_gap_own [OF none that(2)] by blast
  have each: "\<exists>e. dict_get (tr_enumerations t) ''agreement'' = Some e \<and> en_status e \<in> {''COMPLETE'', ''NOT_ASKED''}
            \<and> (\<forall>subj \<in> set (en_subjects e). dict_get rev_states subj \<noteq> Some ''UNKNOWN''
                 \<and> (\<forall>s \<in> set (fe_steps fe). st_step_id s \<in> set agreement_checks \<longrightarrow>
                      (\<exists>r. trace_get t (st_step_id s) (Some subj) = Some r \<and> accounted t 21 r)))"
    if fe: "PForEach fe \<in> set plan" "fe_template_id fe = ''agreement''" for fe
  proof -
    have "items_ok plan (tr_enumerations t)" using facts by (simp add: run_facts_def)
    then obtain e where e: "dict_get (tr_enumerations t) ''agreement'' = Some e"
      using fe by (force simp: items_ok_def list_all_iff split: option.splits)
    have "en_status e \<in> {''COMPLETE'', ''NOT_ASKED''}"
      using none e by (auto simp: not_verified_def Let_def enumeration_gap_def split: if_splits)
    moreover have "dict_get rev_states subj \<noteq> Some ''UNKNOWN''" if "subj \<in> set (en_subjects e)" for subj
      using none e that by (auto simp: not_verified_def Let_def reverse_gap_def split: if_splits)
    moreover have "\<exists>r. trace_get t (st_step_id s) (Some subj) = Some r \<and> accounted t 21 r"
      if i: "subj \<in> set (en_subjects e)" "s \<in> set (fe_steps fe)" "st_step_id s \<in> set agreement_checks" for subj s
    proof -
      have "subject_gap t subj (st_step_id s) = []"
        using none e i by (auto simp: not_verified_def Let_def SUBJECT_ESSENTIAL_def agreement_checks_def)
      moreover have "dict_get (tr_enumerations t) (fe_template_id fe) = Some e" using e fe(2) by simp
      then obtain r where "trace_get t (st_step_id s) (Some subj) = Some r"
        using instance_recorded [OF facts keys fe(1) i(2) _ i(1)] by blast
      ultimately show ?thesis using no_subject_gap by blast
    qed
    ultimately show ?thesis using e by blast
  qed
  show ?thesis using s own each topology_confirmed [OF ag(2)] agreements_complete [OF ag(1)] by blast
qed

section \<open>A stopped KDC\<close>

text \<open>A catalogue with one entry that starts a stopped service (the shipped one without its longer texts and further checks), and
  an investigation on a server whose \<open>krb5kdc\<close> is stopped.\<close>

definition start_entry :: pyval where
  "start_entry =
     PDict [(''kind'', PStr ''procedure''), (''id'', PStr ''proc.service.start-stopped-service''), (''title'', PStr ''Start it''),
       (''resolves'', PDict [(''diagnosis'', PStr ''healthcheck.service-not-running'')]), (''min_confidence'', PStr ''HIGH''),
       (''bindings'', PDict [(''service'', PDict [(''type'', PStr ''ipa_service'')])]),
       (''applies_to'', PDict [(''freeipa_min'', PStr ''4.9''), (''roles'', PList [PStr ''ipa-server''])]),
       (''provenance'', built_in),
       (''investigate'', PList [PDict [(''id'', PStr ''unit''), (''check'', PStr ''systemd.unit''),
          (''params'', PDict [(''service'', PDict [(''bind'', PStr ''service'')])]), (''label'', PStr ''Unit'')]]),
       (''steps'', PList [PDict [(''id'', PStr ''start-unit''), (''text'', PStr ''Start it''), (''run_on'', PStr ''local''),
          (''command'', PList [PStr ''systemctl'', PStr ''start'',
             PDict [(''ref'', PStr ''unit''), (''field'', PStr ''unit''), (''type'', PStr ''systemd_unit'')]]),
          (''risk'', PStr ''MEDIUM''), (''changes'', PList [PStr ''service-start'']), (''expected'', PStr ''It runs'')]]),
       (''what_changes'', PList []),
       (''rollback'', PList [PDict [(''text'', PStr ''Stop it''), (''command'', PList [PStr ''systemctl'', PStr ''stop'',
             PDict [(''ref'', PStr ''unit''), (''field'', PStr ''unit''), (''type'', PStr ''systemd_unit'')]])]]),
       (''verify'', PList [PDict [(''text'', PStr ''Active''), (''check'', PStr ''systemd.unit''),
          (''params'', PDict [(''service'', PDict [(''bind'', PStr ''service'')])]), (''when'', is_true_of ''this'' ''is_root'')]])]"

definition start_registry :: check_params_table where
  "start_registry = [(''systemd.unit'', [''service''])]"

definition start_source :: "exn + pyval" where
  "start_source = Inr (PDict [(''schema'', PInt 1), (''procedures'', PList [start_entry])])"

definition stopped_unit :: "string \<Rightarrow> check_result" where
  "stopped_unit i = res i [] OK [(''unit'', PStr ''a.service''), (''load_state'', PStr ''loaded''), (''active_state'', PStr ''inactive''),
     (''unit_file_state'', PStr ''enabled''), (''start_method'', PStr ''systemctl''), (''is_root'', PBool True)] [] []"

definition stopped_engine :: "unit engine" where
  "stopped_engine = \<lparr>en_run = (\<lambda>i ps rn. (Inr (stopped_unit (py_str i)), rn)), en_replay = False, en_sha256 = (\<lambda>s. ''0'')\<rparr>"

definition fresh_unit :: "string \<Rightarrow> pydict \<Rightarrow> unit \<Rightarrow> (exn + check_result) \<times> unit" where
  "fresh_unit i ps rn = (Inr (stopped_unit i), rn)"

definition kdc_down :: repl_diagnosis where
  "kdc_down = \<lparr>rd_code = ''LOCAL_KDC_NOT_RUNNING'', rd_subject = ''server:ipa01'', rd_title = ''KDC stopped'', rd_capability = ''LOCAL_KDC'',
     rd_severity = ''FAIL'', rd_confidence = ''HIGH'', rd_detail = ''krb5kdc is inactive.'', rd_impact = ''No tickets.'',
     rd_evidence = [''local.kdc''], rd_scope = ''local'', rd_kind = None, rd_chain_ids = [''chain-1''], rd_related_to = None,
     rd_explains = [], rd_next_steps = [], rd_handoff = None, rd_resolution_key = Some ''healthcheck.service-not-running'',
     rd_variant = None, rd_bindings = [(''service'', PStr ''krb5kdc'')], rd_role = ''PRIMARY''\<rparr>"

definition kdc_chain :: cause_chain where
  "kdc_chain = \<lparr>ch_chain_id = ''chain-1'', ch_subject = ''server:ipa01'',
     ch_links = [\<lparr>lk_claim = ''krb5kdc is not running'', lk_subject = ''server:ipa01'', lk_capability = ''LOCAL_KDC'', lk_evidence = [''local.kdc''],
        lk_discriminator = ''local-kdc-down'', lk_scope = ''local''\<rparr>], ch_boundary = [], ch_next_action = [], ch_handoff = None\<rparr>"

definition kdc_record :: step_record where
  "kdc_record = \<lparr>rc_step_id = ''local.kdc'', rc_capability = ''LOCAL_KDC'', rc_check = ''systemd.unit'', rc_title = ''KDC'', rc_why = [],
     rc_outcome = FAIL, rc_summary = ''krb5kdc is inactive'', rc_selected_because = [], rc_skip_reason = [], rc_params = [], rc_command = [],
     rc_seconds = 0, rc_collected_at = Some ''2026-01-02T03:04:05Z'', rc_source = ''LIVE'', rc_status = OK, rc_reused = False,
     rc_side_effects = [], rc_privilege = [], rc_facts = [], rc_fields = [], rc_attempts = 1, rc_blocked_by = None, rc_subject = None,
     rc_template = None, rc_base_step = None\<rparr>"

definition trace_of :: "step_record list \<Rightarrow> trace" where
  "trace_of rs = \<lparr>tr_records = rs, tr_stop_reason = [], tr_started_at = [], tr_seconds = 0, tr_max_steps = 120, tr_max_wall_seconds = 60,
     tr_checks_run = 1, tr_checks_reused = 0, tr_cancelled = False, tr_enumerations = []\<rparr>"

definition lab_env :: pydict where
  "lab_env = [(''host'', PStr ''ipa01''), (''freeipa'', PStr ''4.13.4''), (''os'', PStr ''fedora''), (''os_version'', PStr ''43'')]"

definition unread_topology :: topology where
  "unread_topology = \<lparr>tp_complete = False, tp_roles = [], tp_renewal_master = None, tp_dnssec_key_master = None, tp_articulation_points = []\<rparr>"

lemma start_loaded: "load_catalogue start_registry exn_name start_source None = ([start_entry], None)"
  by code_simp

definition kdc_run :: "(exn + fixes_found) \<times> unit" where
  "kdc_run = resolve_replication fresh_unit stopped_engine ([start_entry], None) [kdc_down] [kdc_chain] lab_env (trace_of [kdc_record])
     unread_topology (of_int (utc_seconds [2026, 1, 2, 3, 4, 15, 0])) ()"

text \<open>No forbidden operation is found in the two commands: each needs a letter they do not have (but for \<open>rm\<close>, which is evaluated).\<close>

primrec takes :: "(char \<Rightarrow> bool) \<Rightarrow> rx \<Rightarrow> bool" where
  "takes P (Cls q) = (q = P)"
| "takes P Eps = False"
| "takes P Bos = False"
| "takes P Eos = False"
| "takes P WordB = False"
| "takes P (Seq a b) = (takes P a \<or> takes P b)"
| "takes P (Alt a b) = (takes P a \<and> takes P b)"
| "takes P (Rep lo hi g r) = False"
| "takes P (Grp n r) = takes P r"

lemma takes_char: "rx_rel r s t \<Longrightarrow> takes P r \<Longrightarrow> \<exists>w c. took s w t \<and> c \<in> set w \<and> P c"
proof (induction rule: rx_rel.induct)
  case (cls p c d r g)
  then have "took (d, c # r, g) [c] (c # d, r, g)" "P c" by (simp_all add: took_def)
  then show ?case by (metis list.set_intros(1))
next
  case (seq a s t b u)
  obtain v v' where v: "took s v t" "took t v' u" using rx_rel_took seq.hyps by meson
  consider "takes P a" | "takes P b" using seq.prems by auto
  then show ?case
  proof cases
    case 1
    then obtain w c where "took s w t" "c \<in> set w" "P c" using seq.IH(1) by blast
    then have "took s (w @ v') u \<and> c \<in> set (w @ v') \<and> P c" using took_trans [OF _ v(2)] by simp
    then show ?thesis by blast
  next
    case 2
    then obtain w c where "took t w u" "c \<in> set w" "P c" using seq.IH(2) by blast
    then have "took s (v @ w) u \<and> c \<in> set (v @ w) \<and> P c" using took_trans [OF v(1)] by simp
    then show ?thesis by blast
  qed
next
  case (grp r s d t g n)
  then show ?case by (simp add: took_def)
qed simp_all

lemma takes_ci: "takes P r \<Longrightarrow> takes (\<lambda>c. P c \<or> P (lower_char c) \<or> P (upper_char c)) (ci r)"
  by (induction r) auto

lemma search_from_takes: "search_from r d s = Some t \<Longrightarrow> takes P r \<Longrightarrow> \<exists>c \<in> set s. P c"
proof (induction r d s rule: search_from.induct)
  case (1 r d)
  then have "t \<in> set (rx_m r (d, [], []))" by (auto split: list.splits)
  then have "rx_rel r (d, [], []) t" by (rule rx_m_sound)
  from takes_char [OF this 1(2)] show ?case by (auto simp: took_def)
next
  case (2 r d c s)
  show ?case
  proof (cases "rx_m r (d, c # s, [])")
    case Nil
    then show ?thesis using 2 by auto
  next
    case (Cons x xs)
    then have "rx_rel r (d, c # s, []) x" by (intro rx_m_sound) simp
    from takes_char [OF this "2.prems"(2)] obtain w k where "took (d, c # s, []) w x" "k \<in> set w" "P k" by blast
    then have "set w \<subseteq> set (c # s)" by (simp add: took_def)
    then show ?thesis using \<open>k \<in> set w\<close> \<open>P k\<close> by blast
  qed
qed

lemma letter_missing:
  assumes "takes (\<lambda>x. x = k) r" "list_all (\<lambda>c. c \<noteq> k \<and> lower_char c \<noteq> k \<and> upper_char c \<noteq> k) s"
  shows "\<not> rx_found (ci r) s"
proof
  assume "rx_found (ci r) s"
  then obtain t where "search_from (ci r) [] s = Some t" by (auto simp: rx_found_def rx_search_def)
  from search_from_takes [OF this takes_ci [OF assms(1)]] show False using assms(2) by (auto simp: list_all_iff)
qed

definition letters_missing :: "string \<Rightarrow> string \<Rightarrow> bool" where
  "letters_missing ks s = list_all (\<lambda>k. list_all (\<lambda>c. c \<noteq> k \<and> lower_char c \<noteq> k \<and> upper_char c \<noteq> k) s) ks"

lemma never_forbidden:
  assumes "letters_missing ''nfdk-u/h'' s" "\<not> rx_found (ci (seqs [WordB, lit ''rm'', Cls is_space])) s"
  shows "\<not> list_ex (\<lambda>rx. rx_found rx s) FORBIDDEN"
proof -
  have m: "\<not> rx_found (ci r) s" if "k \<in> set ''nfdk-u/h''" "takes (\<lambda>x. x = k) r" for k r
    using that(1) assms(1) unfolding letters_missing_def list_all_iff by (intro letter_missing [OF that(2)]) (unfold list_all_iff, blast)
  show ?thesis
    unfolding FORBIDDEN_def list_ex_Cons_iff list_ex_Nil_iff de_Morgan_disj
    by (intro conjI; ((rule assms(2)) | (rule m [of "CHR ''n''"], (simp; fail), (simp add: lit_def opt_def; fail)) |
        (rule m [of "CHR ''f''"], (simp; fail), (simp add: lit_def opt_def; fail)) |
        (rule m [of "CHR ''d''"], (simp; fail), (simp add: lit_def opt_def; fail)) |
        (rule m [of "CHR ''k''"], (simp; fail), (simp add: lit_def opt_def; fail)) |
        (rule m [of "CHR ''-''"], (simp; fail), (simp add: lit_def opt_def; fail)) |
        (rule m [of "CHR ''u''"], (simp; fail), (simp add: lit_def opt_def; fail)) |
        (rule m [of "CHR ''/''"], (simp; fail), (simp add: lit_def opt_def; fail)) |
        (rule m [of "CHR ''h''"], (simp; fail), (simp add: lit_def opt_def; fail)) | (simp; fail)))
qed

lemma unit_letters:
  assumes "set s \<subseteq> set ''systemclarvi.op ''"
  shows "letters_missing ''nfdk-u/h'' s"
proof -
  have "list_all (\<lambda>c. list_all (\<lambda>k. c \<noteq> k \<and> lower_char c \<noteq> k \<and> upper_char c \<noteq> k) ''nfdk-u/h'') ''systemclarvi.op ''"
    by (simp add: lower_char_def upper_char_def is_upper_def is_lower_def rng_def char_of_eq_iff)
  then show ?thesis using assms unfolding letters_missing_def list_all_iff by blast
qed

lemma unit_commands_pass:
  "command_problems ([''systemctl'', ''start'', ''a.service''], [''start'']) = []" "command_problems ([''systemctl'', ''stop'', ''a.service''], [''stop'']) = []"
proof -
  have "\<not> rx_found (ci (seqs [WordB, lit ''rm'', Cls is_space])) ''systemctl start a.service''"
      "\<not> rx_found (ci (seqs [WordB, lit ''rm'', Cls is_space])) ''systemctl stop a.service''" by code_simp+
  then have "\<not> list_ex (\<lambda>rx. rx_found rx ''systemctl start a.service'') FORBIDDEN" "\<not> list_ex (\<lambda>rx. rx_found rx ''systemctl stop a.service'') FORBIDDEN"
    by (simp_all add: never_forbidden unit_letters)
  then show "command_problems ([''systemctl'', ''start'', ''a.service''], [''start'']) = []"
      "command_problems ([''systemctl'', ''stop'', ''a.service''], [''stop'']) = []"
    by (simp_all add: command_problems_def ALLOWED_PROGRAMS_def)
qed

definition kdc_ctx :: gate_ctx where
  "kdc_ctx = gate_ctx_of False [kdc_down] [kdc_chain] lab_env (trace_of [kdc_record]) unread_topology (of_int (utc_seconds [2026, 1, 2, 3, 4, 15, 0]))"

definition kdc_engine_diagnosis :: diagnosis where
  "kdc_engine_diagnosis = (case engine_diagnosis [kdc_down] kdc_down None of Inr d \<Rightarrow> d | Inl _ \<Rightarrow> sample_diagnosis)"

definition kdc_offer :: "exn + resolution option" where
  "kdc_offer = fst (resolve_diagnosis stopped_engine [start_entry] (Some (repl_env_info False lab_env)) kdc_engine_diagnosis ())"

lemma kdc_gate_open:
  "fst (resolution_gate fresh_unit kdc_ctx kdc_down (Some ''proc.service.start-stopped-service'') ()) = Inr []"
  by code_simp

lemma kdc_entry_found:
  "expected_procedure [start_entry] (Some ''healthcheck.service-not-running'') None = Inr (PStr ''proc.service.start-stopped-service'')"
  "procedure_by_id [start_entry] (PStr ''proc.service.start-stopped-service'') = Inr (Some start_entry)"
  "dict_get (as_dict start_entry) ''kind'' \<noteq> Some (PStr ''no_procedure'')"
  by code_simp+

lemma kdc_engine_diagnosis_read: "case engine_diagnosis [kdc_down] kdc_down None of Inr d \<Rightarrow> True | Inl _ \<Rightarrow> False"
  by code_simp

lemma kdc_offer_made:
  "case kdc_offer of Inr (Some r) \<Rightarrow> rz_status r = OFFERED \<and> map fs_argv (rz_steps r) = [[''systemctl'', ''start'', ''a.service'']]
      \<and> map fs_run_on (rz_steps r) = [PStr ''local''] \<and> map rb_argv (rz_rollback r) = [Some [''systemctl'', ''stop'', ''a.service'']]
      \<and> rz_risk r = PStr ''MEDIUM'' | _ \<Rightarrow> False"
  by code_simp

lemmas kdc_evaluated = kdc_gate_open kdc_entry_found kdc_engine_diagnosis_read kdc_offer_made

lemma kdc_run_offers:
  "\<exists>found r. kdc_run = (Inr found, ()) \<and> dict_get (fst found) (rd_key kdc_down) = Some r \<and> rz_status r = OFFERED"
proof -
  obtain r where r: "kdc_offer = Inr (Some r)" "rz_status r = OFFERED" "map fs_argv (rz_steps r) = [[''systemctl'', ''start'', ''a.service'']]"
      "map fs_run_on (rz_steps r) = [PStr ''local'']" "map rb_argv (rz_rollback r) = [Some [''systemctl'', ''stop'', ''a.service'']]"
      "rz_risk r = PStr ''MEDIUM''"
    using kdc_evaluated(6) by (auto split: sum.splits option.splits)
  obtain st where st: "rz_steps r = [st]" "fs_argv st = [''systemctl'', ''start'', ''a.service'']" "fs_run_on st = PStr ''local''"
    using r(3,4) by auto
  obtain rb where rb: "rz_rollback r = [rb]" "rb_argv rb = Some [''systemctl'', ''stop'', ''a.service'']" using r(5) by auto
  have limits: "check_offered r = []"
    by (simp add: check_offered_def offered_commands_def st rb r(6) unit_commands_pass ALLOWED_SYSTEMCTL_def map_filter_def)
  obtain e where e: "engine_diagnosis [kdc_down] kdc_down None = Inr e" "kdc_engine_diagnosis = e"
    using kdc_evaluated(5) by (auto simp: kdc_engine_diagnosis_def split: sum.splits)
  have run: "resolve_diagnosis stopped_engine [start_entry] (Some (repl_env_info False lab_env)) e () = (Inr (Some r), ())"
    using r(1) by (simp add: kdc_offer_def e(2) prod_eq_iff)
  have gate: "resolution_gate fresh_unit kdc_ctx kdc_down (Some ''proc.service.start-stopped-service'') () = (Inr [], ())"
    using kdc_evaluated(1) by (simp add: prod_eq_iff)
  obtain g where s: "settle_offer lab_env [kdc_down] kdc_down start_entry r = (r, g)"
    using r(2) limits by (simp add: settle_offer_def Let_def)
  have "gc_diagnoses kdc_ctx = [kdc_down]" by (simp add: kdc_ctx_def gate_ctx_of_def)
  then have "resolve_gated fresh_unit stopped_engine [start_entry] (repl_env_info False lab_env) lab_env kdc_ctx kdc_down None
      (PStr ''proc.service.start-stopped-service'') start_entry () = (Inr (Some (r, Some g)), ())"
    by (simp add: resolve_gated_def gate e(1) run s)
  then have "resolve_one fresh_unit stopped_engine [start_entry] (repl_env_info False lab_env) lab_env kdc_ctx kdc_down () = (Inr (Some (r, Some g)), ())"
    using kdc_evaluated(2-4) by (simp add: resolve_one_def kdc_down_def bind_exn_def the_default_def starts_with_def)
  then have "kdc_run = (Inr (record_fix (rd_key kdc_down) (Some (r, Some g)) ([], [])), ())"
    by (simp add: kdc_run_def resolve_replication_def kdc_ctx_def gate_ctx_of_def stopped_engine_def)
  moreover have "dict_get (fst (record_fix (rd_key kdc_down) (Some (r, Some g)) ([], []))) (rd_key kdc_down) = Some r"
    by (simp add: record_fix_def dict_get_def)
  ultimately show ?thesis using r(2) by blast
qed


text \<open>A run of a small plan on a server where nothing needs to be asked.\<close>

definition idle_step :: "string \<Rightarrow> step" where
  "idle_step i = demo_step\<lparr>st_step_id := i, st_when := Some (\<lambda>c. Inr (False, ''answered before''))\<rparr>"

definition agreement_template :: for_each where
  "agreement_template = \<lparr>fe_template_id = ''agreement'', fe_source = ''agreements.list'', fe_subject_type = ''agreement_subject'',
     fe_steps = [idle_step ''peer.dns''], fe_max_instances = 4, fe_title = [], fe_complete_fact = None, fe_subject_seconds = None\<rparr>"

definition lab_plan :: "plan_item list" where
  "lab_plan = [PStep (idle_step ''server''), PStep (idle_step ''agreements''), PForEach agreement_template]"

definition lab_run :: "exn + trace \<times> unit runner" where
  "lab_run = run_plan (plan_env None (\<lambda>w. (0, w)) (\<lambda>w. ([], w)) [(''time.sync'', demo_spec)]) [(''time.sync'', demo_spec)]
      lab_plan [] False 60 10 [] \<lparr>rn_cache = [], rn_runs = 0, rn_world = ()\<rparr>"

lemma lab_run_healthy:
  "case lab_run of Inl e \<Rightarrow> False
   | Inr (t, w') \<Rightarrow> investigation_status [] (not_verified t [] = []) True = ''HEALTHY''"
  by code_simp

theorem healthy_is_complete_witness:
  "\<exists>t w'. lab_run = Inr (t, w') \<and> (\<exists>r. trace_get t ''server'' None = Some r \<and> accounted t 21 r)
     \<and> (\<exists>e. dict_get (tr_enumerations t) ''agreement'' = Some e \<and> en_status e \<in> {''COMPLETE'', ''NOT_ASKED''})"
proof -
  obtain t w' where run: "lab_run = Inr (t, w')"
      and h: "investigation_status [] (not_verified t [] = []) True = ''HEALTHY''"
    using lab_run_healthy by (auto split: sum.splits)
  have p: "PStep (idle_step ''server'') \<in> set lab_plan" "PForEach agreement_template \<in> set lab_plan"
    by (simp_all add: lab_plan_def)
  note all = healthy_is_complete [OF run [unfolded lab_run_def] h]
  have "\<exists>r. trace_get t ''server'' None = Some r \<and> accounted t 21 r"
    using all [THEN conjunct2, THEN conjunct2, THEN conjunct1, rule_format, of "idle_step ''server''"] p(1)
    by (simp add: own_checks_def idle_step_def)
  moreover have "fe_template_id agreement_template = ''agreement''" by (simp add: agreement_template_def)
  then have "\<exists>e. dict_get (tr_enumerations t) ''agreement'' = Some e \<and> en_status e \<in> {''COMPLETE'', ''NOT_ASKED''}"
    using all p(2) by blast
  ultimately show ?thesis using run by blast
qed

end
