(* ===== verification/Minimize.thy ===== *)
theory Minimize
  imports Redact EvidenceModel
begin

text \<open>
  What an AI provider would be sent, \<open>privacy/minimize.py\<close>: the evidence a diagnosis cites, at most twelve items, each message
  redacted and cut, and the prompt built around it. The preview shows the same payload.
\<close>

section \<open>Definitions\<close>

definition MAX_MESSAGE_CHARS :: nat where "MAX_MESSAGE_CHARS = 400"
definition MAX_ITEMS :: nat where "MAX_ITEMS = 12"

record selected_evidence =
  se_kind :: string
  se_source :: string
  se_severity :: string
  se_message :: string
  se_why_relevant :: string

record ai_payload =
  ap_diagnosis_id :: string
  ap_system_prompt :: string
  ap_user_prompt :: string
  ap_selected_evidence :: "selected_evidence list"
  ap_redaction_matches :: "string list"
  ap_excluded_evidence_count :: nat

definition count_matches :: "string list \<Rightarrow> (string \<times> nat) list" where
  "count_matches ms = fold (\<lambda>m d. dict_set m (the_default 0 (dict_get d m) + 1) d) ms []"

definition redaction_summary :: "ai_payload \<Rightarrow> string" where
  "redaction_summary p =
     (if ap_redaction_matches p = [] then ''No secrets or sensitive fields detected in the selected evidence.''
      else ''Redacted before sending: '' @
        join '', '' (map (\<lambda>(name, n). name @ '' x'' @ show_nat n) (sort_key fst (count_matches (ap_redaction_matches p)))))"

definition NL :: string where "NL = [CHR 0x0A]"

definition SYSTEM_PROMPT :: string where
  "SYSTEM_PROMPT =
     ''You are explaining a FreeIPA diagnostic result to a system administrator.'' @ NL @
     NL @
     ''You will be given a diagnosis that was already computed deterministically by'' @ NL @
     ''ipa-diagnose, along with the specific evidence that supports it. Your ONLY'' @ NL @
     ''job is to explain it more clearly in plain language.'' @ NL @
     NL @
     ''Rules you must follow exactly:'' @ NL @
     ''- Do not state or imply any root cause, evidence, confidence level, impact,'' @ NL @
     ''  or recommended command that is not already present in the material given'' @ NL @
     ''  to you. You are explaining, not diagnosing.'' @ NL @
     ''- Do not invent hostnames, error messages, dates, or numbers.'' @ NL @
     ''- Do not suggest any command that is not already listed in the provided'' @ NL @
     ''  actions. Better: do not write any command, program name or code at all -'' @ NL @
     ''  ipa-diagnose prints the commands itself, and an explanation that contains'' @ NL @
     ''  one is discarded.'' @ NL @
     ''- If something in the input is unclear, say the diagnosis is unclear rather'' @ NL @
     ''  than guessing at what it might mean.'' @ NL @
     ''- Keep your explanation under 200 words, plain language, no markdown headers.'' @ NL"

definition selected_from_finding :: "finding \<Rightarrow> string \<Rightarrow> selected_evidence" where
  "selected_from_finding f why =
     \<lparr>se_kind = ''finding'', se_source = f_qualified_check f, se_severity = severity_value (f_severity f), se_message = f_message f,
      se_why_relevant = why\<rparr>"

definition selected_from_item :: "evidence_item \<Rightarrow> string \<Rightarrow> selected_evidence" where
  "selected_from_item i why =
     \<lparr>se_kind = ''item'', se_source = i_kind i,
      se_severity = (case i_severity i of None \<Rightarrow> ''INFO'' | Some s \<Rightarrow> severity_value s), se_message = i_summary i, se_why_relevant = why\<rparr>"

definition finding_by_id :: "evidence_bundle \<Rightarrow> string \<Rightarrow> finding option" where
  "finding_by_id b = dict_get (dict_of (map (\<lambda>f. (f_finding_id f, f)) (b_findings b)))"

definition item_by_id :: "evidence_bundle \<Rightarrow> string \<Rightarrow> evidence_item option" where
  "item_by_id b = dict_get (dict_of (map (\<lambda>i. (i_item_id i, i)) (b_items b)))"

text \<open>What a reference selects: the evidence with the matches in its fields.\<close>

definition selected_by :: "evidence_bundle \<Rightarrow> evidence_ref \<Rightarrow> (selected_evidence \<times> string list) option" where
  "selected_by b r =
     (if r_kind r = ''finding''
      then map_option (\<lambda>f. (selected_from_finding f (r_why_relevant r), snd (redact_walk (f_keywords f)))) (finding_by_id b (r_evidence_id r))
      else if r_kind r = ''item''
      then map_option (\<lambda>i. (selected_from_item i (r_why_relevant r), snd (redact_mapping (i_data i)))) (item_by_id b (r_evidence_id r))
      else None)"

fun select_cited ::
  "(evidence_ref \<Rightarrow> (selected_evidence \<times> string list) option) \<Rightarrow> evidence_ref list \<Rightarrow> selected_evidence list \<Rightarrow> string list
   \<Rightarrow> selected_evidence list \<times> string list" where
  "select_cited sel [] out ms = (out, ms)"
| "select_cited sel (r # rs) out ms =
     (if MAX_ITEMS \<le> length out then (out, ms)
      else case sel r of None \<Rightarrow> select_cited sel rs out ms | Some (e, m) \<Rightarrow> select_cited sel rs (out @ [e]) (ms @ m))"

definition redact_message :: "selected_evidence \<Rightarrow> selected_evidence \<times> string list" where
  "redact_message e =
     (case redact_text (clean_multiline (se_message e) 20000) of (t, m) \<Rightarrow> (e\<lparr>se_message := take MAX_MESSAGE_CHARS t\<rparr>, m))"

definition redacted_part :: "string \<Rightarrow> string \<times> string list" where
  "redacted_part t = redact_text (clean_multiline t 20000)"

fun risk_value :: "risk_level \<Rightarrow> string" where
  "risk_value SAFE = ''SAFE''"
| "risk_value CAUTION = ''CAUTION''"
| "risk_value HIGH_RISK = ''HIGH_RISK''"

definition evidence_line :: "selected_evidence \<Rightarrow> string" where
  "evidence_line e = ''- ['' @ se_severity e @ ''] ('' @ se_source e @ '') '' @ se_message e @ ''  -- relevant because: '' @ se_why_relevant e"

definition action_line :: "action \<Rightarrow> string" where
  "action_line a = ''- ('' @ risk_value (a_risk a) @ '') '' @ a_description a"

definition or_none :: "string \<Rightarrow> string \<Rightarrow> string" where
  "or_none s t = (if s = [] then t else s)"

definition user_prompt :: "diagnosis \<Rightarrow> selected_evidence list \<Rightarrow> string" where
  "user_prompt d sel =
     ''DIAGNOSIS: '' @ fst (redacted_part (d_title d)) @ NL @
     ''STATUS: '' @ status_value (d_status d) @ NL @
     ''CONFIDENCE: '' @ confidence_value (c_level (d_confidence d)) @ '' ('' @ fst (redacted_part (c_rationale (d_confidence d))) @ '')'' @ NL @
     ''WHY (already determined, do not contradict): '' @ fst (redacted_part (d_why d)) @ NL @
     ''IMPACT (already determined): '' @ fst (redacted_part (d_impact d)) @ NL @
     ''LIMITATIONS: '' @ (if d_limitations d \<noteq> [] then fst (redacted_part (d_limitations d)) else ''(none noted)'') @ NL @ NL @
     ''SUPPORTING EVIDENCE:'' @ NL @
     or_none (join NL (map evidence_line sel)) ''(none selected)'' @ NL @ NL @
     ''APPROVED ACTIONS (do not add or modify commands):'' @ NL @
     or_none (join NL (map action_line (d_actions d))) ''(none)'' @ NL @ NL @
     ''Explain this to the administrator in plain language, under 200 words.''"

definition prompt_matches :: "diagnosis \<Rightarrow> string list" where
  "prompt_matches d =
     snd (redacted_part (d_title d)) @ snd (redacted_part (c_rationale (d_confidence d))) @ snd (redacted_part (d_why d))
     @ snd (redacted_part (d_impact d)) @ (if d_limitations d \<noteq> [] then snd (redacted_part (d_limitations d)) else [])"

definition build_ai_payload :: "evidence_bundle \<Rightarrow> diagnosis \<Rightarrow> ai_payload" where
  "build_ai_payload b d =
     (case select_cited (selected_by b) (d_evidence_for d @ d_evidence_against d) [] [] of (chosen, ms) \<Rightarrow>
        let redacted = map redact_message chosen;
            sel = map fst redacted
        in \<lparr>ap_diagnosis_id = d_diagnosis_id d, ap_system_prompt = SYSTEM_PROMPT, ap_user_prompt = user_prompt d sel,
            ap_selected_evidence = sel, ap_redaction_matches = ms @ concat (map snd redacted) @ prompt_matches d,
            ap_excluded_evidence_count = length (b_findings b) + length (b_items b) - length sel\<rparr>)"

section \<open>What is selected\<close>

text \<open>The evidence a diagnosis cites in the bundle, in the order of the references.\<close>

definition cited :: "evidence_bundle \<Rightarrow> diagnosis \<Rightarrow> (selected_evidence \<times> string list) list" where
  "cited b d = List.map_filter (selected_by b) (d_evidence_for d @ d_evidence_against d)"

lemma select_cited_take:
  "length out \<le> MAX_ITEMS \<Longrightarrow>
   select_cited sel rs out ms =
     (let new = take (MAX_ITEMS - length out) (List.map_filter sel rs) in (out @ map fst new, ms @ concat (map snd new)))"
proof (induction sel rs out ms rule: select_cited.induct)
  case (1 sel out ms)
  then show ?case by (simp add: map_filter_simps)
next
  case (2 sel r rs out ms)
  show ?case
  proof (cases "MAX_ITEMS \<le> length out")
    case True
    then show ?thesis using "2.prems" by simp
  next
    case False
    then obtain n where n: "MAX_ITEMS - length out = Suc n" by (metis Suc_diff_Suc not_le)
    show ?thesis
    proof (cases "sel r")
      case None
      then show ?thesis using 2 False by (simp add: map_filter_simps)
    next
      case (Some p)
      then obtain e m where p: "sel r = Some (e, m)" by (cases p) simp
      have "length (out @ [e]) \<le> MAX_ITEMS" using False by simp
      from "2.IH"(2) [OF False p refl this] show ?thesis
        using False p n by (simp add: map_filter_simps Let_def diff_Suc)
    qed
  qed
qed

lemma build_ai_payload_eq:
  "build_ai_payload b d =
     (let new = take MAX_ITEMS (cited b d); redacted = map (redact_message \<circ> fst) new; sel = map fst redacted
      in \<lparr>ap_diagnosis_id = d_diagnosis_id d, ap_system_prompt = SYSTEM_PROMPT, ap_user_prompt = user_prompt d sel,
          ap_selected_evidence = sel, ap_redaction_matches = concat (map snd new) @ concat (map snd redacted) @ prompt_matches d,
          ap_excluded_evidence_count = length (b_findings b) + length (b_items b) - length sel\<rparr>)"
  by (simp add: build_ai_payload_def select_cited_take cited_def Let_def o_def)

lemma finding_by_id_member: "finding_by_id b i = Some f \<Longrightarrow> f \<in> set (b_findings b) \<and> f_finding_id f = i"
  unfolding finding_by_id_def using dict_of_subset by (fastforce dest: dict_get_member)

lemma item_by_id_member: "item_by_id b i = Some x \<Longrightarrow> x \<in> set (b_items b) \<and> i_item_id x = i"
  unfolding item_by_id_def using dict_of_subset by (fastforce dest: dict_get_member)

text \<open>What would be sent of one message: the first 400 characters of what redaction leaves of it.\<close>

definition sent_text :: "string \<Rightarrow> string" where
  "sent_text m = take 400 (fst (redact_text (clean_multiline m 20000)))"

text \<open>A reference names evidence of the bundle; an item of the payload is the evidence a reference of the diagnosis names, with
  its own source and severity and the reason of the reference, and its message redacted and cut.\<close>

definition names_evidence :: "evidence_bundle \<Rightarrow> evidence_ref \<Rightarrow> bool" where
  "names_evidence b r =
     (r_kind r = ''finding'' \<and> r_evidence_id r \<in> f_finding_id ` set (b_findings b)
      \<or> r_kind r = ''item'' \<and> r_evidence_id r \<in> i_item_id ` set (b_items b))"

definition from_cited :: "evidence_bundle \<Rightarrow> diagnosis \<Rightarrow> selected_evidence \<Rightarrow> bool" where
  "from_cited b d e =
     (\<exists>r \<in> set (d_evidence_for d @ d_evidence_against d).
        (\<exists>f \<in> set (b_findings b). r_kind r = ''finding'' \<and> f_finding_id f = r_evidence_id r
           \<and> e = \<lparr>se_kind = ''finding'', se_source = f_qualified_check f, se_severity = severity_value (f_severity f),
                  se_message = sent_text (f_message f), se_why_relevant = r_why_relevant r\<rparr>)
      \<or> (\<exists>i \<in> set (b_items b). r_kind r = ''item'' \<and> i_item_id i = r_evidence_id r
           \<and> e = \<lparr>se_kind = ''item'', se_source = i_kind i,
                  se_severity = (case i_severity i of None \<Rightarrow> ''INFO'' | Some s \<Rightarrow> severity_value s),
                  se_message = sent_text (i_summary i), se_why_relevant = r_why_relevant r\<rparr>))"

lemma finding_by_id_iff: "finding_by_id b i = None \<longleftrightarrow> i \<notin> f_finding_id ` set (b_findings b)"
  by (simp add: finding_by_id_def dict.get_None_iff dict_of_keys image_image)

lemma item_by_id_iff: "item_by_id b i = None \<longleftrightarrow> i \<notin> i_item_id ` set (b_items b)"
  by (simp add: item_by_id_def dict.get_None_iff dict_of_keys image_image)

lemma selected_by_names: "selected_by b r = None \<longleftrightarrow> \<not> names_evidence b r"
  using finding_by_id_iff [of b "r_evidence_id r"] item_by_id_iff [of b "r_evidence_id r"]
  by (auto simp: selected_by_def names_evidence_def simp del: image_iff)

lemma length_map_filter: "length (List.map_filter g rs) = length (filter (\<lambda>r. g r \<noteq> None) rs)"
  by (induction rs) (auto simp: map_filter_simps split: option.splits)

lemma length_cited: "length (cited b d) = length (filter (names_evidence b) (d_evidence_for d @ d_evidence_against d))"
  unfolding cited_def length_map_filter selected_by_names by simp

lemma in_map_filter: "x \<in> set (List.map_filter g rs) \<Longrightarrow> \<exists>r \<in> set rs. g r = Some x"
  by (induction rs) (auto simp: map_filter_simps split: option.splits)

lemma map_filter_agree: "list_all (\<lambda>r. g r = h r) rs \<Longrightarrow> List.map_filter g rs = List.map_filter h rs"
  by (induction rs) (simp_all add: map_filter_simps split: option.split)

lemma redacted_message: "fst (redact_message e) = e\<lparr>se_message := sent_text (se_message e)\<rparr>"
  by (simp add: redact_message_def sent_text_def MAX_MESSAGE_CHARS_def split: prod.splits)

lemma cited_from:
  assumes "x \<in> set (cited b d)"
  shows "from_cited b d (fst (redact_message (fst x)))"
proof -
  obtain r where r: "r \<in> set (d_evidence_for d @ d_evidence_against d)" "selected_by b r = Some x"
    using in_map_filter [OF assms [unfolded cited_def]] by blast
  have "(\<exists>f \<in> set (b_findings b). r_kind r = ''finding'' \<and> f_finding_id f = r_evidence_id r \<and> fst x = selected_from_finding f (r_why_relevant r))
      \<or> (\<exists>i \<in> set (b_items b). r_kind r = ''item'' \<and> i_item_id i = r_evidence_id r \<and> fst x = selected_from_item i (r_why_relevant r))"
    using r(2) finding_by_id_member [of b "r_evidence_id r"] item_by_id_member [of b "r_evidence_id r"]
    unfolding selected_by_def by (auto split: if_splits)
  then show ?thesis
  proof
    assume "\<exists>f \<in> set (b_findings b). r_kind r = ''finding'' \<and> f_finding_id f = r_evidence_id r \<and> fst x = selected_from_finding f (r_why_relevant r)"
    then show ?thesis
      using r(1) unfolding from_cited_def by (intro bexI [OF _ r(1)] disjI1) (auto simp: redacted_message selected_from_finding_def)
  next
    assume "\<exists>i \<in> set (b_items b). r_kind r = ''item'' \<and> i_item_id i = r_evidence_id r \<and> fst x = selected_from_item i (r_why_relevant r)"
    then show ?thesis
      using r(1) unfolding from_cited_def by (intro bexI [OF _ r(1)] disjI2) (auto simp: redacted_message selected_from_item_def)
  qed
qed

section \<open>Properties\<close>

text \<open>C25: The payload is minimal: at most twelve items, one for each reference of the diagnosis that names evidence of the
  bundle, up to that bound. Every item is evidence the diagnosis cites, with its kind, source and severity, the reason given for
  citing it, and of its message the first 400 characters of what the redaction patterns leave. (Only the message is redacted
  here; source, severity and reason are sent as they are.)\<close>

theorem payload_minimal:
  "length (ap_selected_evidence (build_ai_payload b d))
     = min 12 (length (filter (names_evidence b) (d_evidence_for d @ d_evidence_against d)))
   \<and> list_all (\<lambda>e. length (se_message e) \<le> 400 \<and> from_cited b d e) (ap_selected_evidence (build_ai_payload b d))"
proof
  show "length (ap_selected_evidence (build_ai_payload b d))
     = min 12 (length (filter (names_evidence b) (d_evidence_for d @ d_evidence_against d)))"
    by (simp add: build_ai_payload_eq Let_def MAX_ITEMS_def length_cited min.commute)
  have "list_all (\<lambda>x. length (se_message (fst (redact_message (fst x)))) \<le> 400 \<and> from_cited b d (fst (redact_message (fst x))))
      (take MAX_ITEMS (cited b d))"
    using cited_from by (auto simp: list_all_iff redacted_message sent_text_def dest: in_set_takeD)
  then show "list_all (\<lambda>e. length (se_message e) \<le> 400 \<and> from_cited b d e) (ap_selected_evidence (build_ai_payload b d))"
    by (simp add: build_ai_payload_eq Let_def list_all_iff)
qed

text \<open>C26: What the diagnosis does not cite has no influence on what would be sent: for two bundles that agree on the cited
  evidence the prompts, the evidence and the audit trail are the same, whatever else they hold.\<close>

theorem uncited_evidence_not_sent:
  assumes "list_all (\<lambda>r. selected_by b r = selected_by c r) (d_evidence_for d @ d_evidence_against d)"
  shows "ap_user_prompt (build_ai_payload b d) = ap_user_prompt (build_ai_payload c d)
    \<and> ap_system_prompt (build_ai_payload b d) = ap_system_prompt (build_ai_payload c d)
    \<and> ap_selected_evidence (build_ai_payload b d) = ap_selected_evidence (build_ai_payload c d)
    \<and> ap_redaction_matches (build_ai_payload b d) = ap_redaction_matches (build_ai_payload c d)"
proof -
  have "cited b d = cited c d"
    unfolding cited_def by (rule map_filter_agree [OF assms])
  then show ?thesis by (simp add: build_ai_payload_eq Let_def)
qed

definition empty_evidence :: evidence_bundle where
  "empty_evidence =
     \<lparr>b_hostname = ''ipa1.example.test'', b_collected_at = ''2025-01-01T00:00:00Z'', b_findings = [], b_items = [], b_collection_errors = [],
      b_environment = None, b_replay_source = None, b_service_states = [], b_side_effects = []\<rparr>"

definition unrelated_item :: evidence_item where
  "unrelated_item =
     \<lparr>i_item_id = ''i7'', i_kind = ''unit_log'', i_summary = ''nothing'', i_data = [], i_severity = None,
      i_provenance = \<lparr>p_source = ''journal'', p_command = None, p_host = None, p_collected_at = None, p_live = True\<rparr>\<rparr>"

definition citing_diagnosis :: diagnosis where
  "citing_diagnosis =
     (new_diagnosis ''client'' ''stale'' DIAGNOSED ''Stale entry'' ''why'' \<lparr>c_level = MEDIUM, c_rationale = [], c_corroborating = 1, c_contradicting = 0\<rparr>)
       \<lparr>d_evidence_for := [\<lparr>r_evidence_id = ''i1'', r_kind = ''item'', r_why_relevant = []\<rparr>]\<rparr>"

theorem uncited_evidence_not_sent_witness:
  "ap_user_prompt (build_ai_payload empty_evidence citing_diagnosis)
     = ap_user_prompt (build_ai_payload (empty_evidence\<lparr>b_items := [unrelated_item]\<rparr>) citing_diagnosis)"
proof -
  have "list_all (\<lambda>r. selected_by empty_evidence r = selected_by (empty_evidence\<lparr>b_items := [unrelated_item]\<rparr>) r)
      (d_evidence_for citing_diagnosis @ d_evidence_against citing_diagnosis)"
    by code_simp
  from uncited_evidence_not_sent [OF this] show ?thesis by simp
qed

end
