(* ===== verification/Spec2Isabelle.thy ===== *)
theory Spec2Isabelle
  imports ValueTypes Correlate PlanRun ReplCause ReplStatus AccessProps Baseline EnvGraph ReplSafetyProps Minimize
begin

text \<open>
  A verification development for ipa-diagnose (\<open>src/src/ipa_diagnose/\<close>), a read-only diagnostic tool for FreeIPA: it collects
  evidence (the results of \<open>ipa-healthcheck\<close> and of its own collectors), evaluates packs of rules on it, correlates what they
  find into one report, plans further read-only checks, and shows a fix only when every gate is passed. Untrusted text (logs,
  recordings, directory data, the saved state of an earlier run) enters nearly everywhere, so most of the properties are about
  what can and what cannot come out for any such input.

  \<^bold>\<open>The parts and their theories.\<close> Each theory models the files it names, in the order of the code; a definition has the name of
  the function it models (with a suffix where HOL has the name), a record the fields of the dataclass with a short prefix.

  \<^item> \<open>Prelude\<close>: values of JSON and Python (\<open>pyval\<close>), dictionaries as association lists in insertion order (\<open>dict_set\<close>,
    \<open>dict_get\<close>; the locale \<open>ordered_dict\<close> states their laws), characters and strings as Python has them, numbers in decimal,
    exceptions (\<open>exn\<close>) and their sequencing (\<open>bind_exn\<close>). \<open>PyRegex\<close>: regular expressions with Python's order of choice, groups,
    \<open>match\<close>, \<open>search\<close>, \<open>fullmatch\<close>, \<open>sub\<close>. \<open>PyFloat\<close>: binary floats by their rational value. \<open>PyValues\<close>: equality and order of
    values, \<open>json.dumps\<close>, the pieces of a text between matches.
  \<^item> \<open>Textsafe\<close> (\<open>textsafe.py\<close>), \<open>ValueTypes\<close> (\<open>resolution/types.py\<close>), \<open>Redact\<close> (\<open>privacy/redact.py\<close>): cleaning untrusted text,
    the typed validators of everything that may reach a command, redaction of secrets.
  \<^item> \<open>EvidenceModel\<close> (\<open>evidence/model.py\<close>, \<open>engine/model.py\<close>, \<open>engine/packs/base.py\<close>, \<open>engine/registry.py\<close>), \<open>Catalog\<close>
    (\<open>evidence/healthcheck_catalog.py\<close>), \<open>Unexplained\<close> (\<open>engine/unexplained.py\<close>), \<open>Correlate\<close> (\<open>engine/correlate.py\<close>,
    \<open>engine/run.py\<close>): evidence, diagnoses, the safety net for what no rule explains, causality, priorities and the report.
    The rules of the packs are an argument (\<open>rule_table\<close>), and they may raise.
  \<^item> \<open>Checks\<close> (the runners of \<open>resolution/checks.py\<close>; the locale \<open>check_runner\<close> is what the planner and the engine need of one),
    \<open>Plan\<close>, \<open>Planner\<close>, \<open>PlanRun\<close> (\<open>planner/core.py\<close>): plans, their static validation, and runs with gates, budgets, retries,
    templates over enumerated subjects and a trace.
  \<^item> \<open>Knowledge\<close> (\<open>resolution/knowledge.py\<close>), \<open>Resolve\<close> (\<open>resolution/engine.py\<close>), with the properties in \<open>KnowledgeProps\<close>,
    \<open>ResolveProps\<close>, \<open>VerifyProps\<close>: the validation of the catalogue of procedures, the gates before a fix is offered, its commands,
    and the later verification of a fix against fresh checks.
  \<^item> \<open>Relations\<close>, \<open>AccessTargets\<close>, \<open>AccessApi\<close>, \<open>Access\<close>, \<open>AccessBudget\<close>, \<open>AccessProps\<close> (\<open>access/relations.py\<close>,
    \<open>access/targets.py\<close>, \<open>access/api.py\<close>, \<open>access/evaluate.py\<close>): why a user may or may not use a service on a host. The locale
    \<open>ipa_api\<close> is the contract of the API client, interpreted for the live client and for a recording.
  \<^item> \<open>ReplCause\<close>, \<open>ReplStatus\<close> (\<open>replication/causal.py\<close>, \<open>replication/status.py\<close>): the chains of causes and the status of an
    agreement.
  \<^item> \<open>Baseline\<close> (\<open>verify.py\<close>, the exit codes and \<open>cmd_verify\<close> of \<open>cli.py\<close>): the saved report of an earlier run as untrusted data, the
    comparison with a fresh report, the outcome of each diagnosis, what is carried forward until a fix is confirmed.
  \<^item> \<open>EnvGraph\<close> (\<open>environment/graph.py\<close>): the environment graph: entities, relations, facts per observer, enumerations that are
    complete or not, the bounds and what is counted as dropped, the queries, the serialized form.
  \<^item> \<open>ReplSafety\<close> and \<open>ReplSafetyProps\<close> (\<open>replication/safety.py\<close>, the completeness, the status and the offer of \<open>replication/run.py\<close>,
    the diagnosis record of \<open>replication/diagnose.py\<close>): the gates a replication fix passes before it is shown and the checks of the fix itself.
  \<^item> \<open>Minimize\<close> (\<open>privacy/minimize.py\<close>): what would be sent to a language model: the cited evidence, redacted and cut, and the prompts.

  \<^bold>\<open>How the model corresponds to the code.\<close> Code that can raise returns \<open>exn + 'a\<close>, with \<open>Inl\<close> the exception; \<open>except Exception\<close> is
  a case distinction that lets only \<open>KeyboardInterrupt\<close> through. Mutable objects are records that are passed and returned; the
  checks' world (processes, files, the clock) is a type variable that every check takes and returns changed. The engine's
  \<open>_Unknown\<close> is the left side of \<open>stuck + 'a\<close>, so a value that could not be established is never a truth value. Untrusted JSON
  is \<open>pyval\<close>, and a missing field, an object of the wrong type or a value that cannot be a key raises what Python raises. Strings
  are lists of 8-bit characters (Latin-1): the classes of \<open>isprintable\<close>, \<open>isspace\<close>, \<open>isdigit\<close>, \<open>lower\<close> and of \<open>\s\<close>, \<open>\w\<close>, \<open>\d\<close> are those of
  Unicode on that range. Integers are unbounded, as in Python.

  \<^bold>\<open>What is shown.\<close> Each property is the theorem after a text block that names it, with the conditions under which it holds. They
  are: the planner's run refines an abstract machine, keeps its budgets, records every step and every listed subject (of the first
  1000), and returns (a plan that takes an LDAP port can end with the error of the port validator); a verdict is given only on
  evidence that was checked; a fix is offered only through every gate, with the catalogue's commands filled with validated values,
  and a verify run accepts exactly what was offered and only what the checks it calls answer, each in its turn; a saved fix is not
  forgotten when a verify run replaces a sound baseline; validated predicates do not go wrong, but for an operand that the
  validation does not look at; the report loses no finding and no error, demotes only with a cause and is healthy only when nothing
  is wrong; an access answer is FreeIPA's own decision (unless an evaluation fails with an empty message, which the code takes for a
  denial) and costs a bounded number of calls; the environment graph holds what it was given or says that it was truncated;
  sanitised, validated and redacted text has the shape it promises. The statements say what they promise in terms of the data, not
  of the code's helpers, wherever that is possible: the freshness of evidence in seconds, the characters of a value, the severities
  and the words of secret names are written out. Helper lemmas stand with their component; the locales carry the lemmas that need
  only a contract.

  \<^bold>\<open>Bounds and fuel.\<close> The recursive definitions terminate by structure or by a proved measure: the walks over JSON by the size of
  the value, the breadth-first search of \<open>Relations\<close> by the nodes it has not seen, the search for nested groups of \<open>Access\<close> by the
  groups it has not visited, \<open>sub\<close> and its kind by the text that is left. The only fuel is in the matcher of \<open>PyRegex\<close>: a repetition is
  entered at most as often as there are characters left plus its lower bound, which is enough since every further round must
  consume a character, as in Python. A chain of blocked steps is followed over 21 steps, as the code does
  (\<open>gap\<close>). \<open>pre_bound\<close>, \<open>MAX_STEPS\<close> and the other bounds are the constants of the code.

  \<^bold>\<open>Not modelled.\<close> Subprocesses, sockets, files, printing and argument parsing; the bodies of the individual checks (their results
  are arguments); SHA-256, \<open>json.loads\<close> and \<open>curl\<close> (arguments); the clients of language models; the maintenance scripts. The rules of
  the packs and the plans of client and replication mode are arguments too: the properties hold for whatever they are. The support
  bundle (archives, pseudonyms drawn from a random key) is left out.
\<close>

end
